(* ===== verification/Aurora_Prelude.thy ===== *)
theory Aurora_Prelude
  imports Main "HOL-Library.Multiset"
begin

text \<open>
  Shared vocabulary of the development: the instants and durations of Go's
  \<^verbatim>\<open>time\<close> package, the functions of Go's \<^verbatim>\<open>strings\<close> package
  the sources call, Go error values, the HTTP responses of the REST handlers, and the
  generic list lemmas every component uses.

  A Go string is a \<open>string\<close> of bytes. The \<^verbatim>\<open>strings\<close> functions are
  modelled on ASCII text, where Unicode white space and case folding are the ASCII ones.
  An instant and a duration are an \<open>int\<close> number of nanoseconds.
\<close>

named_theorems go_strings \<open>definitions of the modelled string functions\<close>
named_theorems go_consts \<open>constants of the sources\<close>

type_synonym instant = int
type_synonym duration = int
type_synonym uuid = string

abbreviation second :: duration where "second \<equiv> 1000000000"
abbreviation minute :: duration where "minute \<equiv> 60 * second"

section \<open>Strings\<close>

definition HasPrefix :: "string \<Rightarrow> string \<Rightarrow> bool" where
  [go_strings]: "HasPrefix s p = (take (length p) s = p)"

definition TrimPrefix :: "string \<Rightarrow> string \<Rightarrow> string" where
  [go_strings]: "TrimPrefix s p = (if HasPrefix s p then drop (length p) s else s)"

definition is_space :: "char \<Rightarrow> bool" where
  [go_strings]: "is_space c = (c = CHR 0x20 \<or> c = CHR 0x09 \<or> c = CHR 0x0A \<or> c = CHR 0x0B \<or>
                  c = CHR 0x0C \<or> c = CHR 0x0D)"

definition TrimSpace :: "string \<Rightarrow> string" where
  [go_strings]: "TrimSpace s = rev (dropWhile is_space (rev (dropWhile is_space s)))"

definition lower_char :: "char \<Rightarrow> char" where
  [go_strings]: "lower_char c =
     (if (65::nat) \<le> of_char c \<and> of_char c \<le> (90::nat) then char_of ((of_char c :: nat) + 32) else c)"

definition ToLower :: "string \<Rightarrow> string" where
  [go_strings]: "ToLower s = map lower_char s"

definition EqualFold :: "string \<Rightarrow> string \<Rightarrow> bool" where
  [go_strings]: "EqualFold s t = (ToLower s = ToLower t)"

text \<open>\<open>strings.TrimRight\<close> with a one-character cutset.\<close>

definition TrimRight :: "string \<Rightarrow> char \<Rightarrow> string" where
  [go_strings]: "TrimRight s c = rev (dropWhile (\<lambda>x. x = c) (rev s))"

text \<open>\<open>strings.Join\<close>.\<close>

fun Join :: "string list \<Rightarrow> string \<Rightarrow> string" where
  "Join [] sep = []"
| "Join [s] sep = s"
| "Join (s # t # ss) sep = s @ sep @ Join (t # ss) sep"

text \<open>
  \<open>strings.ReplaceAll\<close> for a non-empty pattern: the leftmost occurrence is replaced and the
  scan continues after it.
\<close>

function ReplaceAll :: "string \<Rightarrow> string \<Rightarrow> string \<Rightarrow> string" where
  "ReplaceAll s old new =
     (if old = [] then s
      else case s of
        [] \<Rightarrow> []
      | c # cs \<Rightarrow> if HasPrefix s old then new @ ReplaceAll (drop (length old) s) old new
                 else c # ReplaceAll cs old new)"
  by pat_completeness auto
termination
  by (relation "measure (\<lambda>(s, old, new). length s)") auto

declare ReplaceAll.simps [simp del]

lemma ReplaceAll_step:
  "old \<noteq> [] \<Longrightarrow> ReplaceAll (c # cs) old new =
     (if HasPrefix (c # cs) old then new @ ReplaceAll (drop (length old) (c # cs)) old new
      else c # ReplaceAll cs old new)"
  by (subst ReplaceAll.simps) simp

lemma ReplaceAll_Nil [simp]: "ReplaceAll [] old new = []"
  by (subst ReplaceAll.simps) simp

text \<open>\<open>strings.Contains\<close>.\<close>

fun Contains :: "string \<Rightarrow> string \<Rightarrow> bool" where
  "Contains [] sub = (sub = [])"
| "Contains (c # cs) sub = (HasPrefix (c # cs) sub \<or> Contains cs sub)"

text \<open>A number printed in decimal, as \<^verbatim>\<open>%d\<close> does for a number that is not negative.\<close>

definition digit :: "nat \<Rightarrow> char" where
  "digit d = ''0123456789'' ! (d mod 10)"

fun Itoa :: "nat \<Rightarrow> string" where
  "Itoa n = (if n < 10 then [digit n] else Itoa (n div 10) @ [digit (n mod 10)])"

declare Itoa.simps [simp del]

text \<open>A number that may be negative, as \<^verbatim>\<open>%d\<close> prints it.\<close>

definition Itoa_int :: "int \<Rightarrow> string" where
  "Itoa_int i = (if i < 0 then CHR ''-'' # Itoa (nat (- i)) else Itoa (nat i))"

text \<open>\<^verbatim>\<open>%q\<close>; bytes from 0x80 on are taken to be part of printable runes.\<close>

definition hex_digit :: "nat \<Rightarrow> char" where
  "hex_digit n = ''0123456789abcdef'' ! n"

definition quote_char :: "char \<Rightarrow> string" where
  "quote_char c =
     (if c = CHR 0x22 \<or> c = CHR 0x5C then [CHR 0x5C, c]
      else if c = CHR 0x07 then [CHR 0x5C, CHR ''a'']
      else if c = CHR 0x08 then [CHR 0x5C, CHR ''b'']
      else if c = CHR 0x0C then [CHR 0x5C, CHR ''f'']
      else if c = CHR 0x0A then [CHR 0x5C, CHR ''n'']
      else if c = CHR 0x0D then [CHR 0x5C, CHR ''r'']
      else if c = CHR 0x09 then [CHR 0x5C, CHR ''t'']
      else if c = CHR 0x0B then [CHR 0x5C, CHR ''v'']
      else let n = of_char c :: nat in
        if n < 0x20 \<or> n = 0x7F then [CHR 0x5C, CHR ''x'', hex_digit (n div 16), hex_digit (n mod 16)]
        else [c])"

definition quoted :: "string \<Rightarrow> string" where
  "quoted s = CHR 0x22 # concat (map quote_char s) @ [CHR 0x22]"

declare char_of_def [go_strings] bit_Suc_0_iff [go_strings]

lemma HasPrefix_append [simp]: "HasPrefix (p @ s) p"
  by (simp add: HasPrefix_def)

lemma HasPrefix_iff: "HasPrefix s p \<longleftrightarrow> (\<exists>r. s = p @ r)"
  by (metis HasPrefix_def HasPrefix_append append_take_drop_id)

lemma Contains_iff: "Contains s sub \<longleftrightarrow> (\<exists>l r. s = l @ sub @ r)"
proof (induction s)
  case Nil
  then show ?case by simp
next
  case (Cons c cs)
  have "(\<exists>l r. c # cs = l @ sub @ r) \<longleftrightarrow> (\<exists>r. c # cs = sub @ r) \<or> (\<exists>l r. cs = l @ sub @ r)"
    by (metis append_Cons append_Nil list.exhaust list.inject)
  then show ?case by (simp add: Cons HasPrefix_iff)
qed

lemma inj_digit: "a < 10 \<Longrightarrow> b < 10 \<Longrightarrow> digit a = digit b \<Longrightarrow> a = b"
proof -
  assume "a < 10" "b < 10" "digit a = digit b"
  moreover have "distinct ''0123456789''" by simp
  ultimately show "a = b" by (simp add: digit_def nth_eq_iff_index_eq del: distinct.simps)
qed

lemma Itoa_inject: "Itoa m = Itoa n \<Longrightarrow> m = n"
proof (induction m arbitrary: n rule: Itoa.induct)
  case (1 m)
  have nonempty: "Itoa k \<noteq> []" "[] \<noteq> Itoa k" for k by (subst Itoa.simps, simp)+
  show ?case
  proof (cases "m < 10 \<or> n < 10")
    case True
    then show ?thesis
      using 1(2) nonempty by (auto simp: Itoa.simps [of m] Itoa.simps [of n] inj_digit split: if_splits)
  next
    case False
    then have "Itoa (m div 10) = Itoa (n div 10)" and "digit (m mod 10) = digit (n mod 10)"
      using 1(2) by (simp_all add: Itoa.simps [of m] Itoa.simps [of n])
    then have "m div 10 = n div 10" and "m mod 10 = n mod 10" using 1(1) False inj_digit by simp_all
    then show ?thesis by (metis div_mult_mod_eq)
  qed
qed

lemma TrimSpace_Nil [simp]: "TrimSpace [] = []"
  by (simp add: TrimSpace_def)

section \<open>HTTP responses\<close>

text \<open>
  \<^verbatim>\<open>c.JSON(status, body)\<close> and \<^verbatim>\<open>c.NoContent(status)\<close>. The body type is
  the handler's; \<open>ErrorBody\<close> is the \<^verbatim>\<open>{"error": msg}\<close> object and
  \<open>ErrorCode\<close> the \<^verbatim>\<open>APIError\<close> with a machine-readable code.
\<close>

datatype 'a resp_body = ErrorBody string | ErrorCode string string | Body 'a | NoContent

datatype 'a response = Response (status: nat) (resp_body: "'a resp_body")

section \<open>Lists as tables\<close>

lemma find_Some_iff_first: "find p t = Some x \<Longrightarrow> x \<in> set t \<and> p x"
  by (auto simp: find_Some_iff)

definition update_rows :: "('r \<Rightarrow> bool) \<Rightarrow> ('r \<Rightarrow> 'r) \<Rightarrow> 'r list \<Rightarrow> 'r list" where
  "update_rows p f t = map (\<lambda>x. if p x then f x else x) t"

lemma length_update_rows [simp]: "length (update_rows p f t) = length t"
  by (simp add: update_rows_def)

lemma update_rows_simps [simp]:
  "update_rows p f [] = []"
  "update_rows p f (x # t) = (if p x then f x else x) # update_rows p f t"
  by (simp_all add: update_rows_def)

lemma set_update_rows:
  "set (update_rows p f t) = {x \<in> set t. \<not> p x} \<union> f ` {x \<in> set t. p x}"
  by (induction t) auto

lemma update_rows_hit: "x \<in> set (update_rows p f t) \<Longrightarrow> p x \<Longrightarrow> \<exists>y. x = f y"
  by (auto simp: set_update_rows)

lemma update_rows_id: "(\<And>x. x \<in> set t \<Longrightarrow> \<not> p x) \<Longrightarrow> update_rows p f t = t"
  by (induction t) auto

lemma filter_update_rows:
  "(\<And>x. x \<in> set t \<Longrightarrow> p x \<Longrightarrow> \<not> q x \<and> \<not> q (f x)) \<Longrightarrow> filter q (update_rows p f t) = filter q t"
  by (induction t) auto

lemma map_update_rows: "(\<And>x. g (f x) = g x) \<Longrightarrow> map g (update_rows p f t) = map g t"
  by (induction t) auto

end
