(* ===== verification/Gorm_Engine.thy ===== *)
theory Gorm_Engine
  imports Aurora_Prelude
begin

text \<open>
  The database under \<^verbatim>\<open>internal/store/gorm\<close>. GORM and the SQL engine are not part
  of the repository, so the engine is a parameter of every store operation: a function that
  executes one statement on one table, or refuses it with an error and leaves the table as it
  was. \<open>sql_engine\<close> states what the store relies on: the documented meaning of the
  statements (WHERE, RowsAffected, unique indexes, ErrRecordNotFound). An engine may fail any
  statement; \<open>reliable_engine\<close> adds that it only refuses a statement for a missing row or
  a duplicate key. A table is the list of its rows in insertion order; a SELECT without
  ORDER BY returns the matching rows in any order.
\<close>

section \<open>Statements and engines\<close>

datatype db_error = RecordNotFound | DuplicatedKey | DriverError

datatype (dead 'r) stmt =
    Create 'r
  | Find "'r \<Rightarrow> bool"
  | FindAsc "'r \<Rightarrow> bool" "'r \<Rightarrow> int"
  | First "'r \<Rightarrow> bool"
  | Updates "'r \<Rightarrow> bool" "'r \<Rightarrow> 'r"
  | Save 'r
  | DeleteWhere "'r \<Rightarrow> bool"

record 'r outcome =
  o_rows :: "'r list"
  o_affected :: nat
  o_table :: "'r list"

type_synonym 'r engine = "'r stmt \<Rightarrow> 'r list \<Rightarrow> db_error + 'r outcome"

type_synonym ('a, 's) db_result = "(db_error + 'a) \<times> 's"

definition save_row :: "('r \<Rightarrow> string) \<Rightarrow> 'r \<Rightarrow> 'r list \<Rightarrow> 'r list" where
  "save_row pk x t =
     (if \<exists>y \<in> set t. pk y = pk x then update_rows (\<lambda>y. pk y = pk x) (\<lambda>_. x) t else t @ [x])"

definition unique_rows :: "('r \<Rightarrow> 'r \<Rightarrow> bool) \<Rightarrow> 'r list \<Rightarrow> bool" where
  "unique_rows clash t = sorted_wrt (\<lambda>x y. \<not> clash x y) t"

lemma unique_pk:
  "unique_rows clash t \<Longrightarrow> (\<And>x y. pk x = pk y \<Longrightarrow> clash x y) \<Longrightarrow> distinct (map pk t)"
  by (induction t) (auto simp: unique_rows_def)

lemma unique_rows_update:
  "unique_rows clash t \<Longrightarrow> (\<And>x y. clash (if p x then f x else x) (if p y then f y else y) = clash x y) \<Longrightarrow>
     unique_rows clash (update_rows p f t)"
  by (simp add: unique_rows_def update_rows_def sorted_wrt_map)

lemma unique_rows_update_mono:
  "unique_rows clash t \<Longrightarrow>
     (\<And>x y. x \<in> set t \<Longrightarrow> y \<in> set t \<Longrightarrow>
        clash (if p x then f x else x) (if p y then f y else y) \<Longrightarrow> clash x y) \<Longrightarrow>
     unique_rows clash (update_rows p f t)"
  unfolding unique_rows_def update_rows_def sorted_wrt_map by (erule sorted_wrt_mono_rel [rotated]) blast

lemma unique_rows_inj:
  "unique_rows clash t \<Longrightarrow> (\<And>x y. clash x y = clash y x) \<Longrightarrow> x \<in> set t \<Longrightarrow> y \<in> set t \<Longrightarrow>
     clash x y \<Longrightarrow> x = y"
  by (induction t) (auto simp: unique_rows_def)

lemma distinct_filter_one:
  "distinct (map f t) \<Longrightarrow>
     length (filter (\<lambda>x. f x = i \<and> q x) t) = (if \<exists>x \<in> set t. f x = i \<and> q x then 1 else 0)"
proof (induction t)
  case (Cons a t)
  then show ?case
    by (cases "f a = i") (auto simp: filter_empty_conv image_iff)
qed simp

section \<open>One statement of a store operation\<close>

definition db_find :: "'r engine \<Rightarrow> ('r \<Rightarrow> bool) \<Rightarrow> 'r list \<Rightarrow> db_error + 'r list" where
  "db_find eng p t = (case eng (Find p) t of Inl e \<Rightarrow> Inl e | Inr r \<Rightarrow> Inr (o_rows r))"

definition db_find_asc ::
  "'r engine \<Rightarrow> ('r \<Rightarrow> bool) \<Rightarrow> ('r \<Rightarrow> int) \<Rightarrow> 'r list \<Rightarrow> db_error + 'r list" where
  "db_find_asc eng p key t =
     (case eng (FindAsc p key) t of Inl e \<Rightarrow> Inl e | Inr r \<Rightarrow> Inr (o_rows r))"

definition db_first :: "'r engine \<Rightarrow> ('r \<Rightarrow> bool) \<Rightarrow> 'r list \<Rightarrow> db_error + 'r" where
  "db_first eng p t =
     (case eng (First p) t of
        Inl e \<Rightarrow> Inl e
      | Inr r \<Rightarrow> (case o_rows r of [] \<Rightarrow> Inl RecordNotFound | x # _ \<Rightarrow> Inr x))"

definition db_create :: "'r engine \<Rightarrow> 'r \<Rightarrow> 'r list \<Rightarrow> (unit, 'r list) db_result" where
  "db_create eng x t =
     (case eng (Create x) t of Inl e \<Rightarrow> (Inl e, t) | Inr r \<Rightarrow> (Inr (), o_table r))"

definition db_updates ::
  "'r engine \<Rightarrow> ('r \<Rightarrow> bool) \<Rightarrow> ('r \<Rightarrow> 'r) \<Rightarrow> 'r list \<Rightarrow> (nat, 'r list) db_result" where
  "db_updates eng p f t =
     (case eng (Updates p f) t of Inl e \<Rightarrow> (Inl e, t) | Inr r \<Rightarrow> (Inr (o_affected r), o_table r))"

definition db_save :: "'r engine \<Rightarrow> 'r \<Rightarrow> 'r list \<Rightarrow> (unit, 'r list) db_result" where
  "db_save eng x t =
     (case eng (Save x) t of Inl e \<Rightarrow> (Inl e, t) | Inr r \<Rightarrow> (Inr (), o_table r))"

definition db_delete :: "'r engine \<Rightarrow> ('r \<Rightarrow> bool) \<Rightarrow> 'r list \<Rightarrow> (nat, 'r list) db_result" where
  "db_delete eng p t =
     (case eng (DeleteWhere p) t of
        Inl e \<Rightarrow> (Inl e, t) | Inr r \<Rightarrow> (Inr (o_affected r), o_table r))"

section \<open>What the store relies on\<close>

locale sql_engine =
  fixes eng :: "'r engine"
    and pk :: "'r \<Rightarrow> string"
    and clash :: "'r \<Rightarrow> 'r \<Rightarrow> bool"
  assumes find_rows: "eng (Find p) t = Inr r \<Longrightarrow> mset (o_rows r) = mset (filter p t)"
    and find_asc_rows:
      "eng (FindAsc p key) t = Inr r \<Longrightarrow>
         mset (o_rows r) = mset (filter p t) \<and> sorted (map key (o_rows r))"
    and first_row: "eng (First p) t = Inr r \<Longrightarrow> \<exists>x. o_rows r = [x] \<and> x \<in> set t \<and> p x"
    and first_none: "eng (First p) t = Inl RecordNotFound \<Longrightarrow> x \<in> set t \<Longrightarrow> \<not> p x"
    and create_row:
      "eng (Create x) t = Inr r \<Longrightarrow> o_table r = t @ [x] \<and> (\<forall>y \<in> set t. \<not> clash y x)"
    and updates_rows:
      "eng (Updates p f) t = Inr r \<Longrightarrow>
         o_table r = update_rows p f t \<and> o_affected r = length (filter p t) \<and>
         (unique_rows clash t \<longrightarrow> unique_rows clash (o_table r))"
    and save_rows:
      "eng (Save x) t = Inr r \<Longrightarrow>
         o_table r = save_row pk x t \<and> (unique_rows clash t \<longrightarrow> unique_rows clash (o_table r))"
    and delete_rows:
      "eng (DeleteWhere p) t = Inr r \<Longrightarrow>
         o_table r = filter (\<lambda>x. \<not> p x) t \<and> o_affected r = length (filter p t)"
begin

lemma db_find_mset: "db_find eng p t = Inr xs \<Longrightarrow> mset xs = mset (filter p t)"
  by (auto simp: db_find_def split: sum.splits dest!: find_rows)

lemma db_find_set: "db_find eng p t = Inr xs \<Longrightarrow> set xs = {x \<in> set t. p x}"
  by (drule db_find_mset) (metis mset_eq_setD set_filter)

lemma db_find_asc_mset: "db_find_asc eng p key t = Inr xs \<Longrightarrow> mset xs = mset (filter p t)"
  by (auto simp: db_find_asc_def split: sum.splits dest!: find_asc_rows)

lemma db_find_asc_set: "db_find_asc eng p key t = Inr xs \<Longrightarrow> set xs = {x \<in> set t. p x}"
  by (drule db_find_asc_mset) (metis mset_eq_setD set_filter)

lemma db_first_Inr: "db_first eng p t = Inr x \<Longrightarrow> x \<in> set t \<and> p x"
  by (auto simp: db_first_def split: sum.splits list.splits dest!: first_row)

lemma db_first_none: "db_first eng p t = Inl RecordNotFound \<Longrightarrow> x \<in> set t \<Longrightarrow> \<not> p x"
  by (auto simp: db_first_def split: sum.splits list.splits dest: first_none dest!: first_row)

lemma db_create_Inr:
  "db_create eng x t = (Inr u, t') \<Longrightarrow> t' = t @ [x] \<and> (\<forall>y \<in> set t. \<not> clash y x)"
  by (auto simp: db_create_def split: sum.splits dest: create_row)

lemma db_updates_Inr:
  "db_updates eng p f t = (Inr n, t') \<Longrightarrow> t' = update_rows p f t \<and> n = length (filter p t)"
  by (auto simp: db_updates_def split: sum.splits dest: updates_rows)

lemma db_save_Inr: "db_save eng x t = (Inr u, t') \<Longrightarrow> t' = save_row pk x t"
  by (auto simp: db_save_def split: sum.splits dest: save_rows)

lemma db_delete_Inr:
  "db_delete eng p t = (Inr n, t') \<Longrightarrow>
     t' = filter (\<lambda>x. \<not> p x) t \<and> n = length (filter p t)"
  by (auto simp: db_delete_def split: sum.splits dest: delete_rows)

lemma db_create_unique:
  "db_create eng x t = (r, t') \<Longrightarrow> unique_rows clash t \<Longrightarrow> unique_rows clash t'"
  by (auto simp: db_create_def unique_rows_def sorted_wrt_append split: sum.splits
      dest!: create_row)

lemma db_updates_unique:
  "db_updates eng p f t = (r, t') \<Longrightarrow> unique_rows clash t \<Longrightarrow> unique_rows clash t'"
  by (auto simp: db_updates_def split: sum.splits dest: updates_rows)

lemma db_save_unique:
  "db_save eng x t = (r, t') \<Longrightarrow> unique_rows clash t \<Longrightarrow> unique_rows clash t'"
  by (auto simp: db_save_def split: sum.splits dest: save_rows)

lemma db_delete_unique:
  "db_delete eng p t = (r, t') \<Longrightarrow> unique_rows clash t \<Longrightarrow> unique_rows clash t'"
  by (auto simp: db_delete_def unique_rows_def sorted_wrt_filter split: sum.splits
      dest!: delete_rows)

lemmas db_Inr = db_first_Inr db_create_Inr db_updates_Inr db_save_Inr db_delete_Inr

end

lemma db_create_Inl: "db_create eng x t = (Inl e, t') \<Longrightarrow> t' = t"
  by (auto simp: db_create_def split: sum.splits)

lemma db_updates_Inl: "db_updates eng p f t = (Inl e, t') \<Longrightarrow> t' = t"
  by (auto simp: db_updates_def split: sum.splits)

lemma db_save_Inl: "db_save eng x t = (Inl e, t') \<Longrightarrow> t' = t"
  by (auto simp: db_save_def split: sum.splits)

lemma db_delete_Inl: "db_delete eng p t = (Inl e, t') \<Longrightarrow> t' = t"
  by (auto simp: db_delete_def split: sum.splits)

lemmas db_Inl = db_create_Inl db_updates_Inl db_save_Inl db_delete_Inl

text \<open>An engine that refuses a statement only for a missing row or a duplicate key.\<close>

locale reliable_engine = sql_engine +
  assumes find_ok: "\<exists>r. eng (Find p) t = Inr r"
    and find_asc_ok: "\<exists>r. eng (FindAsc p key) t = Inr r"
    and first_ok: "x \<in> set t \<Longrightarrow> p x \<Longrightarrow> \<exists>r. eng (First p) t = Inr r"
    and first_missing: "(\<And>x. x \<in> set t \<Longrightarrow> \<not> p x) \<Longrightarrow> eng (First p) t = Inl RecordNotFound"
    and create_ok: "(\<And>y. y \<in> set t \<Longrightarrow> \<not> clash y x) \<Longrightarrow> \<exists>r. eng (Create x) t = Inr r"
    and updates_ok:
      "(unique_rows clash t \<Longrightarrow> unique_rows clash (update_rows p f t)) \<Longrightarrow>
         \<exists>r. eng (Updates p f) t = Inr r"
    and save_ok:
      "(unique_rows clash t \<Longrightarrow> unique_rows clash (save_row pk x t)) \<Longrightarrow>
         \<exists>r. eng (Save x) t = Inr r"
    and delete_ok: "\<exists>r. eng (DeleteWhere p) t = Inr r"
begin

lemma db_find_total: "\<exists>xs. db_find eng p t = Inr xs \<and> set xs = {x \<in> set t. p x}"
  using find_ok [of p t] db_find_set [of p t] by (auto simp: db_find_def)

lemma db_find_asc_total: "\<exists>xs. db_find_asc eng p key t = Inr xs \<and> set xs = {x \<in> set t. p x}"
  using find_asc_ok [of p key t] db_find_asc_set [of p key t] by (auto simp: db_find_asc_def)

lemma db_first_total:
  "x \<in> set t \<Longrightarrow> p x \<Longrightarrow> \<exists>y. db_first eng p t = Inr y \<and> y \<in> set t \<and> p y"
  using first_ok [of x t p] first_row [of p t] by (fastforce simp: db_first_def)

lemma db_first_missing:
  "(\<And>x. x \<in> set t \<Longrightarrow> \<not> p x) \<Longrightarrow> db_first eng p t = Inl RecordNotFound"
  by (simp add: db_first_def first_missing)

lemma db_updates_total:
  "(unique_rows clash t \<Longrightarrow> unique_rows clash (update_rows p f t)) \<Longrightarrow>
     db_updates eng p f t = (Inr (length (filter p t)), update_rows p f t)"
  using updates_ok [of t p f] updates_rows [of p f t] by (auto simp: db_updates_def)

lemma db_save_total:
  "(unique_rows clash t \<Longrightarrow> unique_rows clash (save_row pk x t)) \<Longrightarrow>
     db_save eng x t = (Inr (), save_row pk x t)"
  using save_ok [of t x] save_rows [of x t] by (auto simp: db_save_def)

lemma db_create_total:
  "(\<And>y. y \<in> set t \<Longrightarrow> \<not> clash y x) \<Longrightarrow> db_create eng x t = (Inr (), t @ [x])"
  using create_ok [of t x] create_row [of x t] by (auto simp: db_create_def)

end

section \<open>A table kept in memory\<close>

text \<open>An engine that meets the contract, as the concrete instance of the witnesses.\<close>

fun mem_engine :: "('r \<Rightarrow> string) \<Rightarrow> ('r \<Rightarrow> 'r \<Rightarrow> bool) \<Rightarrow> 'r engine" where
  "mem_engine pk clash (Create x) t =
     (if \<exists>y \<in> set t. clash y x then Inl DuplicatedKey
      else Inr \<lparr>o_rows = [x], o_affected = 1, o_table = t @ [x]\<rparr>)"
| "mem_engine pk clash (Find p) t =
     Inr \<lparr>o_rows = filter p t, o_affected = length (filter p t), o_table = t\<rparr>"
| "mem_engine pk clash (FindAsc p key) t =
     Inr \<lparr>o_rows = sort_key key (filter p t), o_affected = length (filter p t), o_table = t\<rparr>"
| "mem_engine pk clash (First p) t =
     (case find p t of
        None \<Rightarrow> Inl RecordNotFound
      | Some x \<Rightarrow> Inr \<lparr>o_rows = [x], o_affected = 1, o_table = t\<rparr>)"
| "mem_engine pk clash (Updates p f) t =
     (if unique_rows clash t \<and> \<not> unique_rows clash (update_rows p f t) then Inl DuplicatedKey
      else Inr \<lparr>o_rows = [], o_affected = length (filter p t), o_table = update_rows p f t\<rparr>)"
| "mem_engine pk clash (Save x) t =
     (if unique_rows clash t \<and> \<not> unique_rows clash (save_row pk x t) then Inl DuplicatedKey
      else Inr \<lparr>o_rows = [x], o_affected = 1, o_table = save_row pk x t\<rparr>)"
| "mem_engine pk clash (DeleteWhere p) t =
     Inr \<lparr>o_rows = [], o_affected = length (filter p t), o_table = filter (\<lambda>x. \<not> p x) t\<rparr>"

interpretation mem: reliable_engine "mem_engine pk clash" pk clash for pk clash
  by unfold_locales
    (auto split: if_splits option.splits
      dest: find_Some_iff_first simp: find_None_iff)

lemmas mem_reliable = mem.reliable_engine_axioms
lemmas mem_sql = mem.sql_engine_axioms

end
