(* ===== verification/Store_Model.thy ===== *)
theory Store_Model
  imports Gorm_Engine
begin

text \<open>
  The rows of the fleet database (\<^verbatim>\<open>pkg/store/store.go\<close>), one record per GORM
  model with the columns the code reads or writes, the constants of the lifecycle columns, and
  the unique indexes the GORM tags declare. \<^verbatim>\<open>UpdatedAt\<close> is maintained by GORM and
  read by no code, and \<^verbatim>\<open>ManagedNode.Group\<close> is a join computed on read; both are
  left out. A nil pointer is \<open>None\<close>, a Go map an association list with distinct keys.

  The second part is the contract behind the four compare-and-set operations of the store
  (a command's delivery, a deployment's eject state, a node's claim, a node's reset state).
\<close>

type_synonym strmap = "(string \<times> string) list"

section \<open>Groups and nodes\<close>

record node_group =
  g_id :: string
  g_name :: string
  g_description :: string

record node_address =
  a_type :: string
  a_address :: string

record managed_node =
  n_id :: string
  n_machine_id :: string
  n_hostname :: string
  n_group_id :: string
  n_phase :: string
  n_last_heartbeat :: "instant option"
  n_agent_version :: string
  n_os_release :: strmap
  n_labels :: strmap
  n_addresses :: "node_address list option"
  n_boot_state :: string
  n_claim_key :: "string option"
  n_claimed_at :: "instant option"
  n_reset_state :: string
  n_reset_requested_at :: "instant option"
  n_last_reset :: "instant option"
  n_api_key :: string
  n_created_at :: instant

abbreviation BootStateActive :: string where "BootStateActive \<equiv> ''active''"
abbreviation BootStatePassive :: string where "BootStatePassive \<equiv> ''passive''"
abbreviation BootStateRecovery :: string where "BootStateRecovery \<equiv> ''recovery''"
abbreviation BootStateAutoReset :: string where "BootStateAutoReset \<equiv> ''autoreset''"

abbreviation ResetStatePending :: string where "ResetStatePending \<equiv> ''pending''"
abbreviation ResetStateInProgress :: string where "ResetStateInProgress \<equiv> ''in-progress''"
abbreviation ResetStateDone :: string where "ResetStateDone \<equiv> ''done''"
abbreviation ResetStateFailed :: string where "ResetStateFailed \<equiv> ''failed''"

abbreviation PhaseRegistered :: string where "PhaseRegistered \<equiv> ''Registered''"
abbreviation PhaseOnline :: string where "PhaseOnline \<equiv> ''Online''"
abbreviation PhaseOffline :: string where "PhaseOffline \<equiv> ''Offline''"

text \<open>
  Primary key, the unique index on machine_id, and the composite unique index on
  (group_id, claim_key), from which NULL claim keys are exempt.
\<close>

definition node_clash :: "managed_node \<Rightarrow> managed_node \<Rightarrow> bool" where
  "node_clash x y =
     (n_id x = n_id y \<or> n_machine_id x = n_machine_id y \<or>
      n_claim_key x \<noteq> None \<and> n_claim_key x = n_claim_key y \<and> n_group_id x = n_group_id y)"

definition group_clash :: "node_group \<Rightarrow> node_group \<Rightarrow> bool" where
  "group_clash x y = (g_id x = g_id y \<or> g_name x = g_name y)"

section \<open>Commands\<close>

record node_command =
  c_id :: string
  c_node_id :: string
  c_command :: string
  c_args :: strmap
  c_phase :: string
  c_result :: string
  c_expires_at :: "instant option"
  c_delivered_at :: "instant option"
  c_completed_at :: "instant option"
  c_created_at :: instant

abbreviation CommandPending :: string where "CommandPending \<equiv> ''Pending''"
abbreviation CommandDelivered :: string where "CommandDelivered \<equiv> ''Delivered''"
abbreviation CommandCompleted :: string where "CommandCompleted \<equiv> ''Completed''"
abbreviation CommandFailed :: string where "CommandFailed \<equiv> ''Failed''"

abbreviation CmdReset :: string where "CmdReset \<equiv> ''reset''"

record command_selector =
  sel_group_id :: string
  sel_labels :: strmap
  sel_node_ids :: "string list"

definition cmd_clash :: "node_command \<Rightarrow> node_command \<Rightarrow> bool" where
  "cmd_clash x y = (c_id x = c_id y)"

section \<open>Deployments, BMC targets and settings\<close>

record deployment =
  d_id :: string
  d_artifact_id :: string
  d_method :: string
  d_status :: string
  d_message :: string
  d_bmc_target_id :: string
  d_progress :: int
  d_started_at :: instant
  d_completed_at :: "instant option"
  d_node_id :: string
  d_eject_policy :: string
  d_eject_state :: string
  d_eject_error :: string
  d_ejected_at :: "instant option"

abbreviation DeployActive :: string where "DeployActive \<equiv> ''Active''"
abbreviation DeployCompleted :: string where "DeployCompleted \<equiv> ''Completed''"
abbreviation DeployFailed :: string where "DeployFailed \<equiv> ''Failed''"

abbreviation EjectPolicyOff :: string where "EjectPolicyOff \<equiv> ''off''"
abbreviation EjectPolicyOnPhoneHome :: string where "EjectPolicyOnPhoneHome \<equiv> ''on-phone-home''"

abbreviation EjectStatePending :: string where "EjectStatePending \<equiv> ''pending''"
abbreviation EjectStateEjecting :: string where "EjectStateEjecting \<equiv> ''ejecting''"
abbreviation EjectStateEjected :: string where "EjectStateEjected \<equiv> ''ejected''"
abbreviation EjectStateFailed :: string where "EjectStateFailed \<equiv> ''eject-failed''"

definition dep_clash :: "deployment \<Rightarrow> deployment \<Rightarrow> bool" where
  "dep_clash x y = (d_id x = d_id y)"

record bmc_target =
  b_id :: string
  b_name :: string
  b_endpoint :: string
  b_vendor :: string
  b_username :: string
  b_password :: string
  b_verify_ssl :: bool
  b_system_id :: string
  b_image_url :: string
  b_node_id :: string
  b_eject_after_install :: bool
  b_eject_power_cycle :: bool
  b_last_status :: string
  b_last_error :: string
  b_last_inspect_at :: "instant option"
  b_last_ping_at :: "instant option"
  b_last_model :: string
  b_last_manufacturer :: string
  b_last_serial :: string
  b_last_memory_gib :: int
  b_last_cpu_count :: int
  b_last_features :: "string list"

definition bmc_clash :: "bmc_target \<Rightarrow> bmc_target \<Rightarrow> bool" where
  "bmc_clash x y = (b_id x = b_id y)"

record setting =
  s_key :: string
  s_value :: string
  s_updated_at :: instant

definition setting_clash :: "setting \<Rightarrow> setting \<Rightarrow> bool" where
  "setting_clash x y = (s_key x = s_key y)"

section \<open>Errors of the store\<close>

text \<open>
  \<open>DbError\<close> is an error of the engine passed on; the others are the sentinels and the
  errors the store makes itself.
\<close>

datatype store_error =
    DbError db_error
  | ErrCommandNotFound
  | CommandNotFound
  | ErrNoClaimCapacity
  | ApiKeyError
  | EncryptError
  | DecryptError

definition lift_db :: "(db_error + 'a) \<Rightarrow> store_error + 'a" where
  "lift_db r = map_sum DbError id r"

lemma lift_db_simps [simp]:
  "lift_db (Inl e) = Inl (DbError e)"
  "lift_db (Inr x) = Inr x"
  by (simp_all add: lift_db_def)

section \<open>Compare-and-set under interleaving\<close>

text \<open>
  Several callers race for one row with a conditional UPDATE. Every SQL statement is atomic,
  so an interleaving of the callers is a list of operations run one after another;
  \<open>run_ops\<close> collects what each returned.
\<close>

fun run_ops :: "('op \<Rightarrow> 's \<Rightarrow> 'out \<times> 's) \<Rightarrow> 'op list \<Rightarrow> 's \<Rightarrow> ('op \<times> 'out) list \<times> 's" where
  "run_ops step [] s = ([], s)"
| "run_ops step (op # ops) s =
     (let (out, s1) = step op s; (log, s2) = run_ops step ops s1 in ((op, out) # log, s2))"

definition winners :: "('op \<Rightarrow> 'out \<Rightarrow> bool) \<Rightarrow> ('op \<times> 'out) list \<Rightarrow> nat" where
  "winners w log = length (filter (\<lambda>(op, out). w op out) log)"

lemma winners_simps [simp]:
  "winners w [] = 0"
  "winners w ((op, out) # log) = (if w op out then Suc (winners w log) else winners w log)"
  by (simp_all add: winners_def)

text \<open>
  \<open>armed\<close>: the row is in the state the conditional UPDATE looks for. A win takes it out of
  that state, and no operation but a declared \<open>rearms\<close> one puts it back.
\<close>

locale compare_and_set =
  fixes step :: "'op \<Rightarrow> 's \<Rightarrow> 'out \<times> 's"
    and armed :: "'s \<Rightarrow> bool"
    and wins :: "'op \<Rightarrow> 'out \<Rightarrow> bool"
    and rearms :: "'op \<Rightarrow> bool"
  assumes win_disarms: "step op s = (out, s') \<Longrightarrow> wins op out \<Longrightarrow> armed s \<and> \<not> armed s'"
    and stays_disarmed:
      "step op s = (out, s') \<Longrightarrow> \<not> rearms op \<Longrightarrow> \<not> armed s \<Longrightarrow> \<not> armed s'"
begin

lemma disarmed_no_winner:
  assumes "\<not> armed s" and "\<forall>op \<in> set ops. \<not> rearms op" and "run_ops step ops s = (log, s')"
  shows "winners wins log = 0"
  using assms
proof (induction ops arbitrary: s log)
  case (Cons op ops)
  obtain out s1 where step: "step op s = (out, s1)" by fastforce
  obtain rest where rest: "run_ops step ops s1 = (rest, s')" "log = (op, out) # rest"
    using Cons.prems(3) step by (auto split: prod.splits)
  have "\<not> armed s1"
    using stays_disarmed [OF step] Cons.prems(1,2) by simp
  then have "winners wins rest = 0"
    using Cons.IH Cons.prems(2) rest(1) by simp
  moreover have "\<not> wins op out"
    using win_disarms [OF step] Cons.prems(1) by blast
  ultimately show ?case by (simp add: rest(2))
qed simp

lemma at_most_one_winner:
  assumes "\<forall>op \<in> set ops. \<not> rearms op" and "run_ops step ops s = (log, s')"
  shows "winners wins log \<le> 1"
  using assms
proof (induction ops arbitrary: s log)
  case (Cons op ops)
  obtain out s1 where step: "step op s = (out, s1)" by fastforce
  obtain rest where rest: "run_ops step ops s1 = (rest, s')" "log = (op, out) # rest"
    using Cons.prems(2) step by (auto split: prod.splits)
  show ?case
  proof (cases "wins op out")
    case True
    then have "\<not> armed s1" using win_disarms [OF step] by blast
    then have "winners wins rest = 0"
      using disarmed_no_winner [OF _ _ rest(1)] Cons.prems(1) by simp
    then show ?thesis using True by (simp add: rest(2))
  next
    case False
    then show ?thesis using Cons.IH Cons.prems(1) rest by simp
  qed
qed simp

end

end
