(* ===== verification/Secrets.thy ===== *)
theory Secrets
  imports Aurora_Prelude
begin

text \<open>
  Encryption of secrets at rest (\<^verbatim>\<open>internal/secrets/cipher.go\<close>): the AES-256-GCM
  helper, its key file and the standard padded base64 it stores the sealed bytes in.
  AES-GCM itself is a parameter, a \<^verbatim>\<open>cipher.AEAD\<close>; \<open>aead_opens\<close> is the
  documented contract of \<^verbatim>\<open>Seal\<close> and \<^verbatim>\<open>Open\<close>. The base64 codec is
  defined in full, with its round trip.
\<close>

section \<open>Base64\<close>

definition b64_char :: "nat \<Rightarrow> char" where
  "b64_char n =
     (if n < 26 then char_of (65 + n) else if n < 52 then char_of (71 + n)
      else if n < 62 then char_of (n - 4) else if n = 62 then CHR ''+'' else CHR ''/'')"

definition b64_val :: "char \<Rightarrow> nat option" where
  "b64_val c =
     (let n = of_char c in
      if 65 \<le> n \<and> n \<le> 90 then Some (n - 65) else if 97 \<le> n \<and> n \<le> 122 then Some (n - 71)
      else if 48 \<le> n \<and> n \<le> 57 then Some (n + 4) else if n = 43 then Some 62
      else if n = 47 then Some 63 else None)"

fun b64_encode :: "string \<Rightarrow> string" where
  "b64_encode [] = []"
| "b64_encode [x] =
     (let a = of_char x in [b64_char (a div 4), b64_char (a mod 4 * 16), CHR ''='', CHR ''=''])"
| "b64_encode [x, y] =
     (let a = of_char x; b = of_char y in
      [b64_char (a div 4), b64_char (a mod 4 * 16 + b div 16), b64_char (b mod 16 * 4), CHR ''=''])"
| "b64_encode (x # y # z # r) =
     (let a = of_char x; b = of_char y; c = of_char z in
      [b64_char (a div 4), b64_char (a mod 4 * 16 + b div 16), b64_char (b mod 16 * 4 + c div 64),
       b64_char (c mod 64)] @ b64_encode r)"

text \<open>
  The decoder of \<^verbatim>\<open>base64.StdEncoding\<close>: line breaks are skipped, padding is only
  accepted in the last group, and the unused bits of a padded group are ignored.
\<close>

fun b64_groups :: "string \<Rightarrow> string option" where
  "b64_groups [] = Some []"
| "b64_groups [p, q, r, s] =
     (case (b64_val p, b64_val q) of
        (Some a, Some b) \<Rightarrow>
          (if r = CHR ''='' \<and> s = CHR ''='' then Some [char_of (a * 4 + b div 16)]
           else case b64_val r of
             None \<Rightarrow> None
           | Some c \<Rightarrow>
               (if s = CHR ''='' then Some [char_of (a * 4 + b div 16), char_of (b mod 16 * 16 + c div 4)]
                else case b64_val s of
                  None \<Rightarrow> None
                | Some d \<Rightarrow> Some [char_of (a * 4 + b div 16), char_of (b mod 16 * 16 + c div 4),
                               char_of (c mod 4 * 64 + d)]))
      | _ \<Rightarrow> None)"
| "b64_groups (p # q # r # s # t) =
     (case (b64_val p, b64_val q, b64_val r, b64_val s, b64_groups t) of
        (Some a, Some b, Some c, Some d, Some rest) \<Rightarrow>
          Some ([char_of (a * 4 + b div 16), char_of (b mod 16 * 16 + c div 4), char_of (c mod 4 * 64 + d)] @ rest)
      | _ \<Rightarrow> None)"
| "b64_groups _ = None"

definition b64_decode :: "string \<Rightarrow> string option" where
  "b64_decode s = b64_groups (filter (\<lambda>c. c \<noteq> CHR 0x0A \<and> c \<noteq> CHR 0x0D) s)"

section \<open>The cipher\<close>

record aead =
  nonce_size :: nat
  seal :: "string \<Rightarrow> string \<Rightarrow> string"
  unseal :: "string \<Rightarrow> string \<Rightarrow> string option"

definition aead_opens :: "aead \<Rightarrow> bool" where
  "aead_opens c =
     (0 < nonce_size c \<and>
      (\<forall>nonce p. length nonce = nonce_size c \<longrightarrow> unseal c nonce (seal c nonce p) = Some p))"

datatype secret_error =
    BadKeySize | DekRead | DekGenerate | DekPersist | NonceError | BadBase64 | TooShort | OpenFailed

definition keySize :: nat where "keySize = 32"

text \<open>\<open>gcm\<close> is AES-GCM under a 32-byte key, for which neither constructor fails.\<close>

definition NewCipher :: "(string \<Rightarrow> aead) \<Rightarrow> string \<Rightarrow> secret_error + aead" where
  "NewCipher gcm key = (if length key \<noteq> keySize then Inl BadKeySize else Inr (gcm key))"

datatype read_result = FileContents string | NotExist | ReadFailed

text \<open>
  The key file is read, or generated from \<open>rnd\<close> (the 32 random bytes, or the failure to
  get them) and written; \<open>write_ok\<close> says whether the write succeeds. The second component is the
  file afterwards: a failed write may leave anything, given by \<open>junk\<close>.
\<close>

definition LoadOrGenerateCipher ::
  "(string \<Rightarrow> aead) \<Rightarrow> string option \<Rightarrow> bool \<Rightarrow> read_result \<Rightarrow> read_result \<Rightarrow>
     (secret_error + aead) \<times> read_result"
where
  "LoadOrGenerateCipher gcm rnd write_ok junk file =
     (case file of
        FileContents key \<Rightarrow>
          (if length key \<noteq> keySize then Inl BadKeySize else NewCipher gcm key, file)
      | NotExist \<Rightarrow>
          (case rnd of
             None \<Rightarrow> (Inl DekGenerate, file)
           | Some key \<Rightarrow>
               (if \<not> write_ok then (Inl DekPersist, junk)
                else (NewCipher gcm key, FileContents key)))
      | ReadFailed \<Rightarrow> (Inl DekRead, file))"

text \<open>\<open>nonce\<close> is what the random source filled the nonce with, or its failure.\<close>

definition Encrypt :: "aead \<Rightarrow> string option \<Rightarrow> string \<Rightarrow> secret_error + string" where
  "Encrypt c nonce plaintext =
     (if plaintext = [] then Inr []
      else case nonce of
        None \<Rightarrow> Inl NonceError
      | Some n \<Rightarrow> Inr (b64_encode (n @ seal c n plaintext)))"

definition Decrypt :: "aead \<Rightarrow> string \<Rightarrow> secret_error + string" where
  "Decrypt c ciphertext =
     (if ciphertext = [] then Inr []
      else case b64_decode ciphertext of
        None \<Rightarrow> Inl BadBase64
      | Some raw \<Rightarrow>
          (if length raw < nonce_size c then Inl TooShort
           else case unseal c (take (nonce_size c) raw) (drop (nonce_size c) raw) of
             None \<Rightarrow> Inl OpenFailed
           | Some plaintext \<Rightarrow> Inr plaintext))"

section \<open>Round trips\<close>

lemma b64_val_char [simp]: "n < 64 \<Longrightarrow> b64_val (b64_char n) = Some n"
  by (auto simp: b64_val_def b64_char_def Let_def)

lemma b64_char_in_alphabet: "\<exists>v. b64_val (b64_char n) = Some v"
proof (cases "n < 64")
  case False
  then have "b64_char n = b64_char 63" by (simp add: b64_char_def)
  then show ?thesis by simp
qed simp

lemma b64_char_not [simp]:
  "b64_char n \<noteq> CHR ''=''" "b64_char n \<noteq> CHR 0x0A" "b64_char n \<noteq> CHR 0x0D"
  "CHR 0x0A \<noteq> b64_char n" "CHR 0x0D \<noteq> b64_char n"
proof -
  have "b64_val (CHR ''='') = None" "b64_val (CHR 0x0A) = None" "b64_val (CHR 0x0D) = None"
    by (simp_all add: b64_val_def)
  then show "b64_char n \<noteq> CHR ''=''" "b64_char n \<noteq> CHR 0x0A" "b64_char n \<noteq> CHR 0x0D"
    "CHR 0x0A \<noteq> b64_char n" "CHR 0x0D \<noteq> b64_char n"
    using b64_char_in_alphabet [of n] by auto
qed

lemma b64_group_full:
  assumes "b64_val p = Some a" "b64_val q = Some b" "b64_val r = Some c" "b64_val s = Some d"
    "r \<noteq> CHR ''=''" "s \<noteq> CHR ''=''"
  shows "b64_groups (p # q # r # s # t) =
    map_option (\<lambda>rest. [char_of (a * 4 + b div 16), char_of (b mod 16 * 16 + c div 4), char_of (c mod 4 * 64 + d)] @ rest)
      (b64_groups t)"
  using assms by (cases t) (auto split: option.splits)

lemma six_bits:
  fixes a b :: nat
  assumes "a < 256" "b < 256"
  shows "a div 4 < 64" "a mod 4 * 16 + b div 16 < 64" "a mod 16 * 4 + b div 64 < 64" "b mod 64 < 64"
    "a mod 4 * 16 < 64" "a mod 16 * 4 < 64"
proof -
  have *: "a mod 4 < 4" "b div 16 < 16" "a mod 16 < 16" "b div 64 < 4"
    using assms by (simp_all add: less_mult_imp_div_less)
  show "a div 4 < 64" "b mod 64 < 64" using assms by (simp_all add: less_mult_imp_div_less)
  show "a mod 4 * 16 + b div 16 < 64" "a mod 16 * 4 + b div 64 < 64" "a mod 4 * 16 < 64" "a mod 16 * 4 < 64"
    using * by linarith+
qed

lemma byte_again:
  fixes a b :: nat
  assumes "a < 256" "b < 256"
  shows "a div 4 * 4 + (a mod 4 * 16 + b div 16) div 16 = a"
    "(a mod 4 * 16 + b div 16) mod 16 = b div 16"
    "b div 16 * 16 + (b mod 16 * 4 + a div 64) div 4 = b"
    "(b mod 16 * 4 + a div 64) mod 4 = a div 64"
    "a div 64 * 64 + a mod 64 = a"
    "a div 4 * 4 + a mod 4 = a"
proof -
  have b: "b div 16 < 16" and a: "a div 64 < 4" using assms by (simp_all add: less_mult_imp_div_less)
  show "a div 4 * 4 + (a mod 4 * 16 + b div 16) div 16 = a" using b by (simp add: div_mult_self3)
  show "(a mod 4 * 16 + b div 16) mod 16 = b div 16" using b by simp
  show "b div 16 * 16 + (b mod 16 * 4 + a div 64) div 4 = b" using a by (simp add: div_mult_self3)
  show "(b mod 16 * 4 + a div 64) mod 4 = a div 64" using a by simp
qed simp_all

lemma b64_groups_encode: "b64_groups (b64_encode bs) = Some bs"
proof (induction bs rule: b64_encode.induct)
  case (2 x)
  then show ?case
    using six_bits [of "of_char x" 0] byte_again [of "of_char x" 0] by (simp add: Let_def)
next
  case (3 x y)
  then show ?case
    using six_bits [of "of_char x" "of_char y"] six_bits [of "of_char y" 0]
      byte_again [of "of_char x" "of_char y"] byte_again [of 0 "of_char y"]
    by (simp add: Let_def)
next
  case (4 x y z r)
  then show ?case
    using six_bits [of "of_char x" "of_char y"] six_bits [of "of_char y" "of_char z"]
      byte_again [of "of_char x" "of_char y"] byte_again [of "of_char z" "of_char y"]
    by (simp add: Let_def b64_group_full)
qed simp

lemma b64_encode_no_break: "set (b64_encode bs) \<inter> {CHR 0x0A, CHR 0x0D} = {}"
  by (induction bs rule: b64_encode.induct) (simp_all add: Let_def)

lemma b64_round_trip: "b64_decode (b64_encode bs) = Some bs"
proof -
  have "filter (\<lambda>c. c \<noteq> CHR 0x0A \<and> c \<noteq> CHR 0x0D) (b64_encode bs) = b64_encode bs"
    using b64_encode_no_break [of bs] by (auto simp: filter_id_conv)
  then show ?thesis by (simp add: b64_decode_def b64_groups_encode)
qed

lemma b64_encode_Nil: "b64_encode bs = [] \<longleftrightarrow> bs = []"
  using b64_groups_encode [of bs] by (cases bs) auto

lemma decrypt_encrypt:
  assumes "aead_opens c" and "length n = nonce_size c" and "Encrypt c (Some n) p = Inr e"
  shows "Decrypt c e = Inr p"
proof (cases "p = []")
  case True
  then show ?thesis using assms(3) by (simp add: Encrypt_def Decrypt_def)
next
  case False
  then have e: "e = b64_encode (n @ seal c n p)" using assms(3) by (simp add: Encrypt_def)
  have "unseal c n (seal c n p) = Some p" using assms(1,2) by (simp add: aead_opens_def)
  moreover have "e \<noteq> []" using assms(1,2) by (auto simp: e b64_encode_Nil aead_opens_def)
  ultimately show ?thesis using e assms(2) by (simp add: Decrypt_def b64_round_trip)
qed

end
