(* ===== verification/Deployment_Store.thy ===== *)
theory Deployment_Store
  imports Store_Model Secrets
begin

text \<open>
  BMC targets with their encrypted passwords, deployments with the compare-and-set on the
  eject state, and the key/value settings (the last three parts of
  \<^verbatim>\<open>internal/store/gorm/store.go\<close>).
\<close>

section \<open>BMC targets\<close>

type_synonym targets = "bmc_target list"
type_synonym deployments = "deployment list"
type_synonym settings = "setting list"

definition encryptPassword ::
  "aead option \<Rightarrow> string option \<Rightarrow> bmc_target \<Rightarrow> store_error + bmc_target" where
  "encryptPassword cipher nonce target =
     (case cipher of
        None \<Rightarrow> Inr target
      | Some c \<Rightarrow>
          (if b_password target = [] then Inr target
           else case Encrypt c nonce (b_password target) of
             Inl _ \<Rightarrow> Inl EncryptError
           | Inr enc \<Rightarrow> Inr (target\<lparr>b_password := enc\<rparr>)))"

text \<open>A value that does not decrypt is passed on as a legacy plaintext.\<close>

definition decryptPassword :: "aead option \<Rightarrow> bmc_target \<Rightarrow> bmc_target" where
  "decryptPassword cipher target =
     (case cipher of
        None \<Rightarrow> target
      | Some c \<Rightarrow>
          (if b_password target = [] then target
           else case Decrypt c (b_password target) of
             Inl _ \<Rightarrow> target
           | Inr plain \<Rightarrow> target\<lparr>b_password := plain\<rparr>))"

definition BMCTargetCreate ::
  "bmc_target engine \<Rightarrow> aead option \<Rightarrow> string option \<Rightarrow> uuid \<Rightarrow> bmc_target \<Rightarrow> targets \<Rightarrow>
     (store_error + bmc_target) \<times> targets"
where
  "BMCTargetCreate eng cipher nonce u target t =
     (let target' = target\<lparr>b_id := u\<rparr> in
      case encryptPassword cipher nonce target' of
        Inl e \<Rightarrow> (Inl e, t)
      | Inr row \<Rightarrow>
          (case db_create eng row t of
             (Inl e, t') \<Rightarrow> (Inl (DbError e), t')
           | (Inr _, t') \<Rightarrow> (Inr target', t')))"

definition BMCTargetGetByID ::
  "bmc_target engine \<Rightarrow> aead option \<Rightarrow> string \<Rightarrow> targets \<Rightarrow> db_error + bmc_target" where
  "BMCTargetGetByID eng cipher i t =
     (case db_first eng (\<lambda>b. b_id b = i) t of
        Inl e \<Rightarrow> Inl e
      | Inr b \<Rightarrow> Inr (decryptPassword cipher b))"

definition BMCTargetList :: "bmc_target engine \<Rightarrow> aead option \<Rightarrow> targets \<Rightarrow> db_error + bmc_target list" where
  "BMCTargetList eng cipher t =
     (case db_find eng (\<lambda>_. True) t of
        Inl e \<Rightarrow> Inl e
      | Inr bs \<Rightarrow> Inr (map (decryptPassword cipher) bs))"

definition BMCTargetUpdate ::
  "bmc_target engine \<Rightarrow> aead option \<Rightarrow> string option \<Rightarrow> bmc_target \<Rightarrow> targets \<Rightarrow>
     (store_error + unit) \<times> targets"
where
  "BMCTargetUpdate eng cipher nonce target t =
     (case encryptPassword cipher nonce target of
        Inl e \<Rightarrow> (Inl e, t)
      | Inr row \<Rightarrow> (let (r, t') = db_save eng row t in (lift_db r, t')))"

definition BMCTargetDelete :: "bmc_target engine \<Rightarrow> string \<Rightarrow> targets \<Rightarrow> (nat, targets) db_result" where
  "BMCTargetDelete eng i t = db_delete eng (\<lambda>b. b_id b = i) t"

section \<open>Deployments\<close>

definition DeploymentCreate ::
  "deployment engine \<Rightarrow> uuid \<Rightarrow> deployment \<Rightarrow> deployments \<Rightarrow> (deployment, deployments) db_result" where
  "DeploymentCreate eng u dep t =
     (let dep' = dep\<lparr>d_id := u\<rparr> in
      case db_create eng dep' t of (Inl e, t') \<Rightarrow> (Inl e, t') | (Inr _, t') \<Rightarrow> (Inr dep', t'))"

definition DeploymentGetByID :: "deployment engine \<Rightarrow> string \<Rightarrow> deployments \<Rightarrow> db_error + deployment" where
  "DeploymentGetByID eng i t = db_first eng (\<lambda>d. d_id d = i) t"

definition DeploymentList :: "deployment engine \<Rightarrow> deployments \<Rightarrow> db_error + deployment list" where
  "DeploymentList eng t = db_find eng (\<lambda>_. True) t"

definition DeploymentListByArtifact ::
  "deployment engine \<Rightarrow> string \<Rightarrow> deployments \<Rightarrow> db_error + deployment list" where
  "DeploymentListByArtifact eng a t = db_find eng (\<lambda>d. d_artifact_id d = a) t"

definition DeploymentUpdate ::
  "deployment engine \<Rightarrow> deployment \<Rightarrow> deployments \<Rightarrow> (unit, deployments) db_result" where
  "DeploymentUpdate eng dep t = db_save eng dep t"

definition DeploymentDelete :: "deployment engine \<Rightarrow> string \<Rightarrow> deployments \<Rightarrow> (nat, deployments) db_result" where
  "DeploymentDelete eng i t = db_delete eng (\<lambda>d. d_id d = i) t"

definition DeploymentCASEjectState ::
  "deployment engine \<Rightarrow> string \<Rightarrow> string \<Rightarrow> string \<Rightarrow> deployments \<Rightarrow> (bool, deployments) db_result" where
  "DeploymentCASEjectState eng i from to t =
     (case db_updates eng (\<lambda>d. d_id d = i \<and> d_eject_state d = from) (\<lambda>d. d\<lparr>d_eject_state := to\<rparr>) t of
        (Inl e, t') \<Rightarrow> (Inl e, t')
      | (Inr affected, t') \<Rightarrow> (Inr (affected = 1), t'))"

section \<open>Settings\<close>

definition SettingGet :: "setting engine \<Rightarrow> string \<Rightarrow> settings \<Rightarrow> db_error + (string \<times> bool)" where
  "SettingGet eng k t =
     (case db_first eng (\<lambda>s. s_key s = k) t of
        Inl RecordNotFound \<Rightarrow> Inr ([], False)
      | Inl e \<Rightarrow> Inl e
      | Inr s \<Rightarrow> Inr (s_value s, True))"

text \<open>
  INSERT with ON CONFLICT (key) DO UPDATE of every column: the row with the key is replaced
  in place, or the row is appended, which is what \<open>Save\<close> is.
\<close>

definition SettingSet ::
  "setting engine \<Rightarrow> instant \<Rightarrow> string \<Rightarrow> string \<Rightarrow> settings \<Rightarrow> (unit, settings) db_result" where
  "SettingSet eng now k v t = db_save eng \<lparr>s_key = k, s_value = v, s_updated_at = now\<rparr> t"

definition SettingGetAll :: "setting engine \<Rightarrow> settings \<Rightarrow> db_error + (string \<rightharpoonup> string)" where
  "SettingGetAll eng t =
     (case db_find eng (\<lambda>_. True) t of
        Inl e \<Rightarrow> Inl e
      | Inr ss \<Rightarrow> Inr (foldl (\<lambda>out s. out(s_key s \<mapsto> s_value s)) Map.empty ss))"

section \<open>The eject state is a compare-and-set\<close>

datatype deployment_op =
    OpDepCreate uuid deployment
  | OpDepUpdate deployment
  | OpDepDelete string
  | OpCAS string string string

fun deployment_step ::
  "deployment engine \<Rightarrow> deployment_op \<Rightarrow> deployments \<Rightarrow> (db_error + bool) option \<times> deployments" where
  "deployment_step eng (OpDepCreate u dep) t = (None, snd (DeploymentCreate eng u dep t))"
| "deployment_step eng (OpDepUpdate dep) t = (None, snd (DeploymentUpdate eng dep t))"
| "deployment_step eng (OpDepDelete i) t = (None, snd (DeploymentDelete eng i t))"
| "deployment_step eng (OpCAS i from to) t =
     (let (r, t') = DeploymentCASEjectState eng i from to t in (Some r, t'))"

definition eject_armed :: "string \<Rightarrow> string \<Rightarrow> deployments \<Rightarrow> bool" where
  "eject_armed i from t = (\<exists>d \<in> set t. d_id d = i \<and> d_eject_state d = from)"

fun eject_wins :: "string \<Rightarrow> string \<Rightarrow> deployment_op \<Rightarrow> (db_error + bool) option \<Rightarrow> bool" where
  "eject_wins i from (OpCAS j from' to) out = (j = i \<and> from' = from \<and> to \<noteq> from \<and> out = Some (Inr True))"
| "eject_wins i from _ out = False"

fun eject_rearms :: "string \<Rightarrow> string \<Rightarrow> deployment_op \<Rightarrow> bool" where
  "eject_rearms i from (OpDepCreate u dep) = (u = i)"
| "eject_rearms i from (OpDepUpdate dep) = (d_id dep = i \<and> d_eject_state dep = from)"
| "eject_rearms i from (OpDepDelete j) = False"
| "eject_rearms i from (OpCAS j from' to) = (j = i \<and> to = from)"

locale deployment_engine = sql_engine eng d_id dep_clash for eng :: "deployment engine"
begin

lemma cas_Inr:
  assumes "DeploymentCASEjectState eng i from to t = (Inr b, t')"
  shows "t' = update_rows (\<lambda>d. d_id d = i \<and> d_eject_state d = from) (\<lambda>d. d\<lparr>d_eject_state := to\<rparr>) t"
    and "b = (length (filter (\<lambda>d. d_id d = i \<and> d_eject_state d = from) t) = 1)"
  using assms db_updates_Inr by (auto simp: DeploymentCASEjectState_def split: prod.splits sum.splits)

lemma cas_Inl: "DeploymentCASEjectState eng i from to t = (Inl e, t') \<Longrightarrow> t' = t"
  by (auto simp: DeploymentCASEjectState_def split: prod.splits sum.splits dest: db_updates_Inl)

lemma cas_true:
  assumes "DeploymentCASEjectState eng i from to t = (Inr True, t')" and "to \<noteq> from"
  shows "eject_armed i from t \<and> \<not> eject_armed i from t'"
proof -
  let ?p = "\<lambda>d. d_id d = i \<and> d_eject_state d = from"
  have t': "t' = update_rows ?p (\<lambda>d. d\<lparr>d_eject_state := to\<rparr>) t" and one: "length (filter ?p t) = 1"
    using cas_Inr [OF assms(1)] by auto
  have "filter ?p t \<noteq> []" using one by (metis length_0_conv zero_neq_one)
  then show ?thesis
    using assms(2) by (auto simp: t' eject_armed_def filter_empty_conv set_update_rows)
qed

lemma eject_rearm_only:
  assumes "deployment_step eng op t = (out, t')" and "\<not> eject_rearms i from op" and "eject_armed i from t'"
  shows "eject_armed i from t"
proof (cases op)
  case (OpDepCreate u dep)
  then show ?thesis
    using assms
    by (auto simp: DeploymentCreate_def Let_def eject_armed_def split: prod.splits sum.splits
        dest!: db_create_Inl db_create_Inr)
next
  case (OpDepUpdate dep)
  obtain r t1 where s: "db_save eng dep t = (r, t1)" by fastforce
  have "t1 = t'" using assms(1) s OpDepUpdate by (auto simp: DeploymentUpdate_def)
  then show ?thesis
    using assms(2,3) s OpDepUpdate db_save_Inl [of eng dep t _ t1] db_save_Inr [of dep t _ t1]
    by (cases r) (auto simp: eject_armed_def save_row_def set_update_rows split: if_splits)
next
  case (OpDepDelete j)
  obtain r t1 where s: "db_delete eng (\<lambda>d. d_id d = j) t = (r, t1)" by fastforce
  have "t1 = t'" using assms(1) s OpDepDelete by (auto simp: DeploymentDelete_def)
  then show ?thesis
    using assms(3) s db_delete_Inl [of eng _ t _ t1] db_delete_Inr [of _ t _ t1]
    by (cases r) (fastforce simp: eject_armed_def)+
next
  case (OpCAS j from' to)
  obtain r where r: "DeploymentCASEjectState eng j from' to t = (r, t')"
    using assms(1) OpCAS by (auto split: prod.splits)
  show ?thesis
  proof (cases r)
    case (Inl e)
    then show ?thesis using r cas_Inl assms(3) by blast
  next
    case (Inr b)
    then show ?thesis
      using cas_Inr(1) [of j from' to t b t'] r assms(2,3) OpCAS
      by (auto simp: eject_armed_def set_update_rows)
  qed
qed

end

sublocale deployment_engine \<subseteq> eject: compare_and_set "deployment_step eng" "eject_armed i s" "eject_wins i s" "eject_rearms i s"
  for i s
proof
  fix op t out t'
  assume "deployment_step eng op t = (out, t')" and "eject_wins i s op out"
  then show "eject_armed i s t \<and> \<not> eject_armed i s t'"
    by (cases op) (auto dest: cas_true split: prod.splits)
next
  fix op t out t'
  assume "deployment_step eng op t = (out, t')" and "\<not> eject_rearms i s op" and "\<not> eject_armed i s t"
  then show "\<not> eject_armed i s t'" using eject_rearm_only by blast
qed

context deployment_engine
begin

lemma eject_once:
  "\<forall>op \<in> set ops. \<not> eject_rearms i s op \<Longrightarrow> run_ops (deployment_step eng) ops t = (log, t') \<Longrightarrow>
     winners (eject_wins i s) log \<le> 1"
  by (rule eject.at_most_one_winner)

end

interpretation mem_deployments: deployment_engine "mem_engine d_id dep_clash"
  by unfold_locales

lemma deployment_engine_of: "sql_engine eng d_id dep_clash \<Longrightarrow> deployment_engine eng"
  by (simp add: deployment_engine_def)

section \<open>Reading back what was written\<close>

lemma first_of_unique:
  assumes "reliable_engine eng pk clash" and "x \<in> set t" and "p x" and "\<And>y. y \<in> set t \<Longrightarrow> p y \<Longrightarrow> y = x"
  shows "db_first eng p t = Inr x"
  using reliable_engine.db_first_total [OF assms(1), of x t p] assms(2-4) by blast

lemma encrypt_keeps:
  "encryptPassword cipher nonce b = Inr row \<Longrightarrow> row = b\<lparr>b_password := b_password row\<rparr>"
  by (auto simp: encryptPassword_def split: option.splits if_splits sum.splits)

lemma decrypt_encrypted:
  assumes "\<And>c. cipher = Some c \<Longrightarrow> aead_opens c \<and> (\<exists>n. nonce = Some n \<and> length n = nonce_size c)"
    and "encryptPassword cipher nonce b = Inr row"
  shows "decryptPassword cipher row = b"
proof (cases cipher)
  case None
  then show ?thesis using assms(2) by (simp add: encryptPassword_def decryptPassword_def)
next
  case (Some c)
  then obtain n where n: "aead_opens c" "nonce = Some n" "length n = nonce_size c" using assms(1) by blast
  show ?thesis
  proof (cases "b_password b = []")
    case True
    then show ?thesis using assms(2) Some by (auto simp: encryptPassword_def decryptPassword_def)
  next
    case False
    then obtain enc where enc: "Encrypt c (Some n) (b_password b) = Inr enc" "row = b\<lparr>b_password := enc\<rparr>"
      using assms(2) Some n(2) by (auto simp: encryptPassword_def split: sum.splits)
    have "Decrypt c enc = Inr (b_password b)" using decrypt_encrypt [OF n(1,3) enc(1)] .
    then show ?thesis using enc(2) Some False by (auto simp: decryptPassword_def Decrypt_def)
  qed
qed

section \<open>Properties\<close>

text \<open>
  C4. The eject of a deployment is claimed once: in every interleaving of deployment
  operations that does not itself write the source state back, at most one compare-and-set
  out of that state succeeds.
\<close>
theorem eject_claimed_at_most_once:
  assumes "sql_engine eng d_id dep_clash"
    and "\<forall>op \<in> set ops. \<not> eject_rearms i s op"
    and "run_ops (deployment_step eng) ops t = (log, t')"
  shows "winners (eject_wins i s) log \<le> 1"
  using deployment_engine.eject_once [OF deployment_engine_of [OF assms(1)] assms(2,3)] .

definition sample_deployment :: deployment where
  "sample_deployment =
     \<lparr>d_id = ''d1'', d_artifact_id = ''a1'', d_method = ''redfish'', d_status = DeployCompleted,
      d_message = [], d_bmc_target_id = ''b1'', d_progress = 100, d_started_at = 0,
      d_completed_at = Some 0, d_node_id = [], d_eject_policy = EjectPolicyOnPhoneHome,
      d_eject_state = EjectStatePending, d_eject_error = [], d_ejected_at = None\<rparr>"

theorem eject_claimed_at_most_once_witness:
  "winners (eject_wins ''d1'' EjectStatePending)
     (fst (run_ops (deployment_step (mem_engine d_id dep_clash))
        [OpCAS ''d1'' EjectStatePending EjectStateEjecting, OpCAS ''d1'' EjectStatePending EjectStateEjecting]
        [sample_deployment])) \<le> 1 \<and>
   fst (DeploymentCASEjectState (mem_engine d_id dep_clash) ''d1'' EjectStatePending EjectStateEjecting
        [sample_deployment]) = Inr True"
  by (rule conjI, rule eject_claimed_at_most_once [OF mem_sql _ prod.collapse [symmetric]])
    (simp_all add: DeploymentCASEjectState_def db_updates_def unique_rows_def sample_deployment_def)

text \<open>
  A BMC target survives the trip through the database: what was created, with or without
  a cipher, is read back with every column and the plaintext password, and the stored row
  differs from it in nothing but the password column.
\<close>
theorem bmc_target_round_trip:
  assumes "reliable_engine eng b_id bmc_clash" and "unique_rows bmc_clash t"
    and "\<forall>c. cipher = Some c \<longrightarrow> aead_opens c \<and> (\<exists>n. nonce = Some n \<and> length n = nonce_size c)"
    and "BMCTargetCreate eng cipher nonce u target t = (Inr created, t')"
  shows "BMCTargetGetByID eng cipher u t' = Inr created \<and> created = target\<lparr>b_id := u\<rparr> \<and>
    (\<exists>pw. t' = t @ [created\<lparr>b_password := pw\<rparr>])"
proof -
  obtain row where row: "encryptPassword cipher nonce (target\<lparr>b_id := u\<rparr>) = Inr row"
      "db_create eng row t = (Inr (), t')" "created = target\<lparr>b_id := u\<rparr>"
    using assms(4) by (auto simp: BMCTargetCreate_def Let_def split: sum.splits prod.splits)
  have t': "t' = t @ [row]" and fresh: "\<forall>y \<in> set t. \<not> bmc_clash y row"
    using sql_engine.db_create_Inr [OF reliable_engine.axioms(1) [OF assms(1)] row(2)] by auto
  have keep: "row = created\<lparr>b_password := b_password row\<rparr>"
    using encrypt_keeps [OF row(1)] row(3) by simp
  have "b_id (created\<lparr>b_password := b_password row\<rparr>) = u" using row(3) by simp
  then have "b_id row = u" using keep by metis
  then have "db_first eng (\<lambda>b. b_id b = u) t' = Inr row"
    using fresh by (intro first_of_unique [OF assms(1)]) (auto simp: t' bmc_clash_def)
  moreover have "decryptPassword cipher row = created"
    using decrypt_encrypted [OF _ row(1)] assms(3) row(3) by blast
  ultimately show ?thesis using row(3) t' keep by (auto simp: BMCTargetGetByID_def)
qed

definition sample_target :: bmc_target where
  "sample_target =
     \<lparr>b_id = [], b_name = ''bmc'', b_endpoint = ''https://10.0.0.1'', b_vendor = ''generic'',
      b_username = ''admin'', b_password = ''secret'', b_verify_ssl = True, b_system_id = [],
      b_image_url = [], b_node_id = [], b_eject_after_install = False, b_eject_power_cycle = False,
      b_last_status = [], b_last_error = [], b_last_inspect_at = None, b_last_ping_at = None,
      b_last_model = [], b_last_manufacturer = [], b_last_serial = [], b_last_memory_gib = 0,
      b_last_cpu_count = 0, b_last_features = []\<rparr>"

definition sample_aead :: aead where
  "sample_aead = \<lparr>nonce_size = 1, seal = \<lambda>n p. rev p, unseal = \<lambda>n s. Some (rev s)\<rparr>"

theorem bmc_target_round_trip_witness:
  "BMCTargetGetByID (mem_engine b_id bmc_clash) (Some sample_aead) ''b1''
     (snd (BMCTargetCreate (mem_engine b_id bmc_clash) (Some sample_aead) (Some ''N'') ''b1'' sample_target []))
   = Inr (sample_target\<lparr>b_id := ''b1''\<rparr>) \<and>
   fst (BMCTargetCreate (mem_engine b_id bmc_clash) (Some sample_aead) (Some ''N'') ''b1'' sample_target [])
   = Inr (sample_target\<lparr>b_id := ''b1''\<rparr>)"
proof -
  let ?create = "BMCTargetCreate (mem_engine b_id bmc_clash) (Some sample_aead) (Some ''N'') ''b1'' sample_target []"
  have ok: "fst ?create = Inr (sample_target\<lparr>b_id := ''b1''\<rparr>)"
    by (simp add: BMCTargetCreate_def encryptPassword_def Encrypt_def sample_target_def db_create_def)
  have "?create = (Inr (sample_target\<lparr>b_id := ''b1''\<rparr>), snd ?create)"
    using ok by (metis prod.collapse)
  from bmc_target_round_trip [OF mem_reliable _ _ this] ok
  show ?thesis by (simp add: unique_rows_def sample_aead_def aead_opens_def)
qed

text \<open>
  A stored password that the configured key cannot decrypt is handed out as if it were the
  password: the read succeeds and returns the stored bytes.
\<close>
theorem undecryptable_password_passed_on:
  assumes "reliable_engine eng b_id bmc_clash" and "unique_rows bmc_clash t" and "row \<in> set t"
    and "Decrypt c (b_password row) = Inl e"
  shows "BMCTargetGetByID eng (Some c) (b_id row) t = Inr row"
proof -
  have "distinct (map b_id t)"
    using unique_pk [OF assms(2), of b_id] by (simp add: bmc_clash_def)
  then have "db_first eng (\<lambda>b. b_id b = b_id row) t = Inr row"
    using assms(3) by (intro first_of_unique [OF assms(1)]) (auto simp: distinct_map inj_on_def)
  then show ?thesis using assms(4) by (simp add: BMCTargetGetByID_def decryptPassword_def)
qed

theorem undecryptable_password_passed_on_witness:
  "BMCTargetGetByID (mem_engine b_id bmc_clash) (Some sample_aead) ''b1''
     [sample_target\<lparr>b_id := ''b1'', b_password := ''not base64''\<rparr>]
   = Inr (sample_target\<lparr>b_id := ''b1'', b_password := ''not base64''\<rparr>)"
  using undecryptable_password_passed_on [OF mem_reliable,
      where t = "[sample_target\<lparr>b_id := ''b1'', b_password := ''not base64''\<rparr>]"
        and row = "sample_target\<lparr>b_id := ''b1'', b_password := ''not base64''\<rparr>"
        and c = sample_aead and e = BadBase64]
  by (simp add: unique_rows_def Decrypt_def b64_decode_def b64_val_def)

text \<open>
  Settings are last-write-wins: after a Set, Get returns the new value for that key and
  what it returned before for every other key.
\<close>
theorem setting_set_get:
  assumes "reliable_engine eng s_key setting_clash" and "unique_rows setting_clash t"
  shows "\<exists>t'. SettingSet eng now k v t = (Inr (), t') \<and> unique_rows setting_clash t' \<and>
    SettingGet eng k t' = Inr (v, True) \<and>
    (\<forall>k'. k' \<noteq> k \<longrightarrow> SettingGet eng k' t' = SettingGet eng k' t)"
proof -
  let ?s = "\<lparr>s_key = k, s_value = v, s_updated_at = now\<rparr>"
  let ?t' = "save_row s_key ?s t"
  have u: "unique_rows setting_clash ?t'"
  proof (cases "\<exists>y \<in> set t. s_key y = k")
    case True
    have "unique_rows setting_clash (update_rows (\<lambda>y. s_key y = k) (\<lambda>_. ?s) t)"
      by (rule unique_rows_update_mono [OF assms(2)]) (auto simp: setting_clash_def split: if_splits)
    then show ?thesis using True by (simp add: save_row_def)
  next
    case False
    then show ?thesis using assms(2) by (auto simp: save_row_def unique_rows_def sorted_wrt_append setting_clash_def)
  qed
  have key: "x = y" if "x \<in> set t''" "y \<in> set t''" "s_key x = s_key y" "unique_rows setting_clash t''" for x y t''
    by (rule unique_rows_inj [OF that(4) _ that(1,2)]) (auto simp: setting_clash_def that(3))
  have one: "db_first eng (\<lambda>s. s_key s = s_key y) t'' = Inr y" if "unique_rows setting_clash t''" "y \<in> set t''" for t'' y
    by (rule first_of_unique [OF assms(1) that(2)]) (use key that in auto)
  have "?s \<in> set ?t'" by (auto simp: save_row_def set_update_rows)
  then have get: "SettingGet eng k ?t' = Inr (v, True)"
    using one [OF u, of ?s] by (simp add: SettingGet_def)
  have "SettingGet eng k' ?t' = SettingGet eng k' t" if "k' \<noteq> k" for k'
  proof (cases "\<exists>y \<in> set t. s_key y = k'")
    case True
    then obtain y where y: "y \<in> set t" "s_key y = k'" by blast
    then have "y \<in> set ?t'" using that by (auto simp: save_row_def set_update_rows)
    then show ?thesis using one [OF u, of y] one [OF assms(2) y(1)] y(2) by (simp add: SettingGet_def)
  next
    case False
    then have "\<And>y. y \<in> set ?t' \<Longrightarrow> s_key y \<noteq> k'" using that
      by (auto simp: save_row_def set_update_rows split: if_splits)
    then show ?thesis
      using False reliable_engine.db_first_missing [OF assms(1)] by (simp add: SettingGet_def)
  qed
  moreover have "SettingSet eng now k v t = (Inr (), ?t')"
    using reliable_engine.db_save_total [OF assms(1) u] by (simp add: SettingSet_def)
  ultimately show ?thesis using u get by blast
qed

theorem setting_set_get_witness:
  "SettingGet (mem_engine s_key setting_clash) ''k''
     (snd (SettingSet (mem_engine s_key setting_clash) 3 ''k'' ''v'' [])) = Inr (''v'', True)"
  using setting_set_get [OF mem_reliable, of "[]" 3 "''k''" "''v''"] by (auto simp: unique_rows_def)

end
