(* ===== verification/Keyed_Table.thy ===== *)
theory Keyed_Table
  imports Store_Model
begin

text \<open>
  Tables whose only unique column is the primary key, seen as maps from keys to rows: what each
  statement of a reliable engine does to the map. Deployments, BMC targets, settings and
  commands are such tables; the handlers' proofs work on the maps.
\<close>

definition row_map :: "('r \<Rightarrow> string) \<Rightarrow> 'r list \<Rightarrow> string \<Rightarrow> 'r option" where
  "row_map pk t = map_of (map (\<lambda>x. (pk x, x)) t)"

lemma row_map_simps [simp]:
  "row_map pk [] = Map.empty"
  "row_map pk (x # t) = (row_map pk t)(pk x \<mapsto> x)"
  by (simp_all add: row_map_def)

lemma row_map_Some: "row_map pk t k = Some x \<Longrightarrow> x \<in> set t \<and> pk x = k"
  by (induction t) (auto split: if_splits)

lemma row_map_None: "row_map pk t k = None \<longleftrightarrow> (\<forall>x \<in> set t. pk x \<noteq> k)"
  by (induction t) auto

lemma row_map_distinct: "distinct (map pk t) \<Longrightarrow> x \<in> set t \<Longrightarrow> row_map pk t (pk x) = Some x"
  by (induction t) (auto simp: image_iff)

lemma row_map_in: "distinct (map pk t) \<Longrightarrow> row_map pk t k = Some x \<longleftrightarrow> x \<in> set t \<and> pk x = k"
  using row_map_Some row_map_distinct by metis

lemma row_map_append: "\<forall>y \<in> set t. pk y \<noteq> pk x \<Longrightarrow> row_map pk (t @ [x]) = (row_map pk t)(pk x \<mapsto> x)"
  by (induction t) (auto simp: fun_upd_twist)

lemma row_map_update:
  assumes "distinct (map pk t)" and "\<And>x. pk (f x) = pk x"
  shows "row_map pk (update_rows (\<lambda>x. pk x = k \<and> q x) f t) =
    (case row_map pk t k of Some x \<Rightarrow> if q x then (row_map pk t)(k \<mapsto> f x) else row_map pk t | None \<Rightarrow> row_map pk t)"
  using assms(1)
proof (induction t)
  case (Cons y t)
  show ?case
  proof (cases "pk y = k")
    case True
    then have "k \<notin> pk ` set t" using Cons.prems by simp
    then have "row_map pk t k = None" unfolding row_map_None by blast
    moreover have "update_rows (\<lambda>x. pk x = k \<and> q x) f t = t"
      using \<open>k \<notin> pk ` set t\<close> by (intro update_rows_id) blast
    ultimately show ?thesis using True assms(2) by auto
  next
    case False
    then show ?thesis using Cons by (auto simp: fun_upd_twist split: option.splits)
  qed
qed simp

lemma row_map_update_at:
  assumes "distinct (map pk t)" and "\<And>x. pk x = k \<Longrightarrow> pk (f x) = k"
  shows "row_map pk (update_rows (\<lambda>x. pk x = k \<and> q x) f t) =
    (case row_map pk t k of Some x \<Rightarrow> if q x then (row_map pk t)(k \<mapsto> f x) else row_map pk t | None \<Rightarrow> row_map pk t)"
proof -
  let ?f = "\<lambda>x. if pk x = k then f x else x"
  have "update_rows (\<lambda>x. pk x = k \<and> q x) f t = update_rows (\<lambda>x. pk x = k \<and> q x) ?f t" by (simp add: update_rows_def)
  moreover have "\<And>x. pk (?f x) = pk x" using assms(2) by simp
  ultimately show ?thesis using row_map_update [OF assms(1), of ?f k q] by (auto dest: row_map_Some split: option.splits)
qed

lemma row_map_save: "distinct (map pk t) \<Longrightarrow> row_map pk (save_row pk x t) = (row_map pk t)(pk x \<mapsto> x)"
proof (cases "\<exists>y \<in> set t. pk y = pk x")
  case True
  assume d: "distinct (map pk t)"
  then show ?thesis
    using True
  proof (induction t)
    case (Cons y t)
    show ?case
    proof (cases "pk y = pk x")
      case True
      then have "update_rows (\<lambda>z. pk z = pk x) (\<lambda>z. x) t = t"
        using Cons.prems by (intro update_rows_id) (auto simp: image_iff)
      then show ?thesis using True by (auto simp: save_row_def)
    next
      case False
      then have "\<exists>z \<in> set t. pk z = pk x" using Cons.prems by auto
      then show ?thesis using Cons False by (auto simp: save_row_def fun_upd_twist)
    qed
  qed simp
next
  case False
  then show ?thesis using row_map_append [of t pk x] by (auto simp: save_row_def)
qed

lemma distinct_save: "distinct (map pk t) \<Longrightarrow> distinct (map pk (save_row pk x t))"
proof -
  have "map pk (update_rows (\<lambda>z. pk z = pk x) (\<lambda>z. x) t) = map pk t"
    by (induction t) auto
  then show "distinct (map pk t) \<Longrightarrow> distinct (map pk (save_row pk x t))"
    by (auto simp: save_row_def)
qed

lemma row_map_filter:
  "distinct (map pk t) \<Longrightarrow> row_map pk (filter (\<lambda>x. pk x \<noteq> k) t) = (row_map pk t)(k := None)"
  by (induction t) (auto simp: fun_eq_iff row_map_None)

text \<open>The contract, with the clash of rows being equality of keys.\<close>

locale keyed_engine = reliable_engine +
  assumes clash_key: "clash x y \<longleftrightarrow> pk x = pk y"
begin

lemma unique_distinct: "unique_rows clash t \<longleftrightarrow> distinct (map pk t)"
  by (induction t) (auto simp: unique_rows_def clash_key)

lemma first_map:
  "distinct (map pk t) \<Longrightarrow>
     db_first eng (\<lambda>x. pk x = k) t = (case row_map pk t k of Some x \<Rightarrow> Inr x | None \<Rightarrow> Inl RecordNotFound)"
proof (cases "row_map pk t k")
  case None
  then show ?thesis using db_first_missing [of t "\<lambda>x. pk x = k"] None row_map_None [of pk t k] by simp
next
  case (Some x)
  assume d: "distinct (map pk t)"
  have x: "x \<in> set t" "pk x = k" using row_map_Some [OF Some] by auto
  then obtain y where "db_first eng (\<lambda>x. pk x = k) t = Inr y" "y \<in> set t" "pk y = k"
    using db_first_total [of x t "\<lambda>x. pk x = k"] by blast
  then show ?thesis using row_map_distinct [OF d] Some by force
qed

lemma save_map:
  assumes "distinct (map pk t)"
  shows "\<exists>t'. db_save eng x t = (Inr (), t') \<and> distinct (map pk t') \<and> row_map pk t' = (row_map pk t)(pk x \<mapsto> x)"
proof -
  have "db_save eng x t = (Inr (), save_row pk x t)"
    by (rule db_save_total) (simp add: unique_distinct distinct_save)
  then show ?thesis using distinct_save [OF assms] row_map_save [OF assms] by simp
qed

lemma create_map:
  assumes "distinct (map pk t)" and "row_map pk t (pk x) = None"
  shows "\<exists>t'. db_create eng x t = (Inr (), t') \<and> distinct (map pk t') \<and> row_map pk t' = (row_map pk t)(pk x \<mapsto> x)"
proof -
  have fresh: "\<forall>y \<in> set t. pk y \<noteq> pk x" using assms(2) by (simp add: row_map_None)
  have "db_create eng x t = (Inr (), t @ [x])" by (rule db_create_total) (use fresh in \<open>simp add: clash_key\<close>)
  then show ?thesis using fresh assms(1) row_map_append [of t pk x] by auto
qed

lemma updates_map:
  assumes "distinct (map pk t)" and "\<And>x. pk (f x) = pk x"
  shows "\<exists>t'. db_updates eng (\<lambda>x. pk x = k \<and> q x) f t =
      (Inr (case row_map pk t k of Some x \<Rightarrow> if q x then 1 else 0 | None \<Rightarrow> 0), t') \<and> distinct (map pk t') \<and>
    row_map pk t' =
      (case row_map pk t k of Some x \<Rightarrow> if q x then (row_map pk t)(k \<mapsto> f x) else row_map pk t | None \<Rightarrow> row_map pk t)"
proof -
  let ?t = "update_rows (\<lambda>x. pk x = k \<and> q x) f t"
  have keys: "map pk ?t = map pk t" using assms(2) by (simp add: map_update_rows)
  have "db_updates eng (\<lambda>x. pk x = k \<and> q x) f t = (Inr (length (filter (\<lambda>x. pk x = k \<and> q x) t)), ?t)"
    by (rule db_updates_total) (simp add: unique_distinct keys)
  moreover have "length (filter (\<lambda>x. pk x = k \<and> q x) t) = (case row_map pk t k of Some x \<Rightarrow> if q x then 1 else 0 | None \<Rightarrow> 0)"
  proof (cases "row_map pk t k")
    case None
    then show ?thesis using row_map_None [of pk t k] by (simp add: filter_empty_conv)
  next
    case (Some x)
    have "(\<exists>y \<in> set t. pk y = k \<and> q y) \<longleftrightarrow> q x" using Some row_map_in [OF assms(1), of k] by (metis option.inject)
    then show ?thesis using distinct_filter_one [OF assms(1), of k q] Some by simp
  qed
  ultimately show ?thesis using keys assms(1) row_map_update [OF assms(1), of f k q] assms(2) by auto
qed

end

lemma keyed_engineI: "reliable_engine eng pk clash \<Longrightarrow> (\<And>x y. clash x y \<longleftrightarrow> pk x = pk y) \<Longrightarrow> keyed_engine eng pk clash"
  by (simp add: keyed_engine_def keyed_engine_axioms_def)

interpretation deployments: keyed_engine "mem_engine d_id dep_clash" d_id dep_clash
  by unfold_locales (simp add: dep_clash_def)

interpretation targets: keyed_engine "mem_engine b_id bmc_clash" b_id bmc_clash
  by unfold_locales (simp add: bmc_clash_def)

interpretation settings: keyed_engine "mem_engine s_key setting_clash" s_key setting_clash
  by unfold_locales (simp add: setting_clash_def)

interpretation commands: keyed_engine "mem_engine c_id cmd_clash" c_id cmd_clash
  by unfold_locales (simp add: cmd_clash_def)

end
