(* ===== verification/Redfish_Quirks.thy ===== *)
theory Redfish_Quirks
  imports Aurora_Prelude
begin

text \<open>
  Vendor quirk profiles (\<^verbatim>\<open>pkg/redfish/quirks.go\<close>, \<^verbatim>\<open>quirkviews.go\<close>,
  \<^verbatim>\<open>quirks_vendor.go\<close>, \<^verbatim>\<open>quirkprofile.go\<close>) and the pure helpers of
  the deployer (\<^verbatim>\<open>helpers.go\<close> and the answers a hook gives, in
  \<^verbatim>\<open>deployer.go\<close>). A nil hook is \<open>None\<close>. The Redfish enumerations are the
  strings of the DMTF schemas. The \<^verbatim>\<open>pushMedia\<close> seam is left out: no profile sets it.
\<close>

section \<open>Redfish values\<close>

abbreviation OnResetType :: string where "OnResetType \<equiv> ''On''"
abbreviation ForceOnResetType :: string where "ForceOnResetType \<equiv> ''ForceOn''"
abbreviation ForceOffResetType :: string where "ForceOffResetType \<equiv> ''ForceOff''"
abbreviation GracefulShutdownResetType :: string where "GracefulShutdownResetType \<equiv> ''GracefulShutdown''"
abbreviation ForceRestartResetType :: string where "ForceRestartResetType \<equiv> ''ForceRestart''"
abbreviation GracefulRestartResetType :: string where "GracefulRestartResetType \<equiv> ''GracefulRestart''"
abbreviation OffPowerState :: string where "OffPowerState \<equiv> ''Off''"
abbreviation CDMediaType :: string where "CDMediaType \<equiv> ''CD''"
abbreviation DVDMediaType :: string where "DVDMediaType \<equiv> ''DVD''"
abbreviation CompletedTaskState :: string where "CompletedTaskState \<equiv> ''Completed''"
abbreviation ExceptionTaskState :: string where "ExceptionTaskState \<equiv> ''Exception''"
abbreviation KilledTaskState :: string where "KilledTaskState \<equiv> ''Killed''"
abbreviation CancelledTaskState :: string where "CancelledTaskState \<equiv> ''Cancelled''"

text \<open>
  The parts of gofish's resources the code reads. The allowable reset types, which gofish looks
  up on request and whose lookup errors the code drops, are those of the snapshot; the memory
  size is already cut to an integer; \<open>cs_raw_modes\<close> and \<open>cs_raw_secure_boot\<close> are what
  decoding the raw JSON for the two annotations yields, \<open>None\<close> when that fails.
\<close>

record computer_system =
  cs_id :: string
  cs_odata_id :: string
  cs_power_state :: string
  cs_reset_types :: "string list"
  cs_name :: string
  cs_model :: string
  cs_manufacturer :: string
  cs_serial :: string
  cs_memory_gib :: "int option"
  cs_processors :: "int option"
  cs_raw_modes :: "string list option"
  cs_boot_mode :: string
  cs_boot_targets :: "string list"
  cs_raw_secure_boot :: "string option"

record virtual_media =
  vm_id :: string
  vm_odata_id :: string
  vm_media_types :: "string list"
  vm_connected_via :: string
  vm_inserted :: "bool option"

record task =
  t_state :: string
  t_percent :: "int option"
  t_messages :: "string list"

record task_info =
  ti_monitor :: string
  ti_task_odata :: "string option"

record insert_params =
  ip_image :: string
  ip_inserted :: "bool option"
  ip_write_protected :: "bool option"
  ip_media_type :: string
  ip_protocol :: "string option"

section \<open>Helpers\<close>

abbreviation taskPollFloor :: int where "taskPollFloor \<equiv> 80"
abbreviation taskPollCeil :: int where "taskPollCeil \<equiv> 95"

definition taskPollPercent :: "task \<Rightarrow> int" where
  "taskPollPercent t =
     (case t_percent t of
        None \<Rightarrow> taskPollFloor
      | Some v \<Rightarrow>
          (let p = (if v < 0 then 0 else if v > 100 then 100 else v)
           in taskPollFloor + (taskPollCeil - taskPollFloor) * p div 100))"

definition mediaSupportsCD :: "virtual_media \<Rightarrow> bool" where
  "mediaSupportsCD vm = list_ex (\<lambda>t. t = CDMediaType \<or> t = DVDMediaType) (vm_media_types vm)"

definition bootSource :: "string \<Rightarrow> string" where
  "bootSource t = (if t = ''Usb'' then ''Usb'' else if t = ''Cd'' then ''Cd'' else ''Cd'')"

definition bootMode :: "string \<Rightarrow> string" where
  "bootMode m = (if m = ''Legacy'' then ''Legacy'' else if m = ''UEFI'' then ''UEFI'' else [])"

text \<open>The preferences are never empty at a call.\<close>

definition firstSupported :: "string list \<Rightarrow> string list \<Rightarrow> string" where
  "firstSupported allowed preferences =
     (if allowed = [] then hd preferences
      else case find (\<lambda>p. p \<in> set allowed) preferences of
        Some p \<Rightarrow> p
      | None \<Rightarrow> hd preferences)"

definition chooseResetType :: "computer_system \<Rightarrow> string" where
  "chooseResetType system =
     (let allowed = cs_reset_types system in
      if cs_power_state system = OffPowerState
      then firstSupported allowed [OnResetType, ForceOnResetType]
      else firstSupported allowed [ForceRestartResetType, GracefulRestartResetType, OnResetType])"

definition isKnownTaskState :: "string \<Rightarrow> bool" where
  "isKnownTaskState s =
     (s \<in> {''New'', ''Starting'', ''Running'', ''Suspended'', ''Interrupted'', ''Pending'', ''Stopping'',
          CompletedTaskState, KilledTaskState, ExceptionTaskState, ''Service'', ''Cancelling'', CancelledTaskState})"

definition isTerminalTaskState :: "string \<Rightarrow> bool" where
  "isTerminalTaskState s =
     (s \<in> {CompletedTaskState, ExceptionTaskState, KilledTaskState, CancelledTaskState})"

definition taskMessages :: "task \<Rightarrow> string list" where
  "taskMessages t = filter (\<lambda>m. m \<noteq> []) (t_messages t)"

fun pickTaskURI :: "task_info option list \<Rightarrow> string" where
  "pickTaskURI [] = []"
| "pickTaskURI (None # infos) = pickTaskURI infos"
| "pickTaskURI (Some info # infos) =
     (if ti_monitor info \<noteq> [] then ti_monitor info
      else case ti_task_odata info of
        Some uri \<Rightarrow> if uri \<noteq> [] then uri else pickTaskURI infos
      | None \<Rightarrow> pickTaskURI infos)"

section \<open>Views and hooks\<close>

record media_view =
  mv_index :: nat
  mv_id :: string
  mv_location :: string
  mv_media_types :: "string list"
  mv_connected_via :: string
  mv_inserted :: bool

record reset_view =
  rv_power_state :: string
  rv_allowable :: "string list"
  rv_default :: string

record insert_view =
  iv_media_type :: string
  iv_protocol :: string
  iv_inserted :: bool
  iv_inserted_set :: bool
  iv_write_protected :: bool
  iv_write_protected_set :: bool
  iv_has_image :: bool

record insert_patch =
  pt_media_type :: string
  pt_clear_protocol :: bool
  pt_protocol :: string
  pt_inserted :: bool
  pt_inserted_set :: bool
  pt_write_protected :: bool
  pt_write_protected_set :: bool

record quirks =
  q_name :: string
  q_media_search :: "(media_view list \<Rightarrow> int list) option"
  q_media_type :: "(media_view \<Rightarrow> string) option"
  q_reset_type :: "(reset_view \<Rightarrow> string) option"
  q_tune_insert :: "(insert_view \<Rightarrow> insert_patch) option"

definition no_hooks :: "string \<Rightarrow> quirks" where
  "no_hooks name =
     \<lparr>q_name = name, q_media_search = None, q_media_type = None, q_reset_type = None, q_tune_insert = None\<rparr>"

definition genericQuirks :: quirks where
  "genericQuirks = no_hooks ''generic''"

definition managerFirstMediaSearch :: "media_view list \<Rightarrow> int list" where
  "managerFirstMediaSearch media =
     (let managerIdx = map (\<lambda>m. int (mv_index m)) (filter (\<lambda>m. HasPrefix (mv_location m) ''manager:'') media);
          systemIdx = map (\<lambda>m. int (mv_index m)) (filter (\<lambda>m. \<not> HasPrefix (mv_location m) ''manager:'') media)
      in if managerIdx = [] then [] else managerIdx @ systemIdx)"

definition iloQuirks :: quirks where
  "iloQuirks = (no_hooks ''ilo'')\<lparr>q_media_search := Some managerFirstMediaSearch\<rparr>"

definition supermicroQuirks :: quirks where
  "supermicroQuirks = no_hooks ''supermicro''"

definition quirksFor :: "string \<Rightarrow> quirks" where
  "quirksFor v =
     (if v = ''ilo'' then iloQuirks
      else if v = ''supermicro'' then supermicroQuirks
      else if v = ''generic'' \<or> v = ''dmtf'' \<or> v = [] then genericQuirks
      else genericQuirks)"

definition builtinQuirks :: "(string \<times> quirks) list" where
  "builtinQuirks = [(''generic'', genericQuirks), (''ilo'', iloQuirks), (''supermicro'', supermicroQuirks)]"

definition quirksByName :: "string \<Rightarrow> quirks option" where
  "quirksByName name = map_of builtinQuirks name"

section \<open>What the core does with a hook's answer\<close>

definition defaultMediaOrder :: "nat \<Rightarrow> nat list" where
  "defaultMediaOrder n = [0..<n]"

fun sanitize_from :: "int list \<Rightarrow> nat \<Rightarrow> nat list \<Rightarrow> nat list" where
  "sanitize_from [] n out = out"
| "sanitize_from (i # is) n out =
     (if i < 0 \<or> i \<ge> int n \<or> nat i \<in> set out then sanitize_from is n out
      else sanitize_from is n (out @ [nat i]))"

definition sanitizeMediaOrder :: "int list \<Rightarrow> nat \<Rightarrow> nat list" where
  "sanitizeMediaOrder order n = sanitize_from order n []"

definition insertParamsView :: "insert_params \<Rightarrow> insert_view" where
  "insertParamsView p =
     \<lparr>iv_media_type = ip_media_type p,
      iv_protocol = (case ip_protocol p of None \<Rightarrow> [] | Some t \<Rightarrow> t),
      iv_inserted = (ip_inserted p = Some True), iv_inserted_set = (ip_inserted p \<noteq> None),
      iv_write_protected = (ip_write_protected p = Some True),
      iv_write_protected_set = (ip_write_protected p \<noteq> None),
      iv_has_image = (ip_image p \<noteq> [])\<rparr>"

definition applyInsertPatch :: "insert_params \<Rightarrow> insert_patch \<Rightarrow> insert_params" where
  "applyInsertPatch p patch =
     (let p1 = (if pt_media_type patch \<noteq> [] then p\<lparr>ip_media_type := pt_media_type patch\<rparr> else p);
          p2 = (if pt_clear_protocol patch then p1\<lparr>ip_protocol := None\<rparr>
                else if pt_protocol patch \<noteq> [] then p1\<lparr>ip_protocol := Some (pt_protocol patch)\<rparr> else p1);
          p3 = (if pt_inserted_set patch then p2\<lparr>ip_inserted := Some (pt_inserted patch)\<rparr> else p2)
      in if pt_write_protected_set patch then p3\<lparr>ip_write_protected := Some (pt_write_protected patch)\<rparr> else p3)"

text \<open>The InsertMedia parameters of \<^verbatim>\<open>insertMedia\<close>, before the action is sent.\<close>

definition insert_parameters :: "quirks \<Rightarrow> media_view \<Rightarrow> string \<Rightarrow> bool \<Rightarrow> insert_params" where
  "insert_parameters q view imageURL https =
     (let params = \<lparr>ip_image = imageURL, ip_inserted = Some True, ip_write_protected = Some True,
                    ip_media_type = (case q_media_type q of None \<Rightarrow> CDMediaType | Some f \<Rightarrow> f view),
                    ip_protocol = Some (if https then ''HTTPS'' else ''HTTP'')\<rparr>
      in case q_tune_insert q of
           None \<Rightarrow> params
         | Some tune \<Rightarrow> applyInsertPatch params (tune (insertParamsView params)))"

text \<open>The ResetType \<^verbatim>\<open>reset\<close> sends.\<close>

definition reset_type :: "quirks \<Rightarrow> string \<Rightarrow> computer_system \<Rightarrow> string" where
  "reset_type q requested system =
     (if requested \<noteq> [] then requested
      else let rt = chooseResetType system in
        case q_reset_type q of
          None \<Rightarrow> rt
        | Some prefer_type \<Rightarrow>
            firstSupported (cs_reset_types system)
              [prefer_type \<lparr>rv_power_state = cs_power_state system, rv_allowable = cs_reset_types system, rv_default = rt\<rparr>, rt])"

section \<open>YAML profiles\<close>

datatype yaml_value = YString string | YBool bool | YOther

record tune_section =
  ts_clear :: "string list"
  ts_set :: "(string \<times> yaml_value) list"

record reset_rule =
  rl_power_state :: string
  rl_then :: string

record quirk_profile =
  p_name :: string
  p_match_vendor :: "string option"
  p_media_search :: "string list option"
  p_media_type :: string
  p_reset_type :: "reset_rule list"
  p_tune :: "tune_section option"
  p_validated_firmware :: string

datatype profile_error =
    DecodeError
  | NameRequired
  | BadMediaType string
  | BadSearchEntry string
  | BadPowerState nat string
  | ThenRequired nat
  | UnknownResetType nat string
  | ImageField
  | NotAllowlisted string

definition allowedMediaTypes :: "string list" where
  "allowedMediaTypes = [''CD'', ''DVD'', ''USBStick'', ''Floppy'']"

definition allowedPowerStates :: "string list" where
  "allowedPowerStates = [''On'', ''Off'', ''*'']"

definition insertParamAllowlist :: "string list" where
  "insertParamAllowlist = [''MediaType'', ''TransferProtocolType'', ''Inserted'', ''WriteProtected'']"

definition knownResetType :: "string \<Rightarrow> bool" where
  "knownResetType s =
     (s \<in> {OnResetType, ForceOnResetType, ForceOffResetType, GracefulShutdownResetType, ForceRestartResetType,
          GracefulRestartResetType, ''Nmi'', ''Pause'', ''Resume'', ''Suspend'', ''PowerCycle''})"

definition validateMediaSearchEntry :: "string \<Rightarrow> profile_error option" where
  "validateMediaSearchEntry entry =
     (if entry = ''system'' \<or> entry = ''manager'' then None
      else if HasPrefix entry ''manager:'' \<and> TrimPrefix entry ''manager:'' \<noteq> [] then None
      else Some (BadSearchEntry entry))"

definition checkInsertParamField :: "string \<Rightarrow> profile_error option" where
  "checkInsertParamField field =
     (if EqualFold field ''Image'' then Some ImageField
      else if field \<notin> set insertParamAllowlist then Some (NotAllowlisted field)
      else None)"

text \<open>The first error of a list of checks, as a loop that returns it.\<close>

fun first_error :: "'e option list \<Rightarrow> 'e option" where
  "first_error [] = None"
| "first_error (Some err # xs) = Some err"
| "first_error (None # xs) = first_error xs"

definition validateTuneInsertParams :: "tune_section \<Rightarrow> profile_error option" where
  "validateTuneInsertParams t =
     first_error (map checkInsertParamField (ts_clear t) @ map (checkInsertParamField \<circ> fst) (ts_set t))"

definition check_reset_rule :: "nat \<times> reset_rule \<Rightarrow> profile_error option" where
  "check_reset_rule = (\<lambda>(i, rule).
     if rl_power_state rule \<notin> set allowedPowerStates then Some (BadPowerState i (rl_power_state rule))
     else if TrimSpace (rl_then rule) = [] then Some (ThenRequired i)
     else if \<not> knownResetType (rl_then rule) then Some (UnknownResetType i (rl_then rule))
     else None)"

definition validate_profile :: "quirk_profile \<Rightarrow> profile_error option" where
  "validate_profile p =
     (if TrimSpace (p_name p) = [] then Some NameRequired
      else if p_media_type p \<noteq> [] \<and> p_media_type p \<notin> set allowedMediaTypes
      then Some (BadMediaType (p_media_type p))
      else first_error
        ((case p_media_search p of None \<Rightarrow> [] | Some order \<Rightarrow> map validateMediaSearchEntry order) @
         map check_reset_rule (enumerate 0 (p_reset_type p)) @
         (case p_tune p of None \<Rightarrow> [] | Some t \<Rightarrow> [validateTuneInsertParams t])))"

definition locationMatches :: "string \<Rightarrow> string \<Rightarrow> bool" where
  "locationMatches sel location =
     (if sel = ''system'' then location = ''system''
      else if sel = ''manager'' then HasPrefix location ''manager:''
      else location = sel)"

definition compileMediaSearch :: "string list \<Rightarrow> media_view list \<Rightarrow> int list" where
  "compileMediaSearch order media =
     concat (map (\<lambda>sel. map (\<lambda>m. int (mv_index m)) (filter (\<lambda>m. locationMatches sel (mv_location m)) media)) order)"

fun compileResetType :: "reset_rule list \<Rightarrow> reset_view \<Rightarrow> string" where
  "compileResetType [] view = rv_default view"
| "compileResetType (rule # rules) view =
     (if rl_power_state rule = ''*'' \<or> EqualFold (rl_power_state rule) (rv_power_state view)
      then rl_then rule
      else compileResetType rules view)"

definition empty_patch :: insert_patch where
  "empty_patch =
     \<lparr>pt_media_type = [], pt_clear_protocol = False, pt_protocol = [], pt_inserted = False,
      pt_inserted_set = False, pt_write_protected = False, pt_write_protected_set = False\<rparr>"

definition clear_field :: "string \<Rightarrow> insert_patch \<Rightarrow> insert_patch" where
  "clear_field field patch =
     (if field = ''TransferProtocolType'' then patch\<lparr>pt_clear_protocol := True\<rparr>
      else if field = ''MediaType'' then patch\<lparr>pt_media_type := []\<rparr>
      else patch)"

definition set_field :: "string \<times> yaml_value \<Rightarrow> insert_patch \<Rightarrow> insert_patch" where
  "set_field = (\<lambda>(field, val) patch.
     case val of
       YString s \<Rightarrow>
         (if field = ''MediaType'' then patch\<lparr>pt_media_type := s\<rparr>
          else if field = ''TransferProtocolType'' then patch\<lparr>pt_protocol := s\<rparr>
          else patch)
     | YBool b \<Rightarrow>
         (if field = ''Inserted'' then patch\<lparr>pt_inserted := b, pt_inserted_set := True\<rparr>
          else if field = ''WriteProtected'' then patch\<lparr>pt_write_protected := b, pt_write_protected_set := True\<rparr>
          else patch)
     | YOther \<Rightarrow> patch)"

definition compileTuneInsertParams :: "tune_section \<Rightarrow> insert_view \<Rightarrow> insert_patch" where
  "compileTuneInsertParams t view = fold set_field (ts_set t) (fold clear_field (ts_clear t) empty_patch)"

definition Compile :: "quirk_profile \<Rightarrow> profile_error + quirks" where
  "Compile p =
     (case validate_profile p of
        Some err \<Rightarrow> Inl err
      | None \<Rightarrow>
          Inr \<lparr>q_name = p_name p,
               q_media_search =
                 (case p_media_search p of
                    Some order \<Rightarrow> if order \<noteq> [] then Some (compileMediaSearch order) else None
                  | None \<Rightarrow> None),
               q_media_type = (if p_media_type p \<noteq> [] then Some (\<lambda>_. p_media_type p) else None),
               q_reset_type = (if p_reset_type p \<noteq> [] then Some (compileResetType (p_reset_type p)) else None),
               q_tune_insert = map_option compileTuneInsertParams (p_tune p)\<rparr>)"

text \<open>\<open>decode\<close> is the strict YAML decoder, which is not part of the repository.\<close>

definition ParseProfile :: "(string \<Rightarrow> quirk_profile option) \<Rightarrow> string \<Rightarrow> profile_error + quirk_profile" where
  "ParseProfile decode data =
     (case decode data of
        None \<Rightarrow> Inl DecodeError
      | Some p \<Rightarrow> (case validate_profile p of Some err \<Rightarrow> Inl err | None \<Rightarrow> Inr p))"

definition LoadProfile :: "(string \<Rightarrow> quirk_profile option) \<Rightarrow> string \<Rightarrow> profile_error + quirks" where
  "LoadProfile decode data =
     (case ParseProfile decode data of Inl err \<Rightarrow> Inl err | Inr p \<Rightarrow> Compile p)"

section \<open>Lemmas\<close>

lemma firstSupported_in:
  "\<exists>p \<in> set prefs. p \<in> set allowed \<Longrightarrow> firstSupported allowed prefs \<in> set allowed"
  by (auto simp: firstSupported_def find_None_iff split: option.splits dest: find_Some_iff_first)

lemma firstSupported_pref: "prefs \<noteq> [] \<Longrightarrow> firstSupported allowed prefs \<in> set prefs"
  by (auto simp: firstSupported_def split: option.splits dest: find_Some_iff_first)

lemma firstSupported_none:
  "prefs \<noteq> [] \<Longrightarrow> \<forall>p \<in> set prefs. p \<notin> set allowed \<Longrightarrow> firstSupported allowed prefs = hd prefs"
  by (auto simp: firstSupported_def split: option.splits dest: find_Some_iff_first)

lemma applyInsertPatch_image [simp]: "ip_image (applyInsertPatch p patch) = ip_image p"
  by (simp add: applyInsertPatch_def Let_def)

lemma applyInsertPatch_other_image:
  "applyInsertPatch (p\<lparr>ip_image := u\<rparr>) patch = (applyInsertPatch p patch)\<lparr>ip_image := u\<rparr>"
  by (simp add: applyInsertPatch_def Let_def)

lemma insertParamsView_other_image:
  "u \<noteq> [] \<Longrightarrow> ip_image p \<noteq> [] \<Longrightarrow> insertParamsView (p\<lparr>ip_image := u\<rparr>) = insertParamsView p"
  by (simp add: insertParamsView_def)

lemma sanitize_from_props:
  "distinct out \<Longrightarrow> set out \<subseteq> {..<n} \<Longrightarrow>
     distinct (sanitize_from order n out) \<and>
     set (sanitize_from order n out) = set out \<union> {i. i < n \<and> int i \<in> set order}"
proof (induction order n out rule: sanitize_from.induct)
  case (2 i "is" n out)
  show ?case
  proof (cases "i < 0 \<or> i \<ge> int n \<or> nat i \<in> set out")
    case True
    have "{j. j < n \<and> int j \<in> set (i # is)} \<union> set out = {j. j < n \<and> int j \<in> set is} \<union> set out"
      using True by auto
    then show ?thesis using 2 True by auto
  next
    case False
    then have "set (out @ [nat i]) \<union> {j. j < n \<and> int j \<in> set is} = set out \<union> {j. j < n \<and> int j \<in> set (i # is)}"
      by auto
    moreover have "distinct (out @ [nat i])" "set (out @ [nat i]) \<subseteq> {..<n}" using 2 False by auto
    ultimately show ?thesis using 2 False by simp
  qed
qed auto

lemma first_error_None: "first_error xs = None \<longleftrightarrow> (\<forall>x \<in> set xs. x = None)"
  by (induction xs rule: first_error.induct) auto

lemma check_field_None:
  "checkInsertParamField f = None \<longleftrightarrow> f \<in> set insertParamAllowlist \<and> \<not> EqualFold f ''Image''"
  by (simp add: checkInsertParamField_def)

lemma validate_tune:
  "validateTuneInsertParams t = None \<longleftrightarrow>
     (\<forall>f \<in> set (ts_clear t) \<union> fst ` set (ts_set t). f \<in> set insertParamAllowlist \<and> \<not> EqualFold f ''Image'')"
  by (simp add: validateTuneInsertParams_def first_error_None check_field_None ball_Un)

lemma clear_fields:
  "fold clear_field fs patch =
     patch\<lparr>pt_clear_protocol := pt_clear_protocol patch \<or> ''TransferProtocolType'' \<in> set fs,
           pt_media_type := (if ''MediaType'' \<in> set fs then [] else pt_media_type patch)\<rparr>"
  by (induction fs arbitrary: patch) (auto simp: clear_field_def)

section \<open>Properties\<close>

text \<open>
  The image URL is out of a profile's reach: whatever its hooks compute, the InsertMedia
  request carries exactly the requested URL, and for any other URL the request differs in
  nothing but that URL, so the hooks did not see it either.
\<close>
theorem profile_never_sees_image_url:
  assumes "u \<noteq> []" and "u' \<noteq> []"
  shows "ip_image (insert_parameters q view u https) = u \<and>
    insert_parameters q view u' https = (insert_parameters q view u https)\<lparr>ip_image := u'\<rparr>"
proof -
  define P where "P = (\<lambda>x. \<lparr>ip_image = x, ip_inserted = Some True, ip_write_protected = Some True,
      ip_media_type = (case q_media_type q of None \<Rightarrow> CDMediaType | Some f \<Rightarrow> f view),
      ip_protocol = Some (if https then ''HTTPS'' else ''HTTP'')\<rparr>)"
  have P: "ip_image (P x) = x" "P u' = (P u)\<lparr>ip_image := u'\<rparr>" for x by (simp_all add: P_def)
  have params: "insert_parameters q view x https =
      (case q_tune_insert q of None \<Rightarrow> P x | Some tune \<Rightarrow> applyInsertPatch (P x) (tune (insertParamsView (P x))))" for x
    unfolding insert_parameters_def P_def Let_def ..
  have "insertParamsView (P u') = insertParamsView (P u)"
    using insertParamsView_other_image [OF assms(2), of "P u"] assms(1) P by simp
  then show ?thesis
    unfolding params by (cases "q_tune_insert q") (simp_all add: P applyInsertPatch_other_image)
qed

theorem profile_never_sees_image_url_witness:
  "ip_image (insert_parameters (iloQuirks\<lparr>q_tune_insert := Some (\<lambda>v. empty_patch\<lparr>pt_protocol := iv_media_type v\<rparr>)\<rparr>)
     \<lparr>mv_index = 0, mv_id = ''Cd'', mv_location = ''system'', mv_media_types = [''CD''], mv_connected_via = [],
      mv_inserted = False\<rparr> ''http://a/iso'' False) = ''http://a/iso''"
  using profile_never_sees_image_url [of "''http://a/iso''" "''http://b/iso''"] by simp

text \<open>
  A profile orders the candidates it was shown and nothing else: the order the core uses
  contains every in-range index the hook named, each once, and no other.
\<close>
theorem sanitized_order_is_a_selection:
  "distinct (sanitizeMediaOrder order n) \<and>
   set (sanitizeMediaOrder order n) = {i. i < n \<and> int i \<in> set order}"
  using sanitize_from_props [of "[]" n order] by (simp add: sanitizeMediaOrder_def)

text \<open>
  A profile cannot force an unsupported reset as long as the core itself knows a supported
  one: whatever the hook prefers, the reset that is sent is among the system's advertised types
  whenever the core's own default is; and a reset type the caller asked for is sent as it is.
\<close>
theorem reset_type_revalidated:
  assumes "chooseResetType system \<in> set (cs_reset_types system)"
  shows "reset_type q [] system \<in> set (cs_reset_types system) \<and> (rt \<noteq> [] \<longrightarrow> reset_type q rt system = rt)"
  using assms by (auto simp: reset_type_def Let_def split: option.splits intro!: firstSupported_in)

definition sample_system :: computer_system where
  "sample_system = \<lparr>cs_id = ''1'', cs_odata_id = ''/redfish/v1/Systems/1'', cs_power_state = ''On'',
     cs_reset_types = [''On'', ''ForceRestart''], cs_name = ''node'', cs_model = ''R1'', cs_manufacturer = ''Acme'',
     cs_serial = ''S1'', cs_memory_gib = Some 64, cs_processors = Some 2, cs_raw_modes = Some [''Legacy'', ''UEFI''],
     cs_boot_mode = [], cs_boot_targets = [], cs_raw_secure_boot = None\<rparr>"

theorem reset_type_revalidated_witness:
  "reset_type ((no_hooks ''x'')\<lparr>q_reset_type := Some (\<lambda>_. ''Nmi'')\<rparr>) [] sample_system \<in> {''On'', ''ForceRestart''}"
  using reset_type_revalidated [of sample_system "(no_hooks ''x'')\<lparr>q_reset_type := Some (\<lambda>_. ''Nmi'')\<rparr>"]
  by (simp add: sample_system_def chooseResetType_def firstSupported_def)

text \<open>
  The re-validation does not fall back to the core default: when the system supports
  neither the hook's preference nor the default, the hook's unsupported type is what is sent.
\<close>
theorem unsupported_preference_is_sent:
  assumes "q_reset_type q = Some prefer_type" and "chooseResetType system \<notin> set (cs_reset_types system)"
    and "\<forall>view. prefer_type view \<notin> set (cs_reset_types system)"
  shows "\<exists>view. reset_type q [] system = prefer_type view \<and> rv_default view = chooseResetType system"
  using assms firstSupported_none [where allowed = "cs_reset_types system"]
  by (auto simp: reset_type_def Let_def)

theorem unsupported_preference_is_sent_witness:
  "reset_type ((no_hooks ''x'')\<lparr>q_reset_type := Some (\<lambda>_. ''Nmi'')\<rparr>) []
     (sample_system\<lparr>cs_reset_types := [''PowerCycle'']\<rparr>) = ''Nmi''"
  using unsupported_preference_is_sent [of "(no_hooks ''x'')\<lparr>q_reset_type := Some (\<lambda>_. ''Nmi'')\<rparr>" "\<lambda>_. ''Nmi''"
      "sample_system\<lparr>cs_reset_types := [''PowerCycle'']\<rparr>"]
  by (simp add: sample_system_def chooseResetType_def firstSupported_def)

text \<open>
  A profile that compiles patches allowlisted InsertMedia fields only: none of its clear or
  set entries is the image under any casing. Of its clear list only TransferProtocolType has an
  effect: clearing MediaType, Inserted or WriteProtected changes no parameter.
\<close>
theorem compiled_profile_patches_allowlist:
  assumes "Compile p = Inr q" and "p_tune p = Some t"
  shows "(\<forall>f \<in> set (ts_clear t) \<union> fst ` set (ts_set t). f \<in> set insertParamAllowlist \<and> ToLower f \<noteq> ''image'') \<and>
    (ts_set t = [] \<longrightarrow> ''TransferProtocolType'' \<notin> set (ts_clear t) \<longrightarrow>
       (\<exists>tune. q_tune_insert q = Some tune \<and> (\<forall>params. applyInsertPatch params (tune (insertParamsView params)) = params)))"
proof -
  have v: "validate_profile p = None" and q: "q_tune_insert q = Some (compileTuneInsertParams t)"
    using assms by (auto simp: Compile_def split: option.splits)
  have "validateTuneInsertParams t = None"
    using v assms(2) by (auto simp: validate_profile_def first_error_None split: if_splits)
  then have "\<forall>f \<in> set (ts_clear t) \<union> fst ` set (ts_set t). f \<in> set insertParamAllowlist \<and> ToLower f \<noteq> ''image''"
    unfolding validate_tune EqualFold_def by (simp add: go_strings)
  moreover have "applyInsertPatch params (compileTuneInsertParams t (insertParamsView params)) = params"
    if "ts_set t = []" "''TransferProtocolType'' \<notin> set (ts_clear t)" for params
    using that by (simp add: compileTuneInsertParams_def clear_fields empty_patch_def applyInsertPatch_def)
  ultimately show ?thesis using q by auto
qed

definition sample_profile :: quirk_profile where
  "sample_profile =
     \<lparr>p_name = ''acme'', p_match_vendor = None, p_media_search = Some [''manager'', ''system''], p_media_type = ''CD'',
      p_reset_type = [], p_tune = Some \<lparr>ts_clear = [''Inserted''], ts_set = []\<rparr>, p_validated_firmware = []\<rparr>"

theorem compiled_profile_patches_allowlist_witness:
  "\<exists>q tune. Compile sample_profile = Inr q \<and> q_tune_insert q = Some tune \<and>
     applyInsertPatch \<lparr>ip_image = ''u'', ip_inserted = Some True, ip_write_protected = None, ip_media_type = ''CD'', ip_protocol = None\<rparr>
       (tune (insertParamsView \<lparr>ip_image = ''u'', ip_inserted = Some True, ip_write_protected = None, ip_media_type = ''CD'', ip_protocol = None\<rparr>))
     = \<lparr>ip_image = ''u'', ip_inserted = Some True, ip_write_protected = None, ip_media_type = ''CD'', ip_protocol = None\<rparr>"
proof -
  have "validate_profile sample_profile = None"
    by (simp add: validate_profile_def sample_profile_def validateTuneInsertParams_def checkInsertParamField_def
        insertParamAllowlist_def allowedMediaTypes_def validateMediaSearchEntry_def go_strings)
  then obtain q where q: "Compile sample_profile = Inr q" by (simp add: Compile_def)
  have t: "p_tune sample_profile = Some \<lparr>ts_clear = [''Inserted''], ts_set = []\<rparr>" by (simp add: sample_profile_def)
  from compiled_profile_patches_allowlist [OF q t] q show ?thesis by auto
qed

text \<open>
  The progress reported while polling stays between 80 and 95 and never goes backwards as
  the task's completion grows, whatever number the BMC reports.
\<close>
theorem task_poll_percent_bounded:
  "80 \<le> taskPollPercent t \<and> taskPollPercent t \<le> 95 \<and>
   (\<forall>v w. v \<le> w \<longrightarrow> taskPollPercent (t\<lparr>t_percent := Some v\<rparr>) \<le> taskPollPercent (t\<lparr>t_percent := Some w\<rparr>))"
proof -
  have clamp: "0 \<le> (15 * (if v < 0 then 0 else if v > 100 then 100 else v)) div 100"
    "(15 * (if v < 0 then 0 else if v > 100 then 100 else v)) div 100 \<le> 15" for v :: int
    by auto
  have mono: "15 * (if v < 0 then 0 else if v > 100 then 100 else v) div 100 \<le>
      15 * (if w < 0 then 0 else if w > 100 then 100 else w) div 100" if "v \<le> w" for v w :: int
    using that by (intro zdiv_mono1) auto
  show ?thesis using clamp mono by (cases "t_percent t") (auto simp: taskPollPercent_def Let_def)
qed

theorem task_poll_percent_bounded_witness:
  "taskPollPercent \<lparr>t_state = ''Running'', t_percent = Some 50, t_messages = []\<rparr> \<le> 95 \<and>
   taskPollPercent \<lparr>t_state = ''Running'', t_percent = Some 50, t_messages = []\<rparr> = 87"
  using task_poll_percent_bounded [of "\<lparr>t_state = ''Running'', t_percent = Some 50, t_messages = []\<rparr>"]
  by (simp add: taskPollPercent_def)

end
