(* ===== verification/Redfish_Registry.thy ===== *)
theory Redfish_Registry
  imports Redfish_Quirks "HOL-Library.AList" "HOL-Library.List_Lexorder" "HOL-Library.Char_ord"
begin

text \<open>
  The profile registry (\<^verbatim>\<open>pkg/redfish/registry.go\<close>): built-in profiles, operator
  profiles loaded from a directory, support tiers, and the name-first selection. The registry
  map is an association list with distinct keys; the directory is a list of entries, reading
  a file and decoding YAML are parameters, and the log lines are left out.
\<close>

datatype tier = TierA | TierB | TierC

datatype origin = originBuiltin | originOperator

definition deriveTier :: "string \<Rightarrow> origin \<Rightarrow> bool \<Rightarrow> tier" where
  "deriveTier name src hasMockup =
     (if src = originOperator then TierC
      else if hasMockup then TierB
      else if name = ''generic'' then TierA
      else TierC)"

text \<open>The dash of the last text is U+2014, in UTF-8.\<close>

definition describe :: "tier \<Rightarrow> string" where
  "describe t =
     (case t of
        TierA \<Rightarrow> ''tier A: core-tested''
      | TierB \<Rightarrow> ''tier B: community-validated''
      | TierC \<Rightarrow> ''tier C: UNVERIFIED '' @ [CHR 0xE2, CHR 0x80, CHR 0x94] @ '' no recorded mockup'')"

text \<open>The names of the embedded manifest, one per line, without blank lines and comments.\<close>

function split_lines :: "string \<Rightarrow> string list" where
  "split_lines s =
     (if s = [] then []
      else takeWhile (\<lambda>c. c \<noteq> CHR 0x0A) s # split_lines (drop 1 (dropWhile (\<lambda>c. c \<noteq> CHR 0x0A) s)))"
  by pat_completeness auto
termination
proof (relation "measure length")
  fix s :: string
  assume "s \<noteq> []"
  moreover have "length (dropWhile (\<lambda>c. c \<noteq> CHR 0x0A) s) \<le> length s" by (rule length_dropWhile_le)
  ultimately show "(drop 1 (dropWhile (\<lambda>c. c \<noteq> CHR 0x0A) s), s) \<in> measure length" by (cases s) auto
qed simp

declare split_lines.simps [simp del]

definition loadMockupManifest :: "string option \<Rightarrow> string list" where
  "loadMockupManifest data =
     (case data of
        None \<Rightarrow> []
      | Some d \<Rightarrow> filter (\<lambda>line. line \<noteq> [] \<and> \<not> HasPrefix line ''#'') (map TrimSpace (split_lines d)))"

text \<open>Membership in the manifest.\<close>

definition builtinHasMockup :: "string list \<Rightarrow> string \<Rightarrow> bool" where
  "builtinHasMockup manifest name = (name \<in> set manifest)"

record registry_entry =
  re_quirks :: quirks
  re_name :: string
  re_tier :: tier
  re_origin :: origin
  re_firmware :: string

type_synonym registry = "(string \<times> registry_entry) list"

record profile_info =
  pi_name :: string
  pi_tier :: tier
  pi_description :: string
  pi_origin :: string
  pi_firmware :: string

definition newRegistry :: "string list \<Rightarrow> registry" where
  "newRegistry manifest =
     map (\<lambda>(name, q). (name, \<lparr>re_quirks = q, re_name = name,
           re_tier = deriveTier name originBuiltin (builtinHasMockup manifest name),
           re_origin = originBuiltin, re_firmware = []\<rparr>)) builtinQuirks"

text \<open>Insert or override; the flag says that a built-in was overridden.\<close>

definition registry_add :: "registry_entry \<Rightarrow> registry \<Rightarrow> bool \<times> registry" where
  "registry_add e r =
     ((case map_of r (re_name e) of
         Some prev \<Rightarrow> re_origin prev = originBuiltin \<and> re_origin e = originOperator
       | None \<Rightarrow> False),
      AList.update (re_name e) e r)"

definition quirksForName :: "string list \<Rightarrow> registry \<Rightarrow> string \<Rightarrow> quirks \<times> tier \<times> bool" where
  "quirksForName manifest r name =
     (case map_of r (TrimSpace name) of
        Some e \<Rightarrow> (re_quirks e, re_tier e, True)
      | None \<Rightarrow>
          (let q = quirksFor name in
           case map_of r (q_name q) of
             Some e \<Rightarrow> (q, re_tier e, False)
           | None \<Rightarrow> (q, deriveTier (q_name q) originBuiltin (builtinHasMockup manifest (q_name q)), False)))"

definition profile_info_of :: "registry_entry \<Rightarrow> profile_info" where
  "profile_info_of e =
     \<lparr>pi_name = re_name e, pi_tier = re_tier e, pi_description = describe (re_tier e),
      pi_origin = (if re_origin e = originOperator then ''operator'' else ''builtin''),
      pi_firmware = re_firmware e\<rparr>"

definition Profiles :: "registry \<Rightarrow> profile_info list" where
  "Profiles r = sort_key pi_name (map (\<lambda>(k, e). profile_info_of e) r)"

section \<open>Loading a directory\<close>

text \<open>\<open>filepath.Ext\<close>: the suffix from the last dot of the last path element.\<close>

definition Ext :: "string \<Rightarrow> string" where
  "Ext name =
     (let rest = takeWhile (\<lambda>c. c \<noteq> CHR ''.'' \<and> c \<noteq> CHR ''/'') (rev name) in
      if length rest < length name \<and> rev name ! length rest = CHR ''.'' then CHR ''.'' # rev rest else [])"

definition isProfileFile :: "string \<Rightarrow> bool" where
  "isProfileFile name = (let ext = ToLower (Ext name) in ext = ''.yaml'' \<or> ext = ''.yml'')"

record dir_entry =
  de_name :: string
  de_is_dir :: bool

datatype read_dir = DirEntries "dir_entry list" | DirNotExist | DirError

datatype load_failure = ReadFileError | ProfileError profile_error

record load_result =
  lr_path :: string
  lr_name :: string
  lr_tier :: tier
  lr_overrode :: bool
  lr_err :: "load_failure option"

text \<open>Joining the directory with a plain file name.\<close>

definition join_path :: "string \<Rightarrow> string \<Rightarrow> string" where
  "join_path dir name = dir @ ''/'' @ name"

text \<open>One file: a failure at any stage is recorded and leaves the registry as it is.\<close>

definition load_file ::
  "(string \<Rightarrow> string option) \<Rightarrow> (string \<Rightarrow> quirk_profile option) \<Rightarrow> string \<Rightarrow> registry \<Rightarrow> load_result \<times> registry" where
  "load_file readFile decode path r =
     (let bad = (\<lambda>f. (\<lparr>lr_path = path, lr_name = [], lr_tier = TierC, lr_overrode = False, lr_err = Some f\<rparr>, r)) in
      case readFile path of
        None \<Rightarrow> bad ReadFileError
      | Some data \<Rightarrow>
          (case ParseProfile decode data of
             Inl err \<Rightarrow> bad (ProfileError err)
           | Inr profile \<Rightarrow>
               (case Compile profile of
                  Inl err \<Rightarrow> bad (ProfileError err)
                | Inr q \<Rightarrow>
                    (let tier = deriveTier (p_name profile) originOperator False;
                         (overrode, r') = registry_add
                           \<lparr>re_quirks = q, re_name = p_name profile, re_tier = tier, re_origin = originOperator,
                            re_firmware = p_validated_firmware profile\<rparr> r
                     in (\<lparr>lr_path = path, lr_name = p_name profile, lr_tier = tier, lr_overrode = overrode,
                          lr_err = None\<rparr>, r')))))"

fun load_files ::
  "(string \<Rightarrow> string option) \<Rightarrow> (string \<Rightarrow> quirk_profile option) \<Rightarrow> string list \<Rightarrow> load_result list \<Rightarrow> registry \<Rightarrow>
     load_result list \<times> registry"
where
  "load_files readFile decode [] results r = (results, r)"
| "load_files readFile decode (p # ps) results r =
     (let (res, r') = load_file readFile decode p r
      in load_files readFile decode ps (results @ [res]) r')"

definition LoadProfileDir ::
  "string list \<Rightarrow> (string \<Rightarrow> read_dir) \<Rightarrow> (string \<Rightarrow> string option) \<Rightarrow> (string \<Rightarrow> quirk_profile option) \<Rightarrow> string \<Rightarrow>
     registry \<times> load_result list \<times> bool"
where
  "LoadProfileDir manifest readDir readFile decode dir =
     (let r = newRegistry manifest in
      if TrimSpace dir = [] then (r, [], True)
      else case readDir dir of
        DirNotExist \<Rightarrow> (r, [], True)
      | DirError \<Rightarrow> (r, [], False)
      | DirEntries entries \<Rightarrow>
          (let files = sort (map de_name (filter (\<lambda>d. \<not> de_is_dir d \<and> isProfileFile (de_name d)) entries));
               (results, r') = load_files readFile decode (map (join_path dir) files) [] r
           in (r', results, True)))"

text \<open>\<open>resolveQuirks\<close> on the registry installed at start.\<close>

definition resolveQuirks :: "string list \<Rightarrow> registry \<Rightarrow> string \<Rightarrow> quirks" where
  "resolveQuirks manifest r name = fst (quirksForName manifest r name)"

section \<open>Invariant\<close>

text \<open>
  Every entry sits under its own name, an operator entry is of tier C, and an entry that is in-tree
  is the built-in of its name.
\<close>

definition entry_ok :: "registry_entry \<Rightarrow> bool" where
  "entry_ok e =
     ((re_origin e = originOperator \<longrightarrow> re_tier e = TierC) \<and>
      (re_origin e = originBuiltin \<longrightarrow> map_of builtinQuirks (re_name e) = Some (re_quirks e)))"

definition registry_ok :: "registry \<Rightarrow> bool" where
  "registry_ok r = (\<forall>n e. map_of r n = Some e \<longrightarrow> re_name e = n \<and> entry_ok e)"

lemma newRegistry_ok: "registry_ok (newRegistry manifest)"
  by (auto simp: registry_ok_def entry_ok_def newRegistry_def builtinQuirks_def split: if_splits)

lemma registry_add_ok: "registry_ok r \<Longrightarrow> entry_ok e \<Longrightarrow> registry_ok (snd (registry_add e r))"
  by (auto simp: registry_ok_def registry_add_def update_conv')

lemma load_file_registry:
  "snd (load_file readFile decode path r) = r \<or>
   (\<exists>e. entry_ok e \<and> snd (load_file readFile decode path r) = snd (registry_add e r))"
proof -
  have "entry_ok \<lparr>re_quirks = q, re_name = n, re_tier = TierC, re_origin = originOperator, re_firmware = fw\<rparr>" for q n fw
    by (simp add: entry_ok_def)
  then show ?thesis
    by (fastforce simp: load_file_def Let_def deriveTier_def split_def split: option.splits sum.splits)
qed

lemma load_files_ok: "registry_ok r \<Longrightarrow> registry_ok (snd (load_files readFile decode ps results r))"
proof (induction ps arbitrary: results r)
  case (Cons path ps)
  have "registry_ok (snd (load_file readFile decode path r))"
    using load_file_registry [of readFile decode path r] Cons.prems registry_add_ok by metis
  then show ?case using Cons.IH by (simp add: Let_def split_def)
qed simp

lemma load_files_skip:
  "load_files readFile decode (ps @ qs) results r =
     (let (res, r') = load_files readFile decode ps results r in load_files readFile decode qs res r')"
  by (induction ps arbitrary: results r) (simp_all add: Let_def split_def)

lemma load_files_results:
  "fst (load_files readFile decode ps results r) = results @ fst (load_files readFile decode ps [] r) \<and>
   snd (load_files readFile decode ps results r) = snd (load_files readFile decode ps [] r)"
proof (induction ps arbitrary: results r)
  case (Cons p ps)
  obtain res r' where l: "load_file readFile decode p r = (res, r')" by fastforce
  then show ?case using Cons.IH [of "results @ [res]" r'] Cons.IH [of "[res]" r'] by simp
qed simp

section \<open>Properties\<close>

text \<open>
  A mistyped name never enables a vendor workaround: a name that is neither a loaded
  profile nor one of the two vendor names with a profile resolves to a profile without any
  hook, whatever operator profiles are loaded.
\<close>
theorem unknown_name_is_generic:
  assumes "map_of r (TrimSpace name) = None" and "name \<noteq> ''ilo''"
  shows "\<exists>n. resolveQuirks manifest r name = no_hooks n"
proof -
  have "resolveQuirks manifest r name = quirksFor name"
    using assms(1) by (simp add: resolveQuirks_def quirksForName_def Let_def split: option.split)
  moreover have "quirksFor name = no_hooks ''supermicro'' \<or> quirksFor name = no_hooks ''generic''"
    using assms(2) by (simp add: quirksFor_def supermicroQuirks_def genericQuirks_def)
  ultimately show ?thesis by metis
qed

theorem unknown_name_is_generic_witness:
  "\<exists>n. resolveQuirks [] (newRegistry []) ''superrmicro'' = no_hooks n"
  by (rule unknown_name_is_generic) (simp_all add: newRegistry_def builtinQuirks_def go_strings)

text \<open>
  A bad profile disables only itself: the registry loaded from a list of files with an
  unreadable, malformed or invalid one among them is the registry loaded without it, and the
  results of the other files are the same.
\<close>
theorem bad_profile_disables_only_itself:
  assumes "lr_err (fst (load_file readFile decode bad (snd (load_files readFile decode ps [] r)))) \<noteq> None"
  shows "snd (load_files readFile decode (ps @ bad # qs) [] r) = snd (load_files readFile decode (ps @ qs) [] r) \<and>
    (\<exists>res. fst (load_files readFile decode (ps @ bad # qs) [] r) =
       fst (load_files readFile decode ps [] r) @ res # fst (load_files readFile decode qs [] (snd (load_files readFile decode ps [] r))) \<and>
       fst (load_files readFile decode (ps @ qs) [] r) =
       fst (load_files readFile decode ps [] r) @ fst (load_files readFile decode qs [] (snd (load_files readFile decode ps [] r))))"
proof -
  obtain res1 r1 where l1: "load_files readFile decode ps [] r = (res1, r1)" by fastforce
  obtain res r2 where l2: "load_file readFile decode bad r1 = (res, r2)" by fastforce
  have "lr_err (fst (load_file readFile decode bad r1)) \<noteq> None" using assms l1 by simp
  then have "snd (load_file readFile decode bad r1) = r1"
    by (auto simp: load_file_def Let_def split_def split: option.splits sum.splits)
  then have same: "r2 = r1" using l2 by simp
  have with_bad: "load_files readFile decode (ps @ bad # qs) [] r = load_files readFile decode qs (res1 @ [res]) r1"
    and without: "load_files readFile decode (ps @ qs) [] r = load_files readFile decode qs res1 r1"
    by (simp_all add: load_files_skip l1 l2 same)
  show ?thesis
    unfolding with_bad without l1 fst_conv snd_conv
    using load_files_results [of readFile decode qs res1 r1] load_files_results [of readFile decode qs "res1 @ [res]" r1]
    by (metis append.assoc append_Cons append_Nil)
qed

theorem bad_profile_disables_only_itself_witness:
  "snd (load_files (\<lambda>p. Some p) (\<lambda>d. None) [''a.yaml''] [] (newRegistry [])) = newRegistry []"
proof -
  have "lr_err (fst (load_file (\<lambda>p. Some p) (\<lambda>d. None) ''a.yaml''
      (snd (load_files (\<lambda>p. Some p) (\<lambda>d. None) [] [] (newRegistry []))))) \<noteq> None"
    by (simp add: load_file_def ParseProfile_def)
  from bad_profile_disables_only_itself [OF this, of "[]"] show ?thesis by simp
qed

text \<open>
  No operator profile can claim a better tier, and loading one never alters a built-in it
  does not name: after any load, every operator entry is tier C and every entry that is still
  in-tree is the built-in profile of its name.
\<close>
theorem loaded_registry_tiers:
  assumes "LoadProfileDir manifest readDir readFile decode dir = (r, results, ok)" and "map_of r n = Some e"
  shows "re_name e = n \<and> (re_origin e = originOperator \<longrightarrow> re_tier e = TierC) \<and>
    (re_origin e = originBuiltin \<longrightarrow> map_of builtinQuirks n = Some (re_quirks e))"
proof -
  have "r = newRegistry manifest \<or> (\<exists>ps. r = snd (load_files readFile decode ps [] (newRegistry manifest)))"
    using assms(1) by (auto simp: LoadProfileDir_def Let_def split_def split: if_splits read_dir.splits)
  then have "registry_ok r" using newRegistry_ok load_files_ok by blast
  then show ?thesis using assms(2) by (auto simp: registry_ok_def entry_ok_def)
qed

theorem loaded_registry_tiers_witness:
  "\<exists>e. map_of (fst (LoadProfileDir [''ilo''] (\<lambda>d. DirNotExist) (\<lambda>p. None) (\<lambda>d. None) ''/etc/quirks'')) ''ilo'' = Some e \<and>
     re_name e = ''ilo'' \<and> re_quirks e = iloQuirks"
proof -
  let ?l = "LoadProfileDir [''ilo''] (\<lambda>d. DirNotExist) (\<lambda>p. None) (\<lambda>d. None) ''/etc/quirks''"
  obtain r results ok where l: "?l = (r, results, ok)" by (metis prod.exhaust)
  have "\<exists>e. map_of (fst ?l) ''ilo'' = Some e \<and> re_origin e = originBuiltin"
    by (simp add: LoadProfileDir_def newRegistry_def builtinQuirks_def go_strings)
  then obtain e where e: "map_of r ''ilo'' = Some e" "re_origin e = originBuiltin" using l by auto
  from loaded_registry_tiers [OF l e(1)] e l show ?thesis by (auto simp: builtinQuirks_def)
qed

end
