(* ===== verification/Redfish_Errors.thy ===== *)
theory Redfish_Errors
  imports Aurora_Prelude
begin

text \<open>
  Go error values as the redfish package builds them, the Redfish detail it adds to them
  (\<^verbatim>\<open>pkg/redfish/errors.go\<close>) and the removal of the password from them
  (\<^verbatim>\<open>scrubError\<close> in \<^verbatim>\<open>ping.go\<close>).

  \<open>Wrap p e s\<close> is \<^verbatim>\<open>fmt.Errorf\<close> with \<^verbatim>\<open>%w\<close> between the texts
  \<open>p\<close> and \<open>s\<close>; \<open>RedfishErr\<close> is gofish's \<^verbatim>\<open>*schemas.Error\<close>.
\<close>

record ext_info =
  xi_message :: string
  xi_message_id :: string
  xi_resolution :: string

datatype go_error =
    ErrorsNew string
  | CtxCanceled
  | CtxDeadline
  | RedfishErr string "ext_info list"
  | Wrap string go_error string

primrec Error :: "go_error \<Rightarrow> string" where
  "Error (ErrorsNew msg) = msg"
| "Error CtxCanceled = ''context canceled''"
| "Error CtxDeadline = ''context deadline exceeded''"
| "Error (RedfishErr msg infos) = msg"
| "Error (Wrap p e s) = p @ Error e @ s"

text \<open>\<open>errors.Is\<close> for the two context errors, and \<open>errors.As\<close> for a Redfish error.\<close>

primrec is_ctx :: "go_error \<Rightarrow> bool" where
  "is_ctx (ErrorsNew msg) = False"
| "is_ctx CtxCanceled = True"
| "is_ctx CtxDeadline = True"
| "is_ctx (RedfishErr msg infos) = False"
| "is_ctx (Wrap p e s) = is_ctx e"

primrec as_redfish :: "go_error \<Rightarrow> ext_info list option" where
  "as_redfish (ErrorsNew msg) = None"
| "as_redfish CtxCanceled = None"
| "as_redfish CtxDeadline = None"
| "as_redfish (RedfishErr msg infos) = Some infos"
| "as_redfish (Wrap p e s) = as_redfish e"

definition info_text :: "ext_info \<Rightarrow> string" where
  "info_text i =
     (let a = xi_message i;
          b = (if xi_message_id i \<noteq> []
               then a @ (if a \<noteq> [] then '' '' else []) @ ''('' @ xi_message_id i @ '')'' else a);
          c = (if xi_resolution i \<noteq> []
               then b @ (if b \<noteq> [] then '' '' else []) @ ''resolution: '' @ xi_resolution i else b)
      in TrimSpace c)"

definition extendedInfoSummary :: "ext_info list \<Rightarrow> string" where
  "extendedInfoSummary infos = Join (filter (\<lambda>s. s \<noteq> []) (map info_text infos)) ''; ''"

definition enrichRedfishError :: "go_error \<Rightarrow> go_error" where
  "enrichRedfishError err =
     (case as_redfish err of
        None \<Rightarrow> err
      | Some infos \<Rightarrow>
          (let summary = extendedInfoSummary infos in
           if summary = [] then err else Wrap [] err ('' ['' @ summary @ '']'')))"

definition redacted :: string where
  "redacted = ''[REDACTED]''"

definition scrubError :: "go_error \<Rightarrow> string \<Rightarrow> go_error" where
  "scrubError err secret =
     (if secret = [] then err
      else let msg = ReplaceAll (Error err) secret redacted in
        if msg = Error err then err else ErrorsNew msg)"

section \<open>Scrubbing\<close>

lemma HasPrefix_append_disjoint:
  assumes "set p \<inter> set l = {}" and "HasPrefix (l @ s) p" and "p \<noteq> []"
  shows "l = []"
proof (rule ccontr)
  assume "l \<noteq> []"
  obtain r where "l @ s = p @ r" using assms(2) HasPrefix_iff by blast
  then have "hd l = hd p" using \<open>l \<noteq> []\<close> assms(3) by (metis hd_append2)
  moreover have "hd l \<in> set l" "hd p \<in> set p" using \<open>l \<noteq> []\<close> assms(3) by simp_all
  ultimately show False using assms(1) by (metis disjoint_iff)
qed

lemma Contains_append_disjoint:
  assumes "set sub \<inter> set l = {}" and "sub \<noteq> []"
  shows "Contains (l @ s) sub \<longleftrightarrow> Contains s sub"
  using assms
proof (induction l)
  case (Cons c l)
  have "\<not> HasPrefix (c # (l @ s)) sub"
    using HasPrefix_append_disjoint [of sub "c # l" s] Cons.prems by auto
  then show ?case using Cons by simp
qed simp

text \<open>
  After replacement the pattern survives only across a replaced occurrence, which is impossible
  when it shares no character with the replacement.
\<close>

lemma ReplaceAll_prefix:
  assumes "set p \<inter> set new = {}" and "HasPrefix (ReplaceAll s old new) p" and "old \<noteq> []" and "new \<noteq> []"
  shows "HasPrefix s p"
  using assms
proof (induction p arbitrary: s)
  case (Cons a p)
  show ?case
  proof (cases s)
    case Nil
    then show ?thesis using Cons.prems by (simp add: HasPrefix_def)
  next
    case s: (Cons c cs)
    show ?thesis
    proof (cases "HasPrefix (c # cs) old")
      case True
      then have "HasPrefix (new @ ReplaceAll (drop (length old) (c # cs)) old new) (a # p)"
        using Cons.prems s ReplaceAll_step by simp
      then show ?thesis using HasPrefix_append_disjoint Cons.prems(1,4) by blast
    next
      case False
      then have "HasPrefix (c # ReplaceAll cs old new) (a # p)"
        using Cons.prems s ReplaceAll_step by simp
      then have "c = a" "HasPrefix (ReplaceAll cs old new) p" by (auto simp: HasPrefix_def)
      then have "HasPrefix cs p" using Cons.IH Cons.prems by simp
      then show ?thesis using s \<open>c = a\<close> by (simp add: HasPrefix_def)
    qed
  qed
qed (simp add: HasPrefix_def)

lemma ReplaceAll_removes:
  assumes "set old \<inter> set new = {}" and "old \<noteq> []" and "new \<noteq> []"
  shows "\<not> Contains (ReplaceAll s old new) old"
proof (induction "length s" arbitrary: s rule: less_induct)
  case less
  show ?case
  proof (cases s)
    case Nil
    then show ?thesis using assms(2) by simp
  next
    case (Cons c cs)
    show ?thesis
    proof (cases "HasPrefix (c # cs) old")
      case True
      have "length (drop (length old) s) < length s" using assms(2) Cons by simp
      then have "\<not> Contains (ReplaceAll (drop (length old) s) old new) old" using less by blast
      then show ?thesis
        using True Cons ReplaceAll_step [OF assms(2)] Contains_append_disjoint [OF assms(1,2)] by simp
    next
      case False
      have "\<not> Contains (ReplaceAll cs old new) old" using less Cons by simp
      moreover have "\<not> HasPrefix (c # ReplaceAll cs old new) old"
        using ReplaceAll_prefix [OF assms(1) _ assms(2,3), of "c # cs"] False ReplaceAll_step [OF assms(2)] by auto
      ultimately show ?thesis using False Cons ReplaceAll_step [OF assms(2)] by simp
    qed
  qed
qed

lemma ReplaceAll_absent:
  assumes "old \<noteq> []" and "\<not> Contains s old"
  shows "ReplaceAll s old new = s"
  using assms(2)
proof (induction s)
  case (Cons c cs)
  then show ?case using ReplaceAll_step [OF assms(1)] by simp
qed simp

section \<open>Properties\<close>

text \<open>
  No error that crosses the package boundary contains the BMC password, when the password
  shares no character with the redaction marker; an error without the password is passed on
  unchanged, so callers can still unwrap it.
\<close>
theorem scrubbed_error_hides_password:
  assumes "secret \<noteq> []" and "set secret \<inter> set redacted = {}"
  shows "\<not> Contains (Error (scrubError err secret)) secret \<and>
    (\<not> Contains (Error err) secret \<longrightarrow> scrubError err secret = err)"
proof
  have "redacted \<noteq> []" by (simp add: redacted_def)
  then have removed: "\<not> Contains (ReplaceAll (Error err) secret redacted) secret"
    using ReplaceAll_removes [OF assms(2,1)] by simp
  then show "\<not> Contains (Error (scrubError err secret)) secret"
    using assms(1) by (auto simp: scrubError_def Let_def)
  show "\<not> Contains (Error err) secret \<longrightarrow> scrubError err secret = err"
    using ReplaceAll_absent [OF assms(1)] by (simp add: scrubError_def)
qed

theorem scrubbed_error_hides_password_witness:
  "\<not> Contains (Error (scrubError (Wrap ''login: '' (ErrorsNew ''http://u:pw1@h'') []) ''pw1'')) ''pw1'' \<and>
   Contains (Error (Wrap ''login: '' (ErrorsNew ''http://u:pw1@h'') [])) ''pw1''"
  using scrubbed_error_hides_password [of "''pw1''" "Wrap ''login: '' (ErrorsNew ''http://u:pw1@h'') []"]
  by (simp add: redacted_def HasPrefix_def)

text \<open>
  A password inside the marker is not hidden: every error that mentions it still does after
  scrubbing, because the marker that replaces it contains it.
\<close>
theorem password_inside_marker_survives:
  assumes "secret \<noteq> []" and "Contains redacted secret" and "Contains (Error err) secret"
  shows "Contains (Error (scrubError err secret)) secret"
proof -
  have "Contains (ReplaceAll s secret redacted) secret" if "Contains s secret" for s
    using that
  proof (induction s)
    case Nil
    then show ?case using assms(1) by simp
  next
    case (Cons c cs)
    show ?case
    proof (cases "HasPrefix (c # cs) secret")
      case True
      then show ?thesis
        using assms(2) ReplaceAll_step [OF assms(1)] by (auto simp: Contains_iff) (metis append.assoc)
    next
      case False
      then have "Contains (ReplaceAll cs secret redacted) secret" using Cons by simp
      then show ?thesis using False ReplaceAll_step [OF assms(1)] by simp
    qed
  qed
  then show ?thesis using assms(1,3) by (simp add: scrubError_def Let_def)
qed

theorem password_inside_marker_survives_witness:
  "Contains (Error (scrubError (ErrorsNew ''bad ACT login'') ''ACT'')) ''ACT''"
  by (rule password_inside_marker_survives) (simp_all add: redacted_def HasPrefix_def)

end
