(* ===== verification/Redfish_Deployer.thy ===== *)
theory Redfish_Deployer
  imports Redfish_Registry Redfish_Errors
begin

text \<open>
  The virtual-media deployer (\<^verbatim>\<open>pkg/redfish/deployer.go\<close>): connection and session
  teardown, discovery of the system and its CD media, InsertMedia, one-time boot, reset, task
  polling, and the finalize flow with its optional power cycle.

  The BMC behind gofish, the request context and the clock are parameters: a record of functions
  on a world of any type, each answering and changing the world as it likes. A run threads the
  world and records what was asked of the BMC, with its answers, and the progress reported. A
  result is \<open>Ok\<close>, \<open>Fail\<close> with the returned error, or \<open>CutOff\<close> for a polling loop that used
  up the turns given to it, which no run of the program does. Log lines are left out.
\<close>

section \<open>Runs\<close>

datatype 'a result = Ok 'a | Fail go_error | CutOff

record boot =
  bt_enabled :: string
  bt_target :: string
  bt_mode :: string

datatype bmc_action =
    Insert_Media virtual_media insert_params
  | Eject_Media virtual_media
  | Set_Boot computer_system boot
  | Reset computer_system string

text \<open>\<open>Acted a err\<close> is a request that changes the BMC, with the error it answered.\<close>

datatype bmc_event =
    Acted bmc_action "go_error option"
  | Systems "go_error + computer_system list"
  | Managers "go_error + string list"
  | Media_List "go_error + virtual_media list"
  | Task_Read string
  | System_Read string
  | Service_Root
  | Client_Opened bool
  | Client_Refused bool
  | Logged_Out

record 'w run =
  r_world :: 'w
  r_events :: "bmc_event list"
  r_progress :: "(string \<times> int) list"

text \<open>
  \<open>b_ctx\<close> is \<^verbatim>\<open>ctx.Err()\<close>, \<open>b_wait\<close> the \<^verbatim>\<open>select\<close> between
  \<^verbatim>\<open>ctx.Done()\<close> and \<^verbatim>\<open>time.After\<close>: \<open>None\<close> when the time is over.
\<close>

record 'w bmc =
  b_ctx :: "'w \<Rightarrow> go_error option \<times> 'w"
  b_wait :: "duration \<Rightarrow> 'w \<Rightarrow> go_error option \<times> 'w"
  b_now :: "'w \<Rightarrow> instant \<times> 'w"
  b_service_root :: "string \<Rightarrow> bool \<Rightarrow> 'w \<Rightarrow> (go_error + string \<times> string) \<times> 'w"
  b_connect :: "bool \<Rightarrow> 'w \<Rightarrow> (go_error + unit) \<times> 'w"
  b_logout :: "'w \<Rightarrow> 'w"
  b_systems :: "'w \<Rightarrow> (go_error + computer_system list) \<times> 'w"
  b_managers :: "'w \<Rightarrow> (go_error + string list) \<times> 'w"
  b_system_media :: "computer_system \<Rightarrow> 'w \<Rightarrow> (go_error + virtual_media list) \<times> 'w"
  b_manager_media :: "string \<Rightarrow> 'w \<Rightarrow> (go_error + virtual_media list) \<times> 'w"
  b_insert :: "virtual_media \<Rightarrow> insert_params \<Rightarrow> 'w \<Rightarrow> (go_error + task_info option) \<times> 'w"
  b_eject :: "virtual_media \<Rightarrow> 'w \<Rightarrow> (go_error + task_info option) \<times> 'w"
  b_set_boot :: "computer_system \<Rightarrow> boot \<Rightarrow> 'w \<Rightarrow> (go_error + unit) \<times> 'w"
  b_reset :: "computer_system \<Rightarrow> string \<Rightarrow> 'w \<Rightarrow> (go_error + task_info option) \<times> 'w"
  b_task :: "string \<Rightarrow> 'w \<Rightarrow> (go_error + task) \<times> 'w"
  b_system :: "string \<Rightarrow> 'w \<Rightarrow> (go_error + computer_system) \<times> 'w"

type_synonym ('w, 'a) act = "'w run \<Rightarrow> 'a result \<times> 'w run"

definition returnE :: "'a \<Rightarrow> ('w, 'a) act" where
  "returnE a s = (Ok a, s)"

definition failE :: "go_error \<Rightarrow> ('w, 'a) act" where
  "failE err s = (Fail err, s)"

definition bindE :: "('w, 'a) act \<Rightarrow> ('a \<Rightarrow> ('w, 'b) act) \<Rightarrow> ('w, 'b) act" where
  "bindE m f s = (case m s of (Ok a, s') \<Rightarrow> f a s' | (Fail err, s') \<Rightarrow> (Fail err, s') | (CutOff, s') \<Rightarrow> (CutOff, s'))"

text \<open>The error as a value, for code that looks at it.\<close>

definition attempt :: "('w, 'a) act \<Rightarrow> ('w, go_error + 'a) act" where
  "attempt m s = (case m s of (Ok a, s') \<Rightarrow> (Ok (Inr a), s') | (Fail err, s') \<Rightarrow> (Ok (Inl err), s') | (CutOff, s') \<Rightarrow> (CutOff, s'))"

text \<open>A returned error decorated by the caller.\<close>

definition on_error :: "(go_error \<Rightarrow> go_error) \<Rightarrow> ('w, 'a) act \<Rightarrow> ('w, 'a) act" where
  "on_error f m s = (case m s of (Fail err, s') \<Rightarrow> (Fail (f err), s') | (r, s') \<Rightarrow> (r, s'))"

definition request :: "(go_error + 'a \<Rightarrow> bmc_event) \<Rightarrow> ('w \<Rightarrow> (go_error + 'a) \<times> 'w) \<Rightarrow> ('w, 'a) act" where
  "request ev f s =
     (case f (r_world s) of
        (r, w) \<Rightarrow> ((case r of Inl err \<Rightarrow> Fail err | Inr a \<Rightarrow> Ok a), s\<lparr>r_world := w, r_events := r_events s @ [ev r]\<rparr>))"

definition acted :: "bmc_action \<Rightarrow> go_error + 'a \<Rightarrow> bmc_event" where
  "acted a r = Acted a (case r of Inl err \<Rightarrow> Some err | Inr _ \<Rightarrow> None)"

definition check_ctx :: "'w bmc \<Rightarrow> ('w, unit) act" where
  "check_ctx b s =
     (case b_ctx b (r_world s) of
        (None, w) \<Rightarrow> (Ok (), s\<lparr>r_world := w\<rparr>)
      | (Some err, w) \<Rightarrow> (Fail err, s\<lparr>r_world := w\<rparr>))"

definition wait_or_done :: "'w bmc \<Rightarrow> duration \<Rightarrow> ('w, unit) act" where
  "wait_or_done b t s =
     (case b_wait b t (r_world s) of
        (None, w) \<Rightarrow> (Ok (), s\<lparr>r_world := w\<rparr>)
      | (Some err, w) \<Rightarrow> (Fail err, s\<lparr>r_world := w\<rparr>))"

definition time_now :: "'w bmc \<Rightarrow> ('w, instant) act" where
  "time_now b s = (case b_now b (r_world s) of (t, w) \<Rightarrow> (Ok t, s\<lparr>r_world := w\<rparr>))"

definition report :: "string \<Rightarrow> int \<Rightarrow> ('w, unit) act" where
  "report step percent s = (Ok (), s\<lparr>r_progress := r_progress s @ [(step, percent)]\<rparr>)"

section \<open>The deployer\<close>

record config =
  cf_endpoint :: string
  cf_username :: string
  cf_password :: string
  cf_vendor :: string
  cf_verify_ssl :: bool
  cf_timeout :: duration
  cf_system_id :: string
  cf_auth_mode :: string

record deployer =
  d_endpoint :: string
  d_username :: string
  d_password :: string
  d_vendor :: string
  d_verify_ssl :: bool
  d_timeout :: duration
  d_system_id :: string
  d_quirks :: quirks
  d_auth_mode :: string
  d_used_basic_auth :: bool
  d_connected :: bool

record deploy_request =
  dr_image_url :: string
  dr_boot_target :: string
  dr_boot_mode :: string
  dr_reset_type :: string
  dr_https :: bool

record deploy_result =
  rs_system_id :: string
  rs_media_id :: string
  rs_task_completed :: bool
  rs_task_state :: string
  rs_messages :: "string list"
  rs_started_at :: instant
  rs_finished_at :: instant

abbreviation taskPollInterval :: duration where "taskPollInterval \<equiv> 3 * second"
abbreviation powerOffTimeout :: duration where "powerOffTimeout \<equiv> 60 * second"
abbreviation powerPollInterval :: duration where "powerPollInterval \<equiv> 3 * second"

definition NewDeployer :: "string list \<Rightarrow> registry \<Rightarrow> config \<Rightarrow> deployer" where
  "NewDeployer manifest reg cfg =
     (let vendor = (if cf_vendor cfg = [] then ''generic'' else cf_vendor cfg) in
      \<lparr>d_endpoint = cf_endpoint cfg, d_username = cf_username cfg, d_password = cf_password cfg,
       d_vendor = vendor, d_verify_ssl = cf_verify_ssl cfg,
       d_timeout = (if cf_timeout cfg = 0 then 30 * minute else cf_timeout cfg),
       d_system_id = cf_system_id cfg, d_quirks = resolveQuirks manifest reg vendor,
       d_auth_mode = (if cf_auth_mode cfg = [] then ''auto'' else cf_auth_mode cfg),
       d_used_basic_auth = False, d_connected = False\<rparr>)"

definition scrub :: "deployer \<Rightarrow> go_error \<Rightarrow> go_error" where
  "scrub d err = scrubError err (d_password d)"

section \<open>Sessions\<close>

definition serviceRootHasSessionService :: "'w bmc \<Rightarrow> deployer \<Rightarrow> ('w, bool) act" where
  "serviceRootHasSessionService b d =
     bindE (request (\<lambda>_. Service_Root) (b_service_root b (TrimRight (d_endpoint d) (CHR ''/'') @ ''/redfish/v1/'') (\<not> d_verify_ssl d)))
       (\<lambda>(session_service, sessions). returnE (session_service \<noteq> [] \<or> sessions \<noteq> []))"

definition resolveBasicAuth :: "'w bmc \<Rightarrow> deployer \<Rightarrow> ('w, bool) act" where
  "resolveBasicAuth b d =
     (if d_auth_mode d = ''session'' then returnE False
      else if d_auth_mode d = ''basic'' then returnE True
      else if d_auth_mode d = ''auto'' then
        bindE (on_error (\<lambda>err. Wrap ''auto-detecting Redfish auth mode: '' (scrub d err) []) (serviceRootHasSessionService b d))
          (\<lambda>hasSession. returnE (\<not> hasSession))
      else failE (ErrorsNew (''unknown Redfish auth mode '' @ quoted (d_auth_mode d) @ '' (valid: auto, session, basic)'')))"

definition Connect :: "'w bmc \<Rightarrow> deployer \<Rightarrow> ('w, deployer) act" where
  "Connect b d =
     (if d_connected d then failE (ErrorsNew ''already connected'')
      else bindE (resolveBasicAuth b d) (\<lambda>basicAuth.
        bindE (on_error (\<lambda>err. Wrap ''connecting to Redfish service: '' (scrub d err) [])
                 (request (\<lambda>r. if isl r then Client_Refused basicAuth else Client_Opened basicAuth) (b_connect b basicAuth))) (\<lambda>_.
        returnE (d\<lparr>d_connected := True, d_used_basic_auth := basicAuth\<rparr>))))"

definition Close :: "'w bmc \<Rightarrow> deployer \<Rightarrow> ('w, deployer) act" where
  "Close b d =
     (if \<not> d_connected d then returnE d
      else bindE (if \<not> d_used_basic_auth d then request (\<lambda>_. Logged_Out) (\<lambda>w. (Inr (), b_logout b w)) else returnE ()) (\<lambda>_.
        returnE (d\<lparr>d_connected := False, d_used_basic_auth := False\<rparr>)))"

section \<open>Discovery\<close>

definition systemIDs :: "computer_system list \<Rightarrow> string list" where
  "systemIDs systems = map cs_id systems"

definition choose_system :: "deployer \<Rightarrow> computer_system list \<Rightarrow> go_error + computer_system" where
  "choose_system d systems =
     (if systems = [] then Inl (ErrorsNew ''no ComputerSystem members found on the Redfish service'')
      else if d_system_id d \<noteq> [] then
        (case find (\<lambda>sys. cs_id sys = d_system_id d) systems of
           Some sys \<Rightarrow> Inr sys
         | None \<Rightarrow> Inl (ErrorsNew (''no ComputerSystem with Id '' @ quoted (d_system_id d) @
              '' found on the Redfish service; available system Ids: '' @ Join (systemIDs systems) '', '')))
      else if length systems > 1 then
        Inl (ErrorsNew (''the Redfish service exposes '' @ Itoa (length systems) @
          '' ComputerSystems; a system selection is required (set SystemID): available system Ids: '' @
          Join (systemIDs systems) '', ''))
      else Inr (hd systems))"

definition selectSystem :: "'w bmc \<Rightarrow> deployer \<Rightarrow> ('w, computer_system) act" where
  "selectSystem b d =
     bindE (on_error (\<lambda>err. Wrap ''discovering systems: '' (scrub d err) []) (request Systems (b_systems b)))
       (\<lambda>systems. case choose_system d systems of Inl err \<Rightarrow> failE err | Inr sys \<Rightarrow> returnE sys)"

type_synonym candidates = "virtual_media list \<times> media_view list"

definition add_media :: "virtual_media list \<Rightarrow> string \<Rightarrow> candidates \<Rightarrow> candidates" where
  "add_media vms location acc =
     fold (\<lambda>vm (members, views).
       (members @ [vm],
        views @ [\<lparr>mv_index = length members, mv_id = vm_id vm, mv_location = location,
                  mv_media_types = vm_media_types vm, mv_connected_via = vm_connected_via vm,
                  mv_inserted = (vm_inserted vm = Some True)\<rparr>])) vms acc"

fun manager_candidates :: "'w bmc \<Rightarrow> string list \<Rightarrow> candidates \<Rightarrow> ('w, candidates) act" where
  "manager_candidates b [] acc = returnE acc"
| "manager_candidates b (m # ms) acc =
     bindE (attempt (request Media_List (b_manager_media b m))) (\<lambda>r.
       manager_candidates b ms (case r of Inl _ \<Rightarrow> acc | Inr vms \<Rightarrow> add_media vms (''manager:'' @ m) acc))"

definition mediaCandidates :: "'w bmc \<Rightarrow> computer_system \<Rightarrow> ('w, candidates) act" where
  "mediaCandidates b system =
     bindE (attempt (request Media_List (b_system_media b system))) (\<lambda>sysMedia.
     bindE (attempt (request Managers (b_managers b))) (\<lambda>managers.
       let acc = (case sysMedia of Inl _ \<Rightarrow> ([], []) | Inr vms \<Rightarrow> add_media vms ''system'' ([], [])) in
       (case managers of Inl _ \<Rightarrow> returnE acc | Inr ms \<Rightarrow> manager_candidates b ms acc)))"

fun pick_media :: "virtual_media list \<Rightarrow> nat list \<Rightarrow> nat option \<Rightarrow> nat option" where
  "pick_media members [] fallback = fallback"
| "pick_media members (i # order) fallback =
     (if mediaSupportsCD (members ! i) then Some i
      else pick_media members order
             (if fallback = None \<and> vm_media_types (members ! i) = [] then Some i else fallback))"

definition media_order :: "quirks \<Rightarrow> media_view list \<Rightarrow> nat list" where
  "media_order q views =
     (case q_media_search q of
        None \<Rightarrow> defaultMediaOrder (length views)
      | Some f \<Rightarrow>
          (let reordered = sanitizeMediaOrder (f views) (length views) in
           if reordered \<noteq> [] then reordered else defaultMediaOrder (length views)))"

definition findCDMedia :: "'w bmc \<Rightarrow> deployer \<Rightarrow> computer_system \<Rightarrow> ('w, virtual_media \<times> media_view) act" where
  "findCDMedia b d system =
     bindE (mediaCandidates b system) (\<lambda>(members, views).
       case pick_media members (media_order (d_quirks d) views) None of
         Some i \<Rightarrow> returnE (members ! i, views ! i)
       | None \<Rightarrow> failE (ErrorsNew ''no CD/DVD-capable VirtualMedia resource found on the system or its managers''))"

section \<open>Deploy\<close>

definition insertMedia :: "'w bmc \<Rightarrow> deployer \<Rightarrow> virtual_media \<Rightarrow> media_view \<Rightarrow> deploy_request \<Rightarrow> ('w, task_info option) act" where
  "insertMedia b d media view req =
     (let params = insert_parameters (d_quirks d) view (dr_image_url req) (dr_https req)
      in request (acted (Insert_Media media params)) (b_insert b media params))"

definition setOneTimeBoot :: "'w bmc \<Rightarrow> computer_system \<Rightarrow> deploy_request \<Rightarrow> ('w, unit) act" where
  "setOneTimeBoot b system req =
     (let bt = \<lparr>bt_enabled = ''Once'', bt_target = bootSource (dr_boot_target req),
                bt_mode = (if dr_boot_mode req \<noteq> [] then bootMode (dr_boot_mode req) else [])\<rparr>
      in request (acted (Set_Boot system bt)) (b_set_boot b system bt))"

definition reset :: "'w bmc \<Rightarrow> deployer \<Rightarrow> computer_system \<Rightarrow> deploy_request \<Rightarrow> ('w, task_info option) act" where
  "reset b d system req =
     (let rt = reset_type (d_quirks d) (dr_reset_type req) system
      in request (acted (Reset system rt)) (b_reset b system rt))"

fun pollTask :: "nat \<Rightarrow> 'w bmc \<Rightarrow> deployer \<Rightarrow> string \<Rightarrow> ('w, string \<times> string list) act" where
  "pollTask 0 b d uri = (\<lambda>s. (CutOff, s))"
| "pollTask (Suc turns) b d uri =
     bindE (check_ctx b) (\<lambda>_.
     bindE (on_error (\<lambda>err. Wrap (''getting task '' @ uri @ '': '') (scrub d (enrichRedfishError err)) [])
              (request (\<lambda>_. Task_Read uri) (b_task b uri))) (\<lambda>t.
     if \<not> isKnownTaskState (t_state t)
     then failE (ErrorsNew (''BMC returned an unknown Redfish TaskState '' @ quoted (t_state t) @ '' for task '' @ uri))
     else bindE (report ''polling task'' (taskPollPercent t)) (\<lambda>_.
       if isTerminalTaskState (t_state t) then returnE (t_state t, taskMessages t)
       else bindE (wait_or_done b taskPollInterval) (\<lambda>_. pollTask turns b d uri))))"

text \<open>
  \<open>Ok (result, err)\<close> is a deploy that returns its result, together with the error \<open>err\<close> when
  the task ended badly; \<open>Fail\<close> is one that returns an error and no result. The flow is cut in
  three: after the reset, after the discovery, and the whole.
\<close>

definition deploy_finish :: "nat \<Rightarrow> 'w bmc \<Rightarrow> deployer \<Rightarrow> deploy_result \<Rightarrow> string \<Rightarrow> ('w, deploy_result \<times> go_error option) act" where
  "deploy_finish turns b d result taskURI =
     (let finish = (\<lambda>res. bindE (report ''completed'' 100) (\<lambda>_.
                     bindE (time_now b) (\<lambda>t. returnE (res\<lparr>rs_finished_at := t\<rparr>, None)))) in
      if taskURI = [] then finish result
      else
        bindE (report ''polling task'' 80) (\<lambda>_.
        bindE (on_error (\<lambda>err. Wrap ''polling deployment task: '' (scrub d err) []) (pollTask turns b d taskURI)) (\<lambda>(state, msgs).
        let result' = result\<lparr>rs_task_completed := (state = CompletedTaskState), rs_task_state := state, rs_messages := msgs\<rparr>
        in if state = ExceptionTaskState \<or> state = KilledTaskState \<or> state = CancelledTaskState
           then returnE (result', Some (ErrorsNew (''deployment task ended in state '' @ quoted state @ '': '' @ Join msgs ''; '')))
           else finish result')))"

definition deploy_to ::
  "nat \<Rightarrow> 'w bmc \<Rightarrow> deployer \<Rightarrow> deploy_request \<Rightarrow> instant \<Rightarrow> computer_system \<Rightarrow> virtual_media \<Rightarrow> media_view \<Rightarrow>
     ('w, deploy_result \<times> go_error option) act"
where
  "deploy_to turns b d req started system media view =
     bindE (check_ctx b) (\<lambda>_.
     bindE (report ''inserting media'' 30) (\<lambda>_.
     bindE (on_error (\<lambda>err. Wrap ''inserting virtual media: '' (scrub d (enrichRedfishError err)) [])
              (insertMedia b d media view req)) (\<lambda>insertTask.
     bindE (check_ctx b) (\<lambda>_.
     bindE (report ''setting boot'' 50) (\<lambda>_.
     bindE (on_error (\<lambda>err. Wrap ''setting one-time boot override: '' (scrub d (enrichRedfishError err)) [])
              (setOneTimeBoot b system req)) (\<lambda>_.
     bindE (check_ctx b) (\<lambda>_.
     bindE (report ''resetting'' 70) (\<lambda>_.
     bindE (on_error (\<lambda>err. Wrap ''resetting system: '' (scrub d (enrichRedfishError err)) []) (reset b d system req)) (\<lambda>resetTask.
     deploy_finish turns b d
       \<lparr>rs_system_id = cs_id system, rs_media_id = vm_id media, rs_task_completed = False, rs_task_state = [],
        rs_messages = [], rs_started_at = started, rs_finished_at = 0\<rparr>
       (pickTaskURI [resetTask, insertTask]))))))))))"

definition Deploy :: "nat \<Rightarrow> 'w bmc \<Rightarrow> deployer \<Rightarrow> deploy_request \<Rightarrow> ('w, deploy_result \<times> go_error option) act" where
  "Deploy turns b d req =
     (if \<not> d_connected d then failE (ErrorsNew ''not connected: call Connect first'')
      else if TrimSpace (dr_image_url req) = []
      then failE (ErrorsNew ''DeployRequest.ImageURL is required (InsertMedia is URL-pull)'')
      else
     bindE (check_ctx b) (\<lambda>_.
     bindE (time_now b) (\<lambda>started.
     bindE (report ''discovering'' 10) (\<lambda>_.
     bindE (selectSystem b d) (\<lambda>system.
     bindE (findCDMedia b d system) (\<lambda>(media, view).
     deploy_to turns b d req started system media view))))))"

section \<open>Finalize\<close>

definition firstSupportedPowerOff :: "computer_system \<Rightarrow> string list \<Rightarrow> string" where
  "firstSupportedPowerOff system preferences = firstSupported (cs_reset_types system) preferences"

fun poll_power_until :: "nat \<Rightarrow> 'w bmc \<Rightarrow> computer_system \<Rightarrow> instant \<Rightarrow> ('w, unit) act" where
  "poll_power_until 0 b system deadline = (\<lambda>s. (CutOff, s))"
| "poll_power_until (Suc turns) b system deadline =
     bindE (check_ctx b) (\<lambda>_.
     bindE (attempt (request (\<lambda>_. System_Read (cs_odata_id system)) (b_system b (cs_odata_id system)))) (\<lambda>fresh.
     case fresh of
       Inr sys \<Rightarrow>
         (if cs_power_state sys = OffPowerState then returnE ()
          else bindE (time_now b) (\<lambda>t.
            if t > deadline then failE (ErrorsNew ''system did not reach Off PowerState within 1m0s'')
            else bindE (wait_or_done b powerPollInterval) (\<lambda>_. poll_power_until turns b system deadline)))
     | Inl _ \<Rightarrow>
         bindE (time_now b) (\<lambda>t.
           if t > deadline then failE (ErrorsNew ''system did not reach Off PowerState within 1m0s'')
           else bindE (wait_or_done b powerPollInterval) (\<lambda>_. poll_power_until turns b system deadline))))"

definition pollPowerOff :: "nat \<Rightarrow> 'w bmc \<Rightarrow> computer_system \<Rightarrow> ('w, unit) act" where
  "pollPowerOff turns b system =
     bindE (time_now b) (\<lambda>t. poll_power_until turns b system (t + powerOffTimeout))"

definition powerOff :: "nat \<Rightarrow> 'w bmc \<Rightarrow> computer_system \<Rightarrow> ('w, unit) act" where
  "powerOff turns b system =
     (if cs_power_state system = OffPowerState then returnE ()
      else
        let graceful = firstSupportedPowerOff system [GracefulShutdownResetType, ForceOffResetType];
            force = firstSupportedPowerOff system [ForceOffResetType]
        in bindE (on_error (\<lambda>err. Wrap (''requesting power off ('' @ graceful @ ''): '') (enrichRedfishError err) [])
                    (request (acted (Reset system graceful)) (b_reset b system graceful))) (\<lambda>_.
           bindE (attempt (pollPowerOff turns b system)) (\<lambda>polled.
             case polled of
               Inr _ \<Rightarrow> returnE ()
             | Inl err \<Rightarrow>
                 if is_ctx err then failE err
                 else bindE (if force \<noteq> graceful
                             then bindE (on_error (\<lambda>err. Wrap (''requesting forced power off ('' @ force @ ''): '') (enrichRedfishError err) [])
                                    (request (acted (Reset system force)) (b_reset b system force))) (\<lambda>_. returnE ())
                             else returnE ()) (\<lambda>_.
                      pollPowerOff turns b system))))"

definition bootToDisk :: "'w bmc \<Rightarrow> computer_system \<Rightarrow> ('w, unit) act" where
  "bootToDisk b system =
     (let disabled = \<lparr>bt_enabled = ''Disabled'', bt_target = [], bt_mode = []\<rparr>;
          hdd = \<lparr>bt_enabled = ''Once'', bt_target = ''Hdd'', bt_mode = []\<rparr>
      in bindE (attempt (request (acted (Set_Boot system disabled)) (b_set_boot b system disabled))) (\<lambda>r.
         case r of
           Inr _ \<Rightarrow> returnE ()
         | Inl _ \<Rightarrow> bindE (attempt (request (acted (Set_Boot system hdd)) (b_set_boot b system hdd))) (\<lambda>_. returnE ())))"

definition eject :: "'w bmc \<Rightarrow> deployer \<Rightarrow> virtual_media \<Rightarrow> ('w, task_info option) act" where
  "eject b d media =
     on_error (\<lambda>err. Wrap ''ejecting virtual media: '' (scrub d (enrichRedfishError err)) [])
       (request (acted (Eject_Media media)) (b_eject b media))"

definition finalizePowerCycle :: "nat \<Rightarrow> 'w bmc \<Rightarrow> deployer \<Rightarrow> computer_system \<Rightarrow> virtual_media \<Rightarrow> ('w, unit) act" where
  "finalizePowerCycle turns b d system media =
     bindE (check_ctx b) (\<lambda>_.
     bindE (report ''powering off'' 40) (\<lambda>_.
     bindE (attempt (powerOff turns b system)) (\<lambda>off.
     bindE (case off of Inl err \<Rightarrow> if is_ctx err then failE err else returnE () | Inr _ \<Rightarrow> returnE ()) (\<lambda>_.
     bindE (check_ctx b) (\<lambda>_.
     bindE (report ''ejecting media'' 60) (\<lambda>_.
     bindE (eject b d media) (\<lambda>_.
     bindE (report ''boot to disk'' 80) (\<lambda>_.
     bindE (bootToDisk b system) (\<lambda>_.
     bindE (check_ctx b) (\<lambda>_.
     bindE (report ''powering on'' 90) (\<lambda>_.
     bindE (attempt (request (acted (Reset system OnResetType)) (b_reset b system OnResetType))) (\<lambda>_.
     report ''completed'' 100))))))))))))"

definition Finalize :: "nat \<Rightarrow> 'w bmc \<Rightarrow> deployer \<Rightarrow> bool \<Rightarrow> ('w, unit) act" where
  "Finalize turns b d powerCycle =
     (if \<not> d_connected d then failE (ErrorsNew ''not connected: call Connect first'')
      else
     bindE (check_ctx b) (\<lambda>_.
     bindE (report ''discovering'' 20) (\<lambda>_.
     bindE (selectSystem b d) (\<lambda>system.
     bindE (findCDMedia b d system) (\<lambda>(media, _).
     if powerCycle then finalizePowerCycle turns b d system media
     else
       bindE (check_ctx b) (\<lambda>_.
       bindE (report ''ejecting media'' 60) (\<lambda>_.
       bindE (eject b d media) (\<lambda>_.
       bindE (report ''boot to disk'' 80) (\<lambda>_.
       bindE (bootToDisk b system) (\<lambda>_.
       report ''completed'' 100))))))))))"

section \<open>Inspect\<close>

text \<open>The detected features are those of \<^verbatim>\<open>features.go\<close>.\<close>

definition bootModeAllowableValues :: "string list option \<Rightarrow> string list" where
  "bootModeAllowableValues raw = (case raw of None \<Rightarrow> [] | Some modes \<Rightarrow> modes)"

definition detectUEFI :: "computer_system \<Rightarrow> bool" where
  "detectUEFI system =
     (let modes = bootModeAllowableValues (cs_raw_modes system) in
      if modes \<noteq> [] then list_ex (\<lambda>m. EqualFold m ''UEFI'') modes
      else if EqualFold (cs_boot_mode system) ''UEFI'' then True
      else list_ex (\<lambda>t. t \<in> {''UefiTarget'', ''UefiHttp'', ''UefiShell'', ''UefiBootNext''}) (cs_boot_targets system))"

definition detectSecureBoot :: "computer_system \<Rightarrow> bool" where
  "detectSecureBoot system = (case cs_raw_secure_boot system of None \<Rightarrow> False | Some link \<Rightarrow> TrimSpace link \<noteq> [])"

definition detectFeatures :: "computer_system \<Rightarrow> string list" where
  "detectFeatures system =
     (if detectUEFI system then [''UEFI''] else []) @ (if detectSecureBoot system then [''SecureBoot''] else [])"

record system_info =
  si_id :: string
  si_name :: string
  si_model :: string
  si_manufacturer :: string
  si_serial :: string
  si_power_state :: string
  si_memory_gib :: int
  si_processors :: int
  si_features :: "string list"

definition Inspect :: "'w bmc \<Rightarrow> deployer \<Rightarrow> ('w, system_info) act" where
  "Inspect b d =
     (if \<not> d_connected d then failE (ErrorsNew ''not connected: call Connect first'')
      else
     bindE (check_ctx b) (\<lambda>_.
     bindE (selectSystem b d) (\<lambda>system.
     returnE \<lparr>si_id = cs_id system, si_name = cs_name system, si_model = cs_model system,
              si_manufacturer = cs_manufacturer system, si_serial = cs_serial system,
              si_power_state = cs_power_state system,
              si_memory_gib = (case cs_memory_gib system of Some v \<Rightarrow> v | None \<Rightarrow> 0),
              si_processors = (case cs_processors system of Some v \<Rightarrow> v | None \<Rightarrow> 0),
              si_features = detectFeatures system\<rparr>)))"

text \<open>
  How every caller uses a deployer: connect (with a decoration of the error), defer
  \<^verbatim>\<open>Close\<close>, do the work. The error of \<^verbatim>\<open>Close\<close> is dropped.
\<close>

definition with_connection ::
  "'w bmc \<Rightarrow> (go_error \<Rightarrow> go_error) \<Rightarrow> deployer \<Rightarrow> (deployer \<Rightarrow> ('w, 'a) act) \<Rightarrow> ('w, 'a) act" where
  "with_connection b decorate d work =
     bindE (on_error decorate (Connect b d)) (\<lambda>d1 s. case work d1 s of (r, s1) \<Rightarrow> (r, snd (Close b d1 s1)))"

section \<open>What a run asks of the BMC\<close>

text \<open>
  \<open>performs m Q\<close>: every run of \<open>m\<close> only adds events, and its result and the events it adds
  are related by \<open>Q\<close>. The rules compute backwards over the combinators.
\<close>

definition performs :: "('w, 'a) act \<Rightarrow> ('a result \<Rightarrow> bmc_event list \<Rightarrow> bool) \<Rightarrow> bool" where
  "performs m Q \<longleftrightarrow> (\<forall>s. \<exists>ys. r_events (snd (m s)) = r_events s @ ys \<and> Q (fst (m s)) ys)"

named_theorems performs_rules \<open>backward rules for the combinators\<close>

lemma performsI: "(\<And>s. \<exists>ys. r_events (snd (m s)) = r_events s @ ys \<and> Q (fst (m s)) ys) \<Longrightarrow> performs m Q"
  by (simp add: performs_def)

lemma performsD: "performs m Q \<Longrightarrow> \<exists>ys. r_events (snd (m s)) = r_events s @ ys \<and> Q (fst (m s)) ys"
  by (simp add: performs_def)

lemma performs_mono: "performs m R \<Longrightarrow> (\<And>r ys. R r ys \<Longrightarrow> Q r ys) \<Longrightarrow> performs m Q"
  unfolding performs_def by blast

lemma performs_bind [performs_rules]:
  assumes "performs m (\<lambda>r ys. case r of
      Ok a \<Rightarrow> performs (f a) (\<lambda>r' zs. Q r' (ys @ zs)) | Fail err \<Rightarrow> Q (Fail err) ys | CutOff \<Rightarrow> Q CutOff ys)"
  shows "performs (bindE m f) Q"
proof (rule performsI)
  fix s
  obtain r s' where m: "m s = (r, s')" by (cases "m s")
  obtain ys where ys: "r_events s' = r_events s @ ys"
    and R: "case r of Ok a \<Rightarrow> performs (f a) (\<lambda>r' zs. Q r' (ys @ zs)) | Fail err \<Rightarrow> Q (Fail err) ys | CutOff \<Rightarrow> Q CutOff ys"
    using performsD [OF assms, of s] m by auto
  show "\<exists>ys. r_events (snd (bindE m f s)) = r_events s @ ys \<and> Q (fst (bindE m f s)) ys"
  proof (cases r)
    case (Ok a)
    then have "performs (f a) (\<lambda>r' zs. Q r' (ys @ zs))" using R by simp
    from performsD [OF this, of s'] obtain zs
      where "r_events (snd (f a s')) = r_events s' @ zs" "Q (fst (f a s')) (ys @ zs)" by blast
    then show ?thesis using m Ok ys by (auto simp: bindE_def)
  qed (use R m ys in \<open>auto simp: bindE_def\<close>)
qed

lemma performs_simple [performs_rules]:
  "Q (Ok a) [] \<Longrightarrow> performs (returnE a) Q"
  "Q (Fail err) [] \<Longrightarrow> performs (failE err) Q"
  "Q CutOff [] \<Longrightarrow> performs (\<lambda>s. (CutOff, s)) Q"
  by (simp_all add: performs_def returnE_def failE_def)

lemma performs_time_now [performs_rules]: "(\<And>t. Q (Ok t) []) \<Longrightarrow> performs (time_now b) Q"
  by (simp add: performs_def time_now_def split: prod.splits)

lemma performs_environment [performs_rules]:
  "Q (Ok ()) [] \<Longrightarrow> (\<And>err. Q (Fail err) []) \<Longrightarrow> performs (check_ctx b) Q"
  "Q (Ok ()) [] \<Longrightarrow> (\<And>err. Q (Fail err) []) \<Longrightarrow> performs (wait_or_done b d) Q"
  "Q (Ok ()) [] \<Longrightarrow> performs (report step percent) Q"
  by (auto simp: performs_def check_ctx_def wait_or_done_def report_def split: prod.splits option.splits)

lemma performs_request [performs_rules]:
  "(\<And>a. Q (Ok a) [ev (Inr a)]) \<Longrightarrow> (\<And>err. Q (Fail err) [ev (Inl err)]) \<Longrightarrow> performs (request ev f) Q"
  by (auto simp: performs_def request_def split: prod.splits sum.splits)

lemma attempt_eq:
  "attempt m s = (case fst (m s) of Ok a \<Rightarrow> Ok (Inr a) | Fail err \<Rightarrow> Ok (Inl err) | CutOff \<Rightarrow> CutOff, snd (m s))"
  by (simp add: attempt_def split: prod.splits result.splits)

lemma on_error_eq:
  "on_error g m s = (case fst (m s) of Ok a \<Rightarrow> Ok a | Fail err \<Rightarrow> Fail (g err) | CutOff \<Rightarrow> CutOff, snd (m s))"
  by (simp add: on_error_def split: prod.splits result.splits)

lemma performs_attempt [performs_rules]:
  assumes "performs m (\<lambda>r ys. case r of Ok a \<Rightarrow> Q (Ok (Inr a)) ys | Fail err \<Rightarrow> Q (Ok (Inl err)) ys | CutOff \<Rightarrow> Q CutOff ys)"
  shows "performs (attempt m) Q"
proof (rule performsI)
  fix s
  show "\<exists>ys. r_events (snd (attempt m s)) = r_events s @ ys \<and> Q (fst (attempt m s)) ys"
    using performsD [OF assms, of s] by (cases "fst (m s)") (simp_all add: attempt_eq)
qed

lemma performs_on_error [performs_rules]:
  assumes "performs m (\<lambda>r ys. case r of Ok a \<Rightarrow> Q (Ok a) ys | Fail err \<Rightarrow> Q (Fail (g err)) ys | CutOff \<Rightarrow> Q CutOff ys)"
  shows "performs (on_error g m) Q"
proof (rule performsI)
  fix s
  show "\<exists>ys. r_events (snd (on_error g m s)) = r_events s @ ys \<and> Q (fst (on_error g m s)) ys"
    using performsD [OF assms, of s] by (cases "fst (m s)") (simp_all add: on_error_eq)
qed

primrec is_ok :: "'a result \<Rightarrow> bool" where
  "is_ok (Ok a) = True"
| "is_ok (Fail err) = False"
| "is_ok CutOff = False"

fun actions :: "bmc_event list \<Rightarrow> bmc_action list" where
  "actions [] = []"
| "actions (Acted a err # ys) = a # actions ys"
| "actions (y # ys) = actions ys"

lemma actions_append [simp]: "actions (xs @ ys) = actions xs @ actions ys"
  by (induction xs rule: actions.induct) simp_all

text \<open>
  The target is one the BMC listed in this run: the member with the pinned id, or the sole
  member; the media is listed and is CD-capable or advertises no type.
\<close>

definition selected :: "deployer \<Rightarrow> computer_system \<Rightarrow> bmc_event list \<Rightarrow> bool" where
  "selected d sys ys =
     list_ex (\<lambda>e. case e of
        Systems (Inr systems) \<Rightarrow> sys \<in> set systems \<and> (if d_system_id d = [] then systems = [sys] else cs_id sys = d_system_id d)
      | _ \<Rightarrow> False) ys"

definition listed :: "virtual_media \<Rightarrow> bmc_event list \<Rightarrow> bool" where
  "listed vm ys = list_ex (\<lambda>e. case e of Media_List (Inr vms) \<Rightarrow> vm \<in> set vms | _ \<Rightarrow> False) ys"

definition bootable :: "virtual_media \<Rightarrow> bool" where
  "bootable vm = (mediaSupportsCD vm \<or> vm_media_types vm = [])"

lemma selected_append [simp]: "selected d sys (xs @ ys) \<longleftrightarrow> selected d sys xs \<or> selected d sys ys"
  by (simp add: selected_def)

lemma listed_append [simp]: "listed vm (xs @ ys) \<longleftrightarrow> listed vm xs \<or> listed vm ys"
  by (simp add: listed_def)

lemma selectSystem_performs:
  "performs (selectSystem b d) (\<lambda>r ys. actions ys = [] \<and> (\<forall>sys. r = Ok sys \<longrightarrow> selected d sys ys))"
proof -
  have chosen: "selected d sys [Systems (Inr systems)]" if "choose_system d systems = Inr sys" for systems sys
  proof -
    have "systems \<noteq> []" using that by (auto simp: choose_system_def)
    then obtain x xs where "systems = x # xs" by (cases systems) auto
    then show ?thesis
      using that by (auto simp: choose_system_def selected_def split: if_splits option.splits dest!: find_Some_iff_first)
  qed
  show ?thesis unfolding selectSystem_def
    by (intro performs_rules) (auto intro!: performs_rules simp: chosen split: sum.splits)
qed

lemma add_media_fst: "fst (add_media vms loc acc) = fst acc @ vms"
  unfolding add_media_def by (induction vms arbitrary: acc) (auto split: prod.splits)

lemma add_media_length: "length (fst acc) = length (snd acc) \<Longrightarrow> length (snd (add_media vms loc acc)) = length (fst acc) + length vms"
  unfolding add_media_def by (induction vms arbitrary: acc) (auto split: prod.splits)

lemma manager_candidates_performs:
  "length (fst acc) = length (snd acc) \<Longrightarrow>
     performs (manager_candidates b ms acc) (\<lambda>r ys. actions ys = [] \<and>
       (\<exists>acc'. r = Ok acc' \<and> length (fst acc') = length (snd acc') \<and>
          (\<forall>vm \<in> set (fst acc'). vm \<in> set (fst acc) \<or> listed vm ys)))"
proof (induction ms arbitrary: acc)
  case Nil
  show ?case
    unfolding manager_candidates.simps
    by (rule performs_rules, rule conjI, simp, rule exI [of _ acc]) (simp add: Nil)
next
  case (Cons m ms)
  have failed: "performs (manager_candidates b ms acc) (\<lambda>r ys. actions ys = [] \<and>
       (\<exists>acc'. r = Ok acc' \<and> length (fst acc') = length (snd acc') \<and>
          (\<forall>vm \<in> set (fst acc'). vm \<in> set (fst acc) \<or> listed vm ys)))"
    using Cons by blast
  have got: "performs (manager_candidates b ms (add_media vms loc acc)) (\<lambda>r ys. actions ys = [] \<and>
       (\<exists>acc'. r = Ok acc' \<and> length (fst acc') = length (snd acc') \<and>
          (\<forall>vm \<in> set (fst acc'). vm \<in> set (fst acc) \<or> vm \<in> set vms \<or> listed vm ys)))" for vms loc
    using Cons.IH [of "add_media vms loc acc"] Cons.prems by (simp add: add_media_fst add_media_length)
  show ?case
    unfolding manager_candidates.simps
    apply (intro performs_rules)
     apply (auto intro!: performs_mono [OF got] simp: listed_def)[1]
    apply (auto intro!: performs_mono [OF failed] simp: listed_def)
    done
qed

lemma listed_simps [simp]:
  "listed vm (Media_List (Inr vms) # ys) \<longleftrightarrow> vm \<in> set vms \<or> listed vm ys"
  "listed vm (Media_List (Inl err) # ys) \<longleftrightarrow> listed vm ys"
  "listed vm (Managers r # ys) \<longleftrightarrow> listed vm ys"
  "\<not> listed vm []"
  by (simp_all add: listed_def)

lemma mediaCandidates_performs:
  "performs (mediaCandidates b system) (\<lambda>r ys. actions ys = [] \<and>
     (\<exists>acc. r = Ok acc \<and> length (fst acc) = length (snd acc) \<and> (\<forall>vm \<in> set (fst acc). listed vm ys)))"
proof -
  have managers: "performs (bindE (attempt (request Managers (b_managers b)))
        (\<lambda>managers. case managers of Inl _ \<Rightarrow> returnE acc | Inr ms \<Rightarrow> manager_candidates b ms acc))
      (\<lambda>r ys. actions ys = [] \<and> (\<exists>acc'. r = Ok acc' \<and> length (fst acc') = length (snd acc') \<and>
         (\<forall>vm \<in> set (fst acc'). vm \<in> set (fst acc) \<or> listed vm ys)))"
    if len: "length (fst acc) = length (snd acc)" for acc
  proof (intro performs_rules, goal_cases)
    case (1 ms)
    show ?case using performs_mono [OF manager_candidates_performs [OF len, of b ms]] by simp
  next
    case (2 err)
    obtain members views where "acc = (members, views)" by (cases acc)
    then show ?case using len by (auto intro!: performs_rules)
  qed
  show ?thesis
    unfolding mediaCandidates_def Let_def
  proof (rule performs_bind, intro performs_rules, goal_cases)
    case (1 vms)
    show ?case
      using performs_mono [OF managers [of "add_media vms ''system'' ([], [])"]] by (simp add: add_media_fst add_media_length)
  next
    case (2 err)
    show ?case using performs_mono [OF managers [of "([], [])"]] by simp
  qed
qed

lemma pick_media_from:
  "pick_media members order fb = Some i \<Longrightarrow>
     fb = Some i \<or> (i \<in> set order \<and> bootable (members ! i))"
  by (induction members order fb rule: pick_media.induct) (auto simp: bootable_def split: if_splits)

lemma media_order_range: "i \<in> set (media_order q views) \<Longrightarrow> i < length views"
  using sanitize_from_props [of "[]" "length views"]
  by (auto simp: media_order_def defaultMediaOrder_def sanitizeMediaOrder_def Let_def split: option.splits if_splits)

lemma findCDMedia_performs:
  "performs (findCDMedia b d system) (\<lambda>r ys. actions ys = [] \<and>
     (\<forall>vm view. r = Ok (vm, view) \<longrightarrow> listed vm ys \<and> bootable vm))"
  unfolding findCDMedia_def
proof (rule performs_bind, rule performs_mono [OF mediaCandidates_performs], goal_cases)
  case (1 r ys)
  then obtain members views where r: "r = Ok (members, views)" and len: "length members = length views"
    and from_bmc: "\<forall>vm \<in> set members. listed vm ys" and quiet: "actions ys = []" by auto
  show ?case
  proof (cases "pick_media members (media_order (d_quirks d) views) None")
    case None
    then show ?thesis using r quiet by (auto intro!: performs_rules)
  next
    case (Some i)
    then have "bootable (members ! i)" "i < length members"
      using pick_media_from media_order_range len by fastforce+
    then show ?thesis using r quiet from_bmc Some by (auto intro!: performs_rules)
  qed
qed

section \<open>The deploy and finalize flows\<close>

lemma pollTask_performs: "performs (pollTask turns b d uri) (\<lambda>r ys. actions ys = [])"
proof (induction turns)
  case (Suc turns)
  then show ?case
    unfolding pollTask.simps by (intro performs_rules) (auto intro!: performs_rules performs_mono [OF Suc])
qed (simp add: performs_rules)

lemma deploy_finish_performs: "performs (deploy_finish turns b d result uri) (\<lambda>r ys. actions ys = [])"
proof -
  have finish: "performs (bindE (report ''completed'' 100) (\<lambda>_. bindE (time_now b) (\<lambda>t. returnE (res\<lparr>rs_finished_at := t\<rparr>, None))))
      (\<lambda>r ys. actions ys = [])" for res
    by (auto intro!: performs_rules)
  show ?thesis
    unfolding deploy_finish_def Let_def
    by (auto intro!: performs_rules finish performs_mono [OF pollTask_performs] split: result.splits)
qed

text \<open>The three requests of a deploy.\<close>

definition deploy_plan :: "deployer \<Rightarrow> deploy_request \<Rightarrow> computer_system \<Rightarrow> virtual_media \<Rightarrow> media_view \<Rightarrow> bmc_action list" where
  "deploy_plan d req sys vm view =
     [Insert_Media vm (insert_parameters (d_quirks d) view (dr_image_url req) (dr_https req)),
      Set_Boot sys \<lparr>bt_enabled = ''Once'', bt_target = bootSource (dr_boot_target req),
                     bt_mode = (if dr_boot_mode req \<noteq> [] then bootMode (dr_boot_mode req) else [])\<rparr>,
      Reset sys (reset_type (d_quirks d) (dr_reset_type req) sys)]"

lemma deploy_to_performs:
  "performs (deploy_to turns b d req t sys vm view)
     (\<lambda>r ys. actions ys = take (length (actions ys)) (deploy_plan d req sys vm view) \<and> (is_ok r \<longrightarrow> length (actions ys) = 3))"
  unfolding deploy_to_def insertMedia_def setOneTimeBoot_def reset_def Let_def deploy_plan_def
  by (intro performs_rules) (auto simp: acted_def intro!: performs_rules performs_mono [OF deploy_finish_performs])

text \<open>Both flows start with the same discovery.\<close>

lemma discovery_performs:
  assumes "\<And>sys media view. performs (f sys (media, view)) (R sys media view)"
  shows "performs (bindE (selectSystem b d) (\<lambda>sys. bindE (findCDMedia b d sys) (f sys)))
    (\<lambda>r ys. (actions ys = [] \<and> \<not> is_ok r) \<or>
       (\<exists>xs zs sys vm view. ys = xs @ zs \<and> actions xs = [] \<and> selected d sys xs \<and> listed vm xs \<and> bootable vm \<and> R sys vm view r zs))"
proof (rule performs_bind, rule performs_mono [OF selectSystem_performs], goal_cases)
  case (1 r xs)
  show ?case
  proof (cases r)
    case (Ok sys)
    show ?thesis
      unfolding Ok result.case
    proof (rule performs_bind, rule performs_mono [OF findCDMedia_performs], goal_cases)
      case (1 r' ys)
      show ?case
      proof (cases r')
        case (Ok m)
        obtain vm view where m: "m = (vm, view)" by (cases m)
        have found: "actions (xs @ ys) = []" "selected d sys (xs @ ys)" "listed vm (xs @ ys)" "bootable vm"
          using 1 Ok m \<open>actions xs = [] \<and> (\<forall>sys. r = result.Ok sys \<longrightarrow> selected d sys xs)\<close> \<open>r = result.Ok sys\<close> by auto
        show ?thesis
          unfolding Ok result.case m
        proof (rule performs_mono [OF assms], rule disjI2)
          fix r'' zs
          assume "R sys vm view r'' zs"
          then show "\<exists>ws zs' sys vm view. xs @ ys @ zs = ws @ zs' \<and> actions ws = [] \<and> selected d sys ws \<and> listed vm ws \<and>
              bootable vm \<and> R sys vm view r'' zs'"
            using found by (intro exI [of _ "xs @ ys"] exI [of _ zs] exI [of _ sys] exI [of _ vm] exI [of _ view]) simp
        qed
      qed (use 1 \<open>actions xs = [] \<and> _\<close> in auto)
    qed
  qed (use 1 in auto)
qed

lemma Deploy_performs:
  "performs (Deploy turns b d req)
     (\<lambda>r ys. (actions ys = [] \<and> \<not> is_ok r) \<or>
        (\<exists>sys vm view. selected d sys ys \<and> listed vm ys \<and> bootable vm \<and>
           actions ys = take (length (actions ys)) (deploy_plan d req sys vm view) \<and> (is_ok r \<longrightarrow> length (actions ys) = 3)))"
proof -
  have flow: "performs (bindE (selectSystem b d) (\<lambda>system. bindE (findCDMedia b d system) (\<lambda>(media, view).
        deploy_to turns b d req started system media view)))
      (\<lambda>r ys. (actions ys = [] \<and> \<not> is_ok r) \<or>
        (\<exists>sys vm view. selected d sys ys \<and> listed vm ys \<and> bootable vm \<and>
           actions ys = take (length (actions ys)) (deploy_plan d req sys vm view) \<and> (is_ok r \<longrightarrow> length (actions ys) = 3)))" for started
    by (rule performs_mono [OF discovery_performs [where R = "\<lambda>sys vm view r ys.
          actions ys = take (length (actions ys)) (deploy_plan d req sys vm view) \<and> (is_ok r \<longrightarrow> length (actions ys) = 3)"]])
      (use deploy_to_performs in \<open>auto 4 4\<close>)
  show ?thesis unfolding Deploy_def by (auto intro!: performs_rules performs_mono [OF flow])
qed

text \<open>Requests that turn the system off, and requests that may follow the eject.\<close>

definition off_request :: "computer_system \<Rightarrow> bmc_action \<Rightarrow> bool" where
  "off_request sys a = (a = Reset sys GracefulShutdownResetType \<or> a = Reset sys ForceOffResetType)"

definition disk_request :: "computer_system \<Rightarrow> bmc_action \<Rightarrow> bool" where
  "disk_request sys a =
     (a = Set_Boot sys \<lparr>bt_enabled = ''Disabled'', bt_target = [], bt_mode = []\<rparr> \<or>
      a = Set_Boot sys \<lparr>bt_enabled = ''Once'', bt_target = ''Hdd'', bt_mode = []\<rparr>)"

lemma off_preference:
  "firstSupportedPowerOff sys [GracefulShutdownResetType, ForceOffResetType] = GracefulShutdownResetType \<or>
   firstSupportedPowerOff sys [GracefulShutdownResetType, ForceOffResetType] = ForceOffResetType"
  "firstSupportedPowerOff sys [ForceOffResetType] = ForceOffResetType"
  using firstSupported_pref [of "[GracefulShutdownResetType, ForceOffResetType]"] firstSupported_pref [of "[ForceOffResetType]"]
  by (fastforce simp: firstSupportedPowerOff_def)+

lemma pollPowerOff_performs: "performs (pollPowerOff turns b sys) (\<lambda>r ys. actions ys = [])"
proof -
  have "performs (poll_power_until turns b sys deadline) (\<lambda>r ys. actions ys = [])" for deadline
  proof (induction turns)
    case (Suc turns)
    then show ?case
      unfolding poll_power_until.simps by (intro performs_rules) (auto intro!: performs_rules performs_mono [OF Suc])
  qed (simp add: performs_rules)
  then show ?thesis unfolding pollPowerOff_def by (auto intro!: performs_rules)
qed

lemma powerOff_performs: "performs (powerOff turns b sys) (\<lambda>r ys. list_all (off_request sys) (actions ys))"
proof (cases "cs_power_state sys = OffPowerState")
  case False
  define graceful where "graceful = firstSupportedPowerOff sys [GracefulShutdownResetType, ForceOffResetType]"
  have g: "off_request sys (Reset sys graceful)" "off_request sys (Reset sys ForceOffResetType)"
    using off_preference(1) [of sys] by (auto simp: graceful_def off_request_def)
  show ?thesis
    unfolding powerOff_def Let_def graceful_def [symmetric] off_preference(2)
    by (auto simp: False g acted_def intro!: performs_rules performs_mono [OF pollPowerOff_performs] split: result.splits)
qed (auto simp: powerOff_def intro!: performs_rules)

lemma bootToDisk_performs: "performs (bootToDisk b sys) (\<lambda>r ys. list_all (disk_request sys) (actions ys))"
  unfolding bootToDisk_def Let_def by (auto simp: acted_def disk_request_def intro!: performs_rules)

text \<open>
  The requests of a finalize: off requests (in the power-cycle mode), then the eject of the
  chosen media, then boot overrides and, in that mode, the power-on. \<open>ejected\<close> says that the
  BMC accepted the eject.
\<close>

definition finalize_shape :: "bool \<Rightarrow> computer_system \<Rightarrow> virtual_media \<Rightarrow> bmc_action list \<Rightarrow> bool" where
  "finalize_shape powerCycle sys vm acts =
     (let before = takeWhile (\<lambda>a. a \<noteq> Eject_Media vm) acts;
          after = drop (Suc (length before)) acts
      in list_all (off_request sys) before \<and> (powerCycle \<or> before = []) \<and>
         list_all (\<lambda>a. disk_request sys a \<or> (powerCycle \<and> a = Reset sys OnResetType)) after)"

definition ejected :: "virtual_media \<Rightarrow> bmc_event list \<Rightarrow> bool" where
  "ejected vm ys = list_ex (\<lambda>e. e = Acted (Eject_Media vm) None) ys"

lemma ejected_append [simp]: "ejected vm (xs @ ys) \<longleftrightarrow> ejected vm xs \<or> ejected vm ys"
  by (simp add: ejected_def)

lemma off_not_eject: "off_request sys a \<Longrightarrow> a \<noteq> Eject_Media vm"
  by (auto simp: off_request_def)

lemma finalize_shapeI:
  assumes "list_all (off_request sys) pre" and "powerCycle \<or> pre = []"
    and "list_all (\<lambda>a. disk_request sys a \<or> (powerCycle \<and> a = Reset sys OnResetType)) post"
  shows "finalize_shape powerCycle sys vm (pre @ Eject_Media vm # post)" and "finalize_shape powerCycle sys vm pre"
proof -
  have "\<forall>a \<in> set pre. a \<noteq> Eject_Media vm" using assms(1) off_not_eject by (auto simp: list_all_iff)
  then have tw: "takeWhile (\<lambda>a. a \<noteq> Eject_Media vm) (pre @ Eject_Media vm # post) = pre"
    "takeWhile (\<lambda>a. a \<noteq> Eject_Media vm) pre = pre"
    by (simp_all add: takeWhile_eq_all_conv)
  show "finalize_shape powerCycle sys vm (pre @ Eject_Media vm # post)" "finalize_shape powerCycle sys vm pre"
    unfolding finalize_shape_def Let_def tw using assms by simp_all
qed

lemma ejected_Cons [simp]: "ejected vm (Acted (Eject_Media vm) None # ys)"
  by (simp add: ejected_def)

lemma finalize_shape_Nil [simp]: "finalize_shape powerCycle sys vm []"
  by (simp add: finalize_shape_def)

lemma eject_performs:
  "performs (eject b d vm) (\<lambda>r ys. (ys = [Acted (Eject_Media vm) None] \<and> (\<exists>a. r = Ok a)) \<or>
     (\<exists>err err'. ys = [Acted (Eject_Media vm) (Some err)] \<and> r = Fail err'))"
  unfolding eject_def by (auto intro!: performs_rules simp: acted_def)

lemma finalizePowerCycle_performs:
  "performs (finalizePowerCycle turns b d sys vm)
     (\<lambda>r ys. finalize_shape True sys vm (actions ys) \<and> (is_ok r \<longrightarrow> ejected vm ys))"
proof -
  have off: "list_all (off_request sys) (actions ys) \<Longrightarrow> finalize_shape True sys vm (actions ys)" for ys
    using finalize_shapeI(2) [of sys "actions ys" True "[]"] by simp
  have on: "list_all (off_request sys) pre \<Longrightarrow> list_all (disk_request sys) post \<Longrightarrow>
      finalize_shape True sys vm (pre @ Eject_Media vm # post @ [Reset sys OnResetType]) \<and>
      finalize_shape True sys vm (pre @ Eject_Media vm # post)" for pre post
    using finalize_shapeI(1) [of sys pre True post] finalize_shapeI(1) [of sys pre True "post @ [Reset sys OnResetType]"]
    by (simp add: list_all_iff)
  have failed: "list_all (off_request sys) pre \<Longrightarrow> finalize_shape True sys vm (pre @ [Eject_Media vm])" for pre
    using on [of pre "[]"] by simp
  show ?thesis
    unfolding finalizePowerCycle_def
    by (auto intro!: performs_rules performs_mono [OF powerOff_performs] performs_mono [OF bootToDisk_performs]
        performs_mono [OF eject_performs] simp: off on failed acted_def split: result.splits)
qed

lemma Finalize_performs:
  "performs (Finalize turns b d powerCycle)
     (\<lambda>r ys. (actions ys = [] \<and> \<not> is_ok r) \<or>
        (\<exists>sys vm. selected d sys ys \<and> listed vm ys \<and> bootable vm \<and>
           finalize_shape powerCycle sys vm (actions ys) \<and> (is_ok r \<longrightarrow> ejected vm ys)))"
proof -
  let ?R = "\<lambda>sys vm (view :: media_view) r ys. finalize_shape powerCycle sys vm (actions ys) \<and> (is_ok r \<longrightarrow> ejected vm ys)"
  let ?tail = "\<lambda>system media. if powerCycle then finalizePowerCycle turns b d system media
     else bindE (check_ctx b) (\<lambda>_. bindE (report ''ejecting media'' 60) (\<lambda>_. bindE (eject b d media) (\<lambda>_.
       bindE (report ''boot to disk'' 80) (\<lambda>_. bindE (bootToDisk b system) (\<lambda>_. report ''completed'' 100)))))"
  have disk: "list_all (disk_request sys) post \<Longrightarrow> finalize_shape False sys vm (Eject_Media vm # post)" for sys vm post
    using finalize_shapeI(1) [of sys "[]" False post] by simp
  have tail: "performs (?tail sys vm) (?R sys vm view)" for sys vm view
    by (cases powerCycle) (use disk [of _ "[]"] in \<open>auto intro!: performs_rules performs_mono [OF bootToDisk_performs]
        performs_mono [OF eject_performs] finalizePowerCycle_performs simp: disk split: result.splits\<close>)
  have flow: "performs (bindE (selectSystem b d) (\<lambda>system. bindE (findCDMedia b d system) (\<lambda>(media, _). ?tail system media)))
      (\<lambda>r ys. (actions ys = [] \<and> \<not> is_ok r) \<or>
        (\<exists>sys vm. selected d sys ys \<and> listed vm ys \<and> bootable vm \<and>
           finalize_shape powerCycle sys vm (actions ys) \<and> (is_ok r \<longrightarrow> ejected vm ys)))"
    by (rule performs_mono [OF discovery_performs [where R = ?R]]) (use tail in \<open>auto 4 4\<close>)
  show ?thesis unfolding Finalize_def by (auto intro!: performs_rules performs_mono [OF flow])
qed

section \<open>The polling loops end\<close>

text \<open>
  A context with a deadline allows finitely many waits: \<open>budget\<close> bounds how many are left, no
  operation makes it grow, and every wait that runs its full time uses one up.
\<close>

definition deadline_bound :: "'w bmc \<Rightarrow> ('w \<Rightarrow> nat) \<Rightarrow> bool" where
  "deadline_bound b budget \<longleftrightarrow>
     (\<forall>w. budget (snd (b_ctx b w)) \<le> budget w \<and> budget (snd (b_now b w)) \<le> budget w \<and>
       (\<forall>u i. budget (snd (b_service_root b u i w)) \<le> budget w) \<and> (\<forall>x. budget (snd (b_connect b x w)) \<le> budget w) \<and>
       budget (b_logout b w) \<le> budget w \<and>
       budget (snd (b_systems b w)) \<le> budget w \<and> budget (snd (b_managers b w)) \<le> budget w \<and>
       (\<forall>x. budget (snd (b_system_media b x w)) \<le> budget w) \<and> (\<forall>x. budget (snd (b_manager_media b x w)) \<le> budget w) \<and>
       (\<forall>x p. budget (snd (b_insert b x p w)) \<le> budget w) \<and> (\<forall>x. budget (snd (b_eject b x w)) \<le> budget w) \<and>
       (\<forall>x p. budget (snd (b_set_boot b x p w)) \<le> budget w) \<and> (\<forall>x p. budget (snd (b_reset b x p w)) \<le> budget w) \<and>
       (\<forall>x. budget (snd (b_task b x w)) \<le> budget w) \<and> (\<forall>x. budget (snd (b_system b x w)) \<le> budget w) \<and>
       (\<forall>t. budget (snd (b_wait b t w)) + (if fst (b_wait b t w) = None then 1 else 0) \<le> budget w))"

definition returns :: "('w \<Rightarrow> nat) \<Rightarrow> nat \<Rightarrow> ('w, 'a) act \<Rightarrow> bool" where
  "returns budget n m \<longleftrightarrow>
     (\<forall>s. budget (r_world s) < n \<longrightarrow> fst (m s) \<noteq> CutOff \<and> budget (r_world (snd (m s))) \<le> budget (r_world s))"

named_theorems returns_rules \<open>composition of runs that return\<close>

lemma returnsD:
  "returns budget n m \<Longrightarrow> m s = (r, s') \<Longrightarrow> budget (r_world s) < n \<Longrightarrow>
     r \<noteq> CutOff \<and> budget (r_world s') \<le> budget (r_world s)"
  unfolding returns_def by (metis fst_conv snd_conv)

lemma returnsI:
  "(\<And>s r s'. budget (r_world s) < n \<Longrightarrow> m s = (r, s') \<Longrightarrow> r \<noteq> CutOff \<and> budget (r_world s') \<le> budget (r_world s)) \<Longrightarrow>
     returns budget n m"
  unfolding returns_def by (metis prod.collapse)

lemma returns_bind [returns_rules]:
  assumes m: "returns budget n m" and f: "\<And>a. returns budget n (f a)"
  shows "returns budget n (bindE m f)"
proof (rule returnsI)
  fix s r s'
  assume s: "budget (r_world s) < n" and run: "bindE m f s = (r, s')"
  obtain r1 s1 where 1: "m s = (r1, s1)" by (cases "m s")
  note first = returnsD [OF m 1 s]
  show "r \<noteq> CutOff \<and> budget (r_world s') \<le> budget (r_world s)"
  proof (cases r1)
    case (Ok a)
    then have "f a s1 = (r, s')" using run 1 by (simp add: bindE_def)
    then show ?thesis using returnsD [OF f, of a s1] first s by auto
  qed (use first run 1 in \<open>auto simp: bindE_def\<close>)
qed

lemma returns_simple [returns_rules]:
  "returns budget n (returnE a)" "returns budget n (failE err)" "returns budget n (report step percent)"
  by (simp_all add: returns_def returnE_def failE_def report_def)

lemma returns_decorated [returns_rules]:
  "returns budget n m \<Longrightarrow> returns budget n (attempt m)"
  "returns budget n m \<Longrightarrow> returns budget n (on_error g m)"
  by (auto simp: returns_def attempt_eq on_error_eq split: result.splits)

lemma returns_request [returns_rules]:
  "(\<And>w. budget (snd (f w)) \<le> budget w) \<Longrightarrow> returns budget n (request ev f)"
  by (auto simp: returns_def request_def split: prod.splits sum.splits) (metis snd_conv)+

lemma deadline_boundD:
  assumes "deadline_bound b budget"
  shows "budget (snd (b_ctx b w)) \<le> budget w" "budget (snd (b_now b w)) \<le> budget w"
    "budget (snd (b_systems b w)) \<le> budget w" "budget (snd (b_managers b w)) \<le> budget w"
    "budget (snd (b_system_media b sys w)) \<le> budget w" "budget (snd (b_manager_media b i w)) \<le> budget w"
    "budget (snd (b_insert b vm p w)) \<le> budget w" "budget (snd (b_eject b vm w)) \<le> budget w"
    "budget (snd (b_set_boot b sys bt w)) \<le> budget w" "budget (snd (b_reset b sys rt w)) \<le> budget w"
    "budget (snd (b_task b uri w)) \<le> budget w" "budget (snd (b_system b uri w)) \<le> budget w"
    "budget (snd (b_wait b t w)) + (if fst (b_wait b t w) = None then 1 else 0) \<le> budget w"
    "budget (snd (b_service_root b u insecure w)) \<le> budget w" "budget (snd (b_connect b basicAuth w)) \<le> budget w"
    "budget (b_logout b w) \<le> budget w"
  using assms unfolding deadline_bound_def by blast+

lemma returns_environment [returns_rules]:
  assumes "deadline_bound b budget"
  shows "returns budget n (check_ctx b)" "returns budget n (time_now b)"
  using deadline_boundD(1,2) [OF assms]
  by (auto simp: returns_def check_ctx_def time_now_def split: prod.splits option.splits) (metis snd_conv)+

text \<open>A loop that waits has one turn less, and one wait less.\<close>

lemma returns_wait:
  assumes "deadline_bound b budget" and f: "\<And>a. returns budget n (f a)"
  shows "returns budget (Suc n) (bindE (wait_or_done b t) f)"
proof (rule returnsI)
  fix s r s'
  assume s: "budget (r_world s) < Suc n" and run: "bindE (wait_or_done b t) f s = (r, s')"
  obtain over w where w: "b_wait b t (r_world s) = (over, w)" by (cases "b_wait b t (r_world s)")
  have used: "budget w + (if over = None then 1 else 0) \<le> budget (r_world s)"
    using deadline_boundD(13) [OF assms(1), of t "r_world s"] w by simp
  show "r \<noteq> CutOff \<and> budget (r_world s') \<le> budget (r_world s)"
  proof (cases over)
    case None
    then have "f () (s\<lparr>r_world := w\<rparr>) = (r, s')" using run w by (simp add: bindE_def wait_or_done_def)
    then show ?thesis using returnsD [OF f, of "()" "s\<lparr>r_world := w\<rparr>"] used None s by simp
  next
    case (Some err)
    then show ?thesis using run w used by (auto simp: bindE_def wait_or_done_def)
  qed
qed

lemma pollTask_returns: "deadline_bound b budget \<Longrightarrow> returns budget turns (pollTask turns b d uri)"
proof (induction turns)
  case 0
  then show ?case by (simp add: returns_def)
next
  case (Suc turns)
  show ?case
    unfolding pollTask.simps
    by (auto intro!: returns_rules returns_wait Suc simp: Suc.prems deadline_boundD [OF Suc.prems])
qed

lemma pollPowerOff_returns: "deadline_bound b budget \<Longrightarrow> returns budget turns (pollPowerOff turns b sys)"
proof -
  assume bound: "deadline_bound b budget"
  have "returns budget turns (poll_power_until turns b sys deadline)" for deadline
  proof (induction turns)
    case 0
    then show ?case by (simp add: returns_def)
  next
    case (Suc turns)
    show ?case
      unfolding poll_power_until.simps
      by (auto intro!: returns_rules returns_wait Suc simp: bound deadline_boundD [OF bound] split: sum.splits)
  qed
  then show ?thesis unfolding pollPowerOff_def by (auto intro!: returns_rules bound)
qed

lemma selectSystem_returns [returns_rules]: "deadline_bound b budget \<Longrightarrow> returns budget n (selectSystem b d)"
  unfolding selectSystem_def by (auto intro!: returns_rules simp: deadline_boundD split: sum.splits)

lemma findCDMedia_returns [returns_rules]: "deadline_bound b budget \<Longrightarrow> returns budget n (findCDMedia b d sys)"
proof -
  assume bound: "deadline_bound b budget"
  have "returns budget n (manager_candidates b ms acc)" for ms acc
  proof (induction ms arbitrary: acc)
    case (Cons m ms)
    show ?case
      unfolding manager_candidates.simps by (intro returns_rules Cons) (simp add: deadline_boundD [OF bound])
  qed (simp add: returns_rules)
  note candidates = this
  show ?thesis
    unfolding findCDMedia_def mediaCandidates_def Let_def
    by (auto intro!: returns_rules candidates simp: deadline_boundD [OF bound] split: sum.splits option.splits)
qed

lemma Deploy_returns: "deadline_bound b budget \<Longrightarrow> returns budget turns (Deploy turns b d req)"
  unfolding Deploy_def deploy_to_def insertMedia_def setOneTimeBoot_def reset_def deploy_finish_def Let_def
  by (auto intro!: returns_rules pollTask_returns simp: deadline_boundD)

lemma Finalize_returns: "deadline_bound b budget \<Longrightarrow> returns budget turns (Finalize turns b d powerCycle)"
  unfolding Finalize_def finalizePowerCycle_def powerOff_def bootToDisk_def eject_def Let_def
  by (auto intro!: returns_rules pollPowerOff_returns simp: deadline_boundD split: sum.splits)

lemma with_connection_returns:
  assumes bound: "deadline_bound b budget" and work: "\<And>d1. returns budget n (work d1)"
  shows "returns budget n (with_connection b decorate d work)"
proof -
  have connect: "returns budget n (Connect b d)"
    unfolding Connect_def resolveBasicAuth_def serviceRootHasSessionService_def
    by (auto intro!: returns_rules simp: deadline_boundD [OF bound])
  have close: "returns budget n (Close b d1)" for d1
    unfolding Close_def by (auto intro!: returns_rules simp: deadline_boundD [OF bound])
  have "returns budget n (\<lambda>s. case work d1 s of (r, s1) \<Rightarrow> (r, snd (Close b d1 s1)))" for d1
  proof (rule returnsI)
    fix s r s'
    assume s: "budget (r_world s) < n" and run: "(case work d1 s of (r, s1) \<Rightarrow> (r, snd (Close b d1 s1))) = (r, s')"
    obtain r1 s1 where 1: "work d1 s = (r1, s1)" by (cases "work d1 s")
    obtain r2 s2 where 2: "Close b d1 s1 = (r2, s2)" by (cases "Close b d1 s1")
    have first: "r1 \<noteq> CutOff \<and> budget (r_world s1) \<le> budget (r_world s)" by (rule returnsD [OF work 1 s])
    then have "budget (r_world s1) < n" using s by simp
    then have "budget (r_world s2) \<le> budget (r_world s1)" using returnsD [OF close 2] by simp
    then show "r \<noteq> CutOff \<and> budget (r_world s') \<le> budget (r_world s)" using first run 1 2 by auto
  qed
  then show ?thesis unfolding with_connection_def by (intro returns_rules connect)
qed

section \<open>Sessions are torn down\<close>

text \<open>Runs all of whose events satisfy a predicate.\<close>

definition emits_only :: "(bmc_event \<Rightarrow> bool) \<Rightarrow> ('w, 'a) act \<Rightarrow> bool" where
  "emits_only P m = performs m (\<lambda>r ys. list_all P ys)"

named_theorems emits_rules \<open>composition of runs with a bound on their events\<close>

lemma emits_bind [emits_rules]:
  assumes "emits_only P m" and "\<And>a. emits_only P (f a)"
  shows "emits_only P (bindE m f)"
  unfolding emits_only_def
proof (rule performs_bind, rule performs_mono [OF assms(1) [unfolded emits_only_def]])
  fix r ys
  assume "list_all P ys"
  then show "case r of Ok a \<Rightarrow> performs (f a) (\<lambda>r' zs. list_all P (ys @ zs)) | Fail err \<Rightarrow> list_all P ys | CutOff \<Rightarrow> list_all P ys"
    using assms(2) by (cases r) (simp_all add: emits_only_def)
qed

lemma emits_simple [emits_rules]:
  "emits_only P (returnE a)" "emits_only P (failE err)" "emits_only P (\<lambda>s. (CutOff, s))" "emits_only P (check_ctx b)"
  "emits_only P (wait_or_done b t)" "emits_only P (time_now b)" "emits_only P (report step percent)"
  by (auto simp: emits_only_def intro!: performs_rules)

lemma emits_decorated [emits_rules]:
  "emits_only P m \<Longrightarrow> emits_only P (attempt m)"
  "emits_only P m \<Longrightarrow> emits_only P (on_error g m)"
  unfolding emits_only_def by (rule performs_rules, erule performs_mono, simp split: result.splits)+

lemma emits_request [emits_rules]: "(\<And>r. P (ev r)) \<Longrightarrow> emits_only P (request ev f)"
  by (auto simp: emits_only_def intro!: performs_rules)

definition session_free :: "bmc_event \<Rightarrow> bool" where
  "session_free e = (case e of Client_Opened _ \<Rightarrow> False | Logged_Out \<Rightarrow> False | _ \<Rightarrow> True)"

definition sessions_opened :: "bmc_event list \<Rightarrow> nat" where
  "sessions_opened ys = length (filter (\<lambda>e. e = Client_Opened False) ys)"

definition sessions_closed :: "bmc_event list \<Rightarrow> nat" where
  "sessions_closed ys = length (filter (\<lambda>e. e = Logged_Out) ys)"

lemma session_free_simps [simp]:
  "session_free (Acted a err)" "session_free (Systems r)" "session_free (Managers r')" "session_free (Media_List r'')"
  "session_free (Task_Read uri)" "session_free (System_Read uri)" "session_free Service_Root" "session_free (Client_Refused x)"
  by (simp_all add: session_free_def)

lemma session_free_counts:
  "list_all session_free ys \<Longrightarrow> sessions_opened ys = 0 \<and> sessions_closed ys = 0"
  by (induction ys) (auto simp: sessions_opened_def sessions_closed_def session_free_def)

lemma emits_discovery [emits_rules]:
  "emits_only session_free (selectSystem b d)" "emits_only session_free (findCDMedia b d sys)"
proof -
  show "emits_only session_free (selectSystem b d)"
    unfolding selectSystem_def by (auto intro!: emits_rules split: sum.splits)
  have "emits_only session_free (manager_candidates b ms acc)" for ms acc
  proof (induction ms arbitrary: acc)
    case (Cons m ms)
    show ?case unfolding manager_candidates.simps by (intro emits_rules Cons) simp
  qed (simp add: emits_rules)
  note candidates = this
  show "emits_only session_free (findCDMedia b d sys)"
    unfolding findCDMedia_def mediaCandidates_def Let_def
    by (auto intro!: emits_rules candidates split: sum.splits option.splits)
qed

lemma emits_polls [emits_rules]:
  "emits_only session_free (pollTask turns b d uri)" "emits_only session_free (pollPowerOff turns b sys)"
proof -
  show "emits_only session_free (pollTask turns b d uri)"
    by (induction turns) (auto intro!: emits_rules)
  have "emits_only session_free (poll_power_until turns b sys deadline)" for deadline
    by (induction turns) (auto intro!: emits_rules split: sum.splits)
  then show "emits_only session_free (pollPowerOff turns b sys)"
    unfolding pollPowerOff_def by (auto intro!: emits_rules)
qed

lemma emits_flows [emits_rules]:
  "emits_only session_free (Deploy turns b d req)" "emits_only session_free (Finalize turns b d powerCycle)"
proof -
  show "emits_only session_free (Deploy turns b d req)"
    unfolding Deploy_def deploy_to_def insertMedia_def setOneTimeBoot_def reset_def deploy_finish_def Let_def
    by (auto intro!: emits_rules simp: acted_def)
  show "emits_only session_free (Finalize turns b d powerCycle)"
    unfolding Finalize_def finalizePowerCycle_def powerOff_def bootToDisk_def eject_def Let_def
    by (auto intro!: emits_rules simp: acted_def split: sum.splits)
qed

lemma sessions_simps [simp]:
  "sessions_opened (xs @ ys) = sessions_opened xs + sessions_opened ys"
  "sessions_closed (xs @ ys) = sessions_closed xs + sessions_closed ys"
  "sessions_opened [] = 0" "sessions_closed [] = 0"
  "sessions_opened [Client_Opened basicAuth] = (if basicAuth then 0 else 1)" "sessions_closed [Client_Opened basicAuth] = 0"
  "sessions_opened [Client_Refused basicAuth] = 0" "sessions_closed [Client_Refused basicAuth] = 0"
  "sessions_opened [Logged_Out] = 0" "sessions_closed [Logged_Out] = 1"
  by (simp_all add: sessions_opened_def sessions_closed_def)

lemma Connect_performs:
  "performs (Connect b d) (\<lambda>r ys. sessions_closed ys = 0 \<and>
     (case r of
        Ok d1 \<Rightarrow> d_connected d1 \<and> sessions_opened ys = (if d_used_basic_auth d1 then 0 else 1) \<and>
                (d_auth_mode d = ''basic'' \<longrightarrow> d_used_basic_auth d1)
      | _ \<Rightarrow> sessions_opened ys = 0))"
proof -
  have resolve: "performs (resolveBasicAuth b d) (\<lambda>r ys. list_all session_free ys \<and> (d_auth_mode d = ''basic'' \<longrightarrow> r = Ok True))"
    by (auto simp: resolveBasicAuth_def serviceRootHasSessionService_def intro!: performs_rules split: prod.splits)
  show ?thesis
    unfolding Connect_def
    by (auto intro!: performs_rules performs_mono [OF resolve] simp: session_free_counts split: result.splits)
qed

lemma enclosed_performs:
  assumes "emits_only session_free (work d1)" and "d_connected d1"
  shows "performs (\<lambda>s. case work d1 s of (r, s1) \<Rightarrow> (r, snd (Close b d1 s1)))
    (\<lambda>r zs. sessions_opened zs = 0 \<and> sessions_closed zs = (if d_used_basic_auth d1 then 0 else 1))"
proof (rule performsI)
  fix s
  obtain r s1 where w: "work d1 s = (r, s1)" by (cases "work d1 s")
  then obtain ys where ys: "r_events s1 = r_events s @ ys" "list_all session_free ys"
    using performsD [OF assms(1) [unfolded emits_only_def], of s] by auto
  have "r_events (snd (Close b d1 s1)) = r_events s1 @ (if d_used_basic_auth d1 then [] else [Logged_Out])"
    using assms(2) by (simp add: Close_def bindE_def returnE_def request_def)
  then show "\<exists>zs. r_events (snd (case work d1 s of (r, s1) \<Rightarrow> (r, snd (Close b d1 s1)))) = r_events s @ zs \<and>
      sessions_opened zs = 0 \<and> sessions_closed zs = (if d_used_basic_auth d1 then 0 else 1)"
    using ys w session_free_counts [OF ys(2)] by auto
qed

lemma with_connection_performs:
  assumes "\<And>d1. emits_only session_free (work d1)"
  shows "performs (with_connection b decorate d work)
    (\<lambda>r ys. sessions_opened ys = sessions_closed ys \<and> (d_auth_mode d = ''basic'' \<longrightarrow> sessions_opened ys = 0))"
  unfolding with_connection_def
proof (rule performs_bind, rule performs_on_error, rule performs_mono [OF Connect_performs], goal_cases)
  case (1 r ys)
  show ?case
  proof (cases r)
    case (Ok d1)
    then have conn: "d_connected d1" using 1 by simp
    show ?thesis
      unfolding Ok result.case
      by (rule performs_mono [OF enclosed_performs [OF assms conn]]) (use 1 Ok in auto)
  qed (use 1 in auto)
qed

section \<open>Properties\<close>

text \<open>
  C6. A deploy sends at most three requests that change the BMC, in the order insert, one-time
  boot, reset, all three when it returns a result and a prefix of them when it fails; it never
  ejects. They go to the pinned system, or to the only one there is, and to a media resource
  that the BMC listed in this run and that is CD-capable or untyped; when no such target is
  found nothing is sent.
\<close>
theorem deploy_requests_in_order:
  "\<exists>ys. r_events (snd (Deploy turns b d req s)) = r_events s @ ys \<and>
     ((actions ys = [] \<and> \<not> is_ok (fst (Deploy turns b d req s))) \<or>
      (\<exists>sys vm view. selected d sys ys \<and> listed vm ys \<and> bootable vm \<and>
         (if is_ok (fst (Deploy turns b d req s)) then actions ys = deploy_plan d req sys vm view
          else actions ys = take (length (actions ys)) (deploy_plan d req sys vm view))))"
proof -
  obtain ys where ys: "r_events (snd (Deploy turns b d req s)) = r_events s @ ys"
    and cases: "(actions ys = [] \<and> \<not> is_ok (fst (Deploy turns b d req s))) \<or>
      (\<exists>sys vm view. selected d sys ys \<and> listed vm ys \<and> bootable vm \<and>
         actions ys = take (length (actions ys)) (deploy_plan d req sys vm view) \<and>
         (is_ok (fst (Deploy turns b d req s)) \<longrightarrow> length (actions ys) = 3))"
    using performsD [OF Deploy_performs] by blast
  have full: "acts = deploy_plan d req sys vm view"
    if "acts = take (length acts) (deploy_plan d req sys vm view)" "length acts = 3" for acts sys vm view
    using that by (simp add: deploy_plan_def)
  show ?thesis
  proof (intro exI [of _ ys] conjI ys)
    from cases show "(actions ys = [] \<and> \<not> is_ok (fst (Deploy turns b d req s))) \<or>
      (\<exists>sys vm view. selected d sys ys \<and> listed vm ys \<and> bootable vm \<and>
         (if is_ok (fst (Deploy turns b d req s)) then actions ys = deploy_plan d req sys vm view
          else actions ys = take (length (actions ys)) (deploy_plan d req sys vm view)))"
      by (cases "is_ok (fst (Deploy turns b d req s))") (use full in \<open>simp_all, blast\<close>)
  qed
qed

text \<open>
  C7. A finalize ejects before it powers anything on. Whatever the BMC answers, the requests it
  sends are: in the power-cycle mode shutdowns of the selected system, then the eject of the
  chosen media, then overrides that boot from disk and, in that mode, the power-on; without
  that mode the system is never reset. It succeeds only if the BMC accepted the eject.
\<close>
theorem finalize_ejects_before_power_on:
  "\<exists>ys. r_events (snd (Finalize turns b d powerCycle s)) = r_events s @ ys \<and>
     ((actions ys = [] \<and> \<not> is_ok (fst (Finalize turns b d powerCycle s))) \<or>
      (\<exists>sys vm. selected d sys ys \<and> listed vm ys \<and> bootable vm \<and> finalize_shape powerCycle sys vm (actions ys) \<and>
         (if is_ok (fst (Finalize turns b d powerCycle s)) then ejected vm ys else True)))"
  using performsD [OF Finalize_performs, of turns b d powerCycle s]
  by (cases "is_ok (fst (Finalize turns b d powerCycle s))") simp_all

text \<open>
  C8. No flow hangs: under a context that allows a bounded number of waits, the task polling of
  a deploy and the power-off polling of a finalize end, with a result or an error, within as
  many turns, whatever the BMC answers.
\<close>
theorem flows_return_under_deadline:
  assumes "deadline_bound b budget" and "budget (r_world s) < turns"
  shows "fst (Deploy turns b d req s) \<noteq> CutOff \<and> fst (Finalize turns b d powerCycle s) \<noteq> CutOff"
  using Deploy_returns [OF assms(1)] Finalize_returns [OF assms(1)] assms(2) unfolding returns_def by blast

text \<open>
  C9. Every session is logged out: around a deploy and around a finalize, on every path, as many
  sessions are closed as were opened, and with HTTP Basic authentication none is opened.
\<close>
theorem sessions_are_torn_down:
  "\<exists>ys zs. r_events (snd (with_connection b decorate d (\<lambda>d1. Deploy turns b d1 req) s)) = r_events s @ ys \<and>
     r_events (snd (with_connection b decorate d (\<lambda>d1. Finalize turns b d1 powerCycle) s)) = r_events s @ zs \<and>
     sessions_opened ys = sessions_closed ys \<and> sessions_opened zs = sessions_closed zs \<and>
     (if d_auth_mode d = ''basic'' then sessions_opened ys = 0 \<and> sessions_opened zs = 0 else True)"
proof -
  obtain ys where "r_events (snd (with_connection b decorate d (\<lambda>d1. Deploy turns b d1 req) s)) = r_events s @ ys"
    "sessions_opened ys = sessions_closed ys" "d_auth_mode d = ''basic'' \<longrightarrow> sessions_opened ys = 0"
    using performsD [OF with_connection_performs [of "\<lambda>d1. Deploy turns b d1 req" b decorate d]] emits_flows(1) by blast
  moreover obtain zs where "r_events (snd (with_connection b decorate d (\<lambda>d1. Finalize turns b d1 powerCycle) s)) = r_events s @ zs"
    "sessions_opened zs = sessions_closed zs" "d_auth_mode d = ''basic'' \<longrightarrow> sessions_opened zs = 0"
    using performsD [OF with_connection_performs [of "\<lambda>d1. Finalize turns b d1 powerCycle" b decorate d]] emits_flows(2) by blast
  ultimately show ?thesis by auto
qed

text \<open>
  A BMC with one manager-hosted CD drive, whose task takes three polls, under a context that
  allows five waits.
\<close>

definition sample_media :: virtual_media where
  "sample_media = \<lparr>vm_id = ''Cd'', vm_odata_id = ''/redfish/v1/Managers/1/VirtualMedia/Cd'', vm_media_types = [''CD''],
     vm_connected_via = [], vm_inserted = None\<rparr>"

definition sample_bmc :: "nat bmc" where
  "sample_bmc =
     \<lparr>b_ctx = \<lambda>w. (if w = 0 then Some CtxDeadline else None, w),
      b_wait = \<lambda>t w. (if w = 0 then Some CtxDeadline else None, w - 1),
      b_now = \<lambda>w. (0, w),
      b_service_root = \<lambda>u insecure w. (Inr (''/redfish/v1/SessionService'', []), w),
      b_connect = \<lambda>basicAuth w. (Inr (), w),
      b_logout = \<lambda>w. w,
      b_systems = \<lambda>w. (Inr [sample_system], w),
      b_managers = \<lambda>w. (Inr [''1''], w),
      b_system_media = \<lambda>sys w. (Inl (ErrorsNew ''no link''), w),
      b_manager_media = \<lambda>m w. (Inr [sample_media], w),
      b_insert = \<lambda>vm p w. (Inr (Some \<lparr>ti_monitor = ''/task/1'', ti_task_odata = None\<rparr>), w),
      b_eject = \<lambda>vm w. (Inr None, w),
      b_set_boot = \<lambda>sys bt w. (Inr (), w),
      b_reset = \<lambda>sys rt w. (Inr None, w),
      b_task = \<lambda>uri w. (Inr \<lparr>t_state = (if w > 3 then ''Running'' else CompletedTaskState), t_percent = None, t_messages = []\<rparr>, w),
      b_system = \<lambda>uri w. (Inr (sample_system\<lparr>cs_power_state := ''Off''\<rparr>), w)\<rparr>"

definition sample_deployer :: deployer where
  "sample_deployer =
     \<lparr>d_endpoint = ''https://bmc'', d_username = ''admin'', d_password = ''secret'', d_vendor = ''ilo'', d_verify_ssl = True,
      d_timeout = minute, d_system_id = [], d_quirks = iloQuirks, d_auth_mode = ''auto'', d_used_basic_auth = False,
      d_connected = False\<rparr>"

definition sample_deploy :: deploy_request where
  "sample_deploy = \<lparr>dr_image_url = ''http://a/iso'', dr_boot_target = [], dr_boot_mode = [], dr_reset_type = [], dr_https = False\<rparr>"

lemma sample_bound: "deadline_bound sample_bmc id"
  by (auto simp: deadline_bound_def sample_bmc_def)

theorem flows_return_under_deadline_witness:
  "fst (Deploy 6 sample_bmc (sample_deployer\<lparr>d_connected := True\<rparr>) sample_deploy \<lparr>r_world = 5, r_events = [], r_progress = []\<rparr>) \<noteq> CutOff"
  using flows_return_under_deadline [OF sample_bound, of "\<lparr>r_world = 5, r_events = [], r_progress = []\<rparr>" 6] by simp

theorem deploy_requests_in_order_witness:
  "is_ok (fst (Deploy 6 sample_bmc (sample_deployer\<lparr>d_connected := True\<rparr>) sample_deploy \<lparr>r_world = 5, r_events = [], r_progress = []\<rparr>)) \<and>
   (\<exists>sys vm view ys. r_events (snd (Deploy 6 sample_bmc (sample_deployer\<lparr>d_connected := True\<rparr>) sample_deploy
        \<lparr>r_world = 5, r_events = [], r_progress = []\<rparr>)) = ys \<and>
      actions ys = deploy_plan (sample_deployer\<lparr>d_connected := True\<rparr>) sample_deploy sys vm view)"
proof -
  have "is_ok (fst (Deploy 6 sample_bmc (sample_deployer\<lparr>d_connected := True\<rparr>) sample_deploy \<lparr>r_world = 5, r_events = [], r_progress = []\<rparr>))"
    by code_simp
  then show ?thesis
    using deploy_requests_in_order [of 6 sample_bmc "sample_deployer\<lparr>d_connected := True\<rparr>" sample_deploy
        "\<lparr>r_world = 5, r_events = [], r_progress = []\<rparr>"] by auto
qed

theorem finalize_ejects_before_power_on_witness:
  "\<exists>sys vm ys. r_events (snd (Finalize 6 sample_bmc (sample_deployer\<lparr>d_connected := True\<rparr>) True
        \<lparr>r_world = 5, r_events = [], r_progress = []\<rparr>)) = ys \<and> finalize_shape True sys vm (actions ys) \<and> ejected vm ys"
proof -
  have "is_ok (fst (Finalize 6 sample_bmc (sample_deployer\<lparr>d_connected := True\<rparr>) True \<lparr>r_world = 5, r_events = [], r_progress = []\<rparr>))"
    by code_simp
  then show ?thesis
    using finalize_ejects_before_power_on [of 6 sample_bmc "sample_deployer\<lparr>d_connected := True\<rparr>" True
        "\<lparr>r_world = 5, r_events = [], r_progress = []\<rparr>"] by auto
qed

end
