(* ===== verification/Go_Paths.thy ===== *)
theory Go_Paths
  imports Aurora_Prelude
begin

text \<open>
  The functions of Go's \<^verbatim>\<open>path/filepath\<close> the sources call, on a system whose
  separator is the slash, and the fact the file-serving code rests on: joining a directory and
  safe segments gives the path those segments below it.
\<close>

section \<open>Lexical processing\<close>

text \<open>The elements between slashes.\<close>

fun segments :: "string \<Rightarrow> string \<Rightarrow> string list" where
  "segments [] acc = [rev acc]"
| "segments (c # cs) acc = (if c = CHR ''/'' then rev acc # segments cs [] else segments cs (c # acc))"

definition IsAbs :: "string \<Rightarrow> bool" where
  "IsAbs p = HasPrefix p ''/''"

text \<open>\<^verbatim>\<open>Clean\<close>: what an element does to the elements so far.\<close>

definition clean_segment :: "bool \<Rightarrow> string list \<Rightarrow> string \<Rightarrow> string list" where
  "clean_segment rooted out seg =
     (if seg = [] \<or> seg = ''.'' then out
      else if seg = ''..'' then
        (if out \<noteq> [] \<and> last out \<noteq> ''..'' then butlast out
         else if rooted then out
         else out @ [''..''])
      else out @ [seg])"

definition clean_parts :: "string \<Rightarrow> string list" where
  "clean_parts p = foldl (clean_segment (IsAbs p)) [] (segments p [])"

definition Clean :: "string \<Rightarrow> string" where
  "Clean p =
     (if IsAbs p then ''/'' @ Join (clean_parts p) ''/''
      else if clean_parts p = [] then ''.''
      else Join (clean_parts p) ''/'')"

definition PathJoin :: "string list \<Rightarrow> string" where
  "PathJoin elems =
     (let es = filter (\<lambda>e. e \<noteq> []) elems in if es = [] then [] else Clean (Join es ''/''))"

text \<open>\<^verbatim>\<open>Abs\<close>, in a working directory.\<close>

definition Abs_path :: "string \<Rightarrow> string \<Rightarrow> string" where
  "Abs_path cwd p = (if IsAbs p then Clean p else PathJoin [cwd, p])"

text \<open>\<^verbatim>\<open>Dir\<close>, \<^verbatim>\<open>Base\<close> and \<^verbatim>\<open>Ext\<close>.\<close>

definition Dir :: "string \<Rightarrow> string" where
  "Dir p = Clean (rev (dropWhile (\<lambda>c. c \<noteq> CHR ''/'') (rev p)))"

definition Base :: "string \<Rightarrow> string" where
  "Base p =
     (if p = [] then ''.''
      else let q = TrimRight p (CHR ''/'') in
        if q = [] then ''/'' else rev (takeWhile (\<lambda>c. c \<noteq> CHR ''/'') (rev q)))"

definition Ext :: "string \<Rightarrow> string" where
  "Ext p =
     (let name = takeWhile (\<lambda>c. c \<noteq> CHR ''/'') (rev p) in
      if CHR ''.'' \<in> set name then rev (takeWhile (\<lambda>c. c \<noteq> CHR ''.'') name @ [CHR ''.'']) else [])"

section \<open>Safe segments\<close>

text \<open>A name that stands for itself below a directory.\<close>

definition plain_segment :: "string \<Rightarrow> bool" where
  "plain_segment s \<longleftrightarrow> s \<noteq> [] \<and> s \<noteq> ''.'' \<and> s \<noteq> ''..'' \<and> CHR ''/'' \<notin> set s"

lemma segments_no_slash: "CHR ''/'' \<notin> set s \<Longrightarrow> segments s acc = [rev acc @ s]"
  by (induction s arbitrary: acc) auto

lemma segments_append: "segments (p @ CHR ''/'' # q) acc = segments p acc @ segments q []"
  by (induction p acc rule: segments.induct) auto

lemma segments_parts: "s \<in> set (segments p acc) \<Longrightarrow> CHR ''/'' \<notin> set acc \<Longrightarrow> CHR ''/'' \<notin> set s"
  by (induction p acc rule: segments.induct) (auto split: if_splits)

lemma clean_segment_plain: "plain_segment s \<Longrightarrow> clean_segment rooted out s = out @ [s]"
  by (simp add: clean_segment_def plain_segment_def)

lemma IsAbs_append: "p \<noteq> [] \<Longrightarrow> IsAbs (p @ q) = IsAbs p"
  by (cases p) (auto simp: IsAbs_def HasPrefix_def)

lemma clean_parts_child:
  assumes "p \<noteq> []" and "CHR ''/'' \<notin> set s"
  shows "clean_parts (p @ CHR ''/'' # s) = clean_segment (IsAbs p) (clean_parts p) s"
  using assms by (simp add: clean_parts_def segments_append segments_no_slash IsAbs_append)

text \<open>The parts of a clean path have no empty and no dot element, and parents only in front of a relative one.\<close>

definition normal_parts :: "bool \<Rightarrow> string list \<Rightarrow> bool" where
  "normal_parts rooted ps \<longleftrightarrow>
     (\<forall>s \<in> set ps. s \<noteq> [] \<and> s \<noteq> ''.'' \<and> CHR ''/'' \<notin> set s) \<and>
     (\<exists>n qs. ps = replicate n ''..'' @ qs \<and> ''..'' \<notin> set qs \<and> (rooted \<longrightarrow> n = 0))"

lemma normal_partsI:
  "ps = replicate n ''..'' @ qs \<Longrightarrow> ''..'' \<notin> set qs \<Longrightarrow> rooted \<longrightarrow> n = 0 \<Longrightarrow>
     \<forall>s \<in> set qs. s \<noteq> [] \<and> s \<noteq> ''.'' \<and> CHR ''/'' \<notin> set s \<Longrightarrow> normal_parts rooted ps"
proof -
  assume ps: "ps = replicate n ''..'' @ qs" and qs: "\<forall>s \<in> set qs. s \<noteq> [] \<and> s \<noteq> ''.'' \<and> CHR ''/'' \<notin> set s"
  have "\<forall>s \<in> set (replicate n ''..''). s \<noteq> [] \<and> s \<noteq> ''.'' \<and> CHR ''/'' \<notin> set s" by simp
  then have "\<forall>s \<in> set ps. s \<noteq> [] \<and> s \<noteq> ''.'' \<and> CHR ''/'' \<notin> set s" using qs unfolding ps set_append by blast
  moreover assume "''..'' \<notin> set qs" "rooted \<longrightarrow> n = 0"
  ultimately show "normal_parts rooted ps" using ps unfolding normal_parts_def by blast
qed

lemma clean_segment_normal:
  assumes "normal_parts rooted out" and "CHR ''/'' \<notin> set seg"
  shows "normal_parts rooted (clean_segment rooted out seg)"
proof -
  obtain n qs where out: "out = replicate n ''..'' @ qs" "''..'' \<notin> set qs" "rooted \<longrightarrow> n = 0"
    using assms(1) by (auto simp: normal_parts_def)
  have ok: "\<forall>s \<in> set out. s \<noteq> [] \<and> s \<noteq> ''.'' \<and> CHR ''/'' \<notin> set s" using assms(1) by (simp add: normal_parts_def)
  consider "seg = [] \<or> seg = ''.''" | "seg = ''..''" | "plain_segment seg" using assms(2) by (auto simp: plain_segment_def)
  then show ?thesis
  proof cases
    case 1
    then show ?thesis using assms(1) by (auto simp: clean_segment_def)
  next
    case 3
    then show ?thesis unfolding clean_segment_plain [OF 3]
      by (intro normal_partsI [of _ n "qs @ [seg]"]) (use out ok in \<open>auto simp: plain_segment_def\<close>)
  next
    case 2
    show ?thesis
    proof (cases "qs = []")
      case True
      then have "out \<noteq> [] \<longrightarrow> last out = ''..''" using out(1) by (cases n) (auto simp: last_replicate simp del: replicate_Suc)
      then have "clean_segment rooted out seg = (if rooted then out else out @ [''..''])" using 2 by (auto simp: clean_segment_def)
      moreover have "normal_parts False (out @ [''..''])"
        by (rule normal_partsI [of _ "Suc n" "[]"]) (use out(1) True in \<open>simp_all add: replicate_append_same\<close>)
      ultimately show ?thesis using assms(1) by (cases rooted) simp_all
    next
      case False
      then have "last qs \<noteq> ''..''" using out(2) by (metis last_in_set)
      then have "last out \<noteq> ''..''" "out \<noteq> []" using out(1) False by simp_all
      then have "clean_segment rooted out seg = replicate n ''..'' @ butlast qs"
        using 2 out(1) False by (simp add: clean_segment_def butlast_append)
      then show ?thesis
        by (intro normal_partsI [of _ n "butlast qs"]) (use out ok in \<open>auto dest: in_set_butlastD\<close>)
    qed
  qed
qed

lemma foldl_clean_normal:
  "normal_parts rooted out \<Longrightarrow> \<forall>s \<in> set segs. CHR ''/'' \<notin> set s \<Longrightarrow>
     normal_parts rooted (foldl (clean_segment rooted) out segs)"
  by (induction segs arbitrary: out) (auto intro: clean_segment_normal)

lemma normal_parts_Nil [simp]: "normal_parts rooted []"
  by (simp add: normal_parts_def)

lemma clean_parts_normal: "normal_parts (IsAbs p) (clean_parts p)"
  using foldl_clean_normal [of "IsAbs p" "[]"] segments_parts [of _ p "[]"] unfolding clean_parts_def by simp

section \<open>Paths below a directory\<close>

text \<open>The path with the given parts.\<close>

definition path_of :: "bool \<Rightarrow> string list \<Rightarrow> string" where
  "path_of rooted ps = (if rooted then ''/'' @ Join ps ''/'' else if ps = [] then ''.'' else Join ps ''/'')"

lemma Clean_path_of: "Clean p = path_of (IsAbs p) (clean_parts p)"
  by (simp add: Clean_def path_of_def)

lemma PathJoin_child:
  assumes "dir \<noteq> []" and "plain_segment a"
  shows "PathJoin [dir, a] = path_of (IsAbs dir) (clean_parts dir @ [a])"
proof -
  have a: "a \<noteq> []" "CHR ''/'' \<notin> set a" using assms(2) by (auto simp: plain_segment_def)
  have "PathJoin [dir, a] = Clean (dir @ CHR ''/'' # a)" using assms(1) a by (simp add: PathJoin_def)
  then show ?thesis
    using clean_parts_child [OF assms(1) a(2)] clean_segment_plain [OF assms(2)] IsAbs_append [OF assms(1)]
    by (simp add: Clean_path_of)
qed

lemma PathJoin_grandchild:
  assumes "dir \<noteq> []" and "plain_segment a" and "plain_segment b"
  shows "PathJoin [dir, a, b] = path_of (IsAbs dir) (clean_parts dir @ [a, b])"
proof -
  have a: "a \<noteq> []" "CHR ''/'' \<notin> set a" and b: "b \<noteq> []" "CHR ''/'' \<notin> set b"
    using assms(2,3) by (auto simp: plain_segment_def)
  let ?p = "dir @ CHR ''/'' # a"
  have "?p \<noteq> []" using assms(1) by simp
  have "PathJoin [dir, a, b] = Clean (?p @ CHR ''/'' # b)" using assms(1) a b by (simp add: PathJoin_def)
  then show ?thesis
    using clean_parts_child [OF \<open>?p \<noteq> []\<close> b(2)] clean_parts_child [OF assms(1) a(2)] clean_segment_plain [OF assms(2)]
      clean_segment_plain [OF assms(3)] IsAbs_append [OF assms(1)]
    by (simp add: Clean_path_of)
qed

lemma Join_append: "xs \<noteq> [] \<Longrightarrow> ys \<noteq> [] \<Longrightarrow> Join (xs @ ys) sep = Join xs sep @ sep @ Join ys sep"
proof (induction xs sep rule: Join.induct)
  case (2 s sep)
  then show ?case by (cases ys) simp_all
qed simp_all

lemma segments_Join:
  "ps \<noteq> [] \<Longrightarrow> \<forall>s \<in> set ps. CHR ''/'' \<notin> set s \<Longrightarrow> segments (Join ps ''/'') [] = ps"
proof (induction ps "''/''" rule: Join.induct)
  case (2 s)
  then show ?case by (simp add: segments_no_slash)
next
  case (3 s t ss)
  have "segments (s @ CHR ''/'' # Join (t # ss) ''/'') [] = segments s [] @ segments (Join (t # ss) ''/'') []"
    by (rule segments_append)
  then show ?case using 3 by (simp add: segments_no_slash)
qed simp

text \<open>Joining a directory with a clean relative path that does not climb.\<close>

lemma foldl_plain: "\<forall>s \<in> set ps. plain_segment s \<Longrightarrow> foldl (clean_segment rooted) out ps = out @ ps"
  by (induction ps arbitrary: out) (simp_all add: clean_segment_plain)

lemma PathJoin_below:
  assumes "dir \<noteq> []" and "ps \<noteq> []" and "\<forall>s \<in> set ps. plain_segment s"
  shows "PathJoin [dir, Join ps ''/''] = path_of (IsAbs dir) (clean_parts dir @ ps)"
proof -
  have "Join ps ''/'' \<noteq> []" using assms(2,3) by (cases ps rule: list.exhaust; cases "tl ps") (auto simp: plain_segment_def)
  then have join: "PathJoin [dir, Join ps ''/''] = Clean (dir @ CHR ''/'' # Join ps ''/'')" using assms(1) by (simp add: PathJoin_def)
  have "segments (Join ps ''/'') [] = ps" by (rule segments_Join) (use assms(2,3) in \<open>auto simp: plain_segment_def\<close>)
  then have "clean_parts (dir @ CHR ''/'' # Join ps ''/'') = clean_parts dir @ ps"
    using foldl_plain [OF assms(3)] IsAbs_append [OF assms(1)] by (simp add: clean_parts_def segments_append)
  then show ?thesis using join IsAbs_append [OF assms(1)] by (simp add: Clean_path_of)
qed

text \<open>Cleaning a clean path changes nothing.\<close>

lemma foldl_parents:
  "foldl (clean_segment False) (replicate k ''..'') (replicate n ''..'') = replicate (k + n) ''..''"
proof (induction n arbitrary: k)
  case (Suc n)
  have "clean_segment False (replicate k ''..'') ''..'' = replicate (Suc k) ''..''"
    by (cases "k = 0") (simp_all add: clean_segment_def replicate_append_same last_replicate)
  then show ?case using Suc [of "Suc k"] by simp
qed simp

lemma foldl_normal:
  assumes "normal_parts rooted ps"
  shows "foldl (clean_segment rooted) [] ps = ps"
proof -
  obtain n qs where ps: "ps = replicate n ''..'' @ qs" "''..'' \<notin> set qs" "rooted \<longrightarrow> n = 0"
      and ok: "\<forall>s \<in> set ps. s \<noteq> [] \<and> s \<noteq> ''.'' \<and> CHR ''/'' \<notin> set s"
    using assms by (auto simp: normal_parts_def)
  have "\<forall>s \<in> set qs. plain_segment s" using ps(1,2) ok by (auto simp: plain_segment_def)
  moreover have "foldl (clean_segment rooted) [] (replicate n ''..'') = replicate n ''..''"
    using ps(3) foldl_parents [of 0 n] by (cases rooted) simp_all
  ultimately show ?thesis using foldl_plain ps(1) by simp
qed

lemma IsAbs_path_of_normal: "normal_parts rooted ps \<Longrightarrow> IsAbs (path_of rooted ps) = rooted"
proof (cases rooted)
  case False
  assume "normal_parts rooted ps"
  then have "\<forall>s \<in> set ps. s \<noteq> [] \<and> CHR ''/'' \<notin> set s" by (simp add: normal_parts_def)
  then have "ps = [] \<or> (\<exists>c cs. Join ps ''/'' = c # cs \<and> c \<noteq> CHR ''/'')"
    by (cases "(ps, ''/'')" rule: Join.cases) (auto simp: neq_Nil_conv)
  then show ?thesis using False by (auto simp: path_of_def IsAbs_def HasPrefix_def)
qed (simp add: path_of_def IsAbs_def HasPrefix_def)

lemma clean_parts_path_of:
  assumes "normal_parts rooted ps"
  shows "clean_parts (path_of rooted ps) = ps"
proof (cases "ps = []")
  case True
  then show ?thesis by (simp add: path_of_def clean_parts_def clean_segment_def IsAbs_def HasPrefix_def)
next
  case False
  have seg: "segments (Join ps ''/'') [] = ps"
    by (rule segments_Join) (use False assms in \<open>auto simp: normal_parts_def\<close>)
  have abs: "IsAbs (path_of rooted ps) = rooted" by (rule IsAbs_path_of_normal [OF assms])
  show ?thesis
  proof (cases rooted)
    case True
    then show ?thesis using seg abs foldl_normal [OF assms] by (simp add: clean_parts_def path_of_def clean_segment_def)
  next
    case rel: False
    then show ?thesis using False seg abs foldl_normal [OF assms] by (simp add: clean_parts_def path_of_def)
  qed
qed

lemma Clean_idem: "Clean (Clean p) = Clean p"
  using clean_parts_path_of [OF clean_parts_normal] IsAbs_path_of_normal [OF clean_parts_normal]
  by (simp add: Clean_path_of)

lemma normal_parts_plain: "normal_parts rooted ps \<Longrightarrow> plain_segment a \<Longrightarrow> normal_parts rooted (ps @ [a])"
proof -
  assume "normal_parts rooted ps" and a: "plain_segment a"
  then have "normal_parts rooted (clean_segment rooted ps a)"
    using clean_segment_normal by (simp add: plain_segment_def)
  then show ?thesis by (simp add: clean_segment_plain [OF a])
qed

text \<open>Absolute clean paths are their parts, and \<open>Dir\<close> takes the last one off.\<close>

lemma rooted_parts_plain: "IsAbs p \<Longrightarrow> s \<in> set (clean_parts p) \<Longrightarrow> plain_segment s"
  using clean_parts_normal [of p] by (auto simp: normal_parts_def plain_segment_def)

lemma IsAbs_path_of [simp]: "IsAbs (path_of True ps)"
  by (simp add: path_of_def IsAbs_def HasPrefix_def)

lemma clean_parts_rooted:
  assumes "\<forall>s \<in> set ps. plain_segment s"
  shows "clean_parts (path_of True ps) = ps"
proof (cases "ps = []")
  case True
  then show ?thesis by (simp add: path_of_def clean_parts_def clean_segment_def)
next
  case False
  have "segments (Join ps ''/'') [] = ps" by (rule segments_Join) (use False assms in \<open>auto simp: plain_segment_def\<close>)
  then show ?thesis using foldl_plain [OF assms] by (simp add: path_of_def clean_parts_def clean_segment_def IsAbs_def HasPrefix_def)
qed

lemma Dir_path_of:
  assumes "\<forall>s \<in> set ps. plain_segment s" and "plain_segment x"
  shows "Dir (path_of True (ps @ [x])) = path_of True ps"
proof -
  have x: "CHR ''/'' \<notin> set x" using assms(2) by (simp add: plain_segment_def)
  have cut: "rev (dropWhile (\<lambda>c. c \<noteq> CHR ''/'') (rev (q @ CHR ''/'' # x))) = q @ [CHR ''/'']" for q
  proof -
    have "dropWhile (\<lambda>c. c \<noteq> CHR ''/'') (rev x @ CHR ''/'' # rev q) = CHR ''/'' # rev q"
      using x by (subst dropWhile_append2) auto
    then show ?thesis by simp
  qed
  show ?thesis
  proof (cases "ps = []")
    case True
    then show ?thesis using cut [of "[]"] by (simp add: Dir_def path_of_def Clean_path_of clean_parts_def clean_segment_def IsAbs_def HasPrefix_def)
  next
    case False
    have "path_of True (ps @ [x]) = path_of True ps @ CHR ''/'' # x" using False by (simp add: path_of_def Join_append)
    then have "Dir (path_of True (ps @ [x])) = Clean (path_of True ps @ [CHR ''/''])" using cut by (simp add: Dir_def)
    moreover have "path_of True ps \<noteq> []" by (simp add: path_of_def)
    ultimately show ?thesis
      using clean_parts_child [of "path_of True ps" "[]"] clean_parts_rooted [OF assms(1)] IsAbs_append [of "path_of True ps" "''/''"]
      by (simp add: Clean_path_of clean_segment_def)
  qed
qed

lemma Abs_path_rooted: "IsAbs cwd \<Longrightarrow> \<exists>ps. Abs_path cwd p = path_of True ps \<and> (\<forall>s \<in> set ps. plain_segment s)"
proof -
  assume cwd: "IsAbs cwd"
  then have "cwd \<noteq> []" by (auto simp: IsAbs_def HasPrefix_def)
  have "\<exists>q. Abs_path cwd p = Clean q \<and> IsAbs q"
    using cwd \<open>cwd \<noteq> []\<close> IsAbs_append [of cwd "CHR ''/'' # p"] by (auto simp: Abs_path_def PathJoin_def)
  then obtain q where "Abs_path cwd p = Clean q" "IsAbs q" by blast
  then show ?thesis using rooted_parts_plain [of q] by (auto simp: Clean_path_of intro!: exI [of _ "clean_parts q"])
qed

end
