(* ===== verification/Iso_Serve.thy ===== *)
theory Iso_Serve
  imports Secrets Go_Paths "HOL-Library.AList" "HOL-Library.Word"
begin

text \<open>
  The tokenized ISO server (\<^verbatim>\<open>pkg/isoserve/isoserve.go\<close>) and the guard on URLs an
  operator supplies (\<^verbatim>\<open>pkg/isoserve/ssrf.go\<close>). The file system is a function from a
  path to what \<^verbatim>\<open>os.Stat\<close> reports, the random bytes of a token are an argument, and
  the URL parser, the parser of literal addresses and the resolver are a record of functions.
  The listener and its goroutines are left out; the sweeper is an operation.
\<close>

section \<open>The server\<close>

record iso_entry =
  ie_path :: string
  ie_expiry :: instant

record iso_server =
  is_base_url :: string
  is_bind_addr :: string
  is_cert_file :: string
  is_key_file :: string
  is_entries :: "(string \<times> iso_entry) list"

datatype file_info = NoFile | RegularFile | OtherFile

datatype iso_error = NotAbsolute | StatFailed | NotRegular | BadTTL | TokenFailed

abbreviation routePrefix :: string where "routePrefix \<equiv> ''/redfish/iso''"
abbreviation tokenBytes :: nat where "tokenBytes \<equiv> 32"

definition iso_new :: "string \<Rightarrow> string \<Rightarrow> string \<Rightarrow> string \<Rightarrow> iso_server" where
  "iso_new baseURL bindAddr certFile keyFile =
     \<lparr>is_base_url = TrimRight baseURL (CHR ''/''), is_bind_addr = bindAddr, is_cert_file = certFile,
      is_key_file = keyFile, is_entries = []\<rparr>"

text \<open>\<^verbatim>\<open>base64.RawURLEncoding\<close>: the URL alphabet without padding.\<close>

definition raw_url_encode :: "string \<Rightarrow> string" where
  "raw_url_encode s =
     map (\<lambda>c. if c = CHR ''+'' then CHR ''-'' else if c = CHR ''/'' then CHR ''_'' else c)
       (filter (\<lambda>c. c \<noteq> CHR ''='') (b64_encode s))"

text \<open>\<open>rnd\<close> is what \<^verbatim>\<open>rand.Read\<close> delivers.\<close>

definition newToken :: "string option \<Rightarrow> string option" where
  "newToken rnd = map_option raw_url_encode rnd"

definition iso_register ::
  "(string \<Rightarrow> file_info) \<Rightarrow> string option \<Rightarrow> instant \<Rightarrow> string \<Rightarrow> duration \<Rightarrow> iso_server \<Rightarrow>
     (iso_error + string \<times> string) \<times> iso_server"
where
  "iso_register stat rnd now absPath ttl srv =
     (if \<not> IsAbs absPath then (Inl NotAbsolute, srv)
      else let clean = Clean absPath in
        case stat clean of
          NoFile \<Rightarrow> (Inl StatFailed, srv)
        | OtherFile \<Rightarrow> (Inl NotRegular, srv)
        | RegularFile \<Rightarrow>
            (if ttl \<le> 0 then (Inl BadTTL, srv)
             else case newToken rnd of
               None \<Rightarrow> (Inl TokenFailed, srv)
             | Some tok \<Rightarrow>
                 (Inr (is_base_url srv @ routePrefix @ ''/'' @ tok @ ''/'' @ Base clean, tok),
                  srv\<lparr>is_entries := AList.update tok \<lparr>ie_path = clean, ie_expiry = now + ttl\<rparr> (is_entries srv)\<rparr>)))"

text \<open>The text of an error; \<open>os_text\<close> is that of a failed stat or random source.\<close>

definition iso_error_text :: "(iso_error \<Rightarrow> string) \<Rightarrow> string \<Rightarrow> iso_error \<Rightarrow> string" where
  "iso_error_text os_text absPath err =
     ''registering iso: '' @
     (case err of
        NotAbsolute \<Rightarrow> ''path '' @ quoted absPath @ '' is not absolute''
      | StatFailed \<Rightarrow> os_text err
      | NotRegular \<Rightarrow> quoted (Clean absPath) @ '' is not a regular file''
      | BadTTL \<Rightarrow> ''ttl must be positive''
      | TokenFailed \<Rightarrow> ''generating token: '' @ os_text err)"

definition iso_revoke :: "string \<Rightarrow> iso_server \<Rightarrow> iso_server" where
  "iso_revoke tok srv = srv\<lparr>is_entries := AList.delete tok (is_entries srv)\<rparr>"

definition UsesTLS :: "iso_server \<Rightarrow> bool" where
  "UsesTLS srv = (is_cert_file srv \<noteq> [] \<and> is_key_file srv \<noteq> [])"

definition tokenFromPath :: "string \<Rightarrow> string" where
  "tokenFromPath p =
     (let rest = TrimPrefix p (routePrefix @ ''/'') in
      if rest = p then [] else takeWhile (\<lambda>c. c \<noteq> CHR ''/'') rest)"

datatype iso_reply = MethodNotAllowed | NotFound | ServeFile string

text \<open>\<open>opened\<close> is what opening and inspecting the file yields.\<close>

definition iso_handle :: "(string \<Rightarrow> file_info) \<Rightarrow> instant \<Rightarrow> string \<Rightarrow> string \<Rightarrow> iso_server \<Rightarrow> iso_reply" where
  "iso_handle opened now meth p srv =
     (if meth \<noteq> ''GET'' \<and> meth \<noteq> ''HEAD'' then MethodNotAllowed
      else let tok = tokenFromPath p in
        if tok = [] then NotFound
        else case map_of (is_entries srv) tok of
          None \<Rightarrow> NotFound
        | Some e \<Rightarrow>
            (if now > ie_expiry e then NotFound
             else case opened (ie_path e) of RegularFile \<Rightarrow> ServeFile (ie_path e) | _ \<Rightarrow> NotFound))"

text \<open>One tick of the sweeper.\<close>

definition iso_sweep :: "instant \<Rightarrow> iso_server \<Rightarrow> iso_server" where
  "iso_sweep now srv = srv\<lparr>is_entries := filter (\<lambda>(tok, e). \<not> now > ie_expiry e) (is_entries srv)\<rparr>"

datatype iso_op =
    OpRegister "string option" instant string duration
  | OpRevoke string
  | OpSweep instant

fun iso_step :: "(string \<Rightarrow> file_info) \<Rightarrow> iso_op \<Rightarrow> iso_server \<Rightarrow> iso_server" where
  "iso_step stat (OpRegister rnd now p ttl) srv = snd (iso_register stat rnd now p ttl srv)"
| "iso_step stat (OpRevoke tok) srv = iso_revoke tok srv"
| "iso_step stat (OpSweep now) srv = iso_sweep now srv"

definition iso_run :: "(string \<Rightarrow> file_info) \<Rightarrow> iso_op list \<Rightarrow> iso_server \<Rightarrow> iso_server" where
  "iso_run stat ops srv = fold (iso_step stat) ops srv"

section \<open>The guard on operator-supplied URLs\<close>

text \<open>An address as \<^verbatim>\<open>net.IP\<close> holds it: 4 or 16 bytes.\<close>

type_synonym ip = "8 word list"

definition To4 :: "ip \<Rightarrow> ip option" where
  "To4 a =
     (if length a = 4 then Some a
      else if length a = 16 \<and> take 10 a = replicate 10 0 \<and> a ! 10 = 0xff \<and> a ! 11 = 0xff then Some (drop 12 a)
      else None)"

definition IsLoopback :: "ip \<Rightarrow> bool" where
  "IsLoopback a = (case To4 a of Some v4 \<Rightarrow> v4 ! 0 = 127 | None \<Rightarrow> a = replicate 15 0 @ [1])"

definition IsUnspecified :: "ip \<Rightarrow> bool" where
  "IsUnspecified a = (case To4 a of Some v4 \<Rightarrow> v4 = replicate 4 0 | None \<Rightarrow> a = replicate 16 0)"

definition IsLinkLocalUnicast :: "ip \<Rightarrow> bool" where
  "IsLinkLocalUnicast a =
     (case To4 a of
        Some v4 \<Rightarrow> v4 ! 0 = 169 \<and> v4 ! 1 = 254
      | None \<Rightarrow> length a = 16 \<and> a ! 0 = 0xfe \<and> and (a ! 1) 0xc0 = 0x80)"

definition IsLinkLocalMulticast :: "ip \<Rightarrow> bool" where
  "IsLinkLocalMulticast a =
     (case To4 a of
        Some v4 \<Rightarrow> v4 ! 0 = 224 \<and> v4 ! 1 = 0 \<and> v4 ! 2 = 0
      | None \<Rightarrow> length a = 16 \<and> a ! 0 = 0xff \<and> and (a ! 1) 0x0f = 0x02)"

definition isBlockedIP :: "ip \<Rightarrow> string option" where
  "isBlockedIP a =
     (if IsLoopback a then Some ''loopback''
      else if IsUnspecified a then Some ''unspecified address''
      else if IsLinkLocalUnicast a then Some ''link-local (includes cloud metadata)''
      else if IsLinkLocalMulticast a then Some ''link-local multicast''
      else None)"

text \<open>
  The scheme and host of a parsed URL, the literal address a host is, the answers of the
  resolver, each with the error text of the library, and the printing of an address.
\<close>

record net =
  nt_parse :: "string \<Rightarrow> string + (string \<times> string)"
  nt_parse_ip :: "string \<Rightarrow> ip option"
  nt_lookup :: "string \<Rightarrow> string + ip list"
  nt_show :: "ip \<Rightarrow> string"

datatype url_error =
    BadURL string
  | SchemeNotAllowed string
  | MissingHost
  | HostNotAllowed string string
  | NotResolved string string
  | NoAddresses string
  | ResolvesToBlocked string ip string

fun first_blocked :: "ip list \<Rightarrow> (ip \<times> string) option" where
  "first_blocked [] = None"
| "first_blocked (a # as) = (case isBlockedIP a of Some reason \<Rightarrow> Some (a, reason) | None \<Rightarrow> first_blocked as)"

definition ValidateMediaURL :: "net \<Rightarrow> string \<Rightarrow> url_error option" where
  "ValidateMediaURL n raw =
     (case nt_parse n (TrimSpace raw) of
        Inl msg \<Rightarrow> Some (BadURL msg)
      | Inr (scheme, host) \<Rightarrow>
          (if ToLower scheme \<noteq> ''http'' \<and> ToLower scheme \<noteq> ''https'' then Some (SchemeNotAllowed scheme)
           else if host = [] then Some MissingHost
           else case nt_parse_ip n host of
             Some a \<Rightarrow> map_option (HostNotAllowed host) (isBlockedIP a)
           | None \<Rightarrow>
               (case nt_lookup n host of
                  Inl msg \<Rightarrow> Some (NotResolved host msg)
                | Inr ips \<Rightarrow>
                    (if ips = [] then Some (NoAddresses host)
                     else map_option (\<lambda>(a, reason). ResolvesToBlocked host a reason) (first_blocked ips)))))"

definition url_error_text :: "net \<Rightarrow> url_error \<Rightarrow> string" where
  "url_error_text n err =
     ''validating media URL: '' @
     (case err of
        BadURL msg \<Rightarrow> msg
      | SchemeNotAllowed scheme \<Rightarrow> ''scheme '' @ quoted scheme @ '' is not allowed (use http or https)''
      | MissingHost \<Rightarrow> ''missing host''
      | HostNotAllowed host reason \<Rightarrow> ''host '' @ host @ '' is not allowed ('' @ reason @ '')''
      | NotResolved host msg \<Rightarrow> ''resolving host '' @ quoted host @ '': '' @ msg
      | NoAddresses host \<Rightarrow> ''host '' @ quoted host @ '' resolved to no addresses''
      | ResolvesToBlocked host a reason \<Rightarrow>
          ''host '' @ quoted host @ '' resolves to '' @ nt_show n a @ '', which is not allowed ('' @ reason @ '')'')"

section \<open>Tokens and paths\<close>

lemma Join_snoc: "Join (xs @ [x]) sep = (if xs = [] then x else Join xs sep @ sep @ x)"
  by (induction xs rule: induct_list012) auto

lemma takeWhile_no_slash: "\<forall>c \<in> set s. c \<noteq> CHR ''/'' \<Longrightarrow> takeWhile (\<lambda>c. c \<noteq> CHR ''/'') (s @ CHR ''/'' # r) = s"
  by (induction s) auto

lemma raw_url_no_slash: "c \<in> set (raw_url_encode s) \<Longrightarrow> c \<noteq> CHR ''/''"
  by (auto simp: raw_url_encode_def split: if_splits)

lemma raw_url_nonempty: "s \<noteq> [] \<Longrightarrow> raw_url_encode s \<noteq> []"
proof -
  have eq: "b64_char n \<noteq> CHR ''=''" if "n < 64" for n
  proof -
    have "\<forall>n \<in> set [0..<64]. b64_char n \<noteq> CHR ''=''" by code_simp
    then show ?thesis using that by simp
  qed
  have "(of_char x :: nat) div 4 < 64" for x :: char
    using nat_of_char_less_256 [of x] by (simp add: div_less_iff_less_mult)
  then show "s \<noteq> [] \<Longrightarrow> raw_url_encode s \<noteq> []"
    using eq by (cases s rule: b64_encode.cases) (auto simp: raw_url_encode_def Let_def)
qed

text \<open>The path of a registered URL leads back to its token, whatever follows it.\<close>

lemma tokenFromPath_url:
  "\<forall>c \<in> set tok. c \<noteq> CHR ''/'' \<Longrightarrow> tokenFromPath (routePrefix @ ''/'' @ tok @ ''/'' @ rest) = tok"
  using takeWhile_no_slash [of tok rest]
  by (simp add: tokenFromPath_def TrimPrefix_def HasPrefix_def Let_def)

section \<open>What the server serves\<close>

definition token_live :: "iso_op list \<Rightarrow> string \<Rightarrow> iso_entry \<Rightarrow> bool" where
  "token_live ops tok e \<longleftrightarrow>
     (\<exists>before after rnd now p ttl. ops = before @ OpRegister rnd now p ttl # after \<and> newToken rnd = Some tok \<and>
        IsAbs p \<and> 0 < ttl \<and> e = \<lparr>ie_path = Clean p, ie_expiry = now + ttl\<rparr> \<and>
        (\<forall>op \<in> set after. op \<noteq> OpRevoke tok))"

lemma token_live_later: "token_live ops tok e \<Longrightarrow> op \<noteq> OpRevoke tok \<Longrightarrow> token_live (ops @ [op]) tok e"
proof -
  assume live: "token_live ops tok e" and op: "op \<noteq> OpRevoke tok"
  obtain before after rnd now p ttl where ops: "ops = before @ OpRegister rnd now p ttl # after"
    and tok: "newToken rnd = Some tok" "IsAbs p" "0 < ttl" "e = \<lparr>ie_path = Clean p, ie_expiry = now + ttl\<rparr>"
    and later: "\<forall>op \<in> set after. op \<noteq> OpRevoke tok"
    using live unfolding token_live_def by blast
  have "\<forall>op' \<in> set (after @ [op]). op' \<noteq> OpRevoke tok" using later op by auto
  then show ?thesis
    unfolding token_live_def using ops tok
    by (intro exI [of _ before] exI [of _ "after @ [op]"] exI [of _ rnd] exI [of _ now] exI [of _ p] exI [of _ ttl]) simp
qed

lemma iso_step_live:
  assumes "\<forall>tok e. map_of (is_entries srv) tok = Some e \<longrightarrow> token_live ops tok e" and "distinct (map fst (is_entries srv))"
  shows "(\<forall>tok e. map_of (is_entries (iso_step stat op srv)) tok = Some e \<longrightarrow> token_live (ops @ [op]) tok e) \<and>
    distinct (map fst (is_entries (iso_step stat op srv)))"
proof (cases op)
  case (OpRegister rnd now p ttl)
  have keep: "token_live (ops @ [op]) tok e" if "map_of (is_entries srv) tok = Some e" for tok e
    using token_live_later assms(1) that OpRegister by blast
  show ?thesis
  proof (cases "iso_step stat op srv = srv")
    case True
    then show ?thesis using keep assms(2) by simp
  next
    case False
    then obtain tok where tok: "newToken rnd = Some tok" "IsAbs p" "0 < ttl"
      and srv': "iso_step stat op srv =
        srv\<lparr>is_entries := AList.update tok \<lparr>ie_path = Clean p, ie_expiry = now + ttl\<rparr> (is_entries srv)\<rparr>"
      by (auto simp: OpRegister iso_register_def Let_def split: if_splits file_info.splits option.splits)
    have "token_live (ops @ [op]) tok \<lparr>ie_path = Clean p, ie_expiry = now + ttl\<rparr>"
      unfolding token_live_def OpRegister using tok
      by (intro exI [of _ ops] exI [of _ "[]"] exI [of _ rnd] exI [of _ now] exI [of _ p] exI [of _ ttl]) simp
    then show ?thesis using keep assms(2) by (auto simp: srv' update_conv' distinct_update split: if_splits)
  qed
next
  case (OpRevoke tok)
  then show ?thesis
    using assms token_live_later [of ops _ _ op]
    by (auto simp: iso_revoke_def delete_conv' distinct_delete split: if_splits)
next
  case (OpSweep now)
  have sub: "map_of (filter P xs) k = Some v \<Longrightarrow> distinct (map fst xs) \<Longrightarrow> map_of xs k = Some v"
    for P and xs :: "(string \<times> iso_entry) list" and k v
    by (rule map_of_is_SomeI) (auto dest: map_of_SomeD)
  let ?left = "filter (\<lambda>(tok, e). \<not> now > ie_expiry e) (is_entries srv)"
  have left: "is_entries (iso_step stat op srv) = ?left" by (simp add: OpSweep iso_sweep_def)
  have "token_live (ops @ [op]) tok e" if "map_of ?left tok = Some e" for tok e
    using token_live_later [of ops tok e op] assms(1) sub [OF that assms(2)] OpSweep by blast
  then show ?thesis unfolding left using distinct_map_filter [OF assms(2)] by blast
qed

lemma iso_run_live:
  assumes "is_entries srv = []"
  shows "(\<forall>tok e. map_of (is_entries (iso_run stat ops srv)) tok = Some e \<longrightarrow> token_live ops tok e) \<and>
    distinct (map fst (is_entries (iso_run stat ops srv)))"
proof (induction ops rule: rev_induct)
  case (snoc op ops)
  then show ?case using iso_step_live [of "iso_run stat ops srv" ops stat op] by (simp add: iso_run_def)
qed (simp add: iso_run_def assms)

section \<open>The always-denied address ranges\<close>

text \<open>Membership in a range written as a network and a prefix length.\<close>

definition byte_bits :: "8 word \<Rightarrow> bool list" where
  "byte_bits x = map (bit x) [7, 6, 5, 4, 3, 2, 1, 0]"

definition ip_bits :: "ip \<Rightarrow> bool list" where
  "ip_bits a = concat (map byte_bits a)"

definition cidr :: "ip \<Rightarrow> nat \<Rightarrow> ip \<Rightarrow> bool" where
  "cidr network len a = (length a = length network \<and> take len (ip_bits a) = take len (ip_bits network))"

text \<open>
  Loopback, unspecified, link-local and link-local multicast, for an IPv4 address (also when it
  is embedded in an IPv6 one) and for an IPv6 address.
\<close>

definition internal_v4 :: "ip \<Rightarrow> bool" where
  "internal_v4 a = (cidr [127, 0, 0, 0] 8 a \<or> cidr [0, 0, 0, 0] 32 a \<or> cidr [169, 254, 0, 0] 16 a \<or> cidr [224, 0, 0, 0] 24 a)"

definition internal_v6 :: "ip \<Rightarrow> bool" where
  "internal_v6 a =
     (cidr (replicate 15 0 @ [1]) 128 a \<or> cidr (replicate 16 0) 128 a \<or> cidr ([0xfe, 0x80] @ replicate 14 0) 10 a \<or>
      (a ! 0 = 0xff \<and> drop 12 (take 16 (ip_bits a)) = [False, False, True, False]))"

definition internal :: "ip \<Rightarrow> bool" where
  "internal a = (case To4 a of Some v4 \<Rightarrow> internal_v4 v4 | None \<Rightarrow> internal_v6 a)"

lemma byte_forall: "(\<And>n. n < 256 \<Longrightarrow> P (word_of_nat n)) \<Longrightarrow> P (x :: 8 word)"
proof -
  assume all: "\<And>n. n < 256 \<Longrightarrow> P (word_of_nat n :: 8 word)"
  have "unat x < 2 ^ LENGTH(8)" by (rule unsigned_less)
  then have "P (word_of_nat (unat x))" by (intro all) simp
  then show "P x" by simp
qed

lemma fe80_mask: "take 2 (byte_bits (x :: 8 word)) = [True, False] \<longleftrightarrow> and x 0xc0 = 0x80"
proof (rule byte_forall [where x = x])
  fix n :: nat
  assume n: "n < 256"
  have "\<forall>n \<in> set [0..<256]. take 2 (byte_bits (word_of_nat n :: 8 word)) = [True, False] \<longleftrightarrow> and (word_of_nat n :: 8 word) 0xc0 = 0x80"
    by code_simp
  then show "take 2 (byte_bits (word_of_nat n :: 8 word)) = [True, False] \<longleftrightarrow> and (word_of_nat n :: 8 word) 0xc0 = 0x80"
    using n by simp
qed

lemma ff02_mask: "drop 4 (byte_bits (x :: 8 word)) = [False, False, True, False] \<longleftrightarrow> and x 0x0f = 0x02"
proof (rule byte_forall [where x = x])
  fix n :: nat
  assume n: "n < 256"
  have "\<forall>n \<in> set [0..<256]. drop 4 (byte_bits (word_of_nat n :: 8 word)) = [False, False, True, False] \<longleftrightarrow> and (word_of_nat n :: 8 word) 0x0f = 0x02"
    by code_simp
  then show "drop 4 (byte_bits (word_of_nat n :: 8 word)) = [False, False, True, False] \<longleftrightarrow> and (word_of_nat n :: 8 word) 0x0f = 0x02"
    using n by simp
qed

lemma ip_bits_Cons: "ip_bits (x # a) = byte_bits x @ ip_bits a"
  by (simp add: ip_bits_def)

lemma length_byte_bits [simp]: "length (byte_bits x) = 8"
  by (simp add: byte_bits_def)

lemma byte_bits_inject [simp]: "byte_bits x = byte_bits y \<longleftrightarrow> x = y"
proof
  assume eq: "byte_bits x = byte_bits y"
  show "x = y"
  proof (rule bit_word_eqI)
    fix n
    assume "n < LENGTH(8)"
    then have "n \<in> {0, 1, 2, 3, 4, 5, 6, 7}" by auto
    then show "bit x n \<longleftrightarrow> bit y n" using eq by (auto simp: byte_bits_def)
  qed
qed simp

lemma ip_bits_inject: "length a = length b \<Longrightarrow> ip_bits a = ip_bits b \<longleftrightarrow> a = b"
  by (induction a b rule: list_induct2) (auto simp: ip_bits_Cons)

lemma length_ip_bits [simp]: "length (ip_bits a) = 8 * length a"
  by (induction a) (simp_all add: ip_bits_Cons ip_bits_def)

lemma list4: "length a = 4 \<Longrightarrow> \<exists>w x y z. a = [w, x, y, z]"
  by (auto simp: length_Suc_conv eval_nat_numeral)

lemma To4_length: "To4 a = Some v4 \<Longrightarrow> length v4 = 4"
  by (auto simp: To4_def split: if_splits)

lemma internal_v4_blocked:
  assumes "length a = 4"
  shows "internal_v4 a \<longleftrightarrow> isBlockedIP a \<noteq> None"
proof -
  obtain w x y z where a: "a = [w, x, y, z]" using list4 [OF assms] by blast
  show ?thesis
    by (auto simp: a internal_v4_def cidr_def ip_bits_Cons isBlockedIP_def IsLoopback_def IsUnspecified_def
        IsLinkLocalUnicast_def IsLinkLocalMulticast_def To4_def numeral_eq_Suc ip_bits_def)
qed

lemma internal_v6_blocked:
  assumes "length a = 16" and "To4 a = None"
  shows "internal_v6 a \<longleftrightarrow> isBlockedIP a \<noteq> None"
proof -
  obtain x b where x: "a = x # b" using assms(1) by (cases a) auto
  moreover obtain y r where y: "b = y # r" using assms(1) x by (cases b) auto
  ultimately have a: "a = x # y # r" and r: "length r = 14" using assms(1) by simp_all
  have whole: "cidr n 128 a \<longleftrightarrow> a = n" if "length n = 16" for n
    using that assms(1) ip_bits_inject [of a n] by (auto simp: cidr_def)
  have "cidr ([0xfe, 0x80] @ replicate 14 0) 10 a \<longleftrightarrow> x = 0xfe \<and> take 2 (byte_bits y) = take 2 (byte_bits 0x80)"
    using r by (simp add: cidr_def a ip_bits_Cons)
  also have "take 2 (byte_bits 0x80) = [True, False]" by code_simp
  finally have link: "cidr ([0xfe, 0x80] @ replicate 14 0) 10 a \<longleftrightarrow> x = 0xfe \<and> and y 0xc0 = 0x80"
    by (simp only: fe80_mask)
  have "drop 12 (take 16 (ip_bits a)) = drop 4 (byte_bits y)" by (simp add: a ip_bits_Cons)
  then have multi: "drop 12 (take 16 (ip_bits a)) = [False, False, True, False] \<longleftrightarrow> and y 0x0f = 0x02"
    by (simp only: ff02_mask)
  have "isBlockedIP a \<noteq> None \<longleftrightarrow> a = replicate 15 0 @ [1] \<or> a = replicate 16 0 \<or> (x = 0xfe \<and> and y 0xc0 = 0x80) \<or>
      (x = 0xff \<and> and y 0x0f = 0x02)"
    using assms by (simp add: isBlockedIP_def IsLoopback_def IsUnspecified_def IsLinkLocalUnicast_def IsLinkLocalMulticast_def a)
  then show ?thesis
    unfolding internal_v6_def link multi using whole by (simp add: a)
qed

lemma internal_iff_blocked:
  assumes "length a = 4 \<or> length a = 16"
  shows "internal a \<longleftrightarrow> isBlockedIP a \<noteq> None"
proof (cases "To4 a")
  case None
  then have "length a = 16" using assms by (auto simp: To4_def)
  then show ?thesis using internal_v6_blocked None by (simp add: internal_def)
next
  case (Some v4)
  have v4: "length v4 = 4" "To4 v4 = Some v4" using To4_length [OF Some] by (simp_all add: To4_def)
  have "isBlockedIP a = isBlockedIP v4"
    by (simp add: isBlockedIP_def IsLoopback_def IsUnspecified_def IsLinkLocalUnicast_def IsLinkLocalMulticast_def Some v4(2))
  then show ?thesis using internal_v4_blocked [OF v4(1)] Some by (simp add: internal_def)
qed

lemma first_blocked_None: "first_blocked as = None \<longleftrightarrow> (\<forall>a \<in> set as. isBlockedIP a = None)"
  by (induction as) (auto split: option.splits)

text \<open>The addresses of a host: the literal one, or the answers of the resolver.\<close>

definition addresses :: "net \<Rightarrow> string \<Rightarrow> ip list" where
  "addresses n host =
     (case nt_parse_ip n host of
        Some a \<Rightarrow> [a]
      | None \<Rightarrow> (case nt_lookup n host of Inl _ \<Rightarrow> [] | Inr ips \<Rightarrow> ips))"

section \<open>Properties\<close>

text \<open>
  C13. The token is the only capability. Whatever the request path is, the server answers with a
  file only if the path's first segment is a token that some registration issued for exactly
  that (cleaned, absolute) path, that has not been revoked since and has not expired; the rest
  of the path is ignored.
\<close>
theorem served_file_was_registered:
  assumes "iso_handle opened now meth p (iso_run stat ops (iso_new baseURL bindAddr certFile keyFile)) = ServeFile f"
  shows "\<exists>e. token_live ops (tokenFromPath p) e \<and> ie_path e = f \<and> now \<le> ie_expiry e \<and> opened f = RegularFile"
proof -
  let ?srv = "iso_run stat ops (iso_new baseURL bindAddr certFile keyFile)"
  obtain e where "map_of (is_entries ?srv) (tokenFromPath p) = Some e" "\<not> now > ie_expiry e" "ie_path e = f" "opened f = RegularFile"
    using assms by (auto simp: iso_handle_def Let_def split: if_splits option.splits file_info.splits)
  moreover have "is_entries (iso_new baseURL bindAddr certFile keyFile) = []" by (simp add: iso_new_def)
  ultimately have "token_live ops (tokenFromPath p) e" using iso_run_live by blast
  then show ?thesis using \<open>ie_path e = f\<close> \<open>\<not> now > ie_expiry e\<close> \<open>opened f = RegularFile\<close> by (intro exI [of _ e]) simp
qed

text \<open>
  C14. A registered URL works until it expires or is revoked: the path of the URL that Register
  returns serves the registered file at any time up to the expiry, is refused after it, and is
  refused at once after Revoke.
\<close>
theorem registered_url_round_trip:
  assumes "iso_register stat (Some rnd) t p ttl srv = (Inr (url, tok), srv')" and "rnd \<noteq> []"
    and "opened (Clean p) = RegularFile"
  shows "\<exists>path. url = is_base_url srv @ path \<and> tokenFromPath path = tok \<and>
    iso_handle opened now ''GET'' path srv' = (if now \<le> t + ttl then ServeFile (Clean p) else NotFound) \<and>
    iso_handle opened now ''GET'' path (iso_revoke tok srv') = NotFound"
proof -
  let ?path = "routePrefix @ ''/'' @ tok @ ''/'' @ Base (Clean p)"
  have tok: "tok = raw_url_encode rnd" "url = is_base_url srv @ ?path"
    and srv': "srv' = srv\<lparr>is_entries := AList.update tok \<lparr>ie_path = Clean p, ie_expiry = t + ttl\<rparr> (is_entries srv)\<rparr>"
    using assms(1) by (auto simp: iso_register_def newToken_def Let_def split: if_splits file_info.splits)
  have path: "tokenFromPath ?path = tok" using tokenFromPath_url raw_url_no_slash tok(1) by blast
  have "tok \<noteq> []" using raw_url_nonempty [OF assms(2)] tok(1) by simp
  then have serve: "iso_handle opened now ''GET'' ?path srv' = (if now \<le> t + ttl then ServeFile (Clean p) else NotFound)"
    and gone: "iso_handle opened now ''GET'' ?path (iso_revoke tok srv') = NotFound"
    unfolding iso_handle_def path using assms(3)
    by (auto simp: Let_def srv' update_conv' iso_revoke_def delete_conv')
  show ?thesis using tok(2) path serve gone by (intro exI [of _ ?path]) simp
qed

definition sample_stat :: "string \<Rightarrow> file_info" where
  "sample_stat p = (if p = ''/data/a.iso'' then RegularFile else NoFile)"

theorem served_file_was_registered_witness:
  "iso_handle sample_stat 5 ''GET'' ''/redfish/iso/AAAA/../../etc/passwd''
     (iso_run sample_stat [OpRegister (Some [CHR 0x00, CHR 0x00, CHR 0x00]) 0 ''/data/x/../a.iso'' 10]
        (iso_new ''http://h/'' ''h'' [] [])) = ServeFile ''/data/a.iso'' \<and>
   (\<exists>e. token_live [OpRegister (Some [CHR 0x00, CHR 0x00, CHR 0x00]) 0 ''/data/x/../a.iso'' 10] ''AAAA'' e)"
proof -
  have h: "iso_handle sample_stat 5 ''GET'' ''/redfish/iso/AAAA/../../etc/passwd''
     (iso_run sample_stat [OpRegister (Some [CHR 0x00, CHR 0x00, CHR 0x00]) 0 ''/data/x/../a.iso'' 10]
        (iso_new ''http://h/'' ''h'' [] [])) = ServeFile ''/data/a.iso''"
    by code_simp
  have "tokenFromPath ''/redfish/iso/AAAA/../../etc/passwd'' = ''AAAA''" by code_simp
  then show ?thesis using served_file_was_registered [OF h] h by auto
qed

theorem registered_url_round_trip_witness:
  "iso_handle sample_stat 3 ''GET'' ''/redfish/iso/AAAA/a.iso''
     (snd (iso_register sample_stat (Some [CHR 0x00, CHR 0x00, CHR 0x00]) 0 ''/data/a.iso'' 10
        (iso_new ''http://h'' ''h'' [] []))) = ServeFile ''/data/a.iso''"
proof -
  let ?r = "iso_register sample_stat (Some [CHR 0x00, CHR 0x00, CHR 0x00]) 0 ''/data/a.iso'' 10 (iso_new ''http://h'' ''h'' [] [])"
  have r: "?r = (Inr (''http://h/redfish/iso/AAAA/a.iso'', ''AAAA''), snd ?r)" by code_simp
  have c: "Clean ''/data/a.iso'' = ''/data/a.iso''" and b: "is_base_url (iso_new ''http://h'' ''h'' [] []) = ''http://h''"
    by code_simp+
  have "sample_stat (Clean ''/data/a.iso'') = RegularFile" by (simp add: c sample_stat_def)
  from registered_url_round_trip [where opened = sample_stat, OF r _ this, of 3] show ?thesis by (simp add: b c)
qed

text \<open>
  C15. A URL is accepted exactly when it parses as http or https with a host that has at least
  one address, and no address of the host is internal, in terms of the CIDR ranges 127.0.0.0/8,
  0.0.0.0/32, 169.254.0.0/16 and 224.0.0.0/24 (also when embedded in IPv6), ::1, ::, fe80::/10
  and the link-local multicast scope; every other address, the private ranges included, is
  accepted.
\<close>
theorem url_accepted_iff_not_internal:
  assumes "\<forall>host. \<forall>a \<in> set (addresses n host). length a = 4 \<or> length a = 16"
  shows "ValidateMediaURL n raw = None \<longleftrightarrow>
    (\<exists>scheme host. nt_parse n (TrimSpace raw) = Inr (scheme, host) \<and> (EqualFold scheme ''http'' \<or> EqualFold scheme ''https'') \<and>
       host \<noteq> [] \<and> addresses n host \<noteq> [] \<and> \<not> list_ex internal (addresses n host))"
proof (cases "nt_parse n (TrimSpace raw)")
  case (Inr u)
  obtain scheme host where u: "u = (scheme, host)" by (cases u)
  have lower: "ToLower ''http'' = ''http''" "ToLower ''https'' = ''https''" by code_simp+
  have ok: "list_ex internal (addresses n host) \<longleftrightarrow> first_blocked (addresses n host) \<noteq> None"
    using assms internal_iff_blocked by (auto simp: list_ex_iff first_blocked_None)
  show ?thesis
    unfolding ValidateMediaURL_def Inr u EqualFold_def lower
    using ok by (auto simp: addresses_def split: option.splits sum.splits)
qed (simp add: ValidateMediaURL_def)

definition sample_net :: net where
  "sample_net =
     \<lparr>nt_parse = \<lambda>u. Inr (''http'', u), nt_parse_ip = \<lambda>h. if h = ''meta'' then Some [169, 254, 169, 254] else None,
      nt_lookup = \<lambda>h. Inr [[10, 0, 0, 5]], nt_show = \<lambda>a. []\<rparr>"

theorem url_accepted_iff_not_internal_witness:
  "ValidateMediaURL sample_net ''meta'' \<noteq> None \<and> ValidateMediaURL sample_net ''bmc.lan'' = None"
proof -
  have len: "\<forall>host. \<forall>a \<in> set (addresses sample_net host). length a = 4 \<or> length a = 16"
    by (simp add: addresses_def sample_net_def)
  have "internal [169, 254, 169, 254]" "\<not> internal [10, 0, 0, 5]" by code_simp+
  moreover have "TrimSpace ''meta'' = ''meta''" "TrimSpace ''bmc.lan'' = ''bmc.lan''" by code_simp+
  moreover have "EqualFold ''http'' ''http''" by code_simp
  ultimately show ?thesis
    unfolding url_accepted_iff_not_internal [OF len] by (simp add: addresses_def sample_net_def)
qed

end
