(* ===== verification/Deploy_Lifecycle.thy ===== *)
theory Deploy_Lifecycle
  imports Deployment_Store Keyed_Table Redfish_Deployer Iso_Serve
begin

text \<open>
  The life of a Redfish deployment in the fleet server (\<^verbatim>\<open>pkg/handlers/deploy.go\<close> and
  \<^verbatim>\<open>finalize.go\<close>): the background deploy with its progress writes, arming the eject, the
  automatic eject when a node phones home, the manual finalize and eject, and the
  reconciliation after a restart.

  The state has the deployments and BMC targets, the ISO server, the world every BMC lives in
  with the events of all sessions, and the progress events sent to the UI. Each connection
  configuration has its own BMC in the environment. A routine that hangs in a polling loop is
  \<open>CutOff\<close>; the progress a run reports is written when the run is over, which nothing in
  between depends on. Log lines and cancel functions are left out.
\<close>

section \<open>State and environment\<close>

record progress_event =
  pe_deployment :: string
  pe_status :: string
  pe_step :: string
  pe_message :: string
  pe_progress :: int

record 'w fleet =
  fl_deployments :: deployments
  fl_targets :: targets
  fl_iso :: "iso_server option"
  fl_world :: 'w
  fl_events :: "bmc_event list"
  fl_ui :: "progress_event list"

record 'w fleet_env =
  fe_deployments :: "deployment engine"
  fe_targets :: "bmc_target engine"
  fe_cipher :: "aead option"
  fe_nonce :: "bmc_target \<Rightarrow> string option"
  fe_bmc :: "config \<Rightarrow> 'w bmc"
  fe_now :: "'w \<Rightarrow> instant \<times> 'w"
  fe_manifest :: "string list"
  fe_registry :: registry
  fe_db_text :: "db_error \<Rightarrow> string"
  fe_turns :: nat

definition on_deployments :: "(deployments \<Rightarrow> 'a \<times> deployments) \<Rightarrow> 'w fleet \<Rightarrow> 'a \<times> 'w fleet" where
  "on_deployments f s = (case f (fl_deployments s) of (r, t) \<Rightarrow> (r, s\<lparr>fl_deployments := t\<rparr>))"

definition now_at :: "'w fleet_env \<Rightarrow> 'w fleet \<Rightarrow> instant \<times> 'w fleet" where
  "now_at e s = (case fe_now e (fl_world s) of (t, w) \<Rightarrow> (t, s\<lparr>fl_world := w\<rparr>))"

definition on_bmc :: "('w, 'a) act \<Rightarrow> 'w fleet \<Rightarrow> ('a result \<times> (string \<times> int) list) \<times> 'w fleet" where
  "on_bmc m s =
     (case m \<lparr>r_world = fl_world s, r_events = [], r_progress = []\<rparr> of
        (r, run) \<Rightarrow> ((r, r_progress run), s\<lparr>fl_world := r_world run, fl_events := fl_events s @ r_events run\<rparr>))"

abbreviation dep_by_id :: "'w fleet_env \<Rightarrow> string \<Rightarrow> 'w fleet \<Rightarrow> db_error + deployment" where
  "dep_by_id e i s \<equiv> DeploymentGetByID (fe_deployments e) i (fl_deployments s)"

abbreviation target_by_id :: "'w fleet_env \<Rightarrow> string \<Rightarrow> 'w fleet \<Rightarrow> db_error + bmc_target" where
  "target_by_id e i s \<equiv> BMCTargetGetByID (fe_targets e) (fe_cipher e) i (fl_targets s)"

definition save_dep :: "'w fleet_env \<Rightarrow> deployment \<Rightarrow> 'w fleet \<Rightarrow> (db_error + unit) \<times> 'w fleet" where
  "save_dep e dep s = on_deployments (DeploymentUpdate (fe_deployments e) dep) s"

definition cas_eject :: "'w fleet_env \<Rightarrow> string \<Rightarrow> string \<Rightarrow> string \<Rightarrow> 'w fleet \<Rightarrow> (db_error + bool) \<times> 'w fleet" where
  "cas_eject e i source target s = on_deployments (DeploymentCASEjectState (fe_deployments e) i source target) s"

section \<open>Finalize\<close>

abbreviation finalizeTimeout :: duration where "finalizeTimeout \<equiv> 2 * minute"
abbreviation ejectFallbackWindow :: duration where "ejectFallbackWindow \<equiv> 60 * minute"

definition target_config :: "bmc_target \<Rightarrow> duration \<Rightarrow> config" where
  "target_config t timeout =
     \<lparr>cf_endpoint = b_endpoint t, cf_username = b_username t, cf_password = b_password t, cf_vendor = b_vendor t,
      cf_verify_ssl = b_verify_ssl t, cf_timeout = timeout, cf_system_id = b_system_id t, cf_auth_mode = []\<rparr>"

definition runFinalize :: "'w fleet_env \<Rightarrow> bmc_target \<Rightarrow> 'w fleet \<Rightarrow> unit result \<times> 'w fleet" where
  "runFinalize e target s =
     (let cfg = target_config target finalizeTimeout;
          b = fe_bmc e cfg;
          d = NewDeployer (fe_manifest e) (fe_registry e) cfg;
          ((r, _), s') = on_bmc (with_connection b (\<lambda>err. Wrap ''connecting to redfish endpoint: '' err []) d
            (\<lambda>d1. on_error (\<lambda>err. Wrap ''finalizing (eject): '' err []) (Finalize (fe_turns e) b d1 (b_eject_power_cycle target)))) s
      in (r, s'))"

definition scrubBMCError :: "go_error \<Rightarrow> string" where
  "scrubBMCError err = Error err"

definition markEjected :: "'w fleet_env \<Rightarrow> string \<Rightarrow> 'w fleet \<Rightarrow> 'w fleet" where
  "markEjected e i s =
     (case cas_eject e i EjectStateEjecting EjectStateEjected s of
        (Inr True, s1) \<Rightarrow>
          (case dep_by_id e i s1 of
             Inl _ \<Rightarrow> s1
           | Inr dep \<Rightarrow>
               (let (now, s2) = now_at e s1
                in snd (save_dep e (dep\<lparr>d_ejected_at := Some now, d_eject_error := []\<rparr>) s2)))
      | (_, s1) \<Rightarrow> s1)"

definition markEjectFailed :: "'w fleet_env \<Rightarrow> string \<Rightarrow> string \<Rightarrow> 'w fleet \<Rightarrow> 'w fleet" where
  "markEjectFailed e i reason s =
     (case cas_eject e i EjectStateEjecting EjectStateFailed s of
        (Inr True, s1) \<Rightarrow>
          (case dep_by_id e i s1 of
             Inl _ \<Rightarrow> s1
           | Inr dep \<Rightarrow> snd (save_dep e (dep\<lparr>d_eject_error := reason\<rparr>) s1))
      | (_, s1) \<Rightarrow> s1)"

definition finalizeDeployment :: "'w fleet_env \<Rightarrow> deployment \<Rightarrow> 'w fleet \<Rightarrow> unit result \<times> 'w fleet" where
  "finalizeDeployment e dep s =
     (if d_bmc_target_id dep = [] then
        (Fail (ErrorsNew (''deployment '' @ d_id dep @ '' has no BMC target'')),
         markEjectFailed e (d_id dep) ''deployment has no BMC target to eject'' s)
      else case target_by_id e (d_bmc_target_id dep) s of
        Inl err \<Rightarrow>
          (Fail (Wrap ''resolving BMC target: '' (ErrorsNew (fe_db_text e err)) []),
           markEjectFailed e (d_id dep) ''BMC target not found'' s)
      | Inr target \<Rightarrow>
          (case runFinalize e target s of
             (Fail err, s1) \<Rightarrow> (Fail err, markEjectFailed e (d_id dep) (scrubBMCError err) s1)
           | (Ok _, s1) \<Rightarrow> (Ok (), markEjected e (d_id dep) s1)
           | (CutOff, s1) \<Rightarrow> (CutOff, s1)))"

section \<open>Eject when the node phones home\<close>

definition withinEjectFallbackWindow :: "instant \<Rightarrow> deployment \<Rightarrow> bool" where
  "withinEjectFallbackWindow now dep =
     (case d_completed_at dep of None \<Rightarrow> False | Some t \<Rightarrow> now - t \<le> ejectFallbackWindow)"

definition node_linked :: "'w fleet_env \<Rightarrow> string \<Rightarrow> 'w fleet \<Rightarrow> deployment \<Rightarrow> bool" where
  "node_linked e nodeID s dep =
     (if d_node_id dep = nodeID then True
      else if d_bmc_target_id dep = [] then False
      else case target_by_id e (d_bmc_target_id dep) s of Inl _ \<Rightarrow> False | Inr t \<Rightarrow> b_node_id t = nodeID)"

text \<open>The clock is read only for the fallback.\<close>

definition correlateDeployment ::
  "'w fleet_env \<Rightarrow> string \<Rightarrow> deployment list \<Rightarrow> 'w fleet \<Rightarrow> (deployment option \<times> bool) \<times> 'w fleet" where
  "correlateDeployment e nodeID pending s =
     (case filter (node_linked e nodeID s) pending of
        [dep] \<Rightarrow> ((Some dep, False), s)
      | _ # _ # _ \<Rightarrow> ((None, False), s)
      | [] \<Rightarrow>
          (case pending of
             [dep] \<Rightarrow>
               (if d_completed_at dep = None then ((None, False), s)
                else let (now, s1) = now_at e s in
                  ((if withinEjectFallbackWindow now dep then (Some dep, True) else (None, False)), s1))
           | _ \<Rightarrow> ((None, False), s)))"

definition MaybeFinalizeForNode :: "'w fleet_env \<Rightarrow> string \<Rightarrow> 'w fleet \<Rightarrow> 'w fleet" where
  "MaybeFinalizeForNode e nodeID s =
     (case DeploymentList (fe_deployments e) (fl_deployments s) of
        Inl _ \<Rightarrow> s
      | Inr deps \<Rightarrow>
          (let pending = filter (\<lambda>dep. d_method dep = ''redfish'' \<and> d_eject_state dep = EjectStatePending) deps in
           if pending = [] then s
           else case correlateDeployment e nodeID pending s of
             ((None, _), s1) \<Rightarrow> s1
           | ((Some chosen, _), s1) \<Rightarrow>
               (case cas_eject e (d_id chosen) EjectStatePending EjectStateEjecting s1 of
                  (Inr True, s2) \<Rightarrow>
                    (let chosen' = chosen\<lparr>d_node_id := nodeID, d_eject_state := EjectStateEjecting\<rparr>;
                         (_, s3) = save_dep e chosen' s2
                     in snd (finalizeDeployment e chosen' s3))
                | (_, s2) \<Rightarrow> s2)))"

section \<open>Manual finalize and eject\<close>

datatype deploy_body =
    DeploymentBody deployment
  | DeploymentsBody "deployment list"
  | StatusBody string
  | TargetBody bmc_target
  | TargetsBody "bmc_target list"

type_synonym 'w deploy_reply = "deploy_body response option \<times> 'w fleet"

fun claim_from :: "'w fleet_env \<Rightarrow> string \<Rightarrow> string list \<Rightarrow> 'w fleet \<Rightarrow> bool \<times> 'w fleet" where
  "claim_from e i [] s = (False, s)"
| "claim_from e i (source # sources) s =
     (case cas_eject e i source EjectStateEjecting s of
        (Inl _, s1) \<Rightarrow> (False, s1)
      | (Inr True, s1) \<Rightarrow> (True, s1)
      | (Inr False, s1) \<Rightarrow> claim_from e i sources s1)"

definition claimManualFinalize :: "'w fleet_env \<Rightarrow> deployment \<Rightarrow> 'w fleet \<Rightarrow> bool \<times> 'w fleet" where
  "claimManualFinalize e dep s =
     claim_from e (d_id dep) [EjectStatePending, EjectStateFailed, EjectStateEjected, []] s"

text \<open>No reply when the finalize itself hangs.\<close>

definition FinalizeDeployment :: "'w fleet_env \<Rightarrow> string \<Rightarrow> 'w fleet \<Rightarrow> 'w deploy_reply" where
  "FinalizeDeployment e i s =
     (case dep_by_id e i s of
        Inl _ \<Rightarrow> (Some (Response 404 (ErrorBody ''deployment not found'')), s)
      | Inr dep \<Rightarrow>
          (if d_bmc_target_id dep = []
           then (Some (Response 400 (ErrorBody ''deployment has no BMC target to eject'')), s)
           else case claimManualFinalize e dep s of
             (False, s1) \<Rightarrow> (Some (Response 409 (ErrorBody ''a finalize is already in progress for this deployment'')), s1)
           | (True, s1) \<Rightarrow>
               (case finalizeDeployment e (dep\<lparr>d_eject_state := EjectStateEjecting\<rparr>) s1 of
                  (Fail err, s2) \<Rightarrow>
                    (case dep_by_id e i s2 of
                       Inr updated \<Rightarrow> (Some (Response 500 (Body (DeploymentBody updated))), s2)
                     | Inl _ \<Rightarrow> (Some (Response 500 (ErrorBody (scrubBMCError err))), s2))
                | (Ok _, s2) \<Rightarrow>
                    (case dep_by_id e i s2 of
                       Inr updated \<Rightarrow> (Some (Response 200 (Body (DeploymentBody updated))), s2)
                     | Inl _ \<Rightarrow> (Some (Response 500 (ErrorBody ''finalize succeeded but failed to read back deployment'')), s2))
                | (CutOff, s2) \<Rightarrow> (None, s2))))"

definition EjectBMCTarget :: "'w fleet_env \<Rightarrow> string \<Rightarrow> 'w fleet \<Rightarrow> 'w deploy_reply" where
  "EjectBMCTarget e i s =
     (case target_by_id e i s of
        Inl _ \<Rightarrow> (Some (Response 404 (ErrorBody ''BMC target not found'')), s)
      | Inr target \<Rightarrow>
          (case runFinalize e target s of
             (Fail err, s1) \<Rightarrow> (Some (Response 500 (ErrorBody (scrubBMCError err))), s1)
           | (Ok _, s1) \<Rightarrow> (Some (Response 200 (Body (StatusBody ''ejected''))), s1)
           | (CutOff, s1) \<Rightarrow> (None, s1)))"

section \<open>Restart\<close>

text \<open>The error of the reconciliation is the row it stopped at.\<close>

fun reconcile_rows :: "'w fleet_env \<Rightarrow> deployment list \<Rightarrow> 'w fleet \<Rightarrow> (go_error + unit) \<times> 'w fleet" where
  "reconcile_rows e [] s = (Inr (), s)"
| "reconcile_rows e (dep # deps) s =
     (let was_ejecting = (d_eject_state dep = EjectStateEjecting);
          dep1 = (if was_ejecting then dep\<lparr>d_eject_state := EjectStatePending\<rparr> else dep);
          (r1, s1) = (if was_ejecting then save_dep e dep1 s else (Inr (), s))
      in case r1 of
           Inl err \<Rightarrow> (Inl (Wrap (''resetting orphaned eject '' @ d_id dep @ '': '') (ErrorsNew (fe_db_text e err)) []), s1)
         | Inr _ \<Rightarrow>
             (if d_status dep \<noteq> DeployActive then reconcile_rows e deps s1
              else let (now, s2) = now_at e s1;
                       (r2, s3) = save_dep e (dep1\<lparr>d_status := DeployFailed, d_message := ''interrupted by server restart'',
                                                  d_completed_at := Some now\<rparr>) s2
                   in case r2 of
                        Inl err \<Rightarrow> (Inl (Wrap (''failing orphaned deployment '' @ d_id dep @ '': '') (ErrorsNew (fe_db_text e err)) []), s3)
                      | Inr _ \<Rightarrow> reconcile_rows e deps s3))"

definition ReconcileOrphanedDeployments :: "'w fleet_env \<Rightarrow> 'w fleet \<Rightarrow> (go_error + unit) \<times> 'w fleet" where
  "ReconcileOrphanedDeployments e s =
     (case DeploymentList (fe_deployments e) (fl_deployments s) of
        Inl err \<Rightarrow> (Inl (Wrap ''listing deployments: '' (ErrorsNew (fe_db_text e err)) []), s)
      | Inr deps \<Rightarrow> reconcile_rows e deps s)"

section \<open>The background deploy\<close>

abbreviation redfishDeployTimeout :: duration where "redfishDeployTimeout \<equiv> 30 * minute"

definition broadcastProgress :: "string \<Rightarrow> string \<Rightarrow> string \<Rightarrow> string \<Rightarrow> int \<Rightarrow> 'w fleet \<Rightarrow> 'w fleet" where
  "broadcastProgress i phase step message progress s =
     s\<lparr>fl_ui := fl_ui s @ [\<lparr>pe_deployment = i, pe_status = phase, pe_step = step, pe_message = message, pe_progress = progress\<rparr>]\<rparr>"

definition progressUpdater :: "'w fleet_env \<Rightarrow> string \<Rightarrow> string \<times> int \<Rightarrow> 'w fleet \<Rightarrow> 'w fleet" where
  "progressUpdater e i = (\<lambda>(step, percent) s.
     case dep_by_id e i s of
       Inl _ \<Rightarrow> s
     | Inr dep \<Rightarrow>
         (if percent \<le> d_progress dep \<and> d_message dep = step then s
          else let dep1 = (if percent > d_progress dep then dep\<lparr>d_progress := percent\<rparr> else dep);
                   dep2 = dep1\<lparr>d_message := step\<rparr>;
                   (_, s1) = save_dep e dep2 s
               in broadcastProgress i (d_status dep2) step (d_message dep2) (d_progress dep2) s1))"

definition completeDeployment :: "'w fleet_env \<Rightarrow> string \<Rightarrow> string \<Rightarrow> 'w fleet \<Rightarrow> 'w fleet" where
  "completeDeployment e i message s =
     (case dep_by_id e i s of
        Inl _ \<Rightarrow> s
      | Inr dep \<Rightarrow>
          (let (now, s1) = now_at e s;
               dep' = dep\<lparr>d_status := DeployCompleted, d_message := message, d_progress := 100, d_completed_at := Some now\<rparr>;
               (_, s2) = save_dep e dep' s1
           in broadcastProgress i (d_status dep') ''completed'' message (d_progress dep') s2))"

definition failDeployment :: "'w fleet_env \<Rightarrow> string \<Rightarrow> string \<Rightarrow> 'w fleet \<Rightarrow> 'w fleet" where
  "failDeployment e i message s =
     (case dep_by_id e i s of
        Inl _ \<Rightarrow> s
      | Inr dep \<Rightarrow>
          (let (now, s1) = now_at e s;
               dep' = dep\<lparr>d_status := DeployFailed, d_message := message, d_completed_at := Some now\<rparr>;
               (_, s2) = save_dep e dep' s1
           in broadcastProgress i (d_status dep') ''failed'' message (d_progress dep') s2))"

definition markEjectPending :: "'w fleet_env \<Rightarrow> string \<Rightarrow> 'w fleet \<Rightarrow> 'w fleet" where
  "markEjectPending e i s =
     (case dep_by_id e i s of
        Inl _ \<Rightarrow> s
      | Inr dep \<Rightarrow> snd (save_dep e (dep\<lparr>d_eject_policy := EjectPolicyOnPhoneHome, d_eject_state := EjectStatePending\<rparr>) s))"

record deploy_job =
  dj_deployment :: string
  dj_image_url :: string
  dj_serve_token :: string
  dj_config :: config
  dj_https :: bool
  dj_eject_after :: bool

definition revoke_token :: "string \<Rightarrow> 'w fleet \<Rightarrow> 'w fleet" where
  "revoke_token tok s = (if tok \<noteq> [] then s\<lparr>fl_iso := map_option (iso_revoke tok) (fl_iso s)\<rparr> else s)"

definition job_request :: "deploy_job \<Rightarrow> deploy_request" where
  "job_request j =
     \<lparr>dr_image_url = dj_image_url j, dr_boot_target = ''Cd'', dr_boot_mode = ''UEFI'', dr_reset_type = [], dr_https = dj_https j\<rparr>"

text \<open>
  A connection failure and a deploy failure are told apart by the message they are recorded
  with: \<open>Fail\<close> of the outer run is the former, an error inside its value the latter.
\<close>

definition runRedfishDeploy :: "'w fleet_env \<Rightarrow> deploy_job \<Rightarrow> 'w fleet \<Rightarrow> 'w fleet" where
  "runRedfishDeploy e j s =
     (let i = dj_deployment j;
          b = fe_bmc e (dj_config j);
          d = NewDeployer (fe_manifest e) (fe_registry e) (dj_config j);
          ((r, progress), s1) = on_bmc (with_connection b id d (\<lambda>d1. attempt (Deploy (fe_turns e) b d1 (job_request j)))) s;
          s2 = fold (progressUpdater e i) progress s1
      in case r of
           Fail err \<Rightarrow> revoke_token (dj_serve_token j) (failDeployment e i (''connecting to redfish endpoint: '' @ Error err) s2)
         | Ok (Inl err) \<Rightarrow> revoke_token (dj_serve_token j) (failDeployment e i (''redfish deploy failed: '' @ Error err) s2)
         | Ok (Inr (_, Some err)) \<Rightarrow>
             revoke_token (dj_serve_token j) (failDeployment e i (''redfish deploy failed: '' @ Error err) s2)
         | Ok (Inr (result, None)) \<Rightarrow>
             (let msg = (if rs_task_state result \<noteq> [] then ''Deployment completed (task state: '' @ rs_task_state result @ '')''
                         else ''Deployment completed successfully'');
                  s3 = completeDeployment e i msg s2
              in revoke_token (dj_serve_token j) (if dj_eject_after j then markEjectPending e i s3 else s3))
         | CutOff \<Rightarrow> s2)"

section \<open>The deployments as a map\<close>

definition dep_map :: "'w fleet \<Rightarrow> string \<Rightarrow> deployment option" where
  "dep_map s = row_map d_id (fl_deployments s)"

definition dep_ok :: "'w fleet \<Rightarrow> bool" where
  "dep_ok s = distinct (map d_id (fl_deployments s))"

named_theorems fleet_simps \<open>effects of the primitive operations on the fields of the state\<close>

lemma dep_map_fields [fleet_simps]:
  "dep_map (s\<lparr>fl_world := w\<rparr>) = dep_map s" "dep_ok (s\<lparr>fl_world := w\<rparr>) = dep_ok s"
  "dep_map (s\<lparr>fl_events := ev\<rparr>) = dep_map s" "dep_ok (s\<lparr>fl_events := ev\<rparr>) = dep_ok s"
  "dep_map (s\<lparr>fl_ui := ui\<rparr>) = dep_map s" "dep_ok (s\<lparr>fl_ui := ui\<rparr>) = dep_ok s"
  "dep_map (s\<lparr>fl_iso := srv\<rparr>) = dep_map s" "dep_ok (s\<lparr>fl_iso := srv\<rparr>) = dep_ok s"
  by (simp_all add: dep_map_def dep_ok_def)

lemma now_at_fields [fleet_simps]:
  "dep_map (snd (now_at e s)) = dep_map s" "dep_ok (snd (now_at e s)) = dep_ok s"
  "fl_deployments (snd (now_at e s)) = fl_deployments s" "fl_targets (snd (now_at e s)) = fl_targets s"
  "fl_events (snd (now_at e s)) = fl_events s" "fl_iso (snd (now_at e s)) = fl_iso s"
  by (simp_all add: now_at_def dep_map_def dep_ok_def split: prod.splits)

lemma on_bmc_fields [fleet_simps]:
  "dep_map (snd (on_bmc m s)) = dep_map s" "dep_ok (snd (on_bmc m s)) = dep_ok s"
  "fl_deployments (snd (on_bmc m s)) = fl_deployments s" "fl_targets (snd (on_bmc m s)) = fl_targets s"
  "fl_iso (snd (on_bmc m s)) = fl_iso s"
  by (simp_all add: on_bmc_def dep_map_def dep_ok_def split: prod.splits)

lemma store_fields [fleet_simps]:
  "fl_targets (snd (save_dep e dep s)) = fl_targets s" "fl_events (snd (save_dep e dep s)) = fl_events s"
  "fl_iso (snd (save_dep e dep s)) = fl_iso s" "fl_world (snd (save_dep e dep s)) = fl_world s"
  "fl_targets (snd (cas_eject e i a c s)) = fl_targets s" "fl_events (snd (cas_eject e i a c s)) = fl_events s"
  "fl_iso (snd (cas_eject e i a c s)) = fl_iso s" "fl_world (snd (cas_eject e i a c s)) = fl_world s"
  by (simp_all add: save_dep_def cas_eject_def on_deployments_def split: prod.splits)

lemma runFinalize_fields [fleet_simps]:
  "dep_map (snd (runFinalize e target s)) = dep_map s" "dep_ok (snd (runFinalize e target s)) = dep_ok s"
  "fl_targets (snd (runFinalize e target s)) = fl_targets s"
  using on_bmc_fields unfolding runFinalize_def Let_def by (auto simp: split_beta)

text \<open>
  What the handlers rely on: a reliable engine for the deployments, in terms of the map. The
  contract is met by every engine with the primary key as its only unique column.
\<close>

locale deployment_map =
  fixes e :: "'w fleet_env"
  assumes lookup: "dep_ok s \<Longrightarrow> dep_by_id e i s = (case dep_map s i of Some dep \<Rightarrow> Inr dep | None \<Rightarrow> Inl RecordNotFound)"
    and save: "dep_ok s \<Longrightarrow> fst (save_dep e dep s) = Inr () \<and> dep_ok (snd (save_dep e dep s)) \<and>
        dep_map (snd (save_dep e dep s)) = (dep_map s)(d_id dep \<mapsto> dep)"
    and cas: "dep_ok s \<Longrightarrow>
        fst (cas_eject e i a c s) = Inr (case dep_map s i of Some dep \<Rightarrow> d_eject_state dep = a | None \<Rightarrow> False) \<and>
        dep_ok (snd (cas_eject e i a c s)) \<and>
        dep_map (snd (cas_eject e i a c s)) =
          (case dep_map s i of
             Some dep \<Rightarrow> if d_eject_state dep = a then (dep_map s)(i \<mapsto> dep\<lparr>d_eject_state := c\<rparr>) else dep_map s
           | None \<Rightarrow> dep_map s)"
    and list_all_rows: "\<exists>rows. DeploymentList (fe_deployments e) (fl_deployments s) = Inr rows \<and> mset rows = mset (fl_deployments s)"
begin

lemma markEjected_map:
  assumes "dep_ok s" and "dep_map s i = Some dep" and "d_eject_state dep = EjectStateEjecting"
  shows "dep_ok (markEjected e i s) \<and>
    (\<exists>now. dep_map (markEjected e i s) =
      (dep_map s)(i \<mapsto> dep\<lparr>d_eject_state := EjectStateEjected, d_ejected_at := Some now, d_eject_error := []\<rparr>))"
proof -
  obtain s1 where s1: "cas_eject e i EjectStateEjecting EjectStateEjected s = (Inr True, s1)"
    and ok1: "dep_ok s1" and map1: "dep_map s1 = (dep_map s)(i \<mapsto> dep\<lparr>d_eject_state := EjectStateEjected\<rparr>)"
    using cas [OF assms(1), of i EjectStateEjecting EjectStateEjected] assms(2,3)
    by (cases "cas_eject e i EjectStateEjecting EjectStateEjected s") auto
  obtain now s2 where s2: "now_at e s1 = (now, s2)" by (cases "now_at e s1")
  then have "dep_ok s2" "dep_map s2 = dep_map s1" using now_at_fields(1,2) [of e s1] ok1 by auto
  moreover have "d_id dep = i" using assms(2) row_map_Some unfolding dep_map_def by fastforce
  ultimately show ?thesis
    using save [of s2] lookup [OF ok1, of i] s1 s2 map1 by (auto simp: markEjected_def)
qed

lemma markEjectFailed_map:
  assumes "dep_ok s" and "dep_map s i = Some dep" and "d_eject_state dep = EjectStateEjecting"
  shows "dep_ok (markEjectFailed e i reason s) \<and>
    dep_map (markEjectFailed e i reason s) =
      (dep_map s)(i \<mapsto> dep\<lparr>d_eject_state := EjectStateFailed, d_eject_error := reason\<rparr>)"
proof -
  obtain s1 where s1: "cas_eject e i EjectStateEjecting EjectStateFailed s = (Inr True, s1)"
    and ok1: "dep_ok s1" and map1: "dep_map s1 = (dep_map s)(i \<mapsto> dep\<lparr>d_eject_state := EjectStateFailed\<rparr>)"
    using cas [OF assms(1), of i EjectStateEjecting EjectStateFailed] assms(2,3)
    by (cases "cas_eject e i EjectStateEjecting EjectStateFailed s") auto
  moreover have "d_id dep = i" using assms(2) row_map_Some unfolding dep_map_def by fastforce
  ultimately show ?thesis
    using save [OF ok1] lookup [OF ok1, of i] by (auto simp: markEjectFailed_def)
qed

text \<open>The row of the deployment after a finalize, by the result.\<close>

lemma finalizeDeployment_map:
  assumes "dep_ok s" and "dep_map s (d_id dep) = Some row" and "d_eject_state row = EjectStateEjecting"
  shows "dep_ok (snd (finalizeDeployment e dep s)) \<and>
    (case fst (finalizeDeployment e dep s) of
       Ok _ \<Rightarrow> \<exists>now. dep_map (snd (finalizeDeployment e dep s)) = (dep_map s)(d_id dep \<mapsto>
                 row\<lparr>d_eject_state := EjectStateEjected, d_ejected_at := Some now, d_eject_error := []\<rparr>)
     | Fail err \<Rightarrow> \<exists>reason. dep_map (snd (finalizeDeployment e dep s)) = (dep_map s)(d_id dep \<mapsto>
                 row\<lparr>d_eject_state := EjectStateFailed, d_eject_error := reason\<rparr>)
     | CutOff \<Rightarrow> dep_map (snd (finalizeDeployment e dep s)) = dep_map s)"
proof -
  have failed: "\<exists>reason'. dep_map (markEjectFailed e (d_id dep) reason s') = (dep_map s)(d_id dep \<mapsto>
      row\<lparr>d_eject_state := EjectStateFailed, d_eject_error := reason'\<rparr>)" "dep_ok (markEjectFailed e (d_id dep) reason s')"
    if "dep_ok s'" "dep_map s' = dep_map s" for s' :: "'w fleet" and reason
    using markEjectFailed_map [OF that(1), of "d_id dep" row reason] that(2) assms(2,3) by auto
  show ?thesis
  proof (cases "d_bmc_target_id dep = []")
    case True
    then show ?thesis using failed [OF assms(1) refl] by (simp add: finalizeDeployment_def)
  next
    case False
    show ?thesis
    proof (cases "target_by_id e (d_bmc_target_id dep) s")
      case (Inl err)
      then show ?thesis using failed [OF assms(1) refl] False by (simp add: finalizeDeployment_def)
    next
      case (Inr target)
      obtain r s1 where run: "runFinalize e target s = (r, s1)" by (cases "runFinalize e target s")
      then have s1: "dep_ok s1" "dep_map s1 = dep_map s" using runFinalize_fields [of e target s] assms(1) by auto
      then show ?thesis
        using failed [OF s1] markEjected_map [OF s1(1), of "d_id dep" row] assms(2,3) False Inr run
        by (cases r) (auto simp: finalizeDeployment_def)
    qed
  qed
qed

end

lemma deployment_map_of_engine:
  assumes eng: "keyed_engine (fe_deployments e) d_id dep_clash"
  shows "deployment_map e"
proof (unfold_locales, goal_cases)
  case (1 s i)
  then show ?case
    using keyed_engine.first_map [OF eng, of "fl_deployments s" i] by (simp add: DeploymentGetByID_def dep_ok_def dep_map_def)
next
  case (2 s dep)
  then show ?case
    using keyed_engine.save_map [OF eng, of "fl_deployments s" dep]
    by (auto simp: save_dep_def on_deployments_def DeploymentUpdate_def dep_ok_def dep_map_def)
next
  case (3 s i a c)
  have keep: "\<And>x. d_id (x\<lparr>d_eject_state := c\<rparr>) = d_id x" by simp
  show ?case
    using keyed_engine.updates_map [OF eng 3 [unfolded dep_ok_def] keep, of i "\<lambda>d. d_eject_state d = a"]
    by (auto simp: cas_eject_def on_deployments_def DeploymentCASEjectState_def dep_ok_def dep_map_def split: option.splits)
next
  case (4 s)
  have rel: "reliable_engine (fe_deployments e) d_id dep_clash" using eng by (rule keyed_engine.axioms(1))
  have sql: "sql_engine (fe_deployments e) d_id dep_clash" using rel by (rule reliable_engine.axioms(1))
  show ?case
    using reliable_engine.db_find_total [OF rel, of "\<lambda>_. True" "fl_deployments s"]
      sql_engine.db_find_mset [OF sql, of "\<lambda>_. True" "fl_deployments s"]
    by (auto simp: DeploymentList_def)
qed

interpretation fleet_in_memory: deployment_map "e\<lparr>fe_deployments := mem_engine d_id dep_clash\<rparr>" for e :: "'w fleet_env"
  by (rule deployment_map_of_engine) (simp add: deployments.keyed_engine_axioms)

section \<open>What each routine does to the rows\<close>

text \<open>The rows a phone-home may act on, and the choice among them.\<close>

definition eject_pending :: "deployment \<Rightarrow> bool" where
  "eject_pending dep = (d_method dep = ''redfish'' \<and> d_eject_state dep = EjectStatePending)"

definition correlated :: "'w fleet_env \<Rightarrow> string \<Rightarrow> 'w fleet \<Rightarrow> deployment \<Rightarrow> bool" where
  "correlated e nodeID s dep \<longleftrightarrow>
     (\<forall>dep' \<in> set (fl_deployments s). eject_pending dep' \<and> node_linked e nodeID s dep' \<longleftrightarrow> dep' = dep) \<or>
     ((\<forall>dep' \<in> set (fl_deployments s). eject_pending dep' \<longleftrightarrow> dep' = dep) \<and>
      (case d_completed_at dep of Some t \<Rightarrow> fst (now_at e s) - t \<le> ejectFallbackWindow | None \<Rightarrow> False))"

lemma singleton_filter: "filter P xs = [x] \<Longrightarrow> y \<in> set xs \<Longrightarrow> P y \<longleftrightarrow> y = x"
proof -
  assume "filter P xs = [x]" and y: "y \<in> set xs"
  then have "{z \<in> set xs. P z} = {x}" using set_filter [of P xs] by simp
  then show "P y \<longleftrightarrow> y = x" using y by blast
qed

context deployment_map
begin

lemma correlate_sound:
  assumes rows: "DeploymentList (fe_deployments e) (fl_deployments s) = Inr rows"
    and choice: "correlateDeployment e nodeID (filter eject_pending rows) s = ((Some dep, via), s1)"
  shows "dep \<in> set (fl_deployments s) \<and> eject_pending dep \<and> correlated e nodeID s dep"
proof -
  have set_rows: "set rows = set (fl_deployments s)" using list_all_rows [of s] rows by (auto dest: mset_eq_setD)
  let ?pending = "filter eject_pending rows"
  let ?linked = "filter (node_linked e nodeID s) ?pending"
  show ?thesis
  proof (cases "?linked = []")
    case True
    obtain only where only: "?pending = [only]" using choice True by (auto simp: correlateDeployment_def split: list.splits)
    then have "only = dep" "withinEjectFallbackWindow (fst (now_at e s)) dep"
      using choice True by (auto simp: correlateDeployment_def split: list.splits if_splits prod.splits)
    then show ?thesis
      using singleton_filter [OF only] only set_rows
      by (auto simp: correlated_def withinEjectFallbackWindow_def filter_eq_Cons_iff)
  next
    case False
    then have only: "filter (\<lambda>d. eject_pending d \<and> node_linked e nodeID s d) rows = [dep]"
      using choice by (auto simp: correlateDeployment_def conj_commute split: list.splits)
    then have "dep \<in> set (filter (\<lambda>d. eject_pending d \<and> node_linked e nodeID s d) rows)" by simp
    then show ?thesis using singleton_filter [OF only] set_rows by (auto simp: correlated_def)
  qed
qed

lemma correlate_fields:
  assumes "correlateDeployment e nodeID pending s = (r, s1)"
  shows "fl_deployments s1 = fl_deployments s \<and> fl_targets s1 = fl_targets s \<and> fl_events s1 = fl_events s"
  using assms now_at_fields(3-5) [of e s]
  by (auto simp: correlateDeployment_def split: list.splits if_splits prod.splits)

lemma claim_from_map:
  assumes "dep_ok s" and "dep_map s i = Some dep" and "EjectStateEjecting \<notin> set sources"
  shows "\<exists>s1. claim_from e i sources s = (d_eject_state dep \<in> set sources, s1) \<and> dep_ok s1 \<and> fl_events s1 = fl_events s \<and>
    fl_targets s1 = fl_targets s \<and>
    dep_map s1 = (if d_eject_state dep \<in> set sources then (dep_map s)(i \<mapsto> dep\<lparr>d_eject_state := EjectStateEjecting\<rparr>) else dep_map s)"
  using assms
proof (induction sources arbitrary: s)
  case Nil
  then show ?case by simp
next
  case (Cons source sources)
  obtain r s1 where c: "cas_eject e i source EjectStateEjecting s = (r, s1)" by fastforce
  have f: "fl_events s1 = fl_events s" "fl_targets s1 = fl_targets s"
    using store_fields(5,6) [of e i source EjectStateEjecting s] c by simp_all
  have cas1: "r = Inr (d_eject_state dep = source)" "dep_ok s1"
    "dep_map s1 = (if d_eject_state dep = source then (dep_map s)(i \<mapsto> dep\<lparr>d_eject_state := EjectStateEjecting\<rparr>) else dep_map s)"
    using cas [OF Cons.prems(1), of i source EjectStateEjecting] Cons.prems(2) c by auto
  show ?case
  proof (cases "d_eject_state dep = source")
    case True
    then show ?thesis using c cas1 f by (simp add: fun_eq_iff)
  next
    case False
    have "dep_map s1 i = Some dep" using cas1(3) False Cons.prems(2) by simp
    moreover have "EjectStateEjecting \<notin> set sources" using Cons.prems(3) by auto
    ultimately obtain s2 where "claim_from e i sources s1 = (d_eject_state dep \<in> set sources, s2)" "dep_ok s2"
      "fl_events s2 = fl_events s1" "fl_targets s2 = fl_targets s1"
      "dep_map s2 = (if d_eject_state dep \<in> set sources then (dep_map s1)(i \<mapsto> dep\<lparr>d_eject_state := EjectStateEjecting\<rparr>) else dep_map s1)"
      using Cons.IH [OF cas1(2)] by blast
    then show ?thesis using c cas1 f False by simp
  qed
qed

text \<open>Reconciliation of one row.\<close>

lemma reconcile_rows_map:
  assumes "dep_ok s" and "\<forall>dep \<in> set rows. dep_map s (d_id dep) = Some dep" and "distinct (map d_id rows)"
  shows "\<exists>s'. reconcile_rows e rows s = (Inr (), s') \<and> dep_ok s' \<and> fl_events s' = fl_events s \<and>
    (\<forall>i. i \<notin> d_id ` set rows \<longrightarrow> dep_map s' i = dep_map s i) \<and>
    (\<forall>dep \<in> set rows. \<exists>now. dep_map s' (d_id dep) = Some
       ((if d_status dep = DeployActive
         then (\<lambda>d. d\<lparr>d_status := DeployFailed, d_message := ''interrupted by server restart'', d_completed_at := Some now\<rparr>)
         else id)
        (if d_eject_state dep = EjectStateEjecting then dep\<lparr>d_eject_state := EjectStatePending\<rparr> else dep)))"
  using assms
proof (induction rows arbitrary: s)
  case Nil
  then show ?case by simp
next
  case (Cons dep rows)
  let ?dep1 = "if d_eject_state dep = EjectStateEjecting then dep\<lparr>d_eject_state := EjectStatePending\<rparr> else dep"
  let ?fail = "\<lambda>now d. d\<lparr>d_status := DeployFailed, d_message := ''interrupted by server restart'', d_completed_at := Some now\<rparr>"
  have id1 [simp]: "d_id ?dep1 = d_id dep" by simp
  define s1 where "s1 = (if d_eject_state dep = EjectStateEjecting then snd (save_dep e ?dep1 s) else s)"
  have 1: "(if d_eject_state dep = EjectStateEjecting then save_dep e ?dep1 s else (Inr (), s)) = (Inr (), s1)"
    using save [OF Cons.prems(1), of ?dep1] unfolding s1_def by (auto intro: prod_eqI)
  have s1: "dep_ok s1" "dep_map s1 = (dep_map s)(d_id dep \<mapsto> ?dep1)" "fl_events s1 = fl_events s"
    using save [OF Cons.prems(1), of ?dep1] Cons.prems(1,2) store_fields(2) [of e ?dep1 s]
    by (auto simp: s1_def fun_upd_idem)
  define now where "now = fst (now_at e s1)"
  define s2 where "s2 = (if d_status dep = DeployActive then snd (save_dep e (?fail now ?dep1) (snd (now_at e s1))) else s1)"
  have n: "dep_ok (snd (now_at e s1))" "dep_map (snd (now_at e s1)) = dep_map s1" "fl_events (snd (now_at e s1)) = fl_events s1"
    using now_at_fields(1,2,5) [of e s1] s1(1) by auto
  have sv: "fst (save_dep e (?fail now ?dep1) (snd (now_at e s1))) = Inr ()"
    "dep_ok (snd (save_dep e (?fail now ?dep1) (snd (now_at e s1))))"
    "dep_map (snd (save_dep e (?fail now ?dep1) (snd (now_at e s1)))) = (dep_map s1)(d_id dep \<mapsto> ?fail now ?dep1)"
    using save [OF n(1), of "?fail now ?dep1"] n(2) by auto
  have step: "reconcile_rows e (dep # rows) s = reconcile_rows e rows s2"
    using 1 sv(1) by (auto simp: s2_def now_def split_beta)
  have s2: "dep_ok s2" "fl_events s2 = fl_events s"
    "dep_map s2 = (dep_map s)(d_id dep \<mapsto> (if d_status dep = DeployActive then ?fail now else id) ?dep1)"
    using sv s1 n store_fields(2) [of e "?fail now ?dep1" "snd (now_at e s1)"] by (auto simp: s2_def)
  have rest: "\<forall>d \<in> set rows. dep_map s2 (d_id d) = Some d" "distinct (map d_id rows)" "d_id dep \<notin> d_id ` set rows"
  proof -
    show fresh: "d_id dep \<notin> d_id ` set rows" and "distinct (map d_id rows)" using Cons.prems(3) by simp_all
    show "\<forall>d \<in> set rows. dep_map s2 (d_id d) = Some d"
    proof
      fix d
      assume d: "d \<in> set rows"
      then have "d_id d \<noteq> d_id dep" using fresh by (metis imageI)
      then show "dep_map s2 (d_id d) = Some d" using Cons.prems(2) d s2(3) by simp
    qed
  qed
  obtain s' where s': "reconcile_rows e rows s2 = (Inr (), s')" "dep_ok s'" "fl_events s' = fl_events s2"
    "\<forall>i. i \<notin> d_id ` set rows \<longrightarrow> dep_map s' i = dep_map s2 i"
    "\<forall>dep \<in> set rows. \<exists>now. dep_map s' (d_id dep) = Some
       ((if d_status dep = DeployActive then ?fail now else id)
        (if d_eject_state dep = EjectStateEjecting then dep\<lparr>d_eject_state := EjectStatePending\<rparr> else dep))"
    using Cons.IH [OF s2(1) rest(1,2)] by blast
  have "dep_map s' (d_id dep) = Some ((if d_status dep = DeployActive then ?fail now else id) ?dep1)"
    using s'(4) rest(3) s2(3) by simp
  moreover have "\<forall>i. i \<notin> d_id ` set (dep # rows) \<longrightarrow> dep_map s' i = dep_map s i"
    using s'(4) s2(3) by simp
  ultimately show ?case
    using s' s2(2) step by auto
qed

text \<open>The background deploy.\<close>

lemma progressUpdater_map:
  assumes "dep_ok s" and "dep_map s i = Some dep"
  shows "dep_ok (progressUpdater e i pr s) \<and> (\<exists>p m. d_progress dep \<le> p \<and>
    dep_map (progressUpdater e i pr s) = (dep_map s)(i \<mapsto> dep\<lparr>d_progress := p, d_message := m\<rparr>))"
proof -
  obtain step percent where pr: "pr = (step, percent)" by (cases pr)
  have [simp]: "d_id dep = i" using assms(2) row_map_Some unfolding dep_map_def by fastforce
  show ?thesis
  proof (cases "percent \<le> d_progress dep \<and> d_message dep = step")
    case True
    have "(dep_map s)(i \<mapsto> dep\<lparr>d_progress := d_progress dep, d_message := d_message dep\<rparr>) = dep_map s"
      using assms(2) by (simp add: fun_upd_idem)
    then show ?thesis
      using True assms lookup [OF assms(1), of i]
      by (auto simp: progressUpdater_def pr intro!: exI [of _ "d_progress dep"] exI [of _ "d_message dep"])
  next
    case False
    let ?dep = "(if percent > d_progress dep then dep\<lparr>d_progress := percent\<rparr> else dep)\<lparr>d_message := step\<rparr>"
    have "dep_map (progressUpdater e i pr s) = (dep_map s)(i \<mapsto> ?dep)" "dep_ok (progressUpdater e i pr s)"
      using False assms lookup [OF assms(1), of i] save [OF assms(1), of ?dep]
      by (auto simp: progressUpdater_def pr broadcastProgress_def split_beta Let_def fleet_simps)
    moreover have "?dep = dep\<lparr>d_progress := max percent (d_progress dep), d_message := step\<rparr>" by (simp add: max_def)
    ultimately show ?thesis by (intro conjI exI [of _ "max percent (d_progress dep)"] exI [of _ step]) simp_all
  qed
qed

lemma progress_fold_map:
  assumes "dep_ok s" and "dep_map s i = Some dep"
  shows "dep_ok (fold (progressUpdater e i) prs s) \<and> (\<exists>p m. d_progress dep \<le> p \<and>
    dep_map (fold (progressUpdater e i) prs s) = (dep_map s)(i \<mapsto> dep\<lparr>d_progress := p, d_message := m\<rparr>))"
  using assms
proof (induction prs arbitrary: s dep)
  case Nil
  then show ?case by (auto intro!: exI [of _ "d_progress dep"] exI [of _ "d_message dep"] simp: fun_upd_idem)
next
  case (Cons pr prs)
  obtain p m where 1: "dep_ok (progressUpdater e i pr s)" "d_progress dep \<le> p"
    "dep_map (progressUpdater e i pr s) = (dep_map s)(i \<mapsto> dep\<lparr>d_progress := p, d_message := m\<rparr>)"
    using progressUpdater_map [OF Cons.prems, of pr] by blast
  have row: "dep_map (progressUpdater e i pr s) i = Some (dep\<lparr>d_progress := p, d_message := m\<rparr>)" using 1(3) by simp
  have raised: "d_progress (dep\<lparr>d_progress := p, d_message := m\<rparr>) \<le> x \<Longrightarrow> p \<le> x" for x by simp
  have twice: "dep\<lparr>d_progress := p, d_message := m\<rparr>\<lparr>d_progress := x, d_message := y\<rparr> = dep\<lparr>d_progress := x, d_message := y\<rparr>" for x y
    by simp
  obtain p' m' where 2: "p \<le> p'" "dep_map (fold (progressUpdater e i) prs (progressUpdater e i pr s)) =
      (dep_map (progressUpdater e i pr s))(i \<mapsto> dep\<lparr>d_progress := p, d_message := m\<rparr>\<lparr>d_progress := p', d_message := m'\<rparr>)"
    using conjunct2 [OF Cons.IH [OF 1(1) row]] raised by blast
  have "dep_map (fold (progressUpdater e i) (pr # prs) s) = (dep_map s)(i \<mapsto> dep\<lparr>d_progress := p', d_message := m'\<rparr>)"
    using 2(2) unfolding 1(3) twice fold_simps fun_upd_upd .
  then show ?case using conjunct1 [OF Cons.IH [OF 1(1) row]] 1(2) 2(1) by (intro conjI exI [of _ p'] exI [of _ m']) simp_all
qed

lemma completeDeployment_map:
  assumes "dep_ok s" and "dep_map s i = Some dep"
  shows "dep_ok (completeDeployment e i msg s) \<and> (\<exists>now. dep_map (completeDeployment e i msg s) = (dep_map s)(i \<mapsto>
    dep\<lparr>d_status := DeployCompleted, d_message := msg, d_progress := 100, d_completed_at := Some now\<rparr>))"
proof -
  obtain now s1 where n: "now_at e s = (now, s1)" by (cases "now_at e s")
  have s1: "dep_ok s1" "dep_map s1 = dep_map s" using now_at_fields(1,2) [of e s] n assms(1) by auto
  have "d_id dep = i" using assms(2) row_map_Some unfolding dep_map_def by fastforce
  then show ?thesis
    using save [OF s1(1)] lookup [OF assms(1), of i] assms(2) n s1(2)
    by (auto simp: completeDeployment_def broadcastProgress_def split_beta Let_def fleet_simps)
qed

lemma failDeployment_map:
  assumes "dep_ok s" and "dep_map s i = Some dep"
  shows "dep_ok (failDeployment e i msg s) \<and> (\<exists>now. dep_map (failDeployment e i msg s) = (dep_map s)(i \<mapsto>
    dep\<lparr>d_status := DeployFailed, d_message := msg, d_completed_at := Some now\<rparr>))"
proof -
  obtain now s1 where n: "now_at e s = (now, s1)" by (cases "now_at e s")
  have s1: "dep_ok s1" "dep_map s1 = dep_map s" using now_at_fields(1,2) [of e s] n assms(1) by auto
  have "d_id dep = i" using assms(2) row_map_Some unfolding dep_map_def by fastforce
  then show ?thesis
    using save [OF s1(1)] lookup [OF assms(1), of i] assms(2) n s1(2)
    by (auto simp: failDeployment_def broadcastProgress_def split_beta Let_def fleet_simps)
qed

lemma markEjectPending_map:
  assumes "dep_ok s" and "dep_map s i = Some dep"
  shows "dep_ok (markEjectPending e i s) \<and> dep_map (markEjectPending e i s) = (dep_map s)(i \<mapsto>
    dep\<lparr>d_eject_policy := EjectPolicyOnPhoneHome, d_eject_state := EjectStatePending\<rparr>)"
proof -
  have "d_id dep = i" using assms(2) row_map_Some unfolding dep_map_def by fastforce
  then show ?thesis using save [OF assms(1)] lookup [OF assms(1), of i] assms(2) by (auto simp: markEjectPending_def)
qed

lemma revoke_token_map [simp]:
  "dep_map (revoke_token tok s) = dep_map s" "dep_ok (revoke_token tok s) = dep_ok s"
  by (simp_all add: revoke_token_def fleet_simps)

end

end
