(* ===== verification/Deploy_Outcomes.thy ===== *)
theory Deploy_Outcomes
  imports Deploy_Lifecycle
begin

text \<open>
  What a deployment goes through, from the routines of \<open>Deploy_Lifecycle\<close> over a reliable
  engine: which rows a phone-home may touch, what a manual finalize answers, what a restart
  repairs and how a background deploy ends.
\<close>

section \<open>Rows after an eject\<close>

text \<open>The row a finalize leaves: ejected, failed with a reason, or still claimed when it hangs.\<close>

definition ejected_row :: "deployment \<Rightarrow> deployment \<Rightarrow> bool" where
  "ejected_row dep row \<longleftrightarrow>
     (\<exists>now. row = dep\<lparr>d_eject_state := EjectStateEjected, d_ejected_at := Some now, d_eject_error := []\<rparr>)"

definition eject_failed_row :: "deployment \<Rightarrow> deployment \<Rightarrow> bool" where
  "eject_failed_row dep row \<longleftrightarrow> (\<exists>reason. row = dep\<lparr>d_eject_state := EjectStateFailed, d_eject_error := reason\<rparr>)"

definition finalized_row :: "deployment \<Rightarrow> deployment \<Rightarrow> bool" where
  "finalized_row dep row \<longleftrightarrow>
     ejected_row dep row \<or> eject_failed_row dep row \<or> row = dep\<lparr>d_eject_state := EjectStateEjecting\<rparr>"

text \<open>The eject states a manual finalize may take over.\<close>

definition claimable :: "deployment \<Rightarrow> bool" where
  "claimable dep \<longleftrightarrow> d_eject_state dep \<in> set [EjectStatePending, EjectStateFailed, EjectStateEjected, []]"

text \<open>The row a background deploy leaves: completed and armed as asked, or failed without losing progress.\<close>

definition settled_row :: "bool \<Rightarrow> deployment \<Rightarrow> deployment \<Rightarrow> bool" where
  "settled_row arm dep row \<longleftrightarrow> d_completed_at row \<noteq> None \<and>
    (if d_status row = DeployCompleted
     then d_progress row = 100 \<and> d_eject_state row = (if arm then EjectStatePending else d_eject_state dep)
     else d_status row = DeployFailed \<and> d_progress dep \<le> d_progress row \<and> d_eject_state row = d_eject_state dep)"

context deployment_map
begin

lemma finalize_outcome:
  assumes "dep_ok s" and "dep_map s (d_id dep) = Some row" and "d_eject_state row = EjectStateEjecting"
    and "finalizeDeployment e dep s = (r, s')"
  shows "dep_ok s' \<and> (\<exists>row'. dep_map s' = (dep_map s)(d_id dep \<mapsto> row') \<and>
    (case r of Ok _ \<Rightarrow> ejected_row row row' | Fail _ \<Rightarrow> eject_failed_row row row' | CutOff \<Rightarrow> row' = row))"
proof -
  have same: "dep_map s = (dep_map s)(d_id dep \<mapsto> row)" using assms(2) by (simp add: fun_upd_idem)
  show ?thesis
    using finalizeDeployment_map [OF assms(1-3)] assms(4) same
    by (cases r) (auto simp: ejected_row_def eject_failed_row_def)
qed

lemma phone_home_effect:
  assumes ok: "dep_ok s"
  shows "dep_ok (MaybeFinalizeForNode e nodeID s) \<and>
    ((dep_map (MaybeFinalizeForNode e nodeID s) = dep_map s \<and> fl_events (MaybeFinalizeForNode e nodeID s) = fl_events s) \<or>
     (\<exists>dep row. dep_map s (d_id dep) = Some dep \<and> eject_pending dep \<and> correlated e nodeID s dep \<and>
        finalized_row (dep\<lparr>d_node_id := nodeID, d_eject_state := EjectStateEjecting\<rparr>) row \<and>
        dep_map (MaybeFinalizeForNode e nodeID s) = (dep_map s)(d_id dep \<mapsto> row)))"
proof -
  obtain rows where rows: "DeploymentList (fe_deployments e) (fl_deployments s) = Inr rows"
    using list_all_rows by blast
  define pending where "pending = filter eject_pending rows"
  have pending: "filter (\<lambda>dep. d_method dep = ''redfish'' \<and> d_eject_state dep = EjectStatePending) rows = pending"
    by (simp add: pending_def eject_pending_def [abs_def])
  obtain choice via s1 where choose: "correlateDeployment e nodeID pending s = ((choice, via), s1)" by (metis surj_pair)
  have s1: "fl_deployments s1 = fl_deployments s" "fl_events s1 = fl_events s" using correlate_fields [OF choose] by simp_all
  then have s1_map: "dep_map s1 = dep_map s" "dep_ok s1" using ok by (simp_all add: dep_map_def dep_ok_def)
  show ?thesis
  proof (cases "pending = [] \<or> choice = None")
    case True
    then show ?thesis using rows pending choose s1 s1_map ok by (auto simp: MaybeFinalizeForNode_def)
  next
    case False
    then obtain dep where dep: "choice = Some dep" by blast
    have sound: "dep \<in> set (fl_deployments s)" "eject_pending dep" "correlated e nodeID s dep"
      using correlate_sound [OF rows, of nodeID dep via s1] choose dep unfolding pending_def by blast+
    have row: "dep_map s1 (d_id dep) = Some dep"
      using row_map_distinct [OF ok [unfolded dep_ok_def] sound(1)] s1_map by (simp add: dep_map_def)
    let ?claimed = "dep\<lparr>d_node_id := nodeID, d_eject_state := EjectStateEjecting\<rparr>"
    obtain s2 where s2: "cas_eject e (d_id dep) EjectStatePending EjectStateEjecting s1 = (Inr True, s2)" "dep_ok s2"
      "dep_map s2 = (dep_map s1)(d_id dep \<mapsto> dep\<lparr>d_eject_state := EjectStateEjecting\<rparr>)"
      using cas [OF s1_map(2), of "d_id dep" EjectStatePending EjectStateEjecting] row sound(2)
      by (cases "cas_eject e (d_id dep) EjectStatePending EjectStateEjecting s1") (auto simp: eject_pending_def)
    obtain s3 where s3: "snd (save_dep e ?claimed s2) = s3" "dep_ok s3" "dep_map s3 = (dep_map s1)(d_id dep \<mapsto> ?claimed)"
      using save [OF s2(2), of ?claimed] s2(3) by simp
    obtain r s4 where s4: "finalizeDeployment e ?claimed s3 = (r, s4)" by fastforce
    have run: "MaybeFinalizeForNode e nodeID s = s4"
      using False rows pending choose dep s2(1) s3(1) s4 by (simp add: MaybeFinalizeForNode_def split_beta Let_def)
    have "dep_map s3 (d_id ?claimed) = Some ?claimed" using s3(3) by simp
    from finalize_outcome [OF s3(2) this _ s4] obtain row where
      out: "dep_ok s4" "dep_map s4 = (dep_map s3)(d_id dep \<mapsto> row)"
      "case r of Ok _ \<Rightarrow> ejected_row ?claimed row | Fail _ \<Rightarrow> eject_failed_row ?claimed row | CutOff \<Rightarrow> row = ?claimed" by auto
    have "finalized_row ?claimed row" using out(3) by (cases r) (auto simp: finalized_row_def)
    moreover have "dep_map s4 = (dep_map s)(d_id dep \<mapsto> row)" using out(2) s3(3) s1_map(1) by simp
    ultimately show ?thesis using run out(1) sound row s1_map(1) by metis
  qed
qed

lemma claimed_rows:
  "ejected_row (dep\<lparr>d_eject_state := EjectStateEjecting\<rparr>) row = ejected_row dep row"
  "eject_failed_row (dep\<lparr>d_eject_state := EjectStateEjecting\<rparr>) row = eject_failed_row dep row"
  by (simp_all add: ejected_row_def eject_failed_row_def)

lemma manual_finalize_effect:
  assumes ok: "dep_ok s" and row: "dep_map s i = Some dep" and target: "d_bmc_target_id dep \<noteq> []"
    and run: "FinalizeDeployment e i s = (answer, s')"
  shows "if claimable dep
    then \<exists>row. dep_map s' = (dep_map s)(i \<mapsto> row) \<and>
      (case answer of
         None \<Rightarrow> row = dep\<lparr>d_eject_state := EjectStateEjecting\<rparr>
       | Some reply \<Rightarrow> resp_body reply = Body (DeploymentBody row) \<and>
           (if status reply = 200 then ejected_row dep row else status reply = 500 \<and> eject_failed_row dep row))
    else answer = Some (Response 409 (ErrorBody ''a finalize is already in progress for this deployment'')) \<and>
      dep_map s' = dep_map s \<and> fl_events s' = fl_events s"
proof -
  let ?claimed = "dep\<lparr>d_eject_state := EjectStateEjecting\<rparr>"
  have i: "d_id dep = i" using row row_map_Some unfolding dep_map_def by fastforce
  have free: "EjectStateEjecting \<notin> set [EjectStatePending, EjectStateFailed, EjectStateEjected, []]" by simp
  obtain s1 where s1: "claimManualFinalize e dep s = (claimable dep, s1)"
    "dep_ok s1" "fl_events s1 = fl_events s"
    "dep_map s1 = (if claimable dep
       then (dep_map s)(i \<mapsto> ?claimed) else dep_map s)"
    using claim_from_map [OF ok row free] i unfolding claimManualFinalize_def claimable_def [symmetric] by auto
  show ?thesis
  proof (cases "claimable dep")
    case False
    then have "FinalizeDeployment e i s =
        (Some (Response 409 (ErrorBody ''a finalize is already in progress for this deployment'')), s1)"
      using lookup [OF ok, of i] row target s1(1) by (simp add: FinalizeDeployment_def)
    then show ?thesis using run False s1(3,4) by auto
  next
    case True
    obtain r s2 where s2: "finalizeDeployment e ?claimed s1 = (r, s2)" by fastforce
    have "dep_map s1 (d_id ?claimed) = Some ?claimed" using s1(4) True i by simp
    note outcome = finalize_outcome [OF s1(2) this _ s2]
    have "\<exists>row'. dep_map s2 = (dep_map s1)(i \<mapsto> row') \<and>
        (case r of Ok _ \<Rightarrow> ejected_row dep row' | Fail _ \<Rightarrow> eject_failed_row dep row' | CutOff \<Rightarrow> row' = ?claimed)"
      using outcome i by (cases r) (simp_all add: claimed_rows)
    then obtain row' where out: "dep_ok s2" "dep_map s2 = (dep_map s1)(i \<mapsto> row')"
      "case r of Ok _ \<Rightarrow> ejected_row dep row' | Fail _ \<Rightarrow> eject_failed_row dep row' | CutOff \<Rightarrow> row' = ?claimed"
      using outcome by auto
    have final: "dep_map s2 = (dep_map s)(i \<mapsto> row')" using out(2) s1(4) True by simp
    have reread: "dep_by_id e i s2 = Inr row'" using lookup [OF out(1), of i] final by simp
    have "FinalizeDeployment e i s =
        (case r of Fail _ \<Rightarrow> (Some (Response 500 (Body (DeploymentBody row'))), s2)
         | Ok _ \<Rightarrow> (Some (Response 200 (Body (DeploymentBody row'))), s2) | CutOff \<Rightarrow> (None, s2))"
      using lookup [OF ok, of i] row target s1(1) True s2 reread by (cases r) (simp_all add: FinalizeDeployment_def)
    then show ?thesis using run out(3) final True by (cases r) (auto intro!: exI [of _ row'])
  qed
qed

lemma reconcile_effect:
  assumes ok: "dep_ok s" and run: "ReconcileOrphanedDeployments e s = (r, s')"
  shows "r = Inr () \<and> dep_ok s' \<and> fl_events s' = fl_events s \<and>
    (case dep_map s i of
       None \<Rightarrow> dep_map s' i = None
     | Some dep \<Rightarrow> \<exists>row. dep_map s' i = Some row \<and> d_status row \<noteq> DeployActive \<and> d_eject_state row \<noteq> EjectStateEjecting \<and>
         (if d_status dep = DeployActive then d_status row = DeployFailed \<and> d_completed_at row \<noteq> None
          else row = (if d_eject_state dep = EjectStateEjecting then dep\<lparr>d_eject_state := EjectStatePending\<rparr> else dep)) \<and>
         (if d_eject_state dep = EjectStateEjecting then d_eject_state row = EjectStatePending
          else d_eject_state row = d_eject_state dep))"
proof -
  obtain rows where rows: "DeploymentList (fe_deployments e) (fl_deployments s) = Inr rows" "mset rows = mset (fl_deployments s)"
    using list_all_rows by blast
  have ids: "distinct (map d_id rows)" using ok rows(2) unfolding dep_ok_def by (metis mset_eq_imp_distinct_iff mset_map)
  have set_rows: "set rows = set (fl_deployments s)" using rows(2) by (rule mset_eq_setD)
  have listed_rows: "\<forall>dep \<in> set rows. dep_map s (d_id dep) = Some dep"
    using row_map_distinct ok set_rows unfolding dep_ok_def dep_map_def by fastforce
  obtain s1 where s1: "reconcile_rows e rows s = (Inr (), s1)" "dep_ok s1" "fl_events s1 = fl_events s"
    and others: "\<And>i. i \<notin> d_id ` set rows \<Longrightarrow> dep_map s1 i = dep_map s i"
    and each: "\<And>dep. dep \<in> set rows \<Longrightarrow> \<exists>now. dep_map s1 (d_id dep) = Some
       ((if d_status dep = DeployActive
         then (\<lambda>d. d\<lparr>d_status := DeployFailed, d_message := ''interrupted by server restart'', d_completed_at := Some now\<rparr>)
         else id)
        (if d_eject_state dep = EjectStateEjecting then dep\<lparr>d_eject_state := EjectStatePending\<rparr> else dep))"
    using reconcile_rows_map [OF ok listed_rows ids] by blast
  have s': "s' = s1" "r = Inr ()" using run rows(1) s1(1) by (simp_all add: ReconcileOrphanedDeployments_def)
  show ?thesis
  proof (cases "dep_map s i")
    case None
    then have "i \<notin> d_id ` set rows" unfolding dep_map_def row_map_None set_rows by auto
    then show ?thesis using None others s' s1 by simp
  next
    case (Some dep)
    then have "dep \<in> set rows" "d_id dep = i" using row_map_Some unfolding dep_map_def set_rows by fastforce+
    then show ?thesis using Some each [of dep] s' s1(2,3) by auto
  qed
qed

text \<open>How a background deploy leaves the row.\<close>

lemma eject_arming_map:
  assumes "dep_ok s" and "dep_map s i = Some dep"
  shows "dep_map (if arm then markEjectPending e i s else s) = (dep_map s)(i \<mapsto>
    (if arm then dep\<lparr>d_eject_policy := EjectPolicyOnPhoneHome, d_eject_state := EjectStatePending\<rparr> else dep))"
  using markEjectPending_map [OF assms] assms(2) by (simp add: fun_upd_idem)

lemma on_bmc_returns: "returns budget n m \<Longrightarrow> budget (fl_world s) < n \<Longrightarrow> fst (fst (on_bmc m s)) \<noteq> CutOff"
  unfolding returns_def on_bmc_def by (auto simp: split_beta)

lemma deploy_effect:
  assumes ok: "dep_ok s" and row: "dep_map s (dj_deployment j) = Some dep"
    and bound: "deadline_bound (fe_bmc e (dj_config j)) budget" and turns: "budget (fl_world s) < fe_turns e"
  shows "\<exists>row. dep_map (runRedfishDeploy e j s) = (dep_map s)(dj_deployment j \<mapsto> row) \<and> settled_row (dj_eject_after j) dep row"
proof -
  let ?i = "dj_deployment j"
  let ?b = "fe_bmc e (dj_config j)"
  let ?work = "with_connection ?b id (NewDeployer (fe_manifest e) (fe_registry e) (dj_config j))
    (\<lambda>d1. attempt (Deploy (fe_turns e) ?b d1 (job_request j)))"
  obtain r progress s1 where run: "on_bmc ?work s = ((r, progress), s1)" by (metis surj_pair)
  have "returns budget (fe_turns e) ?work"
    by (rule with_connection_returns [OF bound]) (intro returns_rules Deploy_returns bound)
  then have returned: "r \<noteq> CutOff"
    using on_bmc_returns [of budget "fe_turns e" ?work s] run turns by simp
  have s1: "dep_ok s1" "dep_map s1 = dep_map s" using on_bmc_fields(1,2) [of ?work s] run ok by simp_all
  define s2 where "s2 = fold (progressUpdater e ?i) progress s1"
  have "dep_map s1 ?i = Some dep" using s1 row by simp
  from progress_fold_map [OF s1(1) this, of progress] obtain p m where
    s2: "dep_ok s2" "d_progress dep \<le> p" "dep_map s2 = (dep_map s)(?i \<mapsto> dep\<lparr>d_progress := p, d_message := m\<rparr>)"
    unfolding s2_def s1(2) by blast
  let ?row2 = "dep\<lparr>d_progress := p, d_message := m\<rparr>"
  have row2: "dep_map s2 ?i = Some ?row2" using s2(3) by simp
  have failed: "\<exists>row. dep_map (revoke_token t (failDeployment e ?i msg s2)) = (dep_map s)(?i \<mapsto> row) \<and>
      settled_row (dj_eject_after j) dep row" for msg t
  proof -
    from failDeployment_map [OF s2(1) row2, of msg] obtain now where
      "dep_map (failDeployment e ?i msg s2) = (dep_map s2)(?i \<mapsto>
         ?row2\<lparr>d_status := DeployFailed, d_message := msg, d_completed_at := Some now\<rparr>)" by blast
    then have after: "dep_map (revoke_token t (failDeployment e ?i msg s2)) = (dep_map s)(?i \<mapsto>
         ?row2\<lparr>d_status := DeployFailed, d_message := msg, d_completed_at := Some now\<rparr>)"
      unfolding revoke_token_map s2(3) fun_upd_upd .
    show ?thesis by (intro exI conjI, rule after) (simp add: settled_row_def s2(2))
  qed
  have completed: "\<exists>row. dep_map (revoke_token t (if dj_eject_after j then markEjectPending e ?i (completeDeployment e ?i msg s2)
        else completeDeployment e ?i msg s2)) = (dep_map s)(?i \<mapsto> row) \<and> settled_row (dj_eject_after j) dep row" for msg t
  proof -
    let ?row3 = "\<lambda>now. ?row2\<lparr>d_status := DeployCompleted, d_message := msg, d_progress := 100, d_completed_at := Some now\<rparr>"
    from completeDeployment_map [OF s2(1) row2, of msg] obtain now where
      s3: "dep_ok (completeDeployment e ?i msg s2)" "dep_map (completeDeployment e ?i msg s2) = (dep_map s2)(?i \<mapsto> ?row3 now)"
      by blast
    have "dep_map (completeDeployment e ?i msg s2) ?i = Some (?row3 now)" using s3(2) by simp
    note armed = eject_arming_map [OF s3(1) this, of "dj_eject_after j", unfolded s3(2) s2(3) fun_upd_upd]
    show ?thesis unfolding revoke_token_map by (intro exI conjI, rule armed) (simp add: settled_row_def)
  qed
  have eq: "runRedfishDeploy e j s =
     (case r of
        Fail err \<Rightarrow> revoke_token (dj_serve_token j) (failDeployment e ?i (''connecting to redfish endpoint: '' @ Error err) s2)
      | Ok (Inl err) \<Rightarrow> revoke_token (dj_serve_token j) (failDeployment e ?i (''redfish deploy failed: '' @ Error err) s2)
      | Ok (Inr (_, Some err)) \<Rightarrow> revoke_token (dj_serve_token j) (failDeployment e ?i (''redfish deploy failed: '' @ Error err) s2)
      | Ok (Inr (result, None)) \<Rightarrow>
          (let msg = (if rs_task_state result \<noteq> [] then ''Deployment completed (task state: '' @ rs_task_state result @ '')''
                      else ''Deployment completed successfully'');
               s3 = completeDeployment e ?i msg s2
           in revoke_token (dj_serve_token j) (if dj_eject_after j then markEjectPending e ?i s3 else s3))
      | CutOff \<Rightarrow> s2)"
    unfolding runRedfishDeploy_def Let_def run prod.case s2_def [symmetric] by (rule refl)
  show ?thesis
  proof (cases r)
    case (Fail err)
    show ?thesis unfolding eq Fail result.case by (rule failed)
  next
    case (Ok x)
    show ?thesis
    proof (cases x)
      case (Inl err)
      show ?thesis unfolding eq Ok Inl result.case sum.case by (rule failed)
    next
      case (Inr y)
      obtain result err where y: "y = (result, err)" by (cases y)
      show ?thesis
      proof (cases err)
        case None
        show ?thesis unfolding eq Ok Inr y None result.case sum.case prod.case option.case Let_def by (rule completed)
      next
        case (Some err')
        show ?thesis unfolding eq Ok Inr y Some result.case sum.case prod.case option.case by (rule failed)
      qed
    qed
  qed (use returned in simp)
qed

lemma iso_of_routines:
  "fl_iso (progressUpdater e i pr s) = fl_iso s" "fl_iso (failDeployment e i msg s) = fl_iso s"
  "fl_iso (completeDeployment e i msg s) = fl_iso s" "fl_iso (markEjectPending e i s) = fl_iso s"
  by (auto simp: progressUpdater_def failDeployment_def completeDeployment_def markEjectPending_def broadcastProgress_def
      split_beta Let_def fleet_simps split: sum.splits)

lemma iso_of_progress: "fl_iso (fold (progressUpdater e i) prs s) = fl_iso s"
  by (induction prs arbitrary: s) (simp_all add: iso_of_routines(1))

end

section \<open>Properties\<close>

text \<open>
  C10. Phoning home ejects at most one medium, and the right one: a phone-home either changes no
  deployment and talks to no BMC, or it acts on one pending Redfish deployment that is
  correlated with the node (the only pending one linked to it, or the only pending one at all
  and completed within the fallback window). That row alone changes: it records the node and
  ends ejected, failed with a reason, or still claimed when the BMC hangs.
\<close>
theorem phone_home_ejects_only_correlated:
  assumes "keyed_engine (fe_deployments e) d_id dep_clash" and "dep_ok s"
    and "MaybeFinalizeForNode e nodeID s = s'"
  shows "dep_ok s' \<and> ((dep_map s' = dep_map s \<and> fl_events s' = fl_events s) \<or>
     (\<exists>dep row. dep_map s (d_id dep) = Some dep \<and> eject_pending dep \<and> correlated e nodeID s dep \<and>
        finalized_row (dep\<lparr>d_node_id := nodeID, d_eject_state := EjectStateEjecting\<rparr>) row \<and>
        dep_map s' = (dep_map s)(d_id dep \<mapsto> row)))"
  using deployment_map.phone_home_effect [OF deployment_map_of_engine [OF assms(1)] assms(2)] assms(3) by blast

text \<open>
  C11. A manual finalize tells what happened. A deployment with a BMC target whose eject state is
  free is claimed, its BMC told to eject, and the answer carries the row as it now is: 200 with
  the row ejected, or 500 with the row failed; no answer comes only while the BMC hangs, and
  the row then stays claimed. When another finalize holds the row the answer is 409, no row
  changes and no BMC is called.
\<close>
theorem manual_finalize_answers:
  assumes "keyed_engine (fe_deployments e) d_id dep_clash" and "dep_ok s"
    and "dep_map s i = Some dep" and "d_bmc_target_id dep \<noteq> []" and "FinalizeDeployment e i s = (answer, s')"
  shows "if claimable dep
    then \<exists>row. dep_map s' = (dep_map s)(i \<mapsto> row) \<and>
      (case answer of
         None \<Rightarrow> row = dep\<lparr>d_eject_state := EjectStateEjecting\<rparr>
       | Some reply \<Rightarrow> resp_body reply = Body (DeploymentBody row) \<and>
           (if status reply = 200 then ejected_row dep row else status reply = 500 \<and> eject_failed_row dep row))
    else answer = Some (Response 409 (ErrorBody ''a finalize is already in progress for this deployment'')) \<and>
      dep_map s' = dep_map s \<and> fl_events s' = fl_events s"
  by (rule deployment_map.manual_finalize_effect [OF deployment_map_of_engine [OF assms(1)] assms(2-5)])

text \<open>
  C12. After a restart no deployment is left in flight: the reconciliation succeeds, calls no BMC,
  adds and removes no row; afterwards no row is active and none is claimed for an eject. An
  active row is failed with a completion time, a claimed eject is armed again, and every other
  row is as it was.
\<close>
theorem restart_clears_orphans:
  assumes "keyed_engine (fe_deployments e) d_id dep_clash" and "dep_ok s"
    and "ReconcileOrphanedDeployments e s = (r, s')"
  shows "r = Inr () \<and> dep_ok s' \<and> fl_events s' = fl_events s \<and>
    (case dep_map s i of
       None \<Rightarrow> dep_map s' i = None
     | Some dep \<Rightarrow> \<exists>row. dep_map s' i = Some row \<and> d_status row \<noteq> DeployActive \<and> d_eject_state row \<noteq> EjectStateEjecting \<and>
         (if d_status dep = DeployActive then d_status row = DeployFailed \<and> d_completed_at row \<noteq> None
          else row = (if d_eject_state dep = EjectStateEjecting then dep\<lparr>d_eject_state := EjectStatePending\<rparr> else dep)) \<and>
         (if d_eject_state dep = EjectStateEjecting then d_eject_state row = EjectStatePending
          else d_eject_state row = d_eject_state dep))"
  by (rule deployment_map.reconcile_effect [OF deployment_map_of_engine [OF assms(1)] assms(2,3)])

text \<open>
  A background deploy settles: under a deadline that allows fewer waits than the turns of the
  polling loops, whatever the BMC answers, the row of the deployment ends completed at 100
  percent (and armed for the eject exactly if the job asks for it) or failed with no less
  progress than it had, with a completion time in both cases. No other row changes.
\<close>
theorem background_deploy_settles:
  assumes "keyed_engine (fe_deployments e) d_id dep_clash" and "dep_ok s"
    and "dep_map s (dj_deployment j) = Some dep"
    and "deadline_bound (fe_bmc e (dj_config j)) budget" and "budget (fl_world s) < fe_turns e"
  shows "\<exists>row. dep_map (runRedfishDeploy e j s) = (dep_map s)(dj_deployment j \<mapsto> row) \<and>
    settled_row (dj_eject_after j) dep row"
  by (rule deployment_map.deploy_effect [OF deployment_map_of_engine [OF assms(1)] assms(2-5)])

text \<open>
  The progress writer saves the whole row it read. A finalize that claims the row between the
  read and the save loses its claim, and a second finalize wins the same compare-and-set.
\<close>

lemma stale_progress_write_undoes_claim:
  assumes "keyed_engine (fe_deployments e) d_id dep_clash" and "dep_ok s"
    and "dep_by_id e i s = Inr dep" and "d_eject_state dep = []"
    and "cas_eject e i [] EjectStateEjecting s = (won, s1)"
    and "save_dep e (dep\<lparr>d_message := step\<rparr>) s1 = (saved, s2)"
  shows "won = Inr True \<and> fst (cas_eject e i [] EjectStateEjecting s2) = Inr True"
proof -
  note m = deployment_map_of_engine [OF assms(1)]
  have row: "dep_map s i = Some dep"
    using deployment_map.lookup [OF m assms(2), of i] assms(3) by (simp split: option.splits)
  then have i: "d_id dep = i" using row_map_Some unfolding dep_map_def by fastforce
  have won: "won = Inr True" "dep_ok s1"
    using deployment_map.cas [OF m assms(2), of i "[]" EjectStateEjecting] row assms(4,5) by auto
  have "dep_ok s2" "dep_map s2 i = Some (dep\<lparr>d_message := step\<rparr>)"
    using deployment_map.save [OF m won(2), of "dep\<lparr>d_message := step\<rparr>"] assms(6) i by auto
  then show ?thesis
    using deployment_map.cas [OF m, of s2 i "[]" EjectStateEjecting] won(1) assms(4) by simp
qed

text \<open>
  A fleet with one deployment on the sample BMC, armed for the eject of the node bound to its
  target, under a context that allows five waits.
\<close>

definition sample_fleet_env :: "nat fleet_env" where
  "sample_fleet_env =
     \<lparr>fe_deployments = mem_engine d_id dep_clash, fe_targets = mem_engine b_id bmc_clash, fe_cipher = None,
      fe_nonce = \<lambda>_. None, fe_bmc = \<lambda>_. sample_bmc, fe_now = \<lambda>w. (60, w), fe_manifest = [], fe_registry = [],
      fe_db_text = \<lambda>_. ''db'', fe_turns = 6\<rparr>"

definition sample_fleet :: "string \<Rightarrow> string \<Rightarrow> nat fleet" where
  "sample_fleet phase es =
     \<lparr>fl_deployments = [sample_deployment\<lparr>d_status := phase, d_progress := 10, d_eject_state := es\<rparr>],
      fl_targets = [sample_target\<lparr>b_id := ''b1'', b_node_id := ''n1''\<rparr>], fl_iso = None, fl_world = 5,
      fl_events = [], fl_ui = []\<rparr>"

definition sample_job :: deploy_job where
  "sample_job =
     \<lparr>dj_deployment = ''d1'', dj_image_url = ''http://a/iso'', dj_serve_token = [],
      dj_config = target_config sample_target minute, dj_https = False, dj_eject_after = True\<rparr>"

lemma sample_fleet_facts:
  "keyed_engine (fe_deployments sample_fleet_env) d_id dep_clash" "dep_ok (sample_fleet phase es)"
  "dep_map (sample_fleet phase es) ''d1'' =
     Some (sample_deployment\<lparr>d_status := phase, d_progress := 10, d_eject_state := es\<rparr>)"
  using deployments.keyed_engine_axioms
  by (simp_all add: sample_fleet_env_def sample_fleet_def dep_ok_def dep_map_def sample_deployment_def)

lemma dep_map_column: "dep_map s i = Some row \<Longrightarrow> f row \<in> set (map f (fl_deployments s))"
  using row_map_Some unfolding dep_map_def by fastforce

theorem phone_home_ejects_only_correlated_witness:
  "\<exists>row. dep_map (MaybeFinalizeForNode sample_fleet_env ''n1'' (sample_fleet DeployCompleted EjectStatePending)) ''d1'' = Some row \<and>
     d_node_id row = ''n1'' \<and> d_eject_state row = EjectStateEjected"
proof -
  let ?s = "sample_fleet DeployCompleted EjectStatePending"
  have ran: "map (\<lambda>d. (d_node_id d, d_eject_state d)) (fl_deployments (MaybeFinalizeForNode sample_fleet_env ''n1'' ?s))
      = [(''n1'', EjectStateEjected)]"
    by code_simp
  have only: "d_id dep = ''d1''" if "dep_map ?s (d_id dep) = Some dep" for dep
    using dep_map_column [OF that, of d_id] by (simp add: sample_fleet_def sample_deployment_def)
  note outcome = phone_home_ejects_only_correlated [OF sample_fleet_facts(1,2) refl, of "''n1''" DeployCompleted EjectStatePending]
  from conjunct2 [OF outcome] obtain row where
    row: "dep_map (MaybeFinalizeForNode sample_fleet_env ''n1'' ?s) ''d1'' = Some row"
  proof (elim disjE exE conjE)
    assume same: "dep_map (MaybeFinalizeForNode sample_fleet_env ''n1'' ?s) = dep_map ?s"
      and next_row: "\<And>row. dep_map (MaybeFinalizeForNode sample_fleet_env ''n1'' ?s) ''d1'' = Some row \<Longrightarrow> thesis"
    show thesis by (rule next_row) (simp only: same sample_fleet_facts(3))
  next
    fix dep row
    assume dep: "dep_map ?s (d_id dep) = Some dep"
      and upd: "dep_map (MaybeFinalizeForNode sample_fleet_env ''n1'' ?s) = (dep_map ?s)(d_id dep \<mapsto> row)"
      and next_row: "\<And>row. dep_map (MaybeFinalizeForNode sample_fleet_env ''n1'' ?s) ''d1'' = Some row \<Longrightarrow> thesis"
    show thesis by (rule next_row) (simp only: upd only [OF dep] fun_upd_same)
  qed
  from dep_map_column [OF row, of "\<lambda>d. (d_node_id d, d_eject_state d)"] row show ?thesis unfolding ran by simp
qed

theorem manual_finalize_answers_witness:
  "map_option status (fst (FinalizeDeployment sample_fleet_env ''d1'' (sample_fleet DeployCompleted EjectStatePending))) = Some 200 \<and>
   (\<exists>row. dep_map (snd (FinalizeDeployment sample_fleet_env ''d1'' (sample_fleet DeployCompleted EjectStatePending))) ''d1'' = Some row \<and>
      ejected_row (sample_deployment\<lparr>d_status := DeployCompleted, d_progress := 10, d_eject_state := EjectStatePending\<rparr>) row)"
proof -
  let ?s = "sample_fleet DeployCompleted EjectStatePending"
  let ?dep = "sample_deployment\<lparr>d_status := DeployCompleted, d_progress := 10, d_eject_state := EjectStatePending\<rparr>"
  have ok: "map_option status (fst (FinalizeDeployment sample_fleet_env ''d1'' ?s)) = Some 200" by code_simp
  have free: "claimable ?dep" "d_bmc_target_id ?dep \<noteq> []" by (simp_all add: claimable_def sample_deployment_def)
  from manual_finalize_answers [OF sample_fleet_facts free(2) prod.collapse [symmetric]] ok show ?thesis
    by (auto simp: free(1) map_option_case split: option.splits)
qed

theorem restart_clears_orphans_witness:
  "\<exists>row. dep_map (snd (ReconcileOrphanedDeployments sample_fleet_env (sample_fleet DeployActive EjectStateEjecting))) ''d1'' = Some row \<and>
     d_status row = DeployFailed \<and> d_eject_state row = EjectStatePending"
  using restart_clears_orphans [OF sample_fleet_facts(1) sample_fleet_facts(2) [of DeployActive EjectStateEjecting]
      prod.collapse [symmetric], of "''d1''"]
  by (auto simp: sample_fleet_facts(3))

theorem background_deploy_settles_witness:
  "\<exists>row. dep_map (runRedfishDeploy sample_fleet_env sample_job (sample_fleet DeployActive [])) ''d1'' = Some row \<and>
     settled_row True (sample_deployment\<lparr>d_status := DeployActive, d_progress := 10, d_eject_state := []\<rparr>) row"
proof -
  let ?s = "sample_fleet DeployActive []"
  let ?dep = "sample_deployment\<lparr>d_status := DeployActive, d_progress := 10, d_eject_state := []\<rparr>"
  have job: "dj_deployment sample_job = ''d1''" "dj_eject_after sample_job = True" by (simp_all add: sample_job_def)
  have bound: "deadline_bound (fe_bmc sample_fleet_env (dj_config sample_job)) id" "id (fl_world ?s) < fe_turns sample_fleet_env"
    using sample_bound by (simp_all add: sample_fleet_env_def sample_fleet_def)
  have "dep_map ?s (dj_deployment sample_job) = Some ?dep" using sample_fleet_facts(3) job by simp
  from background_deploy_settles [OF sample_fleet_facts(1,2) this bound] obtain row where
    row: "dep_map (runRedfishDeploy sample_fleet_env sample_job ?s) = (dep_map ?s)(''d1'' \<mapsto> row)" "settled_row True ?dep row"
    unfolding job by blast
  then show ?thesis by simp
qed

end
