(* ===== verification/Command_Store.thy ===== *)
theory Command_Store
  imports Store_Model
begin

text \<open>
  The command queue (the \<^verbatim>\<open>CommandStore\<close> half of
  \<^verbatim>\<open>internal/store/gorm/store.go\<close>) over the table of commands: every operation, the
  interleavings of operations, exactly-once delivery, and the scoping of a node's status
  reports to its own commands.
\<close>

section \<open>Operations\<close>

type_synonym commands = "node_command list"

definition CommandCreate ::
  "node_command engine \<Rightarrow> instant \<Rightarrow> uuid \<Rightarrow> node_command \<Rightarrow> commands \<Rightarrow> (node_command, commands) db_result"
where
  "CommandCreate eng now u cmd t =
     (let cmd' = cmd\<lparr>c_id := u, c_phase := CommandPending, c_created_at := now\<rparr> in
      case db_create eng cmd' t of
        (Inl e, t') \<Rightarrow> (Inl e, t')
      | (Inr _, t') \<Rightarrow> (Inr cmd', t'))"

definition CommandGetByID :: "node_command engine \<Rightarrow> string \<Rightarrow> commands \<Rightarrow> db_error + node_command" where
  "CommandGetByID eng i t = db_first eng (\<lambda>c. c_id c = i) t"

definition GetPending ::
  "node_command engine \<Rightarrow> instant \<Rightarrow> string \<Rightarrow> commands \<Rightarrow> db_error + node_command list" where
  "GetPending eng now nodeID t =
     db_find eng (\<lambda>c. c_node_id c = nodeID \<and> c_phase c = CommandPending \<and>
                      (case c_expires_at c of None \<Rightarrow> True | Some e \<Rightarrow> e > now)) t"

definition deliver :: "instant \<Rightarrow> node_command \<Rightarrow> node_command" where
  "deliver now c = c\<lparr>c_phase := CommandDelivered, c_delivered_at := Some now\<rparr>"

definition MarkDelivered ::
  "node_command engine \<Rightarrow> instant \<Rightarrow> string list \<Rightarrow> commands \<Rightarrow> (nat, commands) db_result" where
  "MarkDelivered eng now ids t = db_updates eng (\<lambda>c. c_id c \<in> set ids) (deliver now) t"

definition ClaimForDelivery ::
  "node_command engine \<Rightarrow> instant \<Rightarrow> string \<Rightarrow> commands \<Rightarrow> (bool, commands) db_result" where
  "ClaimForDelivery eng now i t =
     (case db_updates eng (\<lambda>c. c_id c = i \<and> c_phase c = CommandPending) (deliver now) t of
        (Inl e, t') \<Rightarrow> (Inl e, t')
      | (Inr affected, t') \<Rightarrow> (Inr (affected = 1), t'))"

text \<open>The columns both status updates write: a terminal phase also stamps completed_at.\<close>

definition status_columns :: "instant \<Rightarrow> string \<Rightarrow> string \<Rightarrow> node_command \<Rightarrow> node_command" where
  "status_columns now phase result c =
     (let c' = c\<lparr>c_phase := phase, c_result := result\<rparr> in
      if phase = CommandCompleted \<or> phase = CommandFailed then c'\<lparr>c_completed_at := Some now\<rparr> else c')"

definition UpdateStatus ::
  "node_command engine \<Rightarrow> instant \<Rightarrow> string \<Rightarrow> string \<Rightarrow> string \<Rightarrow> commands \<Rightarrow> (store_error + unit) \<times> commands"
where
  "UpdateStatus eng now i phase result t =
     (case db_updates eng (\<lambda>c. c_id c = i) (status_columns now phase result) t of
        (Inl e, t') \<Rightarrow> (Inl (DbError e), t')
      | (Inr _, t') \<Rightarrow> (Inr (), t'))"

definition UpdateStatusForNode ::
  "node_command engine \<Rightarrow> instant \<Rightarrow> string \<Rightarrow> string \<Rightarrow> string \<Rightarrow> string \<Rightarrow> commands \<Rightarrow>
     (store_error + unit) \<times> commands"
where
  "UpdateStatusForNode eng now i nodeID phase result t =
     (case db_updates eng (\<lambda>c. c_id c = i \<and> c_node_id c = nodeID) (status_columns now phase result) t of
        (Inl e, t') \<Rightarrow> (Inl (DbError e), t')
      | (Inr affected, t') \<Rightarrow> (if affected = 0 then (Inl ErrCommandNotFound, t') else (Inr (), t')))"

definition ListByNode :: "node_command engine \<Rightarrow> string \<Rightarrow> commands \<Rightarrow> db_error + node_command list" where
  "ListByNode eng nodeID t = db_find eng (\<lambda>c. c_node_id c = nodeID) t"

text \<open>RowsAffected is 0 after a failed statement too, so a driver error is reported as a miss.\<close>

definition CommandDelete ::
  "node_command engine \<Rightarrow> string \<Rightarrow> commands \<Rightarrow> (store_error + unit) \<times> commands" where
  "CommandDelete eng i t =
     (case db_delete eng (\<lambda>c. c_id c = i) t of
        (Inl _, t') \<Rightarrow> (Inl CommandNotFound, t')
      | (Inr affected, t') \<Rightarrow> (if affected = 0 then Inl CommandNotFound else Inr (), t'))"

definition CommandDeleteTerminal ::
  "node_command engine \<Rightarrow> string \<Rightarrow> commands \<Rightarrow> (nat, commands) db_result" where
  "CommandDeleteTerminal eng nodeID t =
     db_delete eng (\<lambda>c. c_node_id c = nodeID \<and> (c_phase c = CommandCompleted \<or> c_phase c = CommandFailed)) t"

section \<open>Interleavings\<close>

datatype command_op =
    OpCreate instant uuid node_command
  | OpMarkDelivered instant "string list"
  | OpClaim instant string
  | OpUpdateStatus instant string string string
  | OpUpdateStatusForNode instant string string string string
  | OpDelete string
  | OpDeleteTerminal string

text \<open>The result of a claim, and nothing for the other operations.\<close>

fun command_step :: "node_command engine \<Rightarrow> command_op \<Rightarrow> commands \<Rightarrow> (db_error + bool) option \<times> commands" where
  "command_step eng (OpCreate now u cmd) t = (None, snd (CommandCreate eng now u cmd t))"
| "command_step eng (OpMarkDelivered now ids) t = (None, snd (MarkDelivered eng now ids t))"
| "command_step eng (OpClaim now i) t = (let (r, t') = ClaimForDelivery eng now i t in (Some r, t'))"
| "command_step eng (OpUpdateStatus now i phase result) t =
     (None, snd (UpdateStatus eng now i phase result t))"
| "command_step eng (OpUpdateStatusForNode now i nodeID phase result) t =
     (None, snd (UpdateStatusForNode eng now i nodeID phase result t))"
| "command_step eng (OpDelete i) t = (None, snd (CommandDelete eng i t))"
| "command_step eng (OpDeleteTerminal nodeID) t = (None, snd (CommandDeleteTerminal eng nodeID t))"

definition is_pending :: "string \<Rightarrow> commands \<Rightarrow> bool" where
  "is_pending i t = (\<exists>c \<in> set t. c_id c = i \<and> c_phase c = CommandPending)"

fun claim_wins :: "string \<Rightarrow> command_op \<Rightarrow> (db_error + bool) option \<Rightarrow> bool" where
  "claim_wins i (OpClaim now j) out = (j = i \<and> out = Some (Inr True))"
| "claim_wins i _ out = False"

text \<open>
  What puts a command (back) into the queue: creating it, and a status report that names the
  phase Pending, which neither status update refuses.
\<close>

fun requeues :: "string \<Rightarrow> command_op \<Rightarrow> bool" where
  "requeues i (OpCreate now u cmd) = (u = i)"
| "requeues i (OpUpdateStatus now j phase result) = (j = i \<and> phase = CommandPending)"
| "requeues i (OpUpdateStatusForNode now j nodeID phase result) = (j = i \<and> phase = CommandPending)"
| "requeues i _ = False"

lemmas command_ops =
  CommandCreate_def MarkDelivered_def ClaimForDelivery_def UpdateStatus_def
  UpdateStatusForNode_def CommandDelete_def CommandDeleteTerminal_def

lemma c_id_deliver [simp]: "c_id (deliver now c) = c_id c"
  by (simp add: deliver_def)

lemma c_phase_deliver [simp]: "c_phase (deliver now c) = CommandDelivered"
  by (simp add: deliver_def)

lemma status_columns_simps [simp]:
  "c_id (status_columns now phase result c) = c_id c"
  "c_node_id (status_columns now phase result c) = c_node_id c"
  "c_phase (status_columns now phase result c) = phase"
  "c_result (status_columns now phase result c) = result"
  by (simp_all add: status_columns_def Let_def)

lemma is_pending_update_rows:
  assumes "is_pending i (update_rows p f t)"
    and "\<And>c. p c \<Longrightarrow> c_id (f c) = i \<Longrightarrow> c_phase (f c) = CommandPending \<Longrightarrow> c_id c = i \<and> c_phase c = CommandPending"
  shows "is_pending i t"
  using assms by (auto simp: is_pending_def set_update_rows)

lemma claimed_not_pending:
  "\<not> is_pending i (update_rows (\<lambda>c. c_id c = i \<and> c_phase c = CommandPending) (deliver now) t)"
  by (induction t) (simp_all add: is_pending_def)

lemma is_pending_subset: "is_pending i t' \<Longrightarrow> set t' \<subseteq> set t \<Longrightarrow> is_pending i t"
  by (auto simp: is_pending_def)

locale command_engine = sql_engine eng c_id cmd_clash for eng :: "node_command engine"
begin

lemma updates_pending:
  assumes "db_updates eng p f t = (r, t')" and "is_pending i t'"
    and "\<And>c. p c \<Longrightarrow> c_id (f c) = i \<Longrightarrow> c_phase (f c) = CommandPending \<Longrightarrow> c_id c = i \<and> c_phase c = CommandPending"
  shows "is_pending i t"
proof (cases r)
  case (Inl e)
  then show ?thesis using assms db_updates_Inl by blast
next
  case (Inr n)
  then show ?thesis using assms db_updates_Inr is_pending_update_rows by blast
qed

lemma delete_pending:
  assumes "db_delete eng p t = (r, t')" and "is_pending i t'"
  shows "is_pending i t"
proof -
  have "set t' \<subseteq> set t"
    using assms(1) by (cases r) (auto dest: db_delete_Inl db_delete_Inr)
  then show ?thesis using assms(2) is_pending_subset by blast
qed

lemma claim_Inr:
  assumes "ClaimForDelivery eng now i t = (Inr b, t')"
  shows "t' = update_rows (\<lambda>c. c_id c = i \<and> c_phase c = CommandPending) (deliver now) t"
    and "b = (length (filter (\<lambda>c. c_id c = i \<and> c_phase c = CommandPending) t) = 1)"
  using assms db_updates_Inr by (auto simp: ClaimForDelivery_def split: prod.splits sum.splits)

lemma claim_true:
  assumes "ClaimForDelivery eng now i t = (Inr True, t')"
  shows "is_pending i t \<and> \<not> is_pending i t'"
proof -
  let ?p = "\<lambda>c. c_id c = i \<and> c_phase c = CommandPending"
  have t': "t' = update_rows ?p (deliver now) t" and one: "length (filter ?p t) = 1"
    using claim_Inr [OF assms] by auto
  have "filter ?p t \<noteq> []" using one by (metis length_0_conv zero_neq_one)
  then have "is_pending i t" by (auto simp: is_pending_def filter_empty_conv)
  moreover have "\<not> is_pending i t'" unfolding t' by (rule claimed_not_pending)
  ultimately show ?thesis ..
qed

lemma claim_err: "ClaimForDelivery eng now i t = (Inl e, t') \<Longrightarrow> t' = t"
  by (auto simp: ClaimForDelivery_def split: prod.splits sum.splits dest: db_updates_Inl)

lemma requeue_only:
  assumes "command_step eng op t = (out, t')" and "\<not> requeues i op" and "is_pending i t'"
  shows "is_pending i t"
proof (cases op)
  case (OpCreate now u cmd)
  let ?c = "cmd\<lparr>c_id := u, c_phase := CommandPending, c_created_at := now\<rparr>"
  obtain r t1 where *: "db_create eng ?c t = (r, t1)" by fastforce
  have "t' = t1" using assms(1) * OpCreate by (auto simp: CommandCreate_def Let_def split: sum.splits)
  then show ?thesis
    using * assms(2,3) OpCreate db_create_Inl [of eng ?c t _ t1] db_create_Inr [of ?c t _ t1]
    by (cases r) (auto simp: is_pending_def)
next
  case (OpClaim now j)
  then show ?thesis
    using assms updates_pending [of "\<lambda>c. c_id c = j \<and> c_phase c = CommandPending" "deliver now" t]
    by (auto simp: ClaimForDelivery_def split: prod.splits sum.splits)
next
  case (OpMarkDelivered now ids)
  then show ?thesis
    using assms updates_pending [of "\<lambda>c. c_id c \<in> set ids" "deliver now" t]
    by (cases "db_updates eng (\<lambda>c. c_id c \<in> set ids) (deliver now) t") (auto simp: MarkDelivered_def)
next
  case (OpUpdateStatus now j phase result)
  then show ?thesis
    using assms updates_pending [of "\<lambda>c. c_id c = j" "status_columns now phase result" t]
    by (auto simp: UpdateStatus_def split: prod.splits sum.splits)
next
  case (OpUpdateStatusForNode now j nodeID phase result)
  then show ?thesis
    using assms updates_pending
      [of "\<lambda>c. c_id c = j \<and> c_node_id c = nodeID" "status_columns now phase result" t]
    by (auto simp: UpdateStatusForNode_def split: prod.splits sum.splits if_splits)
next
  case (OpDelete j)
  then show ?thesis
    using assms delete_pending by (auto simp: CommandDelete_def split: prod.splits sum.splits)
next
  case (OpDeleteTerminal nodeID)
  then show ?thesis
    using assms delete_pending [OF prod.collapse [symmetric]] by (auto simp: CommandDeleteTerminal_def)
qed

end

sublocale command_engine \<subseteq> delivery: compare_and_set "command_step eng" "is_pending i" "claim_wins i" "requeues i"
  for i
proof
  fix op s out s'
  assume "command_step eng op s = (out, s')" and "claim_wins i op out"
  then show "is_pending i s \<and> \<not> is_pending i s'"
    by (cases op) (auto dest: claim_true split: prod.splits)
next
  fix op s out s'
  assume "command_step eng op s = (out, s')" and "\<not> requeues i op" and "\<not> is_pending i s"
  then show "\<not> is_pending i s'" using requeue_only by blast
qed

context command_engine
begin

lemma delivered_once:
  "\<forall>op \<in> set ops. \<not> requeues i op \<Longrightarrow> run_ops (command_step eng) ops t = (log, t') \<Longrightarrow>
     winners (claim_wins i) log \<le> 1"
  by (rule delivery.at_most_one_winner)

end

interpretation mem_commands: command_engine "mem_engine c_id cmd_clash"
  by unfold_locales

section \<open>One winner, and who it is\<close>

lemma unique_commands: "unique_rows cmd_clash t \<Longrightarrow> distinct (map c_id t)"
  by (rule unique_pk [where clash = cmd_clash]) (simp_all add: cmd_clash_def)

lemma unique_commands_update:
  "unique_rows cmd_clash t \<Longrightarrow> (\<And>c. c_id (f c) = c_id c) \<Longrightarrow> unique_rows cmd_clash (update_rows p f t)"
  by (rule unique_rows_update) (auto simp: cmd_clash_def)

lemma pending_count:
  "unique_rows cmd_clash t \<Longrightarrow>
     length (filter (\<lambda>c. c_id c = i \<and> c_phase c = CommandPending) t) = (if is_pending i t then 1 else 0)"
  using distinct_filter_one [OF unique_commands] by (simp add: is_pending_def)

lemma claim_reliable:
  assumes "reliable_engine eng c_id cmd_clash" and "unique_rows cmd_clash t"
  shows "ClaimForDelivery eng now i t =
    (Inr (is_pending i t), update_rows (\<lambda>c. c_id c = i \<and> c_phase c = CommandPending) (deliver now) t)"
  using reliable_engine.db_updates_total [OF assms(1)] assms(2) unique_commands_update
  by (simp add: ClaimForDelivery_def pending_count)

lemma update_for_node_reliable:
  assumes "reliable_engine eng c_id cmd_clash" and "unique_rows cmd_clash t"
    and "c \<in> set t" and "c_id c = i" and "c_node_id c = nodeID"
  shows "UpdateStatusForNode eng now i nodeID phase result t =
    (Inr (), update_rows (\<lambda>c. c_id c = i \<and> c_node_id c = nodeID) (status_columns now phase result) t)"
proof -
  have "filter (\<lambda>c. c_id c = i \<and> c_node_id c = nodeID) t \<noteq> []"
    using assms(3-5) by (auto simp: filter_empty_conv)
  then show ?thesis
    using reliable_engine.db_updates_total [OF assms(1)] assms(2) unique_commands_update
    by (simp add: UpdateStatusForNode_def)
qed

lemma command_engine_of: "sql_engine eng c_id cmd_clash \<Longrightarrow> command_engine eng"
  by (simp add: command_engine_def)

section \<open>Properties\<close>

text \<open>
  C1. Exactly-once delivery: in every interleaving of store operations by polls, WebSocket
  pushes and status reports, at most one claim of a command succeeds, as long as no operation
  of the interleaving puts the command back into the queue.
\<close>
theorem command_delivered_at_most_once:
  assumes "sql_engine eng c_id cmd_clash"
    and "\<forall>op \<in> set ops. \<not> requeues i op"
    and "run_ops (command_step eng) ops t = (log, t')"
  shows "winners (claim_wins i) log \<le> 1"
  using command_engine.delivered_once [OF command_engine_of [OF assms(1)] assms(2,3)] .

definition sample_command :: node_command where
  "sample_command =
     \<lparr>c_id = ''c1'', c_node_id = ''n1'', c_command = ''reboot'', c_args = [], c_phase = CommandPending,
      c_result = [], c_expires_at = None, c_delivered_at = None, c_completed_at = None,
      c_created_at = 0\<rparr>"

lemmas command_eval =
  sample_command_def command_ops mem_sql mem_reliable db_updates_def db_create_def update_rows_def
  deliver_def status_columns_def unique_rows_def cmd_clash_def is_pending_def

theorem command_delivered_at_most_once_witness:
  "winners (claim_wins ''c1'')
     (fst (run_ops (command_step (mem_engine c_id cmd_clash)) [OpClaim 5 ''c1'', OpClaim 6 ''c1''] [sample_command])) \<le> 1 \<and>
   winners (claim_wins ''c1'')
     (fst (run_ops (command_step (mem_engine c_id cmd_clash)) [OpClaim 5 ''c1'', OpClaim 6 ''c1''] [sample_command])) = 1"
proof
  show "winners (claim_wins ''c1'')
     (fst (run_ops (command_step (mem_engine c_id cmd_clash)) [OpClaim 5 ''c1'', OpClaim 6 ''c1''] [sample_command])) \<le> 1"
    by (rule command_delivered_at_most_once [OF mem_sql _ prod.collapse [symmetric]]) simp
qed (simp add: command_eval)

text \<open>
  A claim over an engine that does not fail succeeds exactly when the command is still
  pending; it delivers that command and touches no other row.
\<close>
theorem claim_for_delivery_decides:
  assumes "reliable_engine eng c_id cmd_clash" and "unique_rows cmd_clash t"
  shows "ClaimForDelivery eng now i t =
    (Inr (is_pending i t),
     map (\<lambda>c. if c_id c = i \<and> c_phase c = CommandPending
              then c\<lparr>c_phase := CommandDelivered, c_delivered_at := Some now\<rparr> else c) t)"
  using claim_reliable [OF assms] by (simp add: update_rows_def deliver_def)

theorem claim_for_delivery_decides_witness:
  "fst (ClaimForDelivery (mem_engine c_id cmd_clash) 5 ''c1'' [sample_command]) = Inr True"
proof -
  have "unique_rows cmd_clash [sample_command]" by (simp add: unique_rows_def)
  then show ?thesis
    using claim_for_delivery_decides [OF mem_reliable, of "[sample_command]" 5 "''c1''"]
    by (simp add: is_pending_def sample_command_def)
qed

text \<open>
  C3. A node's status report is scoped to its own commands: whatever command id it names, no
  command of another node changes; the report is refused as not found exactly when the node
  owns no such command, and then nothing changes at all.
\<close>
theorem update_status_for_node_scoped:
  assumes "reliable_engine eng c_id cmd_clash" and "unique_rows cmd_clash t"
    and "UpdateStatusForNode eng now i nodeID phase result t = (r, t')"
  shows "filter (\<lambda>c. c_node_id c \<noteq> nodeID \<or> c_id c \<noteq> i) t' =
           filter (\<lambda>c. c_node_id c \<noteq> nodeID \<or> c_id c \<noteq> i) t \<and>
         (r = Inl ErrCommandNotFound \<longleftrightarrow> (\<forall>c \<in> set t. \<not> (c_id c = i \<and> c_node_id c = nodeID))) \<and>
         (r = Inl ErrCommandNotFound \<longrightarrow> t' = t)"
proof -
  let ?p = "\<lambda>c. c_id c = i \<and> c_node_id c = nodeID"
  have upd: "t' = update_rows ?p (status_columns now phase result) t"
    and r: "r = (if filter ?p t = [] then Inl ErrCommandNotFound else Inr ())"
    using reliable_engine.db_updates_total [OF assms(1)] assms(2,3) unique_commands_update
    by (auto simp: UpdateStatusForNode_def split: if_splits)
  have "filter (\<lambda>c. c_node_id c \<noteq> nodeID \<or> c_id c \<noteq> i) t' =
        filter (\<lambda>c. c_node_id c \<noteq> nodeID \<or> c_id c \<noteq> i) t"
    unfolding upd by (induction t) auto
  moreover have *: "r = Inl ErrCommandNotFound \<longleftrightarrow> (\<forall>c \<in> set t. \<not> ?p c)"
    unfolding r by (auto simp: filter_empty_conv)
  moreover have "t' = t" if "r = Inl ErrCommandNotFound"
    using that * upd by (simp add: update_rows_id)
  ultimately show ?thesis by simp
qed

theorem update_status_for_node_scoped_witness:
  "filter (\<lambda>c. c_node_id c \<noteq> ''n2'' \<or> c_id c \<noteq> ''c1'')
     (snd (UpdateStatusForNode (mem_engine c_id cmd_clash) 9 ''c1'' ''n2'' ''Completed'' [] [sample_command])) =
   [sample_command]"
proof -
  have "unique_rows cmd_clash [sample_command]" by (simp add: unique_rows_def)
  from update_status_for_node_scoped [OF mem_reliable this prod.collapse [symmetric],
      where now = 9 and i = "''c1''" and nodeID = "''n2''" and phase = "''Completed''" and result = "[]"]
  show ?thesis by (simp add: sample_command_def)
qed

text \<open>
  Neither status update refuses the phase Pending: a node that reports its delivered
  command as Pending puts it back into the queue, and the command is delivered a second time.
\<close>
theorem status_report_requeues_delivered_command:
  assumes "reliable_engine eng c_id cmd_clash" and "unique_rows cmd_clash t"
    and "cmd \<in> set t" and "c_id cmd = i" and "c_node_id cmd = nodeID" and "c_phase cmd = CommandPending"
  shows "winners (claim_wins i)
    (fst (run_ops (command_step eng)
       [OpClaim a i, OpUpdateStatusForNode b i nodeID CommandPending result, OpClaim d i] t)) = 2"
proof -
  let ?t1 = "update_rows (\<lambda>c. c_id c = i \<and> c_phase c = CommandPending) (deliver a) t"
  let ?t2 = "update_rows (\<lambda>c. c_id c = i \<and> c_node_id c = nodeID) (status_columns b CommandPending result) ?t1"
  have "is_pending i t" using assms(3,4,6) by (auto simp: is_pending_def)
  then have 1: "ClaimForDelivery eng a i t = (Inr True, ?t1)"
    using claim_reliable [OF assms(1,2)] by simp
  have u1: "unique_rows cmd_clash ?t1" using assms(2) by (simp add: unique_commands_update)
  have in1: "deliver a cmd \<in> set ?t1" using assms(3,4,6) by (auto simp: set_update_rows)
  have own: "c_id (deliver a cmd) = i" "c_node_id (deliver a cmd) = nodeID"
    using assms(4,5) by (simp_all add: deliver_def)
  have 2: "UpdateStatusForNode eng b i nodeID CommandPending result ?t1 = (Inr (), ?t2)"
    using update_for_node_reliable [OF assms(1) u1 in1 own] .
  have u2: "unique_rows cmd_clash ?t2" using u1 by (simp add: unique_commands_update)
  have "status_columns b CommandPending result (deliver a cmd) \<in> set ?t2"
    using in1 own by (auto simp: set_update_rows)
  then have "is_pending i ?t2" unfolding is_pending_def using own(1) by (intro bexI) simp_all
  then have 3: "ClaimForDelivery eng d i ?t2 =
    (Inr True, update_rows (\<lambda>c. c_id c = i \<and> c_phase c = CommandPending) (deliver d) ?t2)"
    using claim_reliable [OF assms(1) u2] by simp
  show ?thesis by (simp add: 1 2 3)
qed

theorem status_report_requeues_delivered_command_witness:
  "winners (claim_wins ''c1'')
    (fst (run_ops (command_step (mem_engine c_id cmd_clash))
       [OpClaim 5 ''c1'', OpUpdateStatusForNode 6 ''c1'' ''n1'' CommandPending [], OpClaim 7 ''c1'']
       [sample_command])) = 2"
  by (rule status_report_requeues_delivered_command [OF mem_reliable, where cmd = sample_command])
    (simp_all add: unique_rows_def sample_command_def)

end
