(* ===== verification/Node_Store.thy ===== *)
theory Node_Store
  imports Command_Store
begin

text \<open>
  Groups and nodes (the \<^verbatim>\<open>GroupStore\<close> and \<^verbatim>\<open>NodeStore\<close> halves of
  \<^verbatim>\<open>internal/store/gorm/store.go\<close>). Besides the operations as the code composes
  them, \<open>claim_pc_step\<close> runs \<^verbatim>\<open>ClaimNode\<close> one SQL statement at a time, so
  that the statements of several callers can be interleaved; the last sections prove that
  two keys never own one node, and what the read-then-Save of a heartbeat does to a claim.
\<close>

section \<open>Groups\<close>

type_synonym groups = "node_group list"
type_synonym nodes = "managed_node list"

definition GroupCreate ::
  "node_group engine \<Rightarrow> uuid \<Rightarrow> node_group \<Rightarrow> groups \<Rightarrow> (node_group, groups) db_result" where
  "GroupCreate eng u g t =
     (let g' = g\<lparr>g_id := u\<rparr> in
      case db_create eng g' t of (Inl e, t') \<Rightarrow> (Inl e, t') | (Inr _, t') \<Rightarrow> (Inr g', t'))"

definition GroupGetByID :: "node_group engine \<Rightarrow> string \<Rightarrow> groups \<Rightarrow> db_error + node_group" where
  "GroupGetByID eng i t = db_first eng (\<lambda>g. g_id g = i) t"

definition GroupGetByName :: "node_group engine \<Rightarrow> string \<Rightarrow> groups \<Rightarrow> db_error + node_group" where
  "GroupGetByName eng name t = db_first eng (\<lambda>g. g_name g = name) t"

definition GroupList :: "node_group engine \<Rightarrow> groups \<Rightarrow> db_error + node_group list" where
  "GroupList eng t = db_find eng (\<lambda>_. True) t"

definition GroupUpdate :: "node_group engine \<Rightarrow> node_group \<Rightarrow> groups \<Rightarrow> (unit, groups) db_result" where
  "GroupUpdate eng g t = db_save eng g t"

text \<open>One transaction over both tables: an error of either statement rolls both back.\<close>

definition GroupDelete ::
  "managed_node engine \<Rightarrow> node_group engine \<Rightarrow> string \<Rightarrow> nodes \<Rightarrow> groups \<Rightarrow>
     (unit, nodes \<times> groups) db_result"
where
  "GroupDelete neng geng i ns gs =
     (case db_updates neng (\<lambda>n. n_group_id n = i) (\<lambda>n. n\<lparr>n_group_id := []\<rparr>) ns of
        (Inl e, _) \<Rightarrow> (Inl e, ns, gs)
      | (Inr _, ns') \<Rightarrow>
          (case db_delete geng (\<lambda>g. g_id g = i) gs of
             (Inl e, _) \<Rightarrow> (Inl e, ns, gs)
           | (Inr _, gs') \<Rightarrow> (Inr (), ns', gs')))"

section \<open>Nodes\<close>

definition hex_digit :: "nat \<Rightarrow> char" where
  "hex_digit d = ''0123456789abcdef'' ! (d mod 16)"

definition hex_encode :: "string \<Rightarrow> string" where
  "hex_encode bs = concat (map (\<lambda>b. [hex_digit (of_char b div 16), hex_digit (of_char b mod 16)]) bs)"

text \<open>\<open>rnd\<close> is what \<^verbatim>\<open>rand.Read\<close> filled the 32 bytes with, or its failure.\<close>

definition generateAPIKey :: "string option \<Rightarrow> string option" where
  "generateAPIKey rnd = map_option hex_encode rnd"

definition Register ::
  "managed_node engine \<Rightarrow> instant \<Rightarrow> uuid \<Rightarrow> string option \<Rightarrow> managed_node \<Rightarrow> nodes \<Rightarrow>
     (store_error + managed_node) \<times> nodes"
where
  "Register eng now u rnd node t =
     (case generateAPIKey rnd of
        None \<Rightarrow> (Inl ApiKeyError, t)
      | Some apiKey \<Rightarrow>
          (let node' = node\<lparr>n_id := u, n_api_key := apiKey, n_phase := PhaseRegistered, n_created_at := now\<rparr> in
           case db_create eng node' t of
             (Inl e, t') \<Rightarrow> (Inl (DbError e), t')
           | (Inr _, t') \<Rightarrow> (Inr node', t')))"

definition NodeGetByID :: "managed_node engine \<Rightarrow> string \<Rightarrow> nodes \<Rightarrow> db_error + managed_node" where
  "NodeGetByID eng i t = db_first eng (\<lambda>n. n_id n = i) t"

definition GetByMachineID :: "managed_node engine \<Rightarrow> string \<Rightarrow> nodes \<Rightarrow> db_error + managed_node" where
  "GetByMachineID eng m t = db_first eng (\<lambda>n. n_machine_id n = m) t"

definition GetByAPIKey :: "managed_node engine \<Rightarrow> string \<Rightarrow> nodes \<Rightarrow> db_error + managed_node" where
  "GetByAPIKey eng k t = db_first eng (\<lambda>n. n_api_key n = k) t"

definition NodeList :: "managed_node engine \<Rightarrow> nodes \<Rightarrow> db_error + managed_node list" where
  "NodeList eng t = db_find eng (\<lambda>_. True) t"

definition ListByGroup :: "managed_node engine \<Rightarrow> string \<Rightarrow> nodes \<Rightarrow> db_error + managed_node list" where
  "ListByGroup eng g t = db_find eng (\<lambda>n. n_group_id n = g) t"

text \<open>Indexing a Go map with a missing key gives the empty string.\<close>

definition map_index :: "strmap \<Rightarrow> string \<Rightarrow> string" where
  "map_index m k = (case map_of m k of None \<Rightarrow> [] | Some v \<Rightarrow> v)"

definition matchLabels :: "strmap \<Rightarrow> strmap \<Rightarrow> bool" where
  "matchLabels nodeLabels selector = list_all (\<lambda>(k, v). map_index nodeLabels k = v) selector"

definition ListByLabels :: "managed_node engine \<Rightarrow> strmap \<Rightarrow> nodes \<Rightarrow> db_error + managed_node list" where
  "ListByLabels eng labels t =
     (case db_find eng (\<lambda>_. True) t of
        Inl e \<Rightarrow> Inl e
      | Inr ns \<Rightarrow> Inr (filter (\<lambda>n. matchLabels (n_labels n) labels) ns))"

definition ListBySelector ::
  "managed_node engine \<Rightarrow> command_selector \<Rightarrow> nodes \<Rightarrow> db_error + managed_node list" where
  "ListBySelector eng sel t =
     (case db_find eng
        (\<lambda>n. (sel_group_id sel \<noteq> [] \<longrightarrow> n_group_id n = sel_group_id sel) \<and>
             (sel_node_ids sel \<noteq> [] \<longrightarrow> n_id n \<in> set (sel_node_ids sel))) t of
        Inl e \<Rightarrow> Inl e
      | Inr ns \<Rightarrow>
          Inr (if sel_labels sel \<noteq> [] then filter (\<lambda>n. matchLabels (n_labels n) (sel_labels sel)) ns
               else ns))"

text \<open>
  A heartbeat reads the row, changes the copy and saves the whole row back: two statements,
  with the copy held in memory between them.
\<close>

definition heartbeat_row ::
  "instant \<Rightarrow> string \<Rightarrow> strmap \<Rightarrow> node_address list option \<Rightarrow> string \<Rightarrow> managed_node \<Rightarrow> managed_node" where
  "heartbeat_row now agentVersion osRelease addresses bootState n =
     (let n1 = n\<lparr>n_last_heartbeat := Some now, n_agent_version := agentVersion,
                n_os_release := osRelease, n_phase := PhaseOnline\<rparr>;
          n2 = (if addresses \<noteq> None then n1\<lparr>n_addresses := addresses\<rparr> else n1)
      in if bootState \<noteq> [] then n2\<lparr>n_boot_state := bootState\<rparr> else n2)"

definition UpdateHeartbeat ::
  "managed_node engine \<Rightarrow> instant \<Rightarrow> string \<Rightarrow> string \<Rightarrow> strmap \<Rightarrow> node_address list option \<Rightarrow> string \<Rightarrow>
     nodes \<Rightarrow> (unit, nodes) db_result"
where
  "UpdateHeartbeat eng now i agentVersion osRelease addresses bootState t =
     (case db_first eng (\<lambda>n. n_id n = i) t of
        Inl e \<Rightarrow> (Inl e, t)
      | Inr n \<Rightarrow> db_save eng (heartbeat_row now agentVersion osRelease addresses bootState n) t)"

definition UpdatePhase :: "managed_node engine \<Rightarrow> string \<Rightarrow> string \<Rightarrow> nodes \<Rightarrow> (nat, nodes) db_result" where
  "UpdatePhase eng i phase t = db_updates eng (\<lambda>n. n_id n = i) (\<lambda>n. n\<lparr>n_phase := phase\<rparr>) t"

definition SetGroup :: "managed_node engine \<Rightarrow> string \<Rightarrow> string \<Rightarrow> nodes \<Rightarrow> (nat, nodes) db_result" where
  "SetGroup eng i g t = db_updates eng (\<lambda>n. n_id n = i) (\<lambda>n. n\<lparr>n_group_id := g\<rparr>) t"

definition SetLabels :: "managed_node engine \<Rightarrow> string \<Rightarrow> strmap \<Rightarrow> nodes \<Rightarrow> (unit, nodes) db_result" where
  "SetLabels eng i labels t =
     (case db_first eng (\<lambda>n. n_id n = i) t of
        Inl e \<Rightarrow> (Inl e, t)
      | Inr n \<Rightarrow> db_save eng (n\<lparr>n_labels := labels\<rparr>) t)"

text \<open>Two statements and no transaction: the commands are gone even if the second one fails.\<close>

definition NodeDelete ::
  "node_command engine \<Rightarrow> managed_node engine \<Rightarrow> string \<Rightarrow> commands \<Rightarrow> nodes \<Rightarrow>
     (unit, commands \<times> nodes) db_result"
where
  "NodeDelete ceng neng i cs ns =
     (case db_delete ceng (\<lambda>c. c_node_id c = i) cs of
        (Inl e, cs') \<Rightarrow> (Inl e, cs', ns)
      | (Inr _, cs') \<Rightarrow>
          (case db_delete neng (\<lambda>n. n_id n = i) ns of
             (Inl e, ns') \<Rightarrow> (Inl e, cs', ns')
           | (Inr _, ns') \<Rightarrow> (Inr (), cs', ns')))"

section \<open>Claims and resets\<close>

definition nodeClaimedByKey ::
  "managed_node engine \<Rightarrow> string \<Rightarrow> string \<Rightarrow> nodes \<Rightarrow> db_error + managed_node option" where
  "nodeClaimedByKey eng g k t =
     (case db_first eng (\<lambda>n. n_group_id n = g \<and> n_claim_key n = Some k) t of
        Inl RecordNotFound \<Rightarrow> Inr None
      | Inl e \<Rightarrow> Inl e
      | Inr n \<Rightarrow> Inr (Some n))"

definition claim_columns :: "instant \<Rightarrow> string \<Rightarrow> managed_node \<Rightarrow> managed_node" where
  "claim_columns now k n = n\<lparr>n_claim_key := Some k, n_claimed_at := Some now\<rparr>"

definition claim_row ::
  "managed_node engine \<Rightarrow> instant \<Rightarrow> string \<Rightarrow> string \<Rightarrow> nodes \<Rightarrow> (nat, nodes) db_result" where
  "claim_row eng now k i t =
     db_updates eng (\<lambda>n. n_id n = i \<and> n_claim_key n = None) (claim_columns now k) t"

definition claim_candidates :: "managed_node engine \<Rightarrow> string \<Rightarrow> nodes \<Rightarrow> db_error + string list" where
  "claim_candidates eng g t =
     (case db_find_asc eng (\<lambda>n. n_group_id n = g \<and> n_claim_key n = None) n_created_at t of
        Inl e \<Rightarrow> Inl e
      | Inr ns \<Rightarrow> Inr (map n_id ns))"

text \<open>The loop over the snapshot of candidates, and the last lookup after it.\<close>

fun claim_loop ::
  "managed_node engine \<Rightarrow> instant \<Rightarrow> string \<Rightarrow> string \<Rightarrow> string list \<Rightarrow> nodes \<Rightarrow>
     (store_error + managed_node) \<times> nodes"
where
  "claim_loop eng now g k [] t =
     (case nodeClaimedByKey eng g k t of
        Inl e \<Rightarrow> (Inl (DbError e), t)
      | Inr (Some mine) \<Rightarrow> (Inr mine, t)
      | Inr None \<Rightarrow> (Inl ErrNoClaimCapacity, t))"
| "claim_loop eng now g k (i # is) t =
     (case claim_row eng now k i t of
        (Inl e, t') \<Rightarrow>
          (if e = DuplicatedKey
           then (case nodeClaimedByKey eng g k t' of
                   Inl e' \<Rightarrow> (Inl (DbError e'), t')
                 | Inr (Some mine) \<Rightarrow> (Inr mine, t')
                 | Inr None \<Rightarrow> (Inl (DbError e), t'))
           else (Inl (DbError e), t'))
      | (Inr affected, t') \<Rightarrow>
          (if affected = 1 then (lift_db (NodeGetByID eng i t'), t')
           else claim_loop eng now g k is t'))"

definition ClaimNode ::
  "managed_node engine \<Rightarrow> instant \<Rightarrow> string \<Rightarrow> string \<Rightarrow> nodes \<Rightarrow> (store_error + managed_node) \<times> nodes" where
  "ClaimNode eng now g k t =
     (case nodeClaimedByKey eng g k t of
        Inl e \<Rightarrow> (Inl (DbError e), t)
      | Inr (Some existing) \<Rightarrow> (Inr existing, t)
      | Inr None \<Rightarrow>
          (case claim_candidates eng g t of
             Inl e \<Rightarrow> (Inl (DbError e), t)
           | Inr is \<Rightarrow> claim_loop eng now g k is t))"

definition ReleaseNode ::
  "managed_node engine \<Rightarrow> string \<Rightarrow> string \<Rightarrow> nodes \<Rightarrow> (bool, nodes) db_result" where
  "ReleaseNode eng i k t =
     (case db_updates eng (\<lambda>n. n_id n = i \<and> n_claim_key n = Some k)
             (\<lambda>n. n\<lparr>n_claim_key := None, n_claimed_at := None\<rparr>) t of
        (Inl e, t') \<Rightarrow> (Inl e, t')
      | (Inr affected, t') \<Rightarrow> (Inr (affected = 1), t'))"

definition SetResetPending :: "managed_node engine \<Rightarrow> instant \<Rightarrow> string \<Rightarrow> nodes \<Rightarrow> (nat, nodes) db_result" where
  "SetResetPending eng now i t =
     db_updates eng (\<lambda>n. n_id n = i)
       (\<lambda>n. n\<lparr>n_reset_state := ResetStatePending, n_reset_requested_at := Some now\<rparr>) t"

definition reset_columns :: "instant \<Rightarrow> string \<Rightarrow> bool \<Rightarrow> managed_node \<Rightarrow> managed_node" where
  "reset_columns now to stampLastReset n =
     (let n' = n\<lparr>n_reset_state := to\<rparr> in if stampLastReset then n'\<lparr>n_last_reset := Some now\<rparr> else n')"

definition AdvanceReset ::
  "managed_node engine \<Rightarrow> instant \<Rightarrow> string \<Rightarrow> string list \<Rightarrow> string \<Rightarrow> bool \<Rightarrow> nodes \<Rightarrow> (bool, nodes) db_result"
where
  "AdvanceReset eng now i fromStates to stampLastReset t =
     (case db_updates eng (\<lambda>n. n_id n = i \<and> n_reset_state n \<in> set fromStates)
             (reset_columns now to stampLastReset) t of
        (Inl e, t') \<Rightarrow> (Inl e, t')
      | (Inr affected, t') \<Rightarrow> (Inr (affected = 1), t'))"

section \<open>ClaimNode one statement at a time\<close>

datatype claim_pc =
    ClaimStart
  | ClaimSnapshot
  | ClaimTry "string list"
  | ClaimDuplicate
  | ClaimRead string
  | ClaimDone "store_error + managed_node"

definition lookup_pc :: "db_error + managed_node option \<Rightarrow> claim_pc \<Rightarrow> claim_pc" where
  "lookup_pc r pc =
     (case r of Inl e \<Rightarrow> ClaimDone (Inl (DbError e)) | Inr (Some n) \<Rightarrow> ClaimDone (Inr n) | Inr None \<Rightarrow> pc)"

fun claim_pc_step ::
  "managed_node engine \<Rightarrow> instant \<Rightarrow> string \<Rightarrow> string \<Rightarrow> claim_pc \<Rightarrow> nodes \<Rightarrow> claim_pc \<times> nodes" where
  "claim_pc_step eng now g k ClaimStart t = (lookup_pc (nodeClaimedByKey eng g k t) ClaimSnapshot, t)"
| "claim_pc_step eng now g k ClaimSnapshot t =
     (case claim_candidates eng g t of
        Inl e \<Rightarrow> ClaimDone (Inl (DbError e))
      | Inr is \<Rightarrow> ClaimTry is, t)"
| "claim_pc_step eng now g k (ClaimTry []) t =
     (lookup_pc (nodeClaimedByKey eng g k t) (ClaimDone (Inl ErrNoClaimCapacity)), t)"
| "claim_pc_step eng now g k (ClaimTry (i # is)) t =
     (case claim_row eng now k i t of
        (Inl e, t') \<Rightarrow> (if e = DuplicatedKey then ClaimDuplicate else ClaimDone (Inl (DbError e)), t')
      | (Inr affected, t') \<Rightarrow> (if affected = 1 then ClaimRead i else ClaimTry is, t'))"
| "claim_pc_step eng now g k ClaimDuplicate t =
     (lookup_pc (nodeClaimedByKey eng g k t) (ClaimDone (Inl (DbError DuplicatedKey))), t)"
| "claim_pc_step eng now g k (ClaimRead i) t = (ClaimDone (lift_db (NodeGetByID eng i t)), t)"
| "claim_pc_step eng now g k (ClaimDone r) t = (ClaimDone r, t)"

fun claim_pc_run ::
  "managed_node engine \<Rightarrow> instant \<Rightarrow> string \<Rightarrow> string \<Rightarrow> nat \<Rightarrow> claim_pc \<Rightarrow> nodes \<Rightarrow> claim_pc \<times> nodes" where
  "claim_pc_run eng now g k 0 pc t = (pc, t)"
| "claim_pc_run eng now g k (Suc m) pc t =
     (let (pc', t') = claim_pc_step eng now g k pc t in claim_pc_run eng now g k m pc' t')"

section \<open>Callers interleaved with the rest of the server\<close>

text \<open>
  The other operations on the node table. Most are one statement. A heartbeat and a relabelling are
  a read and a save of the whole row: \<open>OpHeartbeat\<close> and \<open>OpSetLabels\<close> have nothing between the two,
  and \<open>OpSave\<close> is the second statement alone, with the copy that was read before. A deletion of a node
  or of a group comes with the other table it works on.
\<close>

datatype node_op =
    OpRegister instant uuid "string option" managed_node
  | OpUpdatePhase string string
  | OpSetGroup string string
  | OpRelease string string
  | OpSetResetPending instant string
  | OpAdvanceReset instant string "string list" string bool
  | OpHeartbeat instant string string strmap "node_address list option" string
  | OpSetLabels string strmap
  | OpSave managed_node
  | OpNodeDelete "node_command engine" commands string
  | OpGroupDelete "node_group engine" groups string

fun node_step :: "managed_node engine \<Rightarrow> node_op \<Rightarrow> nodes \<Rightarrow> (db_error + bool) option \<times> nodes" where
  "node_step eng (OpRegister now u rnd node) t = (None, snd (Register eng now u rnd node t))"
| "node_step eng (OpUpdatePhase i phase) t = (None, snd (UpdatePhase eng i phase t))"
| "node_step eng (OpSetGroup i g) t = (None, snd (SetGroup eng i g t))"
| "node_step eng (OpRelease i k) t = (let (r, t') = ReleaseNode eng i k t in (Some r, t'))"
| "node_step eng (OpSetResetPending now i) t = (None, snd (SetResetPending eng now i t))"
| "node_step eng (OpAdvanceReset now i from to stamp) t =
     (let (r, t') = AdvanceReset eng now i from to stamp t in (Some r, t'))"
| "node_step eng (OpHeartbeat now i version os addrs boot) t = (None, snd (UpdateHeartbeat eng now i version os addrs boot t))"
| "node_step eng (OpSetLabels i labels) t = (None, snd (SetLabels eng i labels t))"
| "node_step eng (OpSave n) t = (None, snd (db_save eng n t))"
| "node_step eng (OpNodeDelete ceng cs i) t = (None, snd (snd (NodeDelete ceng eng i cs t)))"
| "node_step eng (OpGroupDelete geng gs i) t = (None, fst (snd (GroupDelete eng geng i t gs)))"

record claimer =
  cl_group :: string
  cl_key :: string
  cl_now :: instant
  cl_pc :: claim_pc

text \<open>The node a caller was handed, or is about to be.\<close>

fun owned_id :: "claim_pc \<Rightarrow> string option" where
  "owned_id (ClaimRead i) = Some i"
| "owned_id (ClaimDone (Inr n)) = Some (n_id n)"
| "owned_id _ = None"

text \<open>
  What other requests may do. A claim is released under a key none of the callers is claiming with;
  the id drawn for a new node is not that of a node a caller was handed; and a save writes a copy
  whose claim is the one the row has. A save of a copy that is older than a claim is what
  \<open>heartbeat_overwrites_claim\<close> is about.
\<close>

fun admits :: "claimer list \<Rightarrow> nodes \<Rightarrow> node_op \<Rightarrow> bool" where
  "admits cs t (OpRelease i k) = (k \<notin> cl_key ` set cs)"
| "admits cs t (OpRegister now u rnd node) = (\<forall>c \<in> set cs. owned_id (cl_pc c) \<noteq> Some u)"
| "admits cs t (OpSave m) = (\<exists>n \<in> set t. n_id n = n_id m \<and> n_claim_key n = n_claim_key m)"
| "admits cs t op = True"

text \<open>
  One step of the system: a caller of \<^verbatim>\<open>ClaimNode\<close> executes its next statement,
  or another request executes an operation \<open>env\<close> allows.
\<close>

inductive claim_system ::
  "managed_node engine \<Rightarrow> (node_op \<Rightarrow> bool) \<Rightarrow> claimer list \<times> nodes \<Rightarrow> claimer list \<times> nodes \<Rightarrow> bool"
  for eng env
where
  caller: "j < length cs \<Longrightarrow> c = cs ! j \<Longrightarrow>
     claim_pc_step eng (cl_now c) (cl_group c) (cl_key c) (cl_pc c) t = (pc', t') \<Longrightarrow>
     claim_system eng env (cs, t) (cs[j := c\<lparr>cl_pc := pc'\<rparr>], t')"
| other: "env op \<Longrightarrow> admits cs t op \<Longrightarrow>
     node_step eng op t = (out, t') \<Longrightarrow> claim_system eng env (cs, t) (cs, t')"

inductive claim_reach ::
  "managed_node engine \<Rightarrow> (node_op \<Rightarrow> bool) \<Rightarrow> claimer list \<times> nodes \<Rightarrow> claimer list \<times> nodes \<Rightarrow> bool"
  for eng env
where
  start: "claim_reach eng env s s"
| step: "claim_reach eng env s s1 \<Longrightarrow> claim_system eng env s1 s2 \<Longrightarrow> claim_reach eng env s s2"

inductive_cases claim_systemE: "claim_system eng env (cs, t) s'"

text \<open>A row carries the claim; and the row of a node, if there is one, carries it.\<close>

definition holds_claim :: "string \<Rightarrow> string \<Rightarrow> nodes \<Rightarrow> bool" where
  "holds_claim i k t = (\<exists>n \<in> set t. n_id n = i \<and> n_claim_key n = Some k)"

definition claim_stands :: "string \<Rightarrow> string \<Rightarrow> nodes \<Rightarrow> bool" where
  "claim_stands i k t = (\<forall>n \<in> set t. n_id n = i \<longrightarrow> n_claim_key n = Some k)"

definition claims_kept :: "claimer list \<times> nodes \<Rightarrow> bool" where
  "claims_kept s =
     (unique_rows node_clash (snd s) \<and>
      (\<forall>c \<in> set (fst s). \<forall>i. owned_id (cl_pc c) = Some i \<longrightarrow> claim_stands i (cl_key c) (snd s) \<and>
         (\<forall>d \<in> set (fst s). owned_id (cl_pc d) = Some i \<longrightarrow> cl_key d = cl_key c)))"

lemma unique_nodes: "unique_rows node_clash t \<Longrightarrow> distinct (map n_id t)"
  by (rule unique_pk [where clash = node_clash]) (simp_all add: node_clash_def)

lemma node_clash_sym: "node_clash x y = node_clash y x"
  by (auto simp: node_clash_def)

lemma same_id_same_node:
  "unique_rows node_clash t \<Longrightarrow> n \<in> set t \<Longrightarrow> m \<in> set t \<Longrightarrow> n_id n = n_id m \<Longrightarrow> n = m"
  by (metis unique_nodes distinct_map inj_onD)

lemma holds_stands: "unique_rows node_clash t \<Longrightarrow> holds_claim i k t \<Longrightarrow> claim_stands i k t"
  unfolding holds_claim_def claim_stands_def using same_id_same_node by metis

lemma stands_unique: "holds_claim i k t \<Longrightarrow> claim_stands i k' t \<Longrightarrow> k' = k"
  by (auto simp: holds_claim_def claim_stands_def)

lemma stands_update:
  assumes "claim_stands i k t"
    and "\<And>n. p n \<Longrightarrow> n_claim_key n = Some k \<Longrightarrow> n_claim_key (f n) = Some k"
    and "\<And>n. n_id (f n) = n_id n"
  shows "claim_stands i k (update_rows p f t)"
  using assms by (auto simp: claim_stands_def update_rows_def)

lemma stands_save:
  "claim_stands i k t \<Longrightarrow> n_id m = i \<longrightarrow> n_claim_key m = Some k \<Longrightarrow> claim_stands i k (save_row n_id m t)"
  by (auto simp: claim_stands_def save_row_def update_rows_def)

lemma claim_columns_simps [simp]:
  "n_id (claim_columns now k n) = n_id n"
  "n_group_id (claim_columns now k n) = n_group_id n"
  "n_machine_id (claim_columns now k n) = n_machine_id n"
  "n_claim_key (claim_columns now k n) = Some k"
  by (simp_all add: claim_columns_def)

lemma reset_columns_simps [simp]:
  "n_id (reset_columns now to stamp n) = n_id n"
  "n_group_id (reset_columns now to stamp n) = n_group_id n"
  "n_claim_key (reset_columns now to stamp n) = n_claim_key n"
  "n_machine_id (reset_columns now to stamp n) = n_machine_id n"
  "n_reset_state (reset_columns now to stamp n) = to"
  by (simp_all add: reset_columns_def Let_def)

locale node_engine = sql_engine eng n_id node_clash for eng :: "managed_node engine"
begin

lemma claimed_by_key_Some:
  "nodeClaimedByKey eng g k t = Inr (Some n) \<Longrightarrow> n \<in> set t \<and> n_group_id n = g \<and> n_claim_key n = Some k"
  by (auto simp: nodeClaimedByKey_def split: sum.splits db_error.splits dest: db_first_Inr)

lemma claimed_by_key_None:
  "nodeClaimedByKey eng g k t = Inr None \<Longrightarrow> n \<in> set t \<Longrightarrow> \<not> (n_group_id n = g \<and> n_claim_key n = Some k)"
  by (auto simp: nodeClaimedByKey_def split: sum.splits db_error.splits dest: db_first_none)

lemma updates_stand:
  assumes "db_updates eng p f t = (r, t')" and "claim_stands i k t"
    and "\<And>n. p n \<Longrightarrow> n_claim_key n = Some k \<Longrightarrow> n_claim_key (f n) = Some k"
    and "\<And>n. n_id (f n) = n_id n"
  shows "claim_stands i k t'"
  using assms stands_update [of i k t p f]
  by (cases r) (auto dest: db_updates_Inl db_updates_Inr)

lemma save_stands:
  assumes "db_save eng m t = (r, t')" and "claim_stands i k t" and "n_id m = i \<longrightarrow> n_claim_key m = Some k"
  shows "claim_stands i k t'"
  using assms stands_save by (cases r) (auto dest: db_save_Inl db_save_Inr)

lemma read_stands: "db_first eng (\<lambda>n. n_id n = j) t = Inr n \<Longrightarrow> claim_stands i k t \<Longrightarrow> n_id n = i \<longrightarrow> n_claim_key n = Some k"
  by (auto simp: claim_stands_def dest: db_first_Inr)

lemma claim_row_stands:
  "claim_row eng now k i t = (r, t') \<Longrightarrow> claim_stands j l t \<Longrightarrow> claim_stands j l t'"
  unfolding claim_row_def by (erule updates_stand) auto

lemma claim_row_wins:
  assumes "claim_row eng now k i t = (Inr 1, t')"
  shows "holds_claim i k t'"
proof -
  let ?p = "\<lambda>n. n_id n = i \<and> n_claim_key n = None"
  have t': "t' = update_rows ?p (claim_columns now k) t" and "length (filter ?p t) = 1"
    using db_updates_Inr assms by (auto simp: claim_row_def)
  then obtain n where "n \<in> set t" "?p n" by (metis (lifting) filter_empty_conv length_0_conv zero_neq_one)
  then have "claim_columns now k n \<in> set t'" by (auto simp: t' set_update_rows)
  then show ?thesis unfolding holds_claim_def using \<open>?p n\<close> by (intro bexI) auto
qed

lemma step_stands:
  "claim_pc_step eng now g k pc t = (pc', t') \<Longrightarrow> claim_stands j l t \<Longrightarrow> claim_stands j l t'"
  by (cases "(eng, now, g, k, pc, t)" rule: claim_pc_step.cases)
    (auto split: prod.splits sum.splits if_splits dest: claim_row_stands)

lemma step_unique:
  "claim_pc_step eng now g k pc t = (pc', t') \<Longrightarrow> unique_rows node_clash t \<Longrightarrow> unique_rows node_clash t'"
  by (cases "(eng, now, g, k, pc, t)" rule: claim_pc_step.cases)
    (auto simp: claim_row_def split: prod.splits sum.splits if_splits dest: db_updates_unique)

lemma lookup_owned:
  "owned_id (lookup_pc (nodeClaimedByKey eng g k t) pc) = Some i \<Longrightarrow> owned_id pc = None \<Longrightarrow> holds_claim i k t"
  by (auto simp: lookup_pc_def holds_claim_def split: sum.splits option.splits dest: claimed_by_key_Some)

lemma read_owned: "owned_id (ClaimDone (lift_db (NodeGetByID eng i t))) = Some j \<Longrightarrow> j = i"
  by (cases "NodeGetByID eng i t") (auto simp: NodeGetByID_def dest: db_first_Inr)

text \<open>A caller that comes to own a node has written its key into the row, or has found it there.\<close>

lemma step_owned:
  assumes "claim_pc_step eng now g k pc t = (pc', t')" and "owned_id pc' = Some i"
  shows "owned_id pc = Some i \<or> holds_claim i k t'"
  using assms
  by (cases "(eng, now, g, k, pc, t)" rule: claim_pc_step.cases)
    (auto split: prod.splits sum.splits if_splits dest: lookup_owned claim_row_wins [unfolded One_nat_def] read_owned)

lemma node_step_unique:
  assumes "node_step eng op t = (out, t')" and "unique_rows node_clash t"
  shows "unique_rows node_clash t'"
proof (cases op)
  case (OpHeartbeat now i version os addrs boot)
  then show ?thesis using assms by (auto simp: UpdateHeartbeat_def split: sum.splits dest: db_save_unique [OF prod.collapse [symmetric]])
next
  case (OpSetLabels i labels)
  then show ?thesis using assms by (auto simp: SetLabels_def split: sum.splits dest: db_save_unique [OF prod.collapse [symmetric]])
next
  case (OpSave n)
  then show ?thesis using assms by (auto dest: db_save_unique [OF prod.collapse [symmetric]])
next
  case (OpNodeDelete ceng cs i)
  then show ?thesis using assms by (auto simp: NodeDelete_def split: sum.splits prod.splits dest: db_delete_unique)
next
  case (OpGroupDelete geng gs i)
  then show ?thesis using assms by (auto simp: GroupDelete_def split: sum.splits prod.splits dest: db_updates_unique)
qed (use assms in \<open>auto simp: Register_def UpdatePhase_def SetGroup_def ReleaseNode_def SetResetPending_def
      AdvanceReset_def Let_def split: prod.splits sum.splits option.splits
      dest: db_create_unique db_updates_unique [OF prod.collapse [symmetric]] db_updates_unique\<close>)

end

context node_engine
begin

lemma node_step_stands:
  assumes "node_step eng op t = (out, t')" and "claim_stands i k t"
    and "admits cs t op" and "c \<in> set cs" and "owned_id (cl_pc c) = Some i" and "cl_key c = k"
  shows "claim_stands i k t'"
proof -
  have up: "claim_stands i k (snd (db_updates eng p f t))"
    if "\<And>n. p n \<Longrightarrow> n_claim_key n = Some k \<Longrightarrow> n_claim_key (f n) = Some k" "\<And>n. n_id (f n) = n_id n" for p f
    by (rule updates_stand [OF prod.collapse [symmetric] assms(2) that])
  have save: "claim_stands i k (snd (db_save eng m t))" if "n_id m = i \<longrightarrow> n_claim_key m = Some k" for m
    by (rule save_stands [OF prod.collapse [symmetric] assms(2) that])
  show ?thesis
  proof (cases op)
    case (OpRegister now u rnd node)
    then show ?thesis
      using assms by (auto simp: Register_def Let_def claim_stands_def split: option.splits prod.splits sum.splits
          dest!: db_create_Inl db_create_Inr)
  next
    case (OpUpdatePhase j phase)
    then show ?thesis using assms(1) up by (auto simp: UpdatePhase_def)
  next
    case (OpSetGroup j g)
    then show ?thesis using assms(1) up by (auto simp: SetGroup_def)
  next
    case (OpRelease j l)
    have "l \<noteq> k" using assms(3,4,6) OpRelease by auto
    then have "claim_stands i k (snd (db_updates eng (\<lambda>n. n_id n = j \<and> n_claim_key n = Some l)
        (\<lambda>n. n\<lparr>n_claim_key := None, n_claimed_at := None\<rparr>) t))"
      by (intro up) auto
    then show ?thesis using assms(1) OpRelease by (auto simp: ReleaseNode_def split: prod.splits sum.splits)
  next
    case (OpSetResetPending now j)
    then show ?thesis using assms(1) up by (auto simp: SetResetPending_def)
  next
    case (OpAdvanceReset now j frm to stamp)
    have "claim_stands i k (snd (db_updates eng (\<lambda>n. n_id n = j \<and> n_reset_state n \<in> set frm) (reset_columns now to stamp) t))"
      by (intro up) auto
    then show ?thesis using assms(1) OpAdvanceReset by (auto simp: AdvanceReset_def split: prod.splits sum.splits)
  next
    case (OpHeartbeat now j version os addrs boot)
    have same: "n_id (heartbeat_row now version os addrs boot n) = n_id n"
      "n_claim_key (heartbeat_row now version os addrs boot n) = n_claim_key n" for n
      by (simp_all add: heartbeat_row_def Let_def)
    show ?thesis
      using assms(1,2) OpHeartbeat save read_stands [of j t _ i k]
      by (auto simp: UpdateHeartbeat_def same split: sum.splits)
  next
    case (OpSetLabels j labels)
    then show ?thesis
      using assms(1,2) save read_stands [of j t _ i k] by (auto simp: SetLabels_def split: sum.splits)
  next
    case (OpSave m)
    obtain n where n: "n \<in> set t" "n_id n = n_id m" "n_claim_key n = n_claim_key m" using assms(3) OpSave by auto
    have "n_id m = i \<longrightarrow> n_claim_key m = Some k" using assms(2) n unfolding claim_stands_def by metis
    then show ?thesis using assms(1) OpSave save by auto
  next
    case (OpNodeDelete ceng cs j)
    then show ?thesis
      using assms(1,2)
      by (auto simp: NodeDelete_def claim_stands_def split: sum.splits prod.splits dest!: db_delete_Inl db_delete_Inr)
  next
    case (OpGroupDelete geng gs j)
    have "claim_stands i k (snd (db_updates eng (\<lambda>n. n_group_id n = j) (\<lambda>n. n\<lparr>n_group_id := []\<rparr>) t))" by (intro up) auto
    then show ?thesis using assms(1,2) OpGroupDelete by (auto simp: GroupDelete_def split: sum.splits prod.splits)
  qed
qed

lemma claims_keptD:
  assumes "claims_kept (cs, t)"
  shows "unique_rows node_clash t"
    and "c \<in> set cs \<Longrightarrow> owned_id (cl_pc c) = Some i \<Longrightarrow> claim_stands i (cl_key c) t"
    and "c \<in> set cs \<Longrightarrow> d \<in> set cs \<Longrightarrow> owned_id (cl_pc c) = Some i \<Longrightarrow> owned_id (cl_pc d) = Some i \<Longrightarrow> cl_key d = cl_key c"
  using assms unfolding claims_kept_def fst_conv snd_conv by blast+

lemma claims_keptI:
  assumes "unique_rows node_clash t" and "\<And>c i. c \<in> set cs \<Longrightarrow> owned_id (cl_pc c) = Some i \<Longrightarrow> claim_stands i (cl_key c) t"
    and "\<And>c d i. c \<in> set cs \<Longrightarrow> d \<in> set cs \<Longrightarrow> owned_id (cl_pc c) = Some i \<Longrightarrow> owned_id (cl_pc d) = Some i \<Longrightarrow> cl_key d = cl_key c"
  shows "claims_kept (cs, t)"
  using assms unfolding claims_kept_def fst_conv snd_conv by blast

lemma claims_kept_step:
  assumes "claim_system eng env s s'" and "claims_kept s"
  shows "claims_kept s'"
  using assms
proof (cases rule: claim_system.cases)
  case (caller j cs c t pc' t')
  let ?c = "c\<lparr>cl_pc := pc'\<rparr>"
  have c: "c \<in> set cs" using caller(3,4) by simp
  note kept = claims_keptD [OF assms(2) [unfolded caller(1)]]
  have u: "unique_rows node_clash t'" by (rule step_unique [OF caller(5) kept(1)])
  have old: "claim_stands i (cl_key d) t'" if "d \<in> set cs" "owned_id (cl_pc d) = Some i" for d i
    by (rule step_stands [OF caller(5) kept(2) [OF that]])
  have own: "claim_stands i (cl_key c) t' \<and> (\<forall>d \<in> set cs. owned_id (cl_pc d) = Some i \<longrightarrow> cl_key d = cl_key c)"
    if "owned_id pc' = Some i" for i
  proof (cases "owned_id (cl_pc c) = Some i")
    case True
    then show ?thesis using old [OF c] kept(3) [OF c] by blast
  next
    case False
    then have h: "holds_claim i (cl_key c) t'" using step_owned [OF caller(5) that] by blast
    then show ?thesis using holds_stands [OF u h] stands_unique [OF h old] by blast
  qed
  have new: "d = ?c \<or> d \<in> set cs" if "d \<in> set (cs[j := ?c])" for d
    using that set_update_subset_insert by fastforce
  have pc: "cl_pc ?c = pc'" "cl_key ?c = cl_key c" by simp_all
  show ?thesis
    unfolding caller(2)
  proof (rule claims_keptI [OF u])
    fix d i
    assume "d \<in> set (cs[j := ?c])" "owned_id (cl_pc d) = Some i"
    then show "claim_stands i (cl_key d) t'" using new own old pc by metis
  next
    fix d d' i
    assume "d \<in> set (cs[j := ?c])" "d' \<in> set (cs[j := ?c])" "owned_id (cl_pc d) = Some i" "owned_id (cl_pc d') = Some i"
    then show "cl_key d' = cl_key d" using new own kept(3) pc by metis
  qed
next
  case (other op cs t out t')
  note kept = claims_keptD [OF assms(2) [unfolded other(1)]]
  show ?thesis
    unfolding other(2)
    by (rule claims_keptI [OF node_step_unique [OF other(5) kept(1)]])
      (rule node_step_stands [OF other(5) kept(2) other(4)], assumption+, rule refl, rule kept(3))
qed

lemma claims_kept_reach:
  "claim_reach eng env s s' \<Longrightarrow> claims_kept s \<Longrightarrow> claims_kept s'"
  by (induction rule: claim_reach.induct) (auto intro: claims_kept_step)

lemma claims_exclusive:
  assumes "claim_reach eng env (cs0, t0) (cs, t)" and "unique_rows node_clash t0"
    and "\<forall>c \<in> set cs0. cl_pc c = ClaimStart"
    and "a \<in> set cs" and "b \<in> set cs"
    and "cl_pc a = ClaimDone (Inr n)" and "cl_pc b = ClaimDone (Inr m)" and "n_id n = n_id m"
  shows "cl_key a = cl_key b \<and> claim_stands (n_id n) (cl_key a) t"
proof -
  have "claims_kept (cs0, t0)" using assms(2,3) by (simp add: claims_kept_def)
  then have k: "claims_kept (cs, t)" using claims_kept_reach [OF assms(1)] by blast
  have "owned_id (cl_pc a) = Some (n_id n)" "owned_id (cl_pc b) = Some (n_id n)" using assms(6-8) by simp_all
  then show ?thesis using claims_keptD [OF k] assms(4,5) by metis
qed

end

interpretation mem_nodes: node_engine "mem_engine n_id node_clash"
  by unfold_locales

section \<open>The reset state is advanced by compare-and-set\<close>

definition reset_armed :: "string \<Rightarrow> string list \<Rightarrow> nodes \<Rightarrow> bool" where
  "reset_armed i S t = (\<exists>n \<in> set t. n_id n = i \<and> n_reset_state n \<in> set S)"

fun reset_wins :: "string \<Rightarrow> string list \<Rightarrow> node_op \<Rightarrow> (db_error + bool) option \<Rightarrow> bool" where
  "reset_wins i S (OpAdvanceReset now j from to stamp) out =
     (j = i \<and> from = S \<and> to \<notin> set S \<and> out = Some (Inr True))"
| "reset_wins i S _ out = False"

fun reset_rearms :: "string \<Rightarrow> string list \<Rightarrow> node_op \<Rightarrow> bool" where
  "reset_rearms i S (OpRegister now u rnd node) = (u = i)"
| "reset_rearms i S (OpSetResetPending now j) = (j = i \<and> ResetStatePending \<in> set S)"
| "reset_rearms i S (OpAdvanceReset now j from to stamp) = (j = i \<and> to \<in> set S)"
| "reset_rearms i S (OpSave n) = (n_id n = i \<and> n_reset_state n \<in> set S)"
| "reset_rearms i S _ = False"

lemma reset_armed_update:
  assumes "reset_armed i S (update_rows p f t)"
    and "\<And>n. p n \<Longrightarrow> n_id (f n) = i \<Longrightarrow> n_reset_state (f n) \<in> set S \<Longrightarrow> n_id n = i \<and> n_reset_state n \<in> set S"
  shows "reset_armed i S t"
  using assms by (auto simp: reset_armed_def set_update_rows)

context node_engine
begin

lemma updates_armed:
  assumes "reset_armed i S (snd (db_updates eng p f t))"
    and "\<And>n. p n \<Longrightarrow> n_id (f n) = i \<Longrightarrow> n_reset_state (f n) \<in> set S \<Longrightarrow> n_id n = i \<and> n_reset_state n \<in> set S"
  shows "reset_armed i S t"
  using assms reset_armed_update [of i S p f t]
  by (cases "db_updates eng p f t"; cases "fst (db_updates eng p f t)")
    (auto dest!: db_updates_Inl db_updates_Inr)

lemma save_armed:
  assumes "reset_armed i S (snd (db_save eng m t))"
  shows "reset_armed i S t \<or> (n_id m = i \<and> n_reset_state m \<in> set S)"
  using assms
  by (cases "db_save eng m t"; cases "fst (db_save eng m t)")
    (auto simp: reset_armed_def save_row_def update_rows_def split: if_splits dest!: db_save_Inl db_save_Inr)

lemma advance_snd:
  "snd (AdvanceReset eng now i S to stamp t) =
     snd (db_updates eng (\<lambda>n. n_id n = i \<and> n_reset_state n \<in> set S) (reset_columns now to stamp) t)"
  by (auto simp: AdvanceReset_def split: prod.splits sum.splits)

lemma release_snd:
  "snd (ReleaseNode eng i k t) =
     snd (db_updates eng (\<lambda>n. n_id n = i \<and> n_claim_key n = Some k)
            (\<lambda>n. n\<lparr>n_claim_key := None, n_claimed_at := None\<rparr>) t)"
  by (auto simp: ReleaseNode_def split: prod.splits sum.splits)

lemma advance_true:
  assumes "AdvanceReset eng now i S to stamp t = (Inr True, t')" and "to \<notin> set S"
  shows "reset_armed i S t \<and> \<not> reset_armed i S t'"
proof -
  let ?p = "\<lambda>n. n_id n = i \<and> n_reset_state n \<in> set S"
  have t': "t' = update_rows ?p (reset_columns now to stamp) t" and one: "length (filter ?p t) = 1"
    using assms(1) db_updates_Inr
    by (auto simp: AdvanceReset_def split: prod.splits sum.splits)
  have "filter ?p t \<noteq> []" using one by (metis length_0_conv zero_neq_one)
  then show ?thesis
    using assms(2) by (auto simp: t' reset_armed_def filter_empty_conv set_update_rows)
qed

lemma reset_rearm_only:
  assumes "node_step eng op t = (out, t')" and "\<not> reset_rearms i S op" and "reset_armed i S t'"
  shows "reset_armed i S t"
proof (cases op)
  case (OpRegister now u rnd node)
  then show ?thesis
    using assms
    by (auto simp: Register_def Let_def reset_armed_def split: option.splits prod.splits sum.splits
        dest!: db_create_Inl db_create_Inr)
next
  case (OpUpdatePhase j phase)
  then show ?thesis using assms by (auto simp: UpdatePhase_def intro: updates_armed)
next
  case (OpSetGroup j g)
  then show ?thesis using assms by (auto simp: SetGroup_def intro: updates_armed)
next
  case (OpRelease j l)
  then have "reset_armed i S (snd (ReleaseNode eng j l t))" using assms by (auto split: prod.splits)
  then show ?thesis unfolding release_snd by (rule updates_armed) auto
next
  case (OpSetResetPending now j)
  then show ?thesis using assms by (auto simp: SetResetPending_def intro: updates_armed)
next
  case (OpAdvanceReset now j frm to stamp)
  then have "reset_armed i S (snd (AdvanceReset eng now j frm to stamp t))"
    using assms by (auto split: prod.splits)
  then show ?thesis unfolding advance_snd by (rule updates_armed) (use assms OpAdvanceReset in auto)
next
  case (OpHeartbeat now j version os addrs boot)
  have same: "n_id (heartbeat_row now version os addrs boot n) = n_id n"
    "n_reset_state (heartbeat_row now version os addrs boot n) = n_reset_state n" for n
    by (simp_all add: heartbeat_row_def Let_def)
  show ?thesis
    using assms OpHeartbeat save_armed db_first_Inr by (fastforce simp: UpdateHeartbeat_def same reset_armed_def split: sum.splits)
next
  case (OpSetLabels j labels)
  then show ?thesis
    using assms save_armed db_first_Inr by (fastforce simp: SetLabels_def reset_armed_def split: sum.splits)
next
  case (OpSave n)
  then show ?thesis using assms save_armed by auto
next
  case (OpNodeDelete ceng cs j)
  then show ?thesis
    using assms
    by (auto simp: NodeDelete_def reset_armed_def split: sum.splits prod.splits dest!: db_delete_Inl db_delete_Inr)
next
  case (OpGroupDelete geng gs j)
  have "reset_armed i S t" if "reset_armed i S (snd (db_updates eng (\<lambda>n. n_group_id n = j) (\<lambda>n. n\<lparr>n_group_id := []\<rparr>) t))"
    by (rule updates_armed [OF that]) auto
  then show ?thesis using assms OpGroupDelete by (auto simp: GroupDelete_def split: sum.splits prod.splits)
qed

end

sublocale node_engine \<subseteq> resets: compare_and_set "node_step eng" "reset_armed i S" "reset_wins i S" "reset_rearms i S"
  for i S
proof
  fix op s out s'
  assume "node_step eng op s = (out, s')" and "reset_wins i S op out"
  then show "reset_armed i S s \<and> \<not> reset_armed i S s'"
    by (cases op) (auto dest: advance_true split: prod.splits)
next
  fix op s out s'
  assume "node_step eng op s = (out, s')" and "\<not> reset_rearms i S op" and "\<not> reset_armed i S s"
  then show "\<not> reset_armed i S s'" using reset_rearm_only by blast
qed

context node_engine
begin

lemma reset_once:
  "\<forall>op \<in> set ops. \<not> reset_rearms i S op \<Longrightarrow> run_ops (node_step eng) ops t = (log, t') \<Longrightarrow>
     winners (reset_wins i S) log \<le> 1"
  by (rule resets.at_most_one_winner)

end

section \<open>What a claim returns\<close>

lemma node_engine_of: "sql_engine eng n_id node_clash \<Longrightarrow> node_engine eng"
  by (simp add: node_engine_def)

lemma unique_claim:
  assumes "unique_rows node_clash t" and "n \<in> set t"
    and "\<And>m. m \<in> set t \<Longrightarrow> \<not> (n_group_id m = n_group_id n \<and> n_claim_key m = Some k)"
  shows "unique_rows node_clash (update_rows (\<lambda>m. n_id m = n_id n \<and> n_claim_key m = None) (claim_columns now k) t)"
proof (rule unique_rows_update_mono [OF assms(1)])
  let ?f = "\<lambda>m. if n_id m = n_id n \<and> n_claim_key m = None then claim_columns now k m else m"
  fix x y assume x: "x \<in> set t" and y: "y \<in> set t" and c: "node_clash (?f x) (?f y)"
  have "x = n" if "n_id x = n_id n" using same_id_same_node [OF assms(1) x assms(2)] that by simp
  moreover have "y = n" if "n_id y = n_id n" using same_id_same_node [OF assms(1) y assms(2)] that by simp
  ultimately show "node_clash x y"
    using c assms(3) [OF x] assms(3) [OF y] by (auto simp: node_clash_def split: if_splits)
qed

lemma claim_row_total:
  assumes "reliable_engine eng n_id node_clash" and "unique_rows node_clash t"
    and "n \<in> set t" and "n_claim_key n = None"
    and "\<And>m. m \<in> set t \<Longrightarrow> \<not> (n_group_id m = n_group_id n \<and> n_claim_key m = Some k)"
  shows "claim_row eng now k (n_id n) t =
    (Inr 1, update_rows (\<lambda>m. n_id m = n_id n) (claim_columns now k) t)"
proof -
  let ?p = "\<lambda>m. n_id m = n_id n \<and> n_claim_key m = None"
  have eq: "update_rows ?p (claim_columns now k) t = update_rows (\<lambda>m. n_id m = n_id n) (claim_columns now k) t"
    unfolding update_rows_def using assms(4) by (auto dest!: same_id_same_node [OF assms(2) _ assms(3)])
  have "length (filter ?p t) = 1"
    using distinct_filter_one [OF unique_nodes [OF assms(2)]] assms(3,4) by auto
  moreover have "db_updates eng ?p (claim_columns now k) t =
      (Inr (length (filter ?p t)), update_rows ?p (claim_columns now k) t)"
    by (rule reliable_engine.db_updates_total [OF assms(1) unique_claim [OF assms(2,3,5)]])
  ultimately show ?thesis by (simp add: claim_row_def eq)
qed

lemma get_claimed:
  assumes "reliable_engine eng n_id node_clash" and "unique_rows node_clash t" and "n \<in> set t"
  shows "NodeGetByID eng (n_id n) (update_rows (\<lambda>m. n_id m = n_id n) (claim_columns now k) t) =
    Inr (claim_columns now k n)"
proof -
  let ?t' = "update_rows (\<lambda>m. n_id m = n_id n) (claim_columns now k) t"
  have "claim_columns now k n \<in> set ?t'" using assms(3) by (auto simp: set_update_rows)
  then obtain m where m: "db_first eng (\<lambda>m. n_id m = n_id n) ?t' = Inr m" "m \<in> set ?t'" "n_id m = n_id n"
    using reliable_engine.db_first_total [OF assms(1), of "claim_columns now k n" ?t' "\<lambda>m. n_id m = n_id n"]
    by auto
  then have "m = claim_columns now k n"
    using same_id_same_node [OF assms(2) _ assms(3)] by (auto simp: set_update_rows)
  then show ?thesis using m(1) by (simp add: NodeGetByID_def)
qed

lemma claimed_by_key_cases:
  assumes "reliable_engine eng n_id node_clash"
  obtains n where "nodeClaimedByKey eng g k t = Inr (Some n)" "n \<in> set t" "n_group_id n = g" "n_claim_key n = Some k"
  | "nodeClaimedByKey eng g k t = Inr None" "\<And>n. n \<in> set t \<Longrightarrow> \<not> (n_group_id n = g \<and> n_claim_key n = Some k)"
proof (cases "\<exists>n \<in> set t. n_group_id n = g \<and> n_claim_key n = Some k")
  case True
  then show ?thesis
    using reliable_engine.db_first_total [OF assms, of _ t "\<lambda>n. n_group_id n = g \<and> n_claim_key n = Some k"] that(1)
    by (fastforce simp: nodeClaimedByKey_def)
next
  case False
  then show ?thesis
    using reliable_engine.db_first_missing [OF assms, of t "\<lambda>n. n_group_id n = g \<and> n_claim_key n = Some k"] that(2)
    by (simp add: nodeClaimedByKey_def)
qed

lemma find_asc_first:
  assumes "sql_engine eng pk clash" and "db_find_asc eng p key t = Inr (x # xs)"
  shows "x \<in> set t \<and> p x \<and> (\<forall>y \<in> set t. p y \<longrightarrow> key x \<le> key y)"
proof -
  have "set (x # xs) = {y \<in> set t. p y}"
    using sql_engine.db_find_asc_set [OF assms] .
  moreover have "sorted (map key (x # xs))"
    using assms(2) sql_engine.find_asc_rows [OF assms(1), of p key t]
    by (auto simp: db_find_asc_def split: sum.splits)
  ultimately show ?thesis by (metis (no_types, lifting) list.set_intros(1) list.simps(9) mem_Collect_eq
        set_ConsD sorted_simps(2) image_eqI list.set_map order_refl)
qed

text \<open>The three outcomes of a claim over an engine that does not fail.\<close>

lemma claim_node_cases:
  assumes rel: "reliable_engine eng n_id node_clash" and uniq: "unique_rows node_clash t"
  obtains n where "n \<in> set t" "n_group_id n = g" "n_claim_key n = Some k" "ClaimNode eng now g k t = (Inr n, t)"
  | n where "\<And>m. m \<in> set t \<Longrightarrow> \<not> (n_group_id m = g \<and> n_claim_key m = Some k)"
      "n \<in> set t" "n_group_id n = g" "n_claim_key n = None"
      "\<And>m. m \<in> set t \<Longrightarrow> n_group_id m = g \<Longrightarrow> n_claim_key m = None \<Longrightarrow> n_created_at n \<le> n_created_at m"
      "ClaimNode eng now g k t =
         (Inr (claim_columns now k n), update_rows (\<lambda>m. n_id m = n_id n) (claim_columns now k) t)"
  | "\<And>m. m \<in> set t \<Longrightarrow> n_group_id m = g \<Longrightarrow> n_claim_key m \<noteq> None \<and> n_claim_key m \<noteq> Some k"
      "ClaimNode eng now g k t = (Inl ErrNoClaimCapacity, t)"
proof (cases rule: claimed_by_key_cases [OF rel, where g = g and k = k and t = t])
  case (1 n)
  then show ?thesis using that(1) by (simp add: ClaimNode_def)
next
  case 2
  let ?p = "\<lambda>n. n_group_id n = g \<and> n_claim_key n = None"
  obtain xs where xs: "db_find_asc eng ?p n_created_at t = Inr xs" "set xs = {n \<in> set t. ?p n}"
    using reliable_engine.db_find_asc_total [OF rel] by blast
  show ?thesis
  proof (cases xs)
    case Nil
    then have "ClaimNode eng now g k t = (Inl ErrNoClaimCapacity, t)"
      using xs 2 by (simp add: ClaimNode_def claim_candidates_def)
    moreover have "n_claim_key m \<noteq> None \<and> n_claim_key m \<noteq> Some k" if "m \<in> set t" "n_group_id m = g" for m
      using that xs(2) Nil 2 by auto
    ultimately show ?thesis using that(3) by blast
  next
    case (Cons n ns)
    have n: "n \<in> set t" "n_group_id n = g" "n_claim_key n = None"
      and oldest: "\<forall>m \<in> set t. ?p m \<longrightarrow> n_created_at n \<le> n_created_at m"
      using find_asc_first [OF reliable_engine.axioms(1) [OF rel]] xs(1) Cons by blast+
    have "claim_row eng now k (n_id n) t =
        (Inr 1, update_rows (\<lambda>m. n_id m = n_id n) (claim_columns now k) t)"
      using claim_row_total [OF rel uniq n(1,3)] 2(2) n(2) by blast
    then have "ClaimNode eng now g k t =
        (Inr (claim_columns now k n), update_rows (\<lambda>m. n_id m = n_id n) (claim_columns now k) t)"
      using xs(1) Cons 2 get_claimed [OF rel uniq n(1)] by (simp add: ClaimNode_def claim_candidates_def)
    then show ?thesis using that(2) 2(2) n oldest by blast
  qed
qed

lemma claim_loop_statements:
  "\<exists>m. claim_pc_run eng now g k m (ClaimTry ids) t =
     (ClaimDone (fst (claim_loop eng now g k ids t)), snd (claim_loop eng now g k ids t))"
proof (induction ids arbitrary: t)
  case Nil
  have "claim_pc_run eng now g k 1 (ClaimTry []) t =
    (ClaimDone (fst (claim_loop eng now g k [] t)), snd (claim_loop eng now g k [] t))"
    by (auto simp: lookup_pc_def split: sum.splits option.splits)
  then show ?case by blast
next
  case (Cons i ids)
  obtain r t' where row: "claim_row eng now k i t = (r, t')" by fastforce
  show ?case
  proof (cases "\<exists>a. r = Inr a \<and> a \<noteq> 1")
    case True
    then show ?thesis using Cons.IH [of t'] row by (auto intro: exI [of _ "Suc m" for m])
  next
    case False
    then have "claim_pc_run eng now g k 2 (ClaimTry (i # ids)) t =
      (ClaimDone (fst (claim_loop eng now g k (i # ids) t)), snd (claim_loop eng now g k (i # ids) t))"
      using row by (auto simp: lookup_pc_def numeral_2_eq_2 split: sum.splits option.splits)
    then show ?thesis by blast
  qed
qed

section \<open>A schedule of callers\<close>




definition sample_node :: "string \<Rightarrow> managed_node" where
  "sample_node i =
     \<lparr>n_id = i, n_machine_id = i, n_hostname = [], n_group_id = ''g'', n_phase = PhaseOnline,
      n_last_heartbeat = None, n_agent_version = [], n_os_release = [], n_labels = [],
      n_addresses = None, n_boot_state = [], n_claim_key = None, n_claimed_at = None,
      n_reset_state = [], n_reset_requested_at = None, n_last_reset = None, n_api_key = [],
      n_created_at = 0\<rparr>"

definition sample_claimer :: "string \<Rightarrow> claimer" where
  "sample_claimer k = \<lparr>cl_group = ''g'', cl_key = k, cl_now = 7, cl_pc = ClaimStart\<rparr>"

abbreviation mem_node_engine :: "managed_node engine" where
  "mem_node_engine \<equiv> mem_engine n_id node_clash"

lemmas node_eval =
  sample_node_def sample_claimer_def lookup_pc_def nodeClaimedByKey_def claim_candidates_def
  claim_row_def NodeGetByID_def db_first_def db_find_asc_def db_updates_def db_save_def save_row_def
  unique_rows_def node_clash_def claim_columns_def heartbeat_row_def

section \<open>Properties\<close>



text \<open>
  Run alone, the statement-by-statement caller computes exactly what ClaimNode computes:
  the same result and the same table.
\<close>
theorem claim_statements_refine_ClaimNode:
  "\<exists>m. claim_pc_run eng now g k m ClaimStart t =
     (ClaimDone (fst (ClaimNode eng now g k t)), snd (ClaimNode eng now g k t))"
proof -
  consider e where "nodeClaimedByKey eng g k t = Inl e" | n where "nodeClaimedByKey eng g k t = Inr (Some n)"
    | e where "nodeClaimedByKey eng g k t = Inr None" "claim_candidates eng g t = Inl e"
    | ids where "nodeClaimedByKey eng g k t = Inr None" "claim_candidates eng g t = Inr ids"
    by (metis (full_types) not_None_eq sum.exhaust)
  then show ?thesis
  proof cases
    case 1
    then show ?thesis by (intro exI [of _ 1]) (simp add: lookup_pc_def ClaimNode_def)
  next
    case 2
    then show ?thesis by (intro exI [of _ 1]) (simp add: lookup_pc_def ClaimNode_def)
  next
    case 3
    then show ?thesis by (intro exI [of _ 2]) (simp add: lookup_pc_def ClaimNode_def numeral_2_eq_2)
  next
    case (4 ids)
    obtain m where "claim_pc_run eng now g k m (ClaimTry ids) t =
      (ClaimDone (fst (claim_loop eng now g k ids t)), snd (claim_loop eng now g k ids t))"
      using claim_loop_statements by blast
    then show ?thesis
      using 4 by (intro exI [of _ "Suc (Suc m)"]) (simp add: lookup_pc_def ClaimNode_def)
  qed
qed

text \<open>
  Over an engine that does not fail, a claim has three outcomes: the node the key already
  owns in the group, with nothing written; otherwise the oldest unclaimed node of the group,
  whose row alone is written; and, only when the group has neither, ErrNoClaimCapacity.
\<close>
theorem claim_node_outcomes:
  assumes "reliable_engine eng n_id node_clash" and "unique_rows node_clash t"
  shows
   "(\<exists>n \<in> set t. n_group_id n = g \<and> n_claim_key n = Some k \<and> ClaimNode eng now g k t = (Inr n, t)) \<or>
    (\<exists>n \<in> set t. n_group_id n = g \<and> n_claim_key n = None \<and>
       (\<forall>m \<in> set t. n_group_id m = g \<longrightarrow> n_claim_key m \<noteq> Some k \<and>
          (n_claim_key m = None \<longrightarrow> n_created_at n \<le> n_created_at m)) \<and>
       ClaimNode eng now g k t =
         (let mine = n\<lparr>n_claim_key := Some k, n_claimed_at := Some now\<rparr>
          in (Inr mine, map (\<lambda>m. if n_id m = n_id n then mine else m) t))) \<or>
    (\<forall>m \<in> set t. n_group_id m = g \<longrightarrow> n_claim_key m \<noteq> None \<and> n_claim_key m \<noteq> Some k) \<and>
      ClaimNode eng now g k t = (Inl ErrNoClaimCapacity, t)"
proof (cases rule: claim_node_cases [OF assms, where g = g and k = k and now = now])
  case (2 n)
  have "update_rows (\<lambda>m. n_id m = n_id n) (claim_columns now k) t =
      map (\<lambda>m. if n_id m = n_id n then claim_columns now k n else m) t"
    unfolding update_rows_def using same_id_same_node [OF assms(2) _ 2(2)] by auto
  then have "ClaimNode eng now g k t =
      (Inr (claim_columns now k n), map (\<lambda>m. if n_id m = n_id n then claim_columns now k n else m) t)"
    using 2(6) by simp
  then have "ClaimNode eng now g k t =
      (let mine = n\<lparr>n_claim_key := Some k, n_claimed_at := Some now\<rparr>
       in (Inr mine, map (\<lambda>m. if n_id m = n_id n then mine else m) t))"
    unfolding claim_columns_def Let_def .
  then show ?thesis using 2(1-5) by blast
qed blast+

theorem claim_node_outcomes_witness:
  "ClaimNode mem_node_engine 7 ''g'' ''k'' [sample_node ''n1''] =
     (Inr ((sample_node ''n1'')\<lparr>n_claim_key := Some ''k'', n_claimed_at := Some 7\<rparr>),
      [(sample_node ''n1'')\<lparr>n_claim_key := Some ''k'', n_claimed_at := Some 7\<rparr>])"
  using claim_node_outcomes [OF mem_reliable, of "[sample_node ''n1'']" "''g''" "''k''" 7]
  by (simp add: sample_node_def unique_rows_def Let_def)

text \<open>
  A claim is idempotent: repeating it with the same key and group returns the same node and
  writes nothing, so a caller that crashed finds its own node again.
\<close>
theorem claim_node_idempotent:
  assumes "reliable_engine eng n_id node_clash" and "unique_rows node_clash t"
    and "ClaimNode eng now g k t = (Inr n, t')"
  shows "ClaimNode eng now' g k t' = (Inr n, t')"
proof -
  have "n \<in> set t' \<and> n_group_id n = g \<and> n_claim_key n = Some k \<and> unique_rows node_clash t'"
  proof (cases rule: claim_node_cases [OF assms(1,2), where g = g and k = k and now = now])
    case (2 m)
    have "claim_row eng now k (n_id m) t = (Inr 1, t')"
      using claim_row_total [OF assms(1,2) 2(2,4)] 2 assms(3) by simp
    then have "unique_rows node_clash t'"
      using sql_engine.db_updates_unique [OF reliable_engine.axioms(1) [OF assms(1)]] assms(2)
      unfolding claim_row_def by blast
    then show ?thesis using 2 assms(3) by (auto simp: set_update_rows)
  qed (use assms(2,3) in auto)
  then have n: "n \<in> set t'" "n_group_id n = g" "n_claim_key n = Some k" and u: "unique_rows node_clash t'"
    by auto
  show ?thesis
  proof (cases rule: claim_node_cases [OF assms(1) u, where g = g and k = k and now = now'])
    case (1 m)
    then have "m = n" using n unique_rows_inj [OF u node_clash_sym, of m n] by (simp add: node_clash_def)
    then show ?thesis using 1 by simp
  qed (use n in auto)
qed

theorem claim_node_idempotent_witness:
  "ClaimNode mem_node_engine 9 ''g'' ''k'' (snd (ClaimNode mem_node_engine 7 ''g'' ''k'' [sample_node ''n1'']))
     = ClaimNode mem_node_engine 7 ''g'' ''k'' [sample_node ''n1'']"
proof -
  have "ClaimNode mem_node_engine 7 ''g'' ''k'' [sample_node ''n1''] =
      (Inr (claim_columns 7 ''k'' (sample_node ''n1'')), [claim_columns 7 ''k'' (sample_node ''n1'')])"
    by (simp add: ClaimNode_def node_eval)
  moreover have "unique_rows node_clash [sample_node ''n1'']" by (simp add: unique_rows_def)
  ultimately show ?thesis using claim_node_idempotent [OF mem_reliable, where now' = 9] by simp
qed

text \<open>
  A release frees the node exactly when the caller's key holds it; a node that is free or
  held under another key is left as it was, and so is every other row.
\<close>
theorem release_only_own_claim:
  assumes "reliable_engine eng n_id node_clash" and "unique_rows node_clash t"
  shows "ReleaseNode eng i k t =
    (Inr (\<exists>n \<in> set t. n_id n = i \<and> n_claim_key n = Some k),
     map (\<lambda>n. if n_id n = i \<and> n_claim_key n = Some k
              then n\<lparr>n_claim_key := None, n_claimed_at := None\<rparr> else n) t)"
proof -
  let ?p = "\<lambda>n. n_id n = i \<and> n_claim_key n = Some k"
  have "unique_rows node_clash (update_rows ?p (\<lambda>n. n\<lparr>n_claim_key := None, n_claimed_at := None\<rparr>) t)"
    by (rule unique_rows_update_mono [OF assms(2)]) (auto simp: node_clash_def split: if_splits)
  then have "db_updates eng ?p (\<lambda>n. n\<lparr>n_claim_key := None, n_claimed_at := None\<rparr>) t =
      (Inr (length (filter ?p t)), update_rows ?p (\<lambda>n. n\<lparr>n_claim_key := None, n_claimed_at := None\<rparr>) t)"
    by (rule reliable_engine.db_updates_total [OF assms(1)])
  moreover have "(length (filter ?p t) = 1) = (\<exists>n \<in> set t. ?p n)"
    using distinct_filter_one [OF unique_nodes [OF assms(2)], of i "\<lambda>n. n_claim_key n = Some k"] by auto
  ultimately show ?thesis by (simp add: ReleaseNode_def update_rows_def)
qed

theorem release_only_own_claim_witness:
  "ReleaseNode mem_node_engine ''n1'' ''other'' [claim_columns 7 ''k'' (sample_node ''n1'')] =
     (Inr False, [claim_columns 7 ''k'' (sample_node ''n1'')])"
  using release_only_own_claim [OF mem_reliable, of "[claim_columns 7 ''k'' (sample_node ''n1'')]" "''n1''" "''other''"]
  by (simp add: unique_rows_def)

text \<open>
  A reset transition is performed once: of any interleaving of node operations that does
  not itself put the node back into one of the source states, at most one AdvanceReset from
  those states succeeds.
\<close>
theorem reset_advanced_at_most_once:
  assumes "sql_engine eng n_id node_clash"
    and "\<forall>op \<in> set ops. \<not> reset_rearms i S op"
    and "run_ops (node_step eng) ops t = (log, t')"
  shows "winners (reset_wins i S) log \<le> 1"
  using node_engine.reset_once [OF node_engine_of [OF assms(1)] assms(2,3)] .

theorem reset_advanced_at_most_once_witness:
  "winners (reset_wins ''n1'' [ResetStatePending])
     (fst (run_ops (node_step mem_node_engine)
       [OpAdvanceReset 5 ''n1'' [ResetStatePending] ResetStateInProgress False,
        OpAdvanceReset 6 ''n1'' [ResetStatePending] ResetStateInProgress False]
       [(sample_node ''n1'')\<lparr>n_reset_state := ResetStatePending\<rparr>])) \<le> 1 \<and>
   fst (AdvanceReset mem_node_engine 5 ''n1'' [ResetStatePending] ResetStateInProgress False
       [(sample_node ''n1'')\<lparr>n_reset_state := ResetStatePending\<rparr>]) = Inr True"
  by (rule conjI, rule reset_advanced_at_most_once [OF mem_sql _ prod.collapse [symmetric]])
    (simp_all add: AdvanceReset_def db_updates_def unique_rows_def sample_node_def)

text \<open>
  A heartbeat can undo a claim. UpdateHeartbeat reads the row, and later writes all of its
  columns back: when a claim lands in between, the saved copy erases it and the next caller is
  handed a node that the first one still believes it owns.
\<close>
theorem heartbeat_overwrites_claim:
  assumes "reliable_engine eng n_id node_clash" and "n_group_id n = g" and "n_claim_key n = None"
  shows "\<exists>t1 t2 t3 a b.
    db_first eng (\<lambda>m. n_id m = n_id n) [n] = Inr n \<and>
    ClaimNode eng now g kA [n] = (Inr a, t1) \<and>
    db_save eng (heartbeat_row hb version os addrs boot n) t1 = (Inr (), t2) \<and>
    ClaimNode eng now g kB t2 = (Inr b, t3) \<and>
    n_id a = n_id b \<and> n_claim_key a = Some kA \<and> n_claim_key b = Some kB"
proof -
  let ?h = "heartbeat_row hb version os addrs boot n"
  have h: "n_id ?h = n_id n" "n_group_id ?h = g" "n_claim_key ?h = None"
    using assms(2,3) by (simp_all add: heartbeat_row_def Let_def)
  have claim: "ClaimNode eng now g k [m] = (Inr (claim_columns now k m), [claim_columns now k m])"
    if "n_group_id m = g" "n_claim_key m = None" for k m
    using claim_node_cases [OF assms(1), of "[m]" g k now] that by (fastforce simp: unique_rows_def)
  have read: "db_first eng (\<lambda>m. n_id m = n_id n) [n] = Inr n"
    using reliable_engine.db_first_total [OF assms(1), of n "[n]" "\<lambda>m. n_id m = n_id n"] by auto
  have save: "db_save eng ?h [claim_columns now kA n] = (Inr (), [?h])"
    using reliable_engine.db_save_total [OF assms(1), of "[claim_columns now kA n]" ?h] h(1)
    by (simp add: save_row_def unique_rows_def)
  show ?thesis
    using read claim [OF assms(2,3), of kA] save claim [OF h(2,3), of kB] h(1) by fastforce
qed

theorem heartbeat_overwrites_claim_witness:
  "\<exists>t1 t2 t3 a b.
    db_first mem_node_engine (\<lambda>m. n_id m = ''n1'') [sample_node ''n1''] = Inr (sample_node ''n1'') \<and>
    ClaimNode mem_node_engine 7 ''g'' ''kA'' [sample_node ''n1''] = (Inr a, t1) \<and>
    db_save mem_node_engine (heartbeat_row 8 [] [] None [] (sample_node ''n1'')) t1 = (Inr (), t2) \<and>
    ClaimNode mem_node_engine 7 ''g'' ''kB'' t2 = (Inr b, t3) \<and>
    n_id a = n_id b \<and> n_claim_key a = Some ''kA'' \<and> n_claim_key b = Some ''kB''"
  using heartbeat_overwrites_claim [OF mem_reliable, of "sample_node ''n1''" "''g''" 7 "''kA''" 8 "[]" "[]" None "[]" "''kB''"]
  by (simp add: sample_node_def)

text \<open>
  Deleting a group detaches its nodes or does nothing: on success no node is left in the
  group, the group is gone and no other column of any node changed; on an error both tables
  are as before. The deletion cannot succeed while a member and a node without a group are
  claimed under the same key, because detaching the member would break the unique index.
\<close>
theorem group_delete_all_or_nothing:
  assumes "sql_engine neng n_id node_clash" and "sql_engine geng g_id group_clash"
    and "unique_rows node_clash ns" and "i \<noteq> []"
    and "GroupDelete neng geng i ns gs = (r, ns', gs')"
  shows
   "(case r of
       Inl e \<Rightarrow> ns' = ns \<and> gs' = gs
     | Inr _ \<Rightarrow> (\<forall>n \<in> set ns'. n_group_id n \<noteq> i) \<and> gs' = filter (\<lambda>g. g_id g \<noteq> i) gs \<and>
         map (\<lambda>n. n\<lparr>n_group_id := []\<rparr>) ns' = map (\<lambda>n. n\<lparr>n_group_id := []\<rparr>) ns) \<and>
    ((\<exists>n \<in> set ns. \<exists>m \<in> set ns. n_group_id n = i \<and> n_group_id m = [] \<and>
        n_claim_key n \<noteq> None \<and> n_claim_key n = n_claim_key m) \<longrightarrow> (\<exists>e. r = Inl e))"
proof -
  let ?f = "\<lambda>n. n\<lparr>n_group_id := []\<rparr>"
  obtain r1 ns1 where upd: "db_updates neng (\<lambda>n. n_group_id n = i) ?f ns = (r1, ns1)" by fastforce
  show ?thesis
  proof (cases r1)
    case (Inl e)
    then show ?thesis using assms(5) upd by (auto simp: GroupDelete_def)
  next
    case (Inr a)
    have ns1: "ns1 = update_rows (\<lambda>n. n_group_id n = i) ?f ns"
      using sql_engine.db_updates_Inr [OF assms(1)] upd Inr by blast
    have u: "unique_rows node_clash ns1"
      using sql_engine.db_updates_unique [OF assms(1) upd assms(3)] .
    have blocked: False
      if "n \<in> set ns" "m \<in> set ns" "n_group_id n = i" "n_group_id m = []"
        "n_claim_key n \<noteq> None" "n_claim_key n = n_claim_key m" for n m
    proof -
      have "?f n \<in> set ns1" "m \<in> set ns1" using that assms(4) by (auto simp: ns1 set_update_rows)
      moreover have "node_clash (?f n) m" using that by (simp add: node_clash_def)
      ultimately have "?f n = m" using unique_rows_inj [OF u node_clash_sym] by blast
      then have "n_id (?f n) = n_id m" by (rule arg_cong)
      then have "n_id n = n_id m" by simp
      then show False using same_id_same_node [OF assms(3) that(1,2)] that(3,4) assms(4) by auto
    qed
    obtain r2 gs1 where del: "db_delete geng (\<lambda>g. g_id g = i) gs = (r2, gs1)" by fastforce
    show ?thesis
    proof (cases r2)
      case (Inl e)
      then show ?thesis using assms(5) upd \<open>r1 = Inr a\<close> del by (auto simp: GroupDelete_def)
    next
      case (Inr b)
      have "gs1 = filter (\<lambda>g. g_id g \<noteq> i) gs"
        using sql_engine.db_delete_Inr [OF assms(2)] del Inr by blast
      moreover have "map ?f ns1 = map ?f ns" unfolding ns1 by (rule map_update_rows) simp
      moreover have "\<forall>n \<in> set ns1. n_group_id n \<noteq> i" using assms(4) by (auto simp: ns1 set_update_rows)
      moreover have "r = Inr ()" "ns' = ns1" "gs' = gs1"
        using assms(5) upd \<open>r1 = Inr a\<close> del Inr by (simp_all add: GroupDelete_def)
      moreover have "\<not> (\<exists>n \<in> set ns. \<exists>m \<in> set ns. n_group_id n = i \<and> n_group_id m = [] \<and>
          n_claim_key n \<noteq> None \<and> n_claim_key n = n_claim_key m)" using blocked by blast
      ultimately show ?thesis by simp
    qed
  qed
qed

theorem group_delete_all_or_nothing_witness:
  "\<exists>e. GroupDelete mem_node_engine (mem_engine g_id group_clash) ''g''
     [claim_columns 7 ''k'' (sample_node ''n1''), (claim_columns 7 ''k'' (sample_node ''n2''))\<lparr>n_group_id := []\<rparr>] [] =
     (Inl e,
      [claim_columns 7 ''k'' (sample_node ''n1''), (claim_columns 7 ''k'' (sample_node ''n2''))\<lparr>n_group_id := []\<rparr>], [])"
proof -
  let ?ns = "[claim_columns 7 ''k'' (sample_node ''n1''), (claim_columns 7 ''k'' (sample_node ''n2''))\<lparr>n_group_id := []\<rparr>]"
  obtain r ns' gs' where d: "GroupDelete mem_node_engine (mem_engine g_id group_clash) ''g'' ?ns [] = (r, ns', gs')"
    by (metis prod.exhaust)
  have "unique_rows node_clash ?ns" by (simp add: unique_rows_def node_clash_def claim_columns_def sample_node_def)
  from group_delete_all_or_nothing [OF mem_sql mem_sql this _ d]
  show ?thesis using d by (auto simp: claim_columns_def sample_node_def split: sum.splits)
qed

end
