(* ===== verification/Ws_Hub.thy ===== *)
theory Ws_Hub
  imports Aurora_Prelude "HOL-Library.AList"
begin

text \<open>
  The WebSocket hubs (\<^verbatim>\<open>pkg/ws/hub.go\<close>, \<^verbatim>\<open>pkg/ws/conn.go\<close>): which
  connection each node and each browser is reachable on, and the messages written to them.
  A connection is a number. The gorilla library decides whether a write reaches the peer, so
  \<open>w :: conn \<Rightarrow> ws_message \<Rightarrow> bool\<close> is a parameter; \<open>h_wire\<close> lists the frames
  that were written, in order. Every critical section of the code is one update of the state.
\<close>

type_synonym conn = nat

datatype ws_data =
    CommandData string string "(string \<times> string) list"
  | CommandStatusData string string string
  | HeartbeatData string "(string \<times> string) list" "(string \<times> string) list"
  | BuildLogData string string

record ws_message =
  m_type :: string
  m_data :: ws_data

record ui_hub =
  ui_conns :: "(string \<times> conn) list"
  ui_counter :: nat

record hub =
  h_conns :: "(string \<times> conn) list"
  h_ui :: ui_hub
  h_wire :: "(conn \<times> ws_message) list"

definition NewHub :: hub where
  "NewHub = \<lparr>h_conns = [], h_ui = \<lparr>ui_conns = [], ui_counter = 0\<rparr>, h_wire = []\<rparr>"

section \<open>Nodes\<close>

definition HubRegister :: "string \<Rightarrow> conn \<Rightarrow> hub \<Rightarrow> hub" where
  "HubRegister nodeID c h = h\<lparr>h_conns := AList.update nodeID c (h_conns h)\<rparr>"

definition HubUnregister :: "string \<Rightarrow> hub \<Rightarrow> hub" where
  "HubUnregister nodeID h = h\<lparr>h_conns := AList.delete nodeID (h_conns h)\<rparr>"

definition writeMessage :: "(conn \<Rightarrow> ws_message \<Rightarrow> bool) \<Rightarrow> conn \<Rightarrow> ws_message \<Rightarrow> hub \<Rightarrow> bool \<times> hub" where
  "writeMessage w c msg h =
     (if w c msg then (True, h\<lparr>h_wire := h_wire h @ [(c, msg)]\<rparr>) else (False, h))"

definition SendCommand ::
  "(conn \<Rightarrow> ws_message \<Rightarrow> bool) \<Rightarrow> string \<Rightarrow> ws_data \<Rightarrow> hub \<Rightarrow> bool \<times> hub" where
  "SendCommand w nodeID cmd h =
     (case map_of (h_conns h) nodeID of
        None \<Rightarrow> (False, h)
      | Some c \<Rightarrow> writeMessage w c \<lparr>m_type = ''command'', m_data = cmd\<rparr> h)"

definition IsOnline :: "string \<Rightarrow> hub \<Rightarrow> bool" where
  "IsOnline nodeID h = (map_of (h_conns h) nodeID \<noteq> None)"

definition OnlineCount :: "hub \<Rightarrow> nat" where
  "OnlineCount h = length (h_conns h)"

section \<open>Browsers\<close>

definition UIRegister :: "conn \<Rightarrow> hub \<Rightarrow> string \<times> hub" where
  "UIRegister c h =
     (let n = ui_counter (h_ui h) + 1; i = ''ui-'' @ Itoa n in
      (i, h\<lparr>h_ui := \<lparr>ui_conns = AList.update i c (ui_conns (h_ui h)), ui_counter = n\<rparr>\<rparr>))"

definition UIUnregister :: "string \<Rightarrow> hub \<Rightarrow> hub" where
  "UIUnregister i h = h\<lparr>h_ui := (h_ui h)\<lparr>ui_conns := AList.delete i (ui_conns (h_ui h))\<rparr>\<rparr>"

definition UICount :: "hub \<Rightarrow> nat" where
  "UICount h = length (ui_conns (h_ui h))"

definition Broadcast :: "(conn \<Rightarrow> ws_message \<Rightarrow> bool) \<Rightarrow> ws_message \<Rightarrow> hub \<Rightarrow> hub" where
  "Broadcast w msg h = foldl (\<lambda>h' c. snd (writeMessage w c msg h')) h (map snd (ui_conns (h_ui h)))"

definition BroadcastLogChunk :: "(conn \<Rightarrow> ws_message \<Rightarrow> bool) \<Rightarrow> string \<Rightarrow> string \<Rightarrow> hub \<Rightarrow> hub" where
  "BroadcastLogChunk w buildID chunk h =
     Broadcast w \<lparr>m_type = ''build-log'', m_data = BuildLogData buildID chunk\<rparr> h"

section \<open>Well-formed hubs\<close>

text \<open>The keys of both maps are distinct and no browser id is ahead of the counter.\<close>

definition hub_ok :: "hub \<Rightarrow> bool" where
  "hub_ok h =
     (distinct (map fst (h_conns h)) \<and> distinct (map fst (ui_conns (h_ui h))) \<and>
      (\<forall>i \<in> fst ` set (ui_conns (h_ui h)). \<exists>n \<le> ui_counter (h_ui h). i = ''ui-'' @ Itoa n))"

lemma fresh_ui_id:
  assumes "hub_ok h"
  shows "''ui-'' @ Itoa (ui_counter (h_ui h) + 1) \<notin> fst ` set (ui_conns (h_ui h))"
proof
  assume "''ui-'' @ Itoa (ui_counter (h_ui h) + 1) \<in> fst ` set (ui_conns (h_ui h))"
  then obtain n where "n \<le> ui_counter (h_ui h)" "Itoa (ui_counter (h_ui h) + 1) = Itoa n"
    using assms unfolding hub_ok_def by (metis same_append_eq)
  then show False using Itoa_inject by fastforce
qed

lemma update_fresh: "k \<notin> fst ` set al \<Longrightarrow> AList.update k v al = al @ [(k, v)]"
  by (induction al) auto

lemma UIRegister_eq:
  assumes "hub_ok h"
  shows "UIRegister c h =
    (''ui-'' @ Itoa (ui_counter (h_ui h) + 1),
     h\<lparr>h_ui := \<lparr>ui_conns = ui_conns (h_ui h) @ [(''ui-'' @ Itoa (ui_counter (h_ui h) + 1), c)],
               ui_counter = ui_counter (h_ui h) + 1\<rparr>\<rparr>)"
  using update_fresh [OF fresh_ui_id [OF assms]] by (simp add: UIRegister_def Let_def)

lemma writeMessage_maps [simp]:
  "h_conns (snd (writeMessage w c msg h)) = h_conns h" "h_ui (snd (writeMessage w c msg h)) = h_ui h"
  by (simp_all add: writeMessage_def)

lemma foldl_write:
  "h_wire (foldl (\<lambda>h' c. snd (writeMessage w c msg h')) h cs) =
     h_wire h @ map (\<lambda>c. (c, msg)) (filter (\<lambda>c. w c msg) cs) \<and>
   h_conns (foldl (\<lambda>h' c. snd (writeMessage w c msg h')) h cs) = h_conns h \<and>
   h_ui (foldl (\<lambda>h' c. snd (writeMessage w c msg h')) h cs) = h_ui h"
  by (induction cs arbitrary: h) (auto simp: writeMessage_def)

lemma hub_ok_ops:
  assumes "hub_ok h"
  shows "hub_ok (HubRegister nodeID c h)" "hub_ok (HubUnregister nodeID h)" "hub_ok (snd (UIRegister c h))"
    "hub_ok (UIUnregister i h)" "hub_ok (snd (writeMessage w c msg h))" "hub_ok (Broadcast w msg h)"
    "hub_ok (snd (SendCommand w nodeID cmd h))"
proof -
  show "hub_ok (HubRegister nodeID c h)"
    using assms by (auto simp: hub_ok_def HubRegister_def distinct_update)
  show "hub_ok (HubUnregister nodeID h)"
    using assms by (auto simp: hub_ok_def HubUnregister_def distinct_delete)
  show "hub_ok (snd (UIRegister c h))"
    unfolding UIRegister_eq [OF assms] using assms fresh_ui_id [OF assms]
    by (fastforce simp: hub_ok_def intro: le_SucI)
  have "\<forall>j \<in> fst ` set (AList.delete i (ui_conns (h_ui h))). \<exists>n \<le> ui_counter (h_ui h). j = ''ui-'' @ Itoa n"
    using assms dom_delete_subset [of i "ui_conns (h_ui h)"] unfolding hub_ok_def by (meson subsetD)
  then show "hub_ok (UIUnregister i h)"
    using assms distinct_delete [of "ui_conns (h_ui h)" i] unfolding hub_ok_def UIUnregister_def by simp
  show w: "hub_ok (snd (writeMessage w c msg h))" for w c msg
    using assms by (simp add: hub_ok_def)
  show "hub_ok (Broadcast w msg h)"
    using assms foldl_write [of w msg h "map snd (ui_conns (h_ui h))"] by (simp add: hub_ok_def Broadcast_def)
  show "hub_ok (snd (SendCommand w nodeID cmd h))"
    using assms w by (simp add: SendCommand_def split: option.splits)
qed

end
