(* ===== verification/Server_State.thy ===== *)
theory Server_State
  imports Node_Store Ws_Hub
begin

text \<open>
  The state the REST and WebSocket handlers share, the requests they read and the answers they
  give, and the authentication middlewares (\<^verbatim>\<open>pkg/auth/middleware.go\<close>).

  \<open>env\<close> holds what a request depends on and the repository does not define: the SQL
  engines, the outcome of a WebSocket write, the clock (one reading per request), the UUID
  supply, the random bytes, and whether the deploy handler's finalize hook is wired.
  \<open>sv_finalize\<close> lists the nodes whose finalize hook was started on its own goroutine.
\<close>

record server =
  sv_nodes :: nodes
  sv_commands :: commands
  sv_groups :: groups
  sv_hub :: hub
  sv_finalize :: "string list"

record env =
  e_nodes :: "managed_node engine"
  e_commands :: "node_command engine"
  e_groups :: "node_group engine"
  e_write :: "conn \<Rightarrow> ws_message \<Rightarrow> bool"
  e_now :: instant
  e_uuid :: "nat \<Rightarrow> uuid"
  e_rnd :: "string option"
  e_finalize :: bool

text \<open>
  A request body: it cannot be read, is not JSON, has fields of the wrong type (with the
  registrationToken that was read), or binds to the handler's request type.
\<close>

datatype 'b body = Unreadable | NotJSON | Mistyped string | Parsed 'b

record 'b request =
  rq_authorization :: string
  rq_query :: strmap
  rq_params :: strmap
  rq_ctx_node :: string
  rq_body :: "'b body"

datatype api_body =
    CommandBody node_command
  | CommandsBody "node_command list"
  | NodeBody managed_node
  | NodesBody "managed_node list"
  | GroupBody node_group
  | GroupsBody "node_group list"
  | RegisterBody string string
  | DecommissionBody string bool
  | ReleaseBody bool
  | StatusOK

type_synonym 'b handler = "'b request \<Rightarrow> server \<Rightarrow> api_body response \<times> server"

definition Param :: "'b request \<Rightarrow> string \<Rightarrow> string" where
  "Param rq name = map_index (rq_params rq) name"

definition QueryParam :: "'b request \<Rightarrow> string \<Rightarrow> string" where
  "QueryParam rq name = map_index (rq_query rq) name"

abbreviation fail :: "nat \<Rightarrow> string \<Rightarrow> server \<Rightarrow> api_body response \<times> server" where
  "fail code msg s \<equiv> (Response code (ErrorBody msg), s)"

abbreviation reply :: "nat \<Rightarrow> api_body \<Rightarrow> server \<Rightarrow> api_body response \<times> server" where
  "reply code b s \<equiv> (Response code (Body b), s)"

section \<open>Authentication\<close>

definition extractBearer :: "string \<Rightarrow> string" where
  "extractBearer header =
     (if HasPrefix header ''Bearer '' then TrimPrefix header ''Bearer '' else [])"

definition AuthNodeID :: "'b request \<Rightarrow> string" where
  "AuthNodeID rq = rq_ctx_node rq"

definition RequireNodeMatch :: "'b handler \<Rightarrow> 'b handler" where
  "RequireNodeMatch next_h rq s =
     (let authID = AuthNodeID rq in
      if authID = [] then fail 401 ''unauthorized'' s
      else if Param rq ''nodeID'' \<noteq> authID then fail 403 ''forbidden'' s
      else next_h rq s)"

definition AdminMiddleware :: "string \<Rightarrow> 'b handler \<Rightarrow> 'b handler" where
  "AdminMiddleware password next_h rq s =
     (let bearer = extractBearer (rq_authorization rq);
          token = (if bearer = [] then QueryParam rq ''token'' else bearer)
      in if token = [] \<or> token \<noteq> password then fail 401 ''unauthorized'' s else next_h rq s)"

definition NodeAPIKeyMiddleware :: "env \<Rightarrow> 'b handler \<Rightarrow> 'b handler" where
  "NodeAPIKeyMiddleware e next_h rq s =
     (let token = extractBearer (rq_authorization rq) in
      if token = [] then fail 401 ''unauthorized'' s
      else case GetByAPIKey (e_nodes e) token (sv_nodes s) of
        Inl _ \<Rightarrow> fail 401 ''unauthorized'' s
      | Inr node \<Rightarrow> next_h (rq\<lparr>rq_ctx_node := n_id node\<rparr>) s)"

definition AgentOrAdminMiddleware :: "env \<Rightarrow> string \<Rightarrow> 'b handler \<Rightarrow> 'b handler" where
  "AgentOrAdminMiddleware e password next_h rq s =
     (let token = extractBearer (rq_authorization rq) in
      if token = [] then fail 401 ''unauthorized'' s
      else if token = password then next_h rq s
      else case GetByAPIKey (e_nodes e) token (sv_nodes s) of
        Inl _ \<Rightarrow> fail 401 ''unauthorized'' s
      | Inr node \<Rightarrow> next_h (rq\<lparr>rq_ctx_node := n_id node\<rparr>) s)"

definition DownloadMiddleware :: "env \<Rightarrow> string \<Rightarrow> 'b handler \<Rightarrow> 'b handler" where
  "DownloadMiddleware e password next_h rq s =
     (let bearer = extractBearer (rq_authorization rq);
          token = (if bearer = [] then QueryParam rq ''token'' else bearer)
      in if token = [] then fail 401 ''unauthorized'' s
         else if token = password then next_h rq s
         else case GetByAPIKey (e_nodes e) token (sv_nodes s) of
           Inr _ \<Rightarrow> next_h rq s
         | Inl _ \<Rightarrow> fail 401 ''unauthorized'' s)"

text \<open>
  \<open>token_of\<close> reads the registrationToken of a bound body; a body without the field
  unmarshals to the empty string. \<open>token\<close> is the pointer, nil or the current token.
\<close>

definition RegistrationTokenAuth :: "('b \<Rightarrow> string) \<Rightarrow> string option \<Rightarrow> 'b handler \<Rightarrow> 'b handler" where
  "RegistrationTokenAuth token_of token next_h rq s =
     (let current = (case token of None \<Rightarrow> [] | Some t \<Rightarrow> t);
          check = (\<lambda>t. if t \<noteq> current then fail 401 ''invalid registration token'' s else next_h rq s)
      in case rq_body rq of
           Unreadable \<Rightarrow> fail 400 ''cannot read body'' s
         | NotJSON \<Rightarrow> fail 400 ''invalid JSON body'' s
         | Mistyped t \<Rightarrow> check t
         | Parsed b \<Rightarrow> check (token_of b))"

section \<open>What a middleware lets through\<close>

text \<open>
  A middleware either answers 401, 403 or 400 and leaves the state alone, or runs the handler
  on the request with at most the node identity added; then the caller knew the password or
  the API key of that node.
\<close>

definition refused :: "api_body response \<times> server \<Rightarrow> server \<Rightarrow> bool" where
  "refused r s = (snd r = s \<and> status (fst r) \<in> {400, 401, 403})"

lemma admin_lets_through:
  "refused (AdminMiddleware password h rq s) s \<or>
   AdminMiddleware password h rq s = h rq s \<and> password \<noteq> [] \<and>
     (extractBearer (rq_authorization rq) = password \<or> QueryParam rq ''token'' = password)"
  by (auto simp: AdminMiddleware_def Let_def refused_def)

lemma get_by_api_key:
  "sql_engine eng n_id node_clash \<Longrightarrow> GetByAPIKey eng k t = Inr n \<Longrightarrow> n \<in> set t \<and> n_api_key n = k"
  unfolding GetByAPIKey_def by (drule sql_engine.db_first_Inr) auto

lemma api_key_lets_through:
  assumes "sql_engine (e_nodes e) n_id node_clash"
  shows "refused (NodeAPIKeyMiddleware e h rq s) s \<or>
    (\<exists>n \<in> set (sv_nodes s). n_api_key n = extractBearer (rq_authorization rq) \<and> n_api_key n \<noteq> [] \<and>
       NodeAPIKeyMiddleware e h rq s = h (rq\<lparr>rq_ctx_node := n_id n\<rparr>) s)"
  by (cases "GetByAPIKey (e_nodes e) (extractBearer (rq_authorization rq)) (sv_nodes s)")
    (auto simp: NodeAPIKeyMiddleware_def Let_def refused_def dest!: get_by_api_key [OF assms])

lemma agent_or_admin_lets_through:
  assumes "sql_engine (e_nodes e) n_id node_clash"
  shows "refused (AgentOrAdminMiddleware e password h rq s) s \<or>
    extractBearer (rq_authorization rq) = password \<and> AgentOrAdminMiddleware e password h rq s = h rq s \<or>
    (\<exists>n \<in> set (sv_nodes s). n_api_key n = extractBearer (rq_authorization rq) \<and> n_api_key n \<noteq> [] \<and>
       AgentOrAdminMiddleware e password h rq s = h (rq\<lparr>rq_ctx_node := n_id n\<rparr>) s)"
  by (cases "GetByAPIKey (e_nodes e) (extractBearer (rq_authorization rq)) (sv_nodes s)")
    (auto simp: AgentOrAdminMiddleware_def Let_def refused_def dest!: get_by_api_key [OF assms])

end
