(* ===== verification/Fleet_Handlers.thy ===== *)
theory Fleet_Handlers
  imports Server_State
begin

text \<open>
  The REST handlers of nodes, commands and groups (\<^verbatim>\<open>pkg/handlers/commands.go\<close>,
  \<^verbatim>\<open>nodes.go\<close>, \<^verbatim>\<open>groups.go\<close>), with the routes of
  \<^verbatim>\<open>pkg/server/server.go\<close> that put them behind a middleware.
\<close>

section \<open>Store calls on the server state\<close>

definition on_commands :: "(commands \<Rightarrow> 'r \<times> commands) \<Rightarrow> server \<Rightarrow> 'r \<times> server" where
  "on_commands f s = (let (r, t) = f (sv_commands s) in (r, s\<lparr>sv_commands := t\<rparr>))"

definition on_nodes :: "(nodes \<Rightarrow> 'r \<times> nodes) \<Rightarrow> server \<Rightarrow> 'r \<times> server" where
  "on_nodes f s = (let (r, t) = f (sv_nodes s) in (r, s\<lparr>sv_nodes := t\<rparr>))"

definition on_groups :: "(groups \<Rightarrow> 'r \<times> groups) \<Rightarrow> server \<Rightarrow> 'r \<times> server" where
  "on_groups f s = (let (r, t) = f (sv_groups s) in (r, s\<lparr>sv_groups := t\<rparr>))"

section \<open>Commands\<close>

record create_command_request =
  cc_command :: string
  cc_args :: strmap

record bulk_command_request =
  bc_selector :: command_selector
  bc_command :: string
  bc_args :: strmap

record update_status_request =
  us_phase :: string
  us_result :: string

definition new_command :: "string \<Rightarrow> string \<Rightarrow> strmap \<Rightarrow> instant option \<Rightarrow> node_command" where
  "new_command nodeID command args expires =
     \<lparr>c_id = [], c_node_id = nodeID, c_command = command, c_args = args, c_phase = CommandPending,
      c_result = [], c_expires_at = expires, c_delivered_at = None, c_completed_at = None,
      c_created_at = 0\<rparr>"

definition command_payload :: "node_command \<Rightarrow> ws_data" where
  "command_payload cmd = CommandData (c_id cmd) (c_command cmd) (c_args cmd)"

text \<open>Claim first, and send only if this call won the claim; the result of the send is dropped.\<close>

definition claim_and_send :: "env \<Rightarrow> node_command \<Rightarrow> server \<Rightarrow> server" where
  "claim_and_send e cmd s =
     (case on_commands (ClaimForDelivery (e_commands e) (e_now e) (c_id cmd)) s of
        (Inr True, s') \<Rightarrow>
          s'\<lparr>sv_hub := snd (SendCommand (e_write e) (c_node_id cmd) (command_payload cmd) (sv_hub s'))\<rparr>
      | (_, s') \<Rightarrow> s')"

definition pushCommand :: "env \<Rightarrow> node_command \<Rightarrow> server \<Rightarrow> server" where
  "pushCommand e cmd s =
     (if \<not> IsOnline (c_node_id cmd) (sv_hub s) then s else claim_and_send e cmd s)"

text \<open>Create the row, mark a reset, push: the body of all three creating handlers.\<close>

definition queue_command ::
  "env \<Rightarrow> uuid \<Rightarrow> string \<Rightarrow> string \<Rightarrow> strmap \<Rightarrow> server \<Rightarrow> (db_error + node_command) \<times> server" where
  "queue_command e u nodeID command args s =
     (case on_commands (CommandCreate (e_commands e) (e_now e) u (new_command nodeID command args None)) s of
        (Inl err, s1) \<Rightarrow> (Inl err, s1)
      | (Inr cmd, s1) \<Rightarrow>
          (let s2 = (if command = CmdReset
                     then snd (on_nodes (SetResetPending (e_nodes e) (e_now e) nodeID) s1) else s1)
           in (Inr cmd, pushCommand e cmd s2)))"

definition CreateCommand :: "env \<Rightarrow> create_command_request handler" where
  "CreateCommand e rq s =
     (case rq_body rq of
        Parsed req \<Rightarrow>
          (if cc_command req = [] then fail 400 ''command is required'' s
           else case queue_command e (e_uuid e 0) (Param rq ''nodeID'') (cc_command req) (cc_args req) s of
             (Inl _, s') \<Rightarrow> fail 500 ''failed to create command'' s'
           | (Inr cmd, s') \<Rightarrow> reply 201 (CommandBody cmd) s')
      | _ \<Rightarrow> fail 400 ''invalid request body'' s)"

fun queue_all ::
  "env \<Rightarrow> nat \<Rightarrow> managed_node list \<Rightarrow> string \<Rightarrow> strmap \<Rightarrow> node_command list \<Rightarrow> server \<Rightarrow>
     api_body response \<times> server"
where
  "queue_all e k [] command args created s = reply 201 (CommandsBody created) s"
| "queue_all e k (n # ns) command args created s =
     (case queue_command e (e_uuid e k) (n_id n) command args s of
        (Inl _, s') \<Rightarrow> fail 500 ''failed to create command'' s'
      | (Inr cmd, s') \<Rightarrow> queue_all e (Suc k) ns command args (created @ [cmd]) s')"

definition CreateBulk :: "env \<Rightarrow> bulk_command_request handler" where
  "CreateBulk e rq s =
     (case rq_body rq of
        Parsed req \<Rightarrow>
          (let sel = bc_selector req in
           if bc_command req = [] then fail 400 ''command is required'' s
           else if sel_group_id sel = [] \<and> sel_node_ids sel = [] \<and> sel_labels sel = []
           then fail 400 ''selector must specify at least one of: groupID, nodeIDs, or labels'' s
           else case ListBySelector (e_nodes e) sel (sv_nodes s) of
             Inl _ \<Rightarrow> fail 500 ''failed to find nodes'' s
           | Inr ns \<Rightarrow> queue_all e 0 ns (bc_command req) (bc_args req) [] s)
      | _ \<Rightarrow> fail 400 ''invalid request body'' s)"

definition CreateForGroup :: "env \<Rightarrow> create_command_request handler" where
  "CreateForGroup e rq s =
     (case rq_body rq of
        Parsed req \<Rightarrow>
          (if cc_command req = [] then fail 400 ''command is required'' s
           else case ListByGroup (e_nodes e) (Param rq ''id'') (sv_nodes s) of
             Inl _ \<Rightarrow> fail 500 ''failed to find nodes in group'' s
           | Inr ns \<Rightarrow> queue_all e 0 ns (cc_command req) (cc_args req) [] s)
      | _ \<Rightarrow> fail 400 ''invalid request body'' s)"

definition DeleteCommand :: "env \<Rightarrow> unit handler" where
  "DeleteCommand e rq s =
     (case on_commands (CommandDelete (e_commands e) (Param rq ''commandID'')) s of
        (Inl _, s') \<Rightarrow> fail 404 ''command not found'' s'
      | (Inr _, s') \<Rightarrow> (Response 204 NoContent, s'))"

definition ClearHistory :: "env \<Rightarrow> unit handler" where
  "ClearHistory e rq s =
     (case on_commands (CommandDeleteTerminal (e_commands e) (Param rq ''nodeID'')) s of
        (Inl _, s') \<Rightarrow> fail 500 ''failed to clear history'' s'
      | (Inr _, s') \<Rightarrow> (Response 204 NoContent, s'))"

definition UpdateStatusHandler :: "env \<Rightarrow> update_status_request handler" where
  "UpdateStatusHandler e rq s =
     (case rq_body rq of
        Parsed req \<Rightarrow>
          (if us_phase req = [] then fail 400 ''phase is required'' s
           else if AuthNodeID rq \<noteq> []
           then (case on_commands (UpdateStatusForNode (e_commands e) (e_now e) (Param rq ''commandID'')
                        (AuthNodeID rq) (us_phase req) (us_result req)) s of
                   (Inl ErrCommandNotFound, s') \<Rightarrow> fail 403 ''forbidden'' s'
                 | (Inl _, s') \<Rightarrow> fail 500 ''failed to update command status'' s'
                 | (Inr _, s') \<Rightarrow> reply 200 StatusOK s')
           else (case on_commands (UpdateStatus (e_commands e) (e_now e) (Param rq ''commandID'')
                        (us_phase req) (us_result req)) s of
                   (Inl _, s') \<Rightarrow> fail 500 ''failed to update command status'' s'
                 | (Inr _, s') \<Rightarrow> reply 200 StatusOK s'))
      | _ \<Rightarrow> fail 400 ''invalid request body'' s)"

section \<open>Nodes\<close>

abbreviation decommissionTimeout :: duration where "decommissionTimeout \<equiv> 30 * second"

record register_request =
  rr_token :: string
  rr_machine_id :: string
  rr_hostname :: string
  rr_agent_version :: string
  rr_addresses :: "node_address list option"
  rr_boot_state :: string

record heartbeat_request =
  hr_agent_version :: string
  hr_os_release :: strmap
  hr_addresses :: "node_address list option"
  hr_boot_state :: string

definition triggerFinalize :: "env \<Rightarrow> string \<Rightarrow> server \<Rightarrow> server" where
  "triggerFinalize e nodeID s =
     (if \<not> e_finalize e \<or> nodeID = [] then s else s\<lparr>sv_finalize := sv_finalize s @ [nodeID]\<rparr>)"

definition resolveReset :: "env \<Rightarrow> managed_node \<Rightarrow> string \<Rightarrow> server \<Rightarrow> server" where
  "resolveReset e node bootState s =
     (let inFlight = [ResetStatePending, ResetStateInProgress];
          advance = (\<lambda>from to stamp.
            snd (on_nodes (AdvanceReset (e_nodes e) (e_now e) (n_id node) from to stamp) s))
      in if n_reset_state node \<noteq> ResetStatePending \<and> n_reset_state node \<noteq> ResetStateInProgress then s
         else if bootState = BootStateAutoReset then advance [ResetStatePending] ResetStateInProgress False
         else if bootState = BootStateActive then advance inFlight ResetStateDone True
         else if bootState = BootStatePassive \<or> bootState = BootStateRecovery
         then advance inFlight ResetStateFailed False
         else s)"

definition new_node :: "register_request \<Rightarrow> managed_node" where
  "new_node req =
     \<lparr>n_id = [], n_machine_id = rr_machine_id req, n_hostname = rr_hostname req, n_group_id = [],
      n_phase = PhaseRegistered, n_last_heartbeat = None, n_agent_version = rr_agent_version req,
      n_os_release = [], n_labels = [], n_addresses = rr_addresses req, n_boot_state = rr_boot_state req,
      n_claim_key = None, n_claimed_at = None, n_reset_state = [], n_reset_requested_at = None,
      n_last_reset = None, n_api_key = [], n_created_at = 0\<rparr>"

text \<open>An error of the lookup is dropped: it counts as an unknown machine.\<close>

definition RegisterNode :: "env \<Rightarrow> register_request handler" where
  "RegisterNode e rq s =
     (case rq_body rq of
        Parsed req \<Rightarrow>
          (if rr_machine_id req = [] then fail 400 ''machineID is required'' s
           else case GetByMachineID (e_nodes e) (rr_machine_id req) (sv_nodes s) of
             Inr existing \<Rightarrow>
               reply 200 (RegisterBody (n_id existing) (n_api_key existing))
                 (resolveReset e existing (rr_boot_state req) (triggerFinalize e (n_id existing) s))
           | Inl _ \<Rightarrow>
               (case on_nodes (Register (e_nodes e) (e_now e) (e_uuid e 0) (e_rnd e) (new_node req)) s of
                  (Inl _, s') \<Rightarrow> fail 500 ''failed to register node'' s'
                | (Inr node, s') \<Rightarrow>
                    reply 201 (RegisterBody (n_id node) (n_api_key node)) (triggerFinalize e (n_id node) s')))
      | _ \<Rightarrow> fail 400 ''invalid request body'' s)"

text \<open>\<open>strings.Cut\<close> at a one-character separator.\<close>

fun Cut :: "string \<Rightarrow> char \<Rightarrow> (string \<times> string) option" where
  "Cut [] sep = None"
| "Cut (c # cs) sep =
     (if c = sep then Some ([], cs)
      else case Cut cs sep of None \<Rightarrow> None | Some (before, after) \<Rightarrow> Some (c # before, after))"

definition ListNodes :: "env \<Rightarrow> unit handler" where
  "ListNodes e rq s =
     (let answer = (\<lambda>r. case r of Inl _ \<Rightarrow> fail 500 ''failed to list nodes'' s
                               | Inr ns \<Rightarrow> reply 200 (NodesBody ns) s);
          group = QueryParam rq ''group''; label = QueryParam rq ''label''
      in if group \<noteq> [] then answer (ListByGroup (e_nodes e) group (sv_nodes s))
         else if label \<noteq> []
         then (case Cut label (CHR '':'') of
                 None \<Rightarrow> fail 400 ''label must be in key:value format'' s
               | Some (key, value) \<Rightarrow> answer (ListByLabels (e_nodes e) [(key, value)] (sv_nodes s)))
         else answer (NodeList (e_nodes e) (sv_nodes s)))"

definition GetNode :: "env \<Rightarrow> unit handler" where
  "GetNode e rq s =
     (case NodeGetByID (e_nodes e) (Param rq ''nodeID'') (sv_nodes s) of
        Inl _ \<Rightarrow> fail 404 ''node not found'' s
      | Inr node \<Rightarrow> reply 200 (NodeBody node) s)"

definition DeleteNode :: "env \<Rightarrow> unit handler" where
  "DeleteNode e rq s =
     (let (r, cs, ns) = NodeDelete (e_commands e) (e_nodes e) (Param rq ''nodeID'') (sv_commands s) (sv_nodes s);
          s' = s\<lparr>sv_commands := cs, sv_nodes := ns\<rparr>
      in case r of
           Inl _ \<Rightarrow> fail 500 ''failed to delete node'' s'
         | Inr _ \<Rightarrow> (Response 204 NoContent, s'))"

definition Decommission :: "env \<Rightarrow> unit handler" where
  "Decommission e rq s =
     (let nodeID = Param rq ''nodeID'' in
      case NodeGetByID (e_nodes e) nodeID (sv_nodes s) of
        Inl _ \<Rightarrow> fail 404 ''node not found'' s
      | Inr _ \<Rightarrow>
          (if \<not> IsOnline nodeID (sv_hub s) then reply 200 (DecommissionBody [] False) s
           else
             let cmd = new_command nodeID ''unregister'' [] (Some (e_now e + decommissionTimeout)) in
             case on_commands (CommandCreate (e_commands e) (e_now e) (e_uuid e 0) cmd) s of
               (Inl _, s') \<Rightarrow> fail 500 ''failed to queue unregister command'' s'
             | (Inr cmd', s') \<Rightarrow>
                 reply 200 (DecommissionBody (c_id cmd') True) (claim_and_send e cmd' s')))"

definition SetLabelsHandler :: "env \<Rightarrow> strmap handler" where
  "SetLabelsHandler e rq s =
     (case rq_body rq of
        Parsed labels \<Rightarrow>
          (case on_nodes (SetLabels (e_nodes e) (Param rq ''nodeID'') labels) s of
             (Inl _, s') \<Rightarrow> fail 500 ''failed to set labels'' s'
           | (Inr _, s') \<Rightarrow> reply 200 StatusOK s')
      | _ \<Rightarrow> fail 400 ''invalid request body'' s)"

definition SetGroupHandler :: "env \<Rightarrow> string handler" where
  "SetGroupHandler e rq s =
     (case rq_body rq of
        Parsed groupID \<Rightarrow>
          (case on_nodes (SetGroup (e_nodes e) (Param rq ''nodeID'') groupID) s of
             (Inl _, s') \<Rightarrow> fail 500 ''failed to set group'' s'
           | (Inr _, s') \<Rightarrow> reply 200 StatusOK s')
      | _ \<Rightarrow> fail 400 ''invalid request body'' s)"

abbreviation ClaimErrorCodeNoCapacity :: string where "ClaimErrorCodeNoCapacity \<equiv> ''NoCapacity''"
abbreviation ClaimErrorCodeClaimMismatch :: string where "ClaimErrorCodeClaimMismatch \<equiv> ''ClaimMismatch''"

definition ClaimHandler :: "env \<Rightarrow> string handler" where
  "ClaimHandler e rq s =
     (case rq_body rq of
        Parsed claimKey \<Rightarrow>
          (if claimKey = [] then fail 400 ''claimKey is required'' s
           else case GroupGetByID (e_groups e) (Param rq ''id'') (sv_groups s) of
             Inl _ \<Rightarrow> fail 404 ''group not found'' s
           | Inr _ \<Rightarrow>
               (case on_nodes (ClaimNode (e_nodes e) (e_now e) (Param rq ''id'') claimKey) s of
                  (Inl ErrNoClaimCapacity, s') \<Rightarrow>
                    (Response 409 (ErrorCode ''no unclaimed node available in group'' ClaimErrorCodeNoCapacity), s')
                | (Inl _, s') \<Rightarrow> fail 500 ''failed to claim node'' s'
                | (Inr node, s') \<Rightarrow> reply 200 (NodeBody node) s'))
      | _ \<Rightarrow> fail 400 ''invalid request body'' s)"

definition ReleaseHandler :: "env \<Rightarrow> string handler" where
  "ReleaseHandler e rq s =
     (case rq_body rq of
        Parsed claimKey \<Rightarrow>
          (if claimKey = [] then fail 400 ''claimKey is required'' s
           else case NodeGetByID (e_nodes e) (Param rq ''nodeID'') (sv_nodes s) of
             Inl _ \<Rightarrow> fail 404 ''node not found'' s
           | Inr node \<Rightarrow>
               (case n_claim_key node of
                  None \<Rightarrow> reply 200 (ReleaseBody False) s
                | Some key \<Rightarrow>
                    (if key \<noteq> claimKey
                     then (Response 409 (ErrorCode ''node is claimed by a different key'' ClaimErrorCodeClaimMismatch), s)
                     else case on_nodes (ReleaseNode (e_nodes e) (Param rq ''nodeID'') claimKey) s of
                       (Inl _, s') \<Rightarrow> fail 500 ''failed to release node'' s'
                     | (Inr released, s') \<Rightarrow> reply 200 (ReleaseBody released) s')))
      | _ \<Rightarrow> fail 400 ''invalid request body'' s)"

definition Heartbeat :: "env \<Rightarrow> heartbeat_request handler" where
  "Heartbeat e rq s =
     (let nodeID = Param rq ''nodeID'' in
      case rq_body rq of
        Parsed req \<Rightarrow>
          (case on_nodes (UpdateHeartbeat (e_nodes e) (e_now e) nodeID (hr_agent_version req)
                   (hr_os_release req) (hr_addresses req) (hr_boot_state req)) s of
             (Inl _, s1) \<Rightarrow> fail 500 ''failed to update heartbeat'' s1
           | (Inr _, s1) \<Rightarrow>
               (case on_nodes (UpdatePhase (e_nodes e) nodeID PhaseOnline) s1 of
                  (Inl _, s2) \<Rightarrow> fail 500 ''failed to update phase'' s2
                | (Inr _, s2) \<Rightarrow> reply 200 StatusOK (triggerFinalize e nodeID s2)))
      | _ \<Rightarrow> fail 400 ''invalid request body'' s)"

text \<open>The loop of an agent's poll: claim each pending command, keep the ones claimed.\<close>

fun claim_pending ::
  "env \<Rightarrow> node_command list \<Rightarrow> node_command list \<Rightarrow> server \<Rightarrow> (db_error + node_command list) \<times> server" where
  "claim_pending e [] claimed s = (Inr claimed, s)"
| "claim_pending e (cmd # cmds) claimed s =
     (case on_commands (ClaimForDelivery (e_commands e) (e_now e) (c_id cmd)) s of
        (Inl err, s') \<Rightarrow> (Inl err, s')
      | (Inr ok, s') \<Rightarrow>
          (if \<not> ok then claim_pending e cmds claimed s'
           else claim_pending e cmds (claimed @ [deliver (e_now e) cmd]) s'))"

definition GetCommands :: "env \<Rightarrow> unit handler" where
  "GetCommands e rq s =
     (let nodeID = Param rq ''nodeID''; ctxNodeID = AuthNodeID rq in
      if ctxNodeID \<noteq> []
      then if ctxNodeID \<noteq> nodeID then fail 403 ''forbidden'' s
           else case GetPending (e_commands e) (e_now e) nodeID (sv_commands s) of
             Inl _ \<Rightarrow> fail 500 ''failed to get commands'' s
           | Inr cmds \<Rightarrow>
               (case claim_pending e cmds [] s of
                  (Inl _, s') \<Rightarrow> fail 500 ''failed to get commands'' s'
                | (Inr claimed, s') \<Rightarrow> reply 200 (CommandsBody claimed) s')
      else case ListByNode (e_commands e) nodeID (sv_commands s) of
        Inl _ \<Rightarrow> fail 500 ''failed to get commands'' s
      | Inr cmds \<Rightarrow> reply 200 (CommandsBody cmds) s)"

section \<open>Groups\<close>

record group_request =
  gr_name :: string
  gr_description :: string

definition CreateGroup :: "env \<Rightarrow> group_request handler" where
  "CreateGroup e rq s =
     (case rq_body rq of
        Parsed req \<Rightarrow>
          (if gr_name req = [] then fail 400 ''name is required'' s
           else case on_groups (GroupCreate (e_groups e) (e_uuid e 0)
                      \<lparr>g_id = [], g_name = gr_name req, g_description = gr_description req\<rparr>) s of
             (Inl _, s') \<Rightarrow> fail 500 ''failed to create group'' s'
           | (Inr g, s') \<Rightarrow> reply 201 (GroupBody g) s')
      | _ \<Rightarrow> fail 400 ''invalid request body'' s)"

definition ListGroups :: "env \<Rightarrow> unit handler" where
  "ListGroups e rq s =
     (case GroupList (e_groups e) (sv_groups s) of
        Inl _ \<Rightarrow> fail 500 ''failed to list groups'' s
      | Inr gs \<Rightarrow> reply 200 (GroupsBody gs) s)"

definition GetGroup :: "env \<Rightarrow> unit handler" where
  "GetGroup e rq s =
     (case GroupGetByID (e_groups e) (Param rq ''id'') (sv_groups s) of
        Inl _ \<Rightarrow> fail 404 ''group not found'' s
      | Inr g \<Rightarrow> reply 200 (GroupBody g) s)"

definition UpdateGroup :: "env \<Rightarrow> group_request handler" where
  "UpdateGroup e rq s =
     (case GroupGetByID (e_groups e) (Param rq ''id'') (sv_groups s) of
        Inl _ \<Rightarrow> fail 404 ''group not found'' s
      | Inr g \<Rightarrow>
          (case rq_body rq of
             Parsed req \<Rightarrow>
               (let g1 = (if gr_name req \<noteq> [] then g\<lparr>g_name := gr_name req\<rparr> else g);
                    g2 = (if gr_description req \<noteq> [] then g1\<lparr>g_description := gr_description req\<rparr> else g1)
                in case on_groups (GroupUpdate (e_groups e) g2) s of
                     (Inl _, s') \<Rightarrow> fail 500 ''failed to update group'' s'
                   | (Inr _, s') \<Rightarrow> reply 200 (GroupBody g2) s')
           | _ \<Rightarrow> fail 400 ''invalid request body'' s))"

definition DeleteGroup :: "env \<Rightarrow> unit handler" where
  "DeleteGroup e rq s =
     (let (r, ns, gs) = GroupDelete (e_nodes e) (e_groups e) (Param rq ''id'') (sv_nodes s) (sv_groups s);
          s' = s\<lparr>sv_nodes := ns, sv_groups := gs\<rparr>
      in case r of
           Inl _ \<Rightarrow> fail 500 ''failed to delete group'' s'
         | Inr _ \<Rightarrow> (Response 204 NoContent, s'))"

section \<open>Routes\<close>

text \<open>
  The middlewares of \<^verbatim>\<open>server.New\<close>: registration by token, heartbeats by the node's
  own key, polls and status reports by node key or password, everything else by password.
\<close>

definition route_register :: "env \<Rightarrow> string option \<Rightarrow> register_request handler" where
  "route_register e token = RegistrationTokenAuth rr_token token (RegisterNode e)"

definition route_heartbeat :: "env \<Rightarrow> heartbeat_request handler" where
  "route_heartbeat e = NodeAPIKeyMiddleware e (RequireNodeMatch (Heartbeat e))"

definition route_commands :: "env \<Rightarrow> string \<Rightarrow> unit handler" where
  "route_commands e password = AgentOrAdminMiddleware e password (GetCommands e)"

definition route_status :: "env \<Rightarrow> string \<Rightarrow> update_status_request handler" where
  "route_status e password = AgentOrAdminMiddleware e password (UpdateStatusHandler e)"

definition route_admin :: "string \<Rightarrow> 'b handler \<Rightarrow> 'b handler" where
  "route_admin password h = AdminMiddleware password h"

section \<open>A request stays within its node\<close>

lemma on_commands_eq: "on_commands f s = (fst (f (sv_commands s)), s\<lparr>sv_commands := snd (f (sv_commands s))\<rparr>)"
  by (simp add: on_commands_def split: prod.splits)

lemma on_nodes_eq: "on_nodes f s = (fst (f (sv_nodes s)), s\<lparr>sv_nodes := snd (f (sv_nodes s))\<rparr>)"
  by (simp add: on_nodes_def split: prod.splits)

lemma on_groups_eq: "on_groups f s = (fst (f (sv_groups s)), s\<lparr>sv_groups := snd (f (sv_groups s))\<rparr>)"
  by (simp add: on_groups_def split: prod.splits)

lemmas on_table = on_commands_eq on_nodes_eq on_groups_eq

lemma claim_table:
  assumes "sql_engine eng c_id cmd_clash"
  shows "snd (ClaimForDelivery eng now i t) = t \<or>
    snd (ClaimForDelivery eng now i t) =
      update_rows (\<lambda>c. c_id c = i \<and> c_phase c = CommandPending) (deliver now) t"
proof -
  obtain r t' where c: "ClaimForDelivery eng now i t = (r, t')" by fastforce
  show ?thesis
    using command_engine.claim_err [OF command_engine_of [OF assms]]
      command_engine.claim_Inr(1) [OF command_engine_of [OF assms]] c
    by (cases r) fastforce+
qed

text \<open>Every command with one of the ids belongs to the node.\<close>

definition owned_by :: "string \<Rightarrow> string list \<Rightarrow> commands \<Rightarrow> bool" where
  "owned_by nodeID ids t = (\<forall>c \<in> set t. c_id c \<in> set ids \<longrightarrow> c_node_id c = nodeID)"

definition others :: "string \<Rightarrow> commands \<Rightarrow> commands" where
  "others nodeID t = filter (\<lambda>c. c_node_id c \<noteq> nodeID) t"

lemma c_node_id_deliver [simp]: "c_node_id (deliver now c) = c_node_id c"
  by (simp add: deliver_def)

lemma claim_confined:
  assumes "sql_engine eng c_id cmd_clash" and "owned_by nodeID ids t" and "i \<in> set ids"
  shows "others nodeID (snd (ClaimForDelivery eng now i t)) = others nodeID t \<and>
    owned_by nodeID ids (snd (ClaimForDelivery eng now i t))"
  using claim_table [OF assms(1), of now i t] assms(2,3)
  by (auto simp: others_def owned_by_def set_update_rows intro!: filter_update_rows)

lemma claim_pending_confined:
  assumes "sql_engine (e_commands e) c_id cmd_clash"
    and "owned_by nodeID ids (sv_commands s)" and "set (map c_id cmds) \<subseteq> set ids"
  shows "others nodeID (sv_commands (snd (claim_pending e cmds acc s))) = others nodeID (sv_commands s) \<and>
    sv_nodes (snd (claim_pending e cmds acc s)) = sv_nodes s \<and>
    sv_groups (snd (claim_pending e cmds acc s)) = sv_groups s \<and>
    sv_hub (snd (claim_pending e cmds acc s)) = sv_hub s"
  using assms(2,3)
proof (induction cmds arbitrary: acc s)
  case (Cons cmd cmds)
  let ?t = "snd (ClaimForDelivery (e_commands e) (e_now e) (c_id cmd) (sv_commands s))"
  let ?s = "s\<lparr>sv_commands := ?t\<rparr>"
  have c: "others nodeID ?t = others nodeID (sv_commands s)" "owned_by nodeID ids ?t"
    using claim_confined [OF assms(1) Cons.prems(1), of "c_id cmd"] Cons.prems(2) by auto
  have "others nodeID (sv_commands (snd (claim_pending e cmds acc' ?s))) = others nodeID (sv_commands s) \<and>
    sv_nodes (snd (claim_pending e cmds acc' ?s)) = sv_nodes s \<and>
    sv_groups (snd (claim_pending e cmds acc' ?s)) = sv_groups s \<and>
    sv_hub (snd (claim_pending e cmds acc' ?s)) = sv_hub s" for acc'
    using Cons.IH [of ?s acc'] c Cons.prems(2) by simp
  then show ?case using c(1) by (simp add: on_commands_eq split: sum.splits)
qed simp

lemma claim_pending_result:
  "claim_pending e cmds acc s = (Inr out, s') \<Longrightarrow> set out \<subseteq> set acc \<union> deliver (e_now e) ` set cmds"
proof (induction cmds arbitrary: acc s)
  case (Cons cmd cmds)
  then show ?case by (fastforce simp: on_commands_eq split: sum.splits if_splits)
qed simp

lemma pending_of_node:
  assumes "sql_engine eng c_id cmd_clash" and "unique_rows cmd_clash t"
    and "GetPending eng now nodeID t = Inr cmds"
  shows "owned_by nodeID (map c_id cmds) t \<and>
    set cmds = {c \<in> set t. c_node_id c = nodeID \<and> c_phase c = CommandPending \<and>
                  (case c_expires_at c of None \<Rightarrow> True | Some x \<Rightarrow> x > now)}"
proof -
  have s: "set cmds = {c \<in> set t. c_node_id c = nodeID \<and> c_phase c = CommandPending \<and>
      (case c_expires_at c of None \<Rightarrow> True | Some x \<Rightarrow> x > now)}"
    using sql_engine.db_find_set [OF assms(1) assms(3) [unfolded GetPending_def]] .
  have "distinct (map c_id t)" using unique_commands [OF assms(2)] .
  then have "owned_by nodeID (map c_id cmds) t"
    unfolding owned_by_def using s by (auto simp: distinct_map inj_on_def)
  then show ?thesis using s by blast
qed

lemma poll_confined:
  assumes "sql_engine (e_commands e) c_id cmd_clash" and "unique_rows cmd_clash (sv_commands s)"
    and "AuthNodeID rq \<noteq> []"
  shows "others (AuthNodeID rq) (sv_commands (snd (GetCommands e rq s))) = others (AuthNodeID rq) (sv_commands s) \<and>
    sv_nodes (snd (GetCommands e rq s)) = sv_nodes s \<and>
    (\<forall>out. resp_body (fst (GetCommands e rq s)) = Body (CommandsBody out) \<longrightarrow>
       (\<forall>c \<in> set out. c_node_id c = AuthNodeID rq))"
proof (cases "AuthNodeID rq = Param rq ''nodeID''")
  case False
  then show ?thesis using assms(3) by (simp add: GetCommands_def Let_def)
next
  case True
  show ?thesis
  proof (cases "GetPending (e_commands e) (e_now e) (AuthNodeID rq) (sv_commands s)")
    case (Inl err)
    then show ?thesis using True assms(3) by (simp add: GetCommands_def Let_def)
  next
    case (Inr cmds)
    note p = pending_of_node [OF assms(1,2) Inr]
    have conf: "others (AuthNodeID rq) (sv_commands (snd (claim_pending e cmds [] s))) = others (AuthNodeID rq) (sv_commands s)"
      "sv_nodes (snd (claim_pending e cmds [] s)) = sv_nodes s"
      using claim_pending_confined [OF assms(1), of "AuthNodeID rq" "map c_id cmds" s cmds "[]"] p by auto
    have own: "c_node_id c = AuthNodeID rq" if "claim_pending e cmds [] s = (Inr out, s')" "c \<in> set out" for out s' c
      using claim_pending_result [OF that(1)] that(2) p by auto
    show ?thesis
      using conf own True assms(3) Inr
      by (cases "claim_pending e cmds [] s") (auto simp: GetCommands_def Let_def split: sum.splits)
  qed
qed

lemma status_confined:
  assumes "sql_engine (e_commands e) c_id cmd_clash" and "AuthNodeID rq \<noteq> []"
  shows "others (AuthNodeID rq) (sv_commands (snd (UpdateStatusHandler e rq s))) = others (AuthNodeID rq) (sv_commands s) \<and>
    sv_nodes (snd (UpdateStatusHandler e rq s)) = sv_nodes s"
proof -
  have upd: "others nodeID (snd (UpdateStatusForNode (e_commands e) now i nodeID phase result t)) = others nodeID t"
    for now i nodeID phase result t
  proof -
    let ?p = "\<lambda>c. c_id c = i \<and> c_node_id c = nodeID"
    obtain r t' where u: "db_updates (e_commands e) ?p (status_columns now phase result) t = (r, t')" by fastforce
    have "t' = t \<or> t' = update_rows ?p (status_columns now phase result) t"
      using sql_engine.db_updates_Inr [OF assms(1)] db_updates_Inl u by (cases r) blast+
    moreover have "snd (UpdateStatusForNode (e_commands e) now i nodeID phase result t) = t'"
      using u by (simp add: UpdateStatusForNode_def split: sum.splits)
    ultimately show ?thesis by (auto simp: others_def intro!: filter_update_rows)
  qed
  show ?thesis
    using assms(2) upd
    by (auto simp: UpdateStatusHandler_def on_commands_eq split: body.splits sum.splits store_error.splits)
qed

lemma heartbeat_table:
  assumes "sql_engine eng n_id node_clash"
  shows "filter (\<lambda>n. n_id n \<noteq> i) (snd (UpdateHeartbeat eng now i v os addrs boot t)) = filter (\<lambda>n. n_id n \<noteq> i) t"
    and "filter (\<lambda>n. n_id n \<noteq> i) (snd (UpdatePhase eng i phase t)) = filter (\<lambda>n. n_id n \<noteq> i) t"
proof -
  show "filter (\<lambda>n. n_id n \<noteq> i) (snd (UpdateHeartbeat eng now i v os addrs boot t)) = filter (\<lambda>n. n_id n \<noteq> i) t"
  proof (cases "db_first eng (\<lambda>n. n_id n = i) t")
    case (Inr n)
    let ?h = "heartbeat_row now v os addrs boot n"
    have n: "n \<in> set t" "n_id n = i" using sql_engine.db_first_Inr [OF assms Inr] by auto
    have h: "n_id ?h = i" using n(2) by (simp add: heartbeat_row_def Let_def)
    obtain r t' where sv: "db_save eng ?h t = (r, t')" by fastforce
    have "t' = t \<or> t' = save_row n_id ?h t"
      using sv by (cases r) (auto dest: db_save_Inl sql_engine.db_save_Inr [OF assms])
    moreover have "filter (\<lambda>n. n_id n \<noteq> i) (save_row n_id ?h t) = filter (\<lambda>n. n_id n \<noteq> i) t"
    proof -
      have "\<exists>y \<in> set t. n_id y = n_id ?h" using n h by metis
      then have "save_row n_id ?h t = update_rows (\<lambda>y. n_id y = i) (\<lambda>_. ?h) t"
        unfolding save_row_def h by simp
      then show ?thesis by (simp add: filter_update_rows h)
    qed
    ultimately show ?thesis using Inr sv by (auto simp: UpdateHeartbeat_def)
  qed (simp add: UpdateHeartbeat_def)
  obtain r t' where u: "db_updates eng (\<lambda>n. n_id n = i) (\<lambda>n. n\<lparr>n_phase := phase\<rparr>) t = (r, t')" by fastforce
  have "t' = t \<or> t' = update_rows (\<lambda>n. n_id n = i) (\<lambda>n. n\<lparr>n_phase := phase\<rparr>) t"
    using u db_updates_Inl sql_engine.db_updates_Inr [OF assms] by (cases r) blast+
  then show "filter (\<lambda>n. n_id n \<noteq> i) (snd (UpdatePhase eng i phase t)) = filter (\<lambda>n. n_id n \<noteq> i) t"
    using u by (auto simp: UpdatePhase_def intro!: filter_update_rows)
qed

lemma heartbeat_confined:
  assumes "sql_engine (e_nodes e) n_id node_clash"
  shows "filter (\<lambda>n. n_id n \<noteq> Param rq ''nodeID'') (sv_nodes (snd (Heartbeat e rq s))) =
      filter (\<lambda>n. n_id n \<noteq> Param rq ''nodeID'') (sv_nodes s) \<and>
    sv_commands (snd (Heartbeat e rq s)) = sv_commands s \<and> sv_groups (snd (Heartbeat e rq s)) = sv_groups s"
  using heartbeat_table [OF assms]
  by (auto simp: Heartbeat_def Let_def on_nodes_eq triggerFinalize_def split: body.splits sum.splits)

section \<open>What a poll returns\<close>

lemma update_rows_twice:
  "(\<And>x. \<not> q (f x)) \<Longrightarrow> update_rows q f (update_rows p f t) = update_rows (\<lambda>x. p x \<or> q x) f t"
  by (induction t) auto

lemma claim_pending_total:
  assumes "reliable_engine (e_commands e) c_id cmd_clash" and "unique_rows cmd_clash (sv_commands s)"
    and "distinct (map c_id cmds)" and "\<forall>c \<in> set cmds. is_pending (c_id c) (sv_commands s)"
  shows "claim_pending e cmds acc s =
    (Inr (acc @ map (deliver (e_now e)) cmds),
     s\<lparr>sv_commands := update_rows (\<lambda>c. c_id c \<in> c_id ` set cmds \<and> c_phase c = CommandPending)
                        (deliver (e_now e)) (sv_commands s)\<rparr>)"
  using assms(2-4)
proof (induction cmds arbitrary: acc s)
  case Nil
  then show ?case by (simp add: update_rows_id)
next
  case (Cons cmd cmds)
  let ?t = "update_rows (\<lambda>c. c_id c = c_id cmd \<and> c_phase c = CommandPending) (deliver (e_now e)) (sv_commands s)"
  let ?s = "s\<lparr>sv_commands := ?t\<rparr>"
  have "ClaimForDelivery (e_commands e) (e_now e) (c_id cmd) (sv_commands s) = (Inr True, ?t)"
    using claim_reliable [OF assms(1) Cons.prems(1)] Cons.prems(3) by simp
  moreover have "\<forall>c \<in> set cmds. is_pending (c_id c) ?t"
  proof
    fix c assume c: "c \<in> set cmds"
    then obtain d where d: "d \<in> set (sv_commands s)" "c_id d = c_id c" "c_phase d = CommandPending"
      using Cons.prems(3) by (auto simp: is_pending_def)
    moreover have "c_id d \<noteq> c_id cmd" using Cons.prems(2) c d(2) by (metis distinct.simps(2) image_eqI list.set_map list.simps(9))
    ultimately show "is_pending (c_id c) ?t" by (auto simp: is_pending_def set_update_rows)
  qed
  ultimately have "claim_pending e (cmd # cmds) acc s = claim_pending e cmds (acc @ [deliver (e_now e) cmd]) ?s"
    and "claim_pending e cmds (acc @ [deliver (e_now e) cmd]) ?s =
      (Inr ((acc @ [deliver (e_now e) cmd]) @ map (deliver (e_now e)) cmds),
       ?s\<lparr>sv_commands := update_rows (\<lambda>c. c_id c \<in> c_id ` set cmds \<and> c_phase c = CommandPending)
                        (deliver (e_now e)) (sv_commands ?s)\<rparr>)"
    using Cons.IH [of ?s "acc @ [deliver (e_now e) cmd]"] Cons.prems(1,2) unique_commands_update [of "sv_commands s"]
    by (simp_all add: on_commands_eq)
  moreover have "update_rows (\<lambda>c. c_id c \<in> c_id ` set cmds \<and> c_phase c = CommandPending) (deliver (e_now e)) ?t =
      update_rows (\<lambda>c. c_id c \<in> c_id ` set (cmd # cmds) \<and> c_phase c = CommandPending) (deliver (e_now e)) (sv_commands s)"
    by (subst update_rows_twice) (auto intro!: arg_cong [where f = "\<lambda>p. update_rows p _ _"])
  ultimately show ?case by simp
qed

section \<open>Sample requests\<close>

definition sample_env :: env where
  "sample_env =
     \<lparr>e_nodes = mem_engine n_id node_clash, e_commands = mem_engine c_id cmd_clash,
      e_groups = mem_engine g_id group_clash, e_write = (\<lambda>c m. True), e_now = 9,
      e_uuid = (\<lambda>k. ''u''), e_rnd = Some ''r'', e_finalize = True\<rparr>"

definition sample_server :: server where
  "sample_server =
     \<lparr>sv_nodes = [(sample_node ''n1'')\<lparr>n_api_key := ''key1''\<rparr>, (sample_node ''n2'')\<lparr>n_api_key := ''key2''\<rparr>],
      sv_commands = [sample_command], sv_groups = [], sv_hub = NewHub, sv_finalize = []\<rparr>"

definition sample_request :: "string \<Rightarrow> 'b \<Rightarrow> 'b request" where
  "sample_request key b =
     \<lparr>rq_authorization = ''Bearer '' @ key, rq_query = [],
      rq_params = [(''nodeID'', ''n1''), (''commandID'', ''c1'')], rq_ctx_node = [], rq_body = Parsed b\<rparr>"

lemma sample_server_ok:
  "sql_engine (e_nodes sample_env) n_id node_clash" "sql_engine (e_commands sample_env) c_id cmd_clash"
  "reliable_engine (e_nodes sample_env) n_id node_clash" "reliable_engine (e_commands sample_env) c_id cmd_clash"
  "unique_rows cmd_clash (sv_commands sample_server)" "unique_rows node_clash (sv_nodes sample_server)"
  "\<forall>n \<in> set (sv_nodes sample_server). n_id n \<noteq> []"
  using mem_sql mem_reliable
  by (simp_all add: sample_env_def sample_server_def unique_rows_def node_clash_def sample_node_def)

lemma sample_bearer [simp]: "extractBearer (rq_authorization (sample_request key b)) = key"
  by (simp add: sample_request_def extractBearer_def HasPrefix_def TrimPrefix_def)

section \<open>Properties\<close>

text \<open>
  C5. No node can reach another node's commands: a poll or a status report that is not made
  with the admin password either is refused with nothing changed, or carries the API key of a
  registered node; then it leaves every command of every other node, and the node table, as
  they were, and a poll returns commands of that node only.
\<close>
theorem agent_confined_to_own_commands:
  assumes "sql_engine (e_nodes e) n_id node_clash" and "sql_engine (e_commands e) c_id cmd_clash"
    and "unique_rows cmd_clash (sv_commands s)" and "\<forall>n \<in> set (sv_nodes s). n_id n \<noteq> []"
    and "extractBearer (rq_authorization rq) \<noteq> password" and "extractBearer (rq_authorization rq') \<noteq> password"
  shows
   "(refused (route_commands e password rq s) s \<or>
     (\<exists>n \<in> set (sv_nodes s). n_api_key n = extractBearer (rq_authorization rq) \<and>
        (let (r, s') = route_commands e password rq s in
         others (n_id n) (sv_commands s') = others (n_id n) (sv_commands s) \<and> sv_nodes s' = sv_nodes s \<and>
         (\<forall>out. resp_body r = Body (CommandsBody out) \<longrightarrow> (\<forall>c \<in> set out. c_node_id c = n_id n))))) \<and>
    (refused (route_status e password rq' s) s \<or>
     (\<exists>n \<in> set (sv_nodes s). n_api_key n = extractBearer (rq_authorization rq') \<and>
        (let (r, s') = route_status e password rq' s in
         others (n_id n) (sv_commands s') = others (n_id n) (sv_commands s) \<and> sv_nodes s' = sv_nodes s)))"
proof
  have poll: "others (n_id n) (sv_commands (snd (GetCommands e (rq\<lparr>rq_ctx_node := n_id n\<rparr>) s))) = others (n_id n) (sv_commands s) \<and>
      sv_nodes (snd (GetCommands e (rq\<lparr>rq_ctx_node := n_id n\<rparr>) s)) = sv_nodes s \<and>
      (\<forall>out. resp_body (fst (GetCommands e (rq\<lparr>rq_ctx_node := n_id n\<rparr>) s)) = Body (CommandsBody out) \<longrightarrow>
         (\<forall>c \<in> set out. c_node_id c = n_id n))"
    if "n \<in> set (sv_nodes s)" for n
    using poll_confined [OF assms(2,3), of "rq\<lparr>rq_ctx_node := n_id n\<rparr>"] assms(4) that
    by (simp add: AuthNodeID_def)
  show "refused (route_commands e password rq s) s \<or>
     (\<exists>n \<in> set (sv_nodes s). n_api_key n = extractBearer (rq_authorization rq) \<and>
        (let (r, s') = route_commands e password rq s in
         others (n_id n) (sv_commands s') = others (n_id n) (sv_commands s) \<and> sv_nodes s' = sv_nodes s \<and>
         (\<forall>out. resp_body r = Body (CommandsBody out) \<longrightarrow> (\<forall>c \<in> set out. c_node_id c = n_id n))))"
    using agent_or_admin_lets_through [OF assms(1), of password "GetCommands e" rq s] poll assms(5)
    unfolding route_commands_def Let_def split_def by metis
  have report: "others (n_id n) (sv_commands (snd (UpdateStatusHandler e (rq'\<lparr>rq_ctx_node := n_id n\<rparr>) s))) = others (n_id n) (sv_commands s) \<and>
      sv_nodes (snd (UpdateStatusHandler e (rq'\<lparr>rq_ctx_node := n_id n\<rparr>) s)) = sv_nodes s"
    if "n \<in> set (sv_nodes s)" for n
    using status_confined [OF assms(2), of "rq'\<lparr>rq_ctx_node := n_id n\<rparr>"] assms(4) that
    by (simp add: AuthNodeID_def)
  show "refused (route_status e password rq' s) s \<or>
     (\<exists>n \<in> set (sv_nodes s). n_api_key n = extractBearer (rq_authorization rq') \<and>
        (let (r, s') = route_status e password rq' s in
         others (n_id n) (sv_commands s') = others (n_id n) (sv_commands s) \<and> sv_nodes s' = sv_nodes s))"
    using agent_or_admin_lets_through [OF assms(1), of password "UpdateStatusHandler e" rq' s] report assms(6)
    unfolding route_status_def Let_def split_def by metis
qed

theorem agent_confined_to_own_commands_witness:
  "refused (route_commands sample_env ''pw'' (sample_request ''key2'' ()) sample_server) sample_server \<or>
   (\<exists>n \<in> set (sv_nodes sample_server). n_api_key n = ''key2'' \<and>
      others (n_id n) (sv_commands (snd (route_commands sample_env ''pw'' (sample_request ''key2'' ()) sample_server)))
        = others (n_id n) (sv_commands sample_server))"
proof -
  have "''key2'' \<noteq> ''pw''" by simp
  then show ?thesis
    using agent_confined_to_own_commands [OF sample_server_ok(1,2,5,7), where password = "''pw''"
        and rq = "sample_request ''key2'' ()" and rq' = "sample_request ''key2'' \<lparr>us_phase = [], us_result = []\<rparr>"]
    unfolding sample_bearer Let_def split_def by blast
qed

text \<open>
  A heartbeat moves only the row of the node whose API key it carries: it is refused with
  nothing changed, or the path names that node, and then every other node, the commands and
  the groups are as they were.
\<close>
theorem heartbeat_confined_to_own_node:
  assumes "sql_engine (e_nodes e) n_id node_clash"
  shows "refused (route_heartbeat e rq s) s \<or>
    (\<exists>n \<in> set (sv_nodes s). n_api_key n = extractBearer (rq_authorization rq) \<and> n_id n = Param rq ''nodeID'' \<and>
       (let s' = snd (route_heartbeat e rq s) in
        filter (\<lambda>m. n_id m \<noteq> n_id n) (sv_nodes s') = filter (\<lambda>m. n_id m \<noteq> n_id n) (sv_nodes s) \<and>
        sv_commands s' = sv_commands s \<and> sv_groups s' = sv_groups s))"
proof -
  have param: "Param (rq\<lparr>rq_ctx_node := x\<rparr>) p = Param rq p" for x p by (simp add: Param_def)
  have req: "refused (RequireNodeMatch (Heartbeat e) (rq\<lparr>rq_ctx_node := n_id n\<rparr>) s) s \<or>
      n_id n = Param rq ''nodeID'' \<and>
      RequireNodeMatch (Heartbeat e) (rq\<lparr>rq_ctx_node := n_id n\<rparr>) s = Heartbeat e (rq\<lparr>rq_ctx_node := n_id n\<rparr>) s" for n
    by (auto simp: RequireNodeMatch_def Let_def AuthNodeID_def param refused_def)
  consider "refused (route_heartbeat e rq s) s"
    | n where "n \<in> set (sv_nodes s)" "n_api_key n = extractBearer (rq_authorization rq)"
        "route_heartbeat e rq s = RequireNodeMatch (Heartbeat e) (rq\<lparr>rq_ctx_node := n_id n\<rparr>) s"
    using api_key_lets_through [OF assms, of "RequireNodeMatch (Heartbeat e)" rq s]
    unfolding route_heartbeat_def by blast
  then show ?thesis
  proof cases
    case (2 n)
    then show ?thesis
      using req [of n] heartbeat_confined [OF assms, of "rq\<lparr>rq_ctx_node := n_id n\<rparr>" s]
      unfolding param Let_def by metis
  qed blast
qed

theorem heartbeat_confined_to_own_node_witness:
  "refused (route_heartbeat sample_env
     (sample_request ''key2'' \<lparr>hr_agent_version = [], hr_os_release = [], hr_addresses = None, hr_boot_state = []\<rparr>)
     sample_server) sample_server"
proof -
  let ?rq = "sample_request ''key2'' \<lparr>hr_agent_version = [], hr_os_release = [], hr_addresses = None, hr_boot_state = []\<rparr>"
  have "\<not> (\<exists>n \<in> set (sv_nodes sample_server). n_api_key n = ''key2'' \<and> n_id n = Param ?rq ''nodeID'')"
    by (simp add: sample_server_def sample_node_def Param_def map_index_def sample_request_def)
  then show ?thesis
    using heartbeat_confined_to_own_node [OF sample_server_ok(1), of ?rq sample_server] by auto
qed

text \<open>
  A poll drains the queue: over engines that do not fail, an authenticated node's poll
  returns exactly its pending commands that have not expired, marked delivered, and leaves no
  such command behind, so polling again returns nothing.
\<close>
theorem poll_returns_pending_once:
  assumes "reliable_engine (e_commands e) c_id cmd_clash" and "unique_rows cmd_clash (sv_commands s)"
    and "AuthNodeID rq = Param rq ''nodeID''" and "AuthNodeID rq \<noteq> []"
  shows "\<exists>out s'. GetCommands e rq s = (Response 200 (Body (CommandsBody out)), s') \<and>
    set out = deliver (e_now e) ` {c \<in> set (sv_commands s). c_node_id c = AuthNodeID rq \<and> c_phase c = CommandPending \<and>
                (case c_expires_at c of None \<Rightarrow> True | Some x \<Rightarrow> x > e_now e)} \<and>
    distinct (map c_id out) \<and>
    GetCommands e rq s' = (Response 200 (Body (CommandsBody [])), s')"
proof -
  let ?due = "\<lambda>c. c_node_id c = AuthNodeID rq \<and> c_phase c = CommandPending \<and>
      (case c_expires_at c of None \<Rightarrow> True | Some x \<Rightarrow> x > e_now e)"
  have sql: "sql_engine (e_commands e) c_id cmd_clash" using reliable_engine.axioms(1) [OF assms(1)] .
  have pend: "\<exists>cmds. GetPending (e_commands e) (e_now e) (AuthNodeID rq) t = Inr cmds" for t
    unfolding GetPending_def using reliable_engine.db_find_total [OF assms(1)] by blast
  obtain cmds where cmds: "GetPending (e_commands e) (e_now e) (AuthNodeID rq) (sv_commands s) = Inr cmds"
    using pend by blast
  have set: "set cmds = {c \<in> set (sv_commands s). ?due c}"
    using pending_of_node [OF sql assms(2) cmds] by blast
  have "mset cmds = mset (filter ?due (sv_commands s))"
    using sql_engine.db_find_mset [OF sql cmds [unfolded GetPending_def]] .
  then have "mset (map c_id cmds) = mset (map c_id (filter ?due (sv_commands s)))" by (simp only: mset_map)
  then have "distinct (map c_id cmds) = distinct (map c_id (filter ?due (sv_commands s)))"
    by (rule mset_eq_imp_distinct_iff)
  then have dist: "distinct (map c_id cmds)"
    using distinct_map_filter [OF unique_commands [OF assms(2)]] by blast
  let ?t' = "update_rows (\<lambda>c. c_id c \<in> c_id ` set cmds \<and> c_phase c = CommandPending) (deliver (e_now e)) (sv_commands s)"
  let ?s' = "s\<lparr>sv_commands := ?t'\<rparr>"
  have claim: "claim_pending e cmds [] s = (Inr (map (deliver (e_now e)) cmds), ?s')"
    using claim_pending_total [OF assms(1,2) dist, of "[]"] set by (fastforce simp: is_pending_def)
  obtain rest where rest: "GetPending (e_commands e) (e_now e) (AuthNodeID rq) ?t' = Inr rest" using pend by blast
  have "set rest = {c \<in> set ?t'. ?due c}"
    using pending_of_node [OF sql unique_commands_update [OF assms(2)] rest] by simp
  also have "\<dots> = {}" using set by (auto simp: set_update_rows)
  finally have "rest = []" by simp
  then have again: "GetCommands e rq ?s' = (Response 200 (Body (CommandsBody [])), ?s')"
    using rest assms(3,4) by (simp add: GetCommands_def Let_def)
  have "GetCommands e rq s = (Response 200 (Body (CommandsBody (map (deliver (e_now e)) cmds))), ?s')"
    using cmds claim assms(3,4) by (simp add: GetCommands_def Let_def)
  moreover have "distinct (map c_id (map (deliver (e_now e)) cmds))" using dist by (simp add: comp_def)
  moreover have "set (map (deliver (e_now e)) cmds) = deliver (e_now e) ` {c \<in> set (sv_commands s). ?due c}"
    using set by simp
  ultimately show ?thesis using again by blast
qed

theorem poll_returns_pending_once_witness:
  "\<exists>out s'. GetCommands sample_env ((sample_request ''key1'' ())\<lparr>rq_ctx_node := ''n1''\<rparr>) sample_server
       = (Response 200 (Body (CommandsBody out)), s') \<and>
     set out = {deliver 9 sample_command}"
proof -
  let ?rq = "(sample_request ''key1'' ())\<lparr>rq_ctx_node := ''n1''\<rparr>"
  have a: "AuthNodeID ?rq = Param ?rq ''nodeID''" "AuthNodeID ?rq \<noteq> []" "AuthNodeID ?rq = ''n1''"
    by (simp_all add: AuthNodeID_def Param_def map_index_def sample_request_def)
  have "{c \<in> set (sv_commands sample_server). c_node_id c = ''n1'' \<and> c_phase c = CommandPending \<and>
      (case c_expires_at c of None \<Rightarrow> True | Some x \<Rightarrow> x > e_now sample_env)} = {sample_command}"
    by (auto simp: sample_server_def sample_command_def)
  moreover have "e_now sample_env = 9" by (simp add: sample_env_def)
  ultimately show ?thesis
    using poll_returns_pending_once [OF sample_server_ok(4,5) a(1,2)] unfolding a(3) by fastforce
qed

text \<open>
  Registration is idempotent by machine id: when the machine is known, the answer is 200
  with the stored id and API key, no row is added or removed, and no column but the reset
  state and its timestamp changes.
\<close>
theorem register_known_machine:
  assumes "sql_engine (e_nodes e) n_id node_clash"
    and "rq_body rq = Parsed req" and "rr_machine_id req \<noteq> []"
    and "GetByMachineID (e_nodes e) (rr_machine_id req) (sv_nodes s) = Inr existing"
  shows "\<exists>s'. RegisterNode e rq s = (Response 200 (Body (RegisterBody (n_id existing) (n_api_key existing))), s') \<and>
    map (\<lambda>n. n\<lparr>n_reset_state := [], n_last_reset := None\<rparr>) (sv_nodes s') =
      map (\<lambda>n. n\<lparr>n_reset_state := [], n_last_reset := None\<rparr>) (sv_nodes s) \<and>
    sv_commands s' = sv_commands s"
proof -
  let ?g = "\<lambda>n. n\<lparr>n_reset_state := [], n_last_reset := None\<rparr>"
  have adv: "map ?g (snd (AdvanceReset (e_nodes e) now i from to stamp t)) = map ?g t" for now i "from" to stamp t
  proof -
    let ?p = "\<lambda>n. n_id n = i \<and> n_reset_state n \<in> set from"
    obtain r t' where u: "db_updates (e_nodes e) ?p (reset_columns now to stamp) t = (r, t')" by fastforce
    have "t' = t \<or> t' = update_rows ?p (reset_columns now to stamp) t"
      using u by (cases r) (auto dest: db_updates_Inl sql_engine.db_updates_Inr [OF assms(1)])
    moreover have "snd (AdvanceReset (e_nodes e) now i from to stamp t) = t'"
      using u by (simp add: AdvanceReset_def split: sum.splits)
    ultimately show ?thesis by (auto intro!: map_update_rows simp: reset_columns_def Let_def)
  qed
  let ?s' = "resolveReset e existing (rr_boot_state req) (triggerFinalize e (n_id existing) s)"
  have "map ?g (sv_nodes ?s') = map ?g (sv_nodes s)" "sv_commands ?s' = sv_commands s"
    using adv by (simp_all add: resolveReset_def triggerFinalize_def on_nodes_eq Let_def)
  then show ?thesis using assms(2-4) by (simp add: RegisterNode_def)
qed

definition sample_registration :: register_request where
  "sample_registration =
     \<lparr>rr_token = [], rr_machine_id = ''n1'', rr_hostname = [], rr_agent_version = [], rr_addresses = None,
      rr_boot_state = BootStateActive\<rparr>"

theorem register_known_machine_witness:
  "resp_body (fst (RegisterNode sample_env (sample_request [] sample_registration) sample_server)) =
     Body (RegisterBody ''n1'' ''key1'')"
proof -
  have b: "rq_body (sample_request [] sample_registration) = Parsed sample_registration" by (simp add: sample_request_def)
  have m: "rr_machine_id sample_registration \<noteq> []" by (simp add: sample_registration_def)
  have g: "GetByMachineID (e_nodes sample_env) (rr_machine_id sample_registration) (sv_nodes sample_server) =
      Inr ((sample_node ''n1'')\<lparr>n_api_key := ''key1''\<rparr>)"
    by (simp add: GetByMachineID_def db_first_def sample_env_def sample_server_def sample_registration_def sample_node_def)
  from register_known_machine [OF sample_server_ok(1) b m g] show ?thesis by (auto simp: sample_node_def)
qed

text \<open>The transition a reported boot state stands for: the new reset state, and whether it is stamped.\<close>

definition reset_outcome :: "string \<Rightarrow> string \<Rightarrow> (string \<times> bool) option" where
  "reset_outcome boot st =
     (if boot = BootStateAutoReset \<and> st = ResetStatePending then Some (ResetStateInProgress, False)
      else if boot = BootStateActive \<and> st \<in> {ResetStatePending, ResetStateInProgress} then Some (ResetStateDone, True)
      else if boot \<in> {BootStatePassive, BootStateRecovery} \<and> st \<in> {ResetStatePending, ResetStateInProgress}
      then Some (ResetStateFailed, False)
      else None)"

definition reset_row :: "instant \<Rightarrow> string \<Rightarrow> managed_node \<Rightarrow> managed_node" where
  "reset_row now boot n =
     (case reset_outcome boot (n_reset_state n) of
        None \<Rightarrow> n
      | Some (to, stamp) \<Rightarrow> reset_columns now to stamp n)"

lemma advance_reset_total:
  assumes "reliable_engine eng n_id node_clash" and "unique_rows node_clash t"
  shows "snd (AdvanceReset eng now i S to stamp t) =
    update_rows (\<lambda>n. n_id n = i \<and> n_reset_state n \<in> set S) (reset_columns now to stamp) t"
proof -
  have "unique_rows node_clash (update_rows (\<lambda>n. n_id n = i \<and> n_reset_state n \<in> set S) (reset_columns now to stamp) t)"
    by (rule unique_rows_update_mono [OF assms(2)]) (auto simp: node_clash_def split: if_splits)
  then show ?thesis using reliable_engine.db_updates_total [OF assms(1)] by (simp add: AdvanceReset_def)
qed

lemma update_rows_reset:
  assumes "\<And>st. reset_outcome boot st = (if st \<in> set S then Some (to, stamp) else None)"
  shows "update_rows (\<lambda>n. n_id n = i \<and> n_reset_state n \<in> set S) (reset_columns now to stamp) t =
    update_rows (\<lambda>n. n_id n = i) (reset_row now boot) t"
  using assms by (induction t) (simp_all add: reset_row_def)

text \<open>
  The reset lifecycle of a re-registering node, over an engine that does not fail: only a
  node that awaits a reset moves; the boot state autoreset takes pending to in-progress, active
  takes an in-flight reset to done and stamps it, passive and recovery take it to failed, and
  any other boot state changes nothing. No other node is touched.
\<close>
theorem reset_resolution:
  assumes "reliable_engine (e_nodes e) n_id node_clash" and "unique_rows node_clash (sv_nodes s)"
    and "node \<in> set (sv_nodes s)"
  shows "resolveReset e node boot s =
    s\<lparr>sv_nodes := map (\<lambda>n. if n_id n = n_id node then reset_row (e_now e) boot n else n) (sv_nodes s)\<rparr>"
proof -
  note adv = advance_reset_total [OF assms(1,2)]
  have stay: "resolveReset e node boot s =
      s\<lparr>sv_nodes := update_rows (\<lambda>n. n_id n = n_id node) (reset_row (e_now e) boot) (sv_nodes s)\<rparr>"
    if "reset_outcome boot (n_reset_state node) = None" "resolveReset e node boot s = s"
  proof -
    have "update_rows (\<lambda>n. n_id n = n_id node) (reset_row (e_now e) boot) (sv_nodes s) = sv_nodes s"
      unfolding update_rows_def
      by (rule map_idI) (use that(1) in \<open>auto simp: reset_row_def dest!: same_id_same_node [OF assms(2) _ assms(3)]\<close>)
    then show ?thesis using that(2) by simp
  qed
  have "resolveReset e node boot s =
      s\<lparr>sv_nodes := update_rows (\<lambda>n. n_id n = n_id node) (reset_row (e_now e) boot) (sv_nodes s)\<rparr>"
  proof (cases "n_reset_state node = ResetStatePending \<or> n_reset_state node = ResetStateInProgress")
    case False
    then show ?thesis by (intro stay) (simp_all add: resolveReset_def Let_def reset_outcome_def)
  next
    case True
    consider "boot = BootStateAutoReset" | "boot = BootStateActive" | "boot = BootStatePassive \<or> boot = BootStateRecovery"
      | "boot \<notin> {BootStateAutoReset, BootStateActive, BootStatePassive, BootStateRecovery}" by blast
    then show ?thesis
    proof cases
      case 1
      then have "reset_outcome boot st = (if st \<in> set [ResetStatePending] then Some (ResetStateInProgress, False) else None)" for st
        by (simp add: reset_outcome_def)
      from update_rows_reset [OF this] show ?thesis using True 1 by (auto simp: resolveReset_def Let_def on_nodes_eq adv)
    next
      case 2
      then have "reset_outcome boot st =
          (if st \<in> set [ResetStatePending, ResetStateInProgress] then Some (ResetStateDone, True) else None)" for st
        by (simp add: reset_outcome_def)
      from update_rows_reset [OF this] show ?thesis using True 2 by (auto simp: resolveReset_def Let_def on_nodes_eq adv)
    next
      case 3
      then have "reset_outcome boot st =
          (if st \<in> set [ResetStatePending, ResetStateInProgress] then Some (ResetStateFailed, False) else None)" for st
        by (auto simp: reset_outcome_def)
      from update_rows_reset [OF this] show ?thesis using True 3 by (auto simp: resolveReset_def Let_def on_nodes_eq adv)
    next
      case 4
      then show ?thesis by (intro stay) (simp_all add: resolveReset_def Let_def reset_outcome_def)
    qed
  qed
  then show ?thesis by (simp add: update_rows_def)
qed

theorem reset_resolution_witness:
  "let n = (sample_node ''n1'')\<lparr>n_reset_state := ResetStatePending\<rparr>;
       s = sample_server\<lparr>sv_nodes := [n]\<rparr>
   in map n_reset_state (sv_nodes (resolveReset sample_env n BootStateActive s)) = [ResetStateDone]"
proof -
  let ?n = "(sample_node ''n1'')\<lparr>n_reset_state := ResetStatePending\<rparr>"
  let ?s = "sample_server\<lparr>sv_nodes := [?n]\<rparr>"
  have "unique_rows node_clash (sv_nodes ?s)" by (simp add: unique_rows_def)
  from reset_resolution [OF sample_server_ok(3) this, of ?n BootStateActive] show ?thesis
    by (simp add: Let_def reset_row_def reset_outcome_def)
qed

text \<open>
  A command whose push fails is lost. Decommission reports that the node is online and
  names the command, but when the write to the socket fails the command is already marked
  delivered: no frame was written, no later poll of the node returns it, and it stays so.
\<close>
theorem failed_push_loses_command:
  assumes "reliable_engine (e_nodes e) n_id node_clash" and "reliable_engine (e_commands e) c_id cmd_clash"
    and "unique_rows cmd_clash (sv_commands s)" and "\<forall>c \<in> set (sv_commands s). c_id c \<noteq> e_uuid e 0"
    and "node \<in> set (sv_nodes s)" and "n_id node = Param rq ''nodeID''"
    and "IsOnline (n_id node) (sv_hub s)" and "\<forall>c m. \<not> e_write e c m"
  shows "\<exists>s'. Decommission e rq s = (Response 200 (Body (DecommissionBody (e_uuid e 0) True)), s') \<and>
    h_wire (sv_hub s') = h_wire (sv_hub s) \<and>
    (\<forall>now cmds. GetPending (e_commands e) now (n_id node) (sv_commands s') = Inr cmds \<longrightarrow>
       e_uuid e 0 \<notin> c_id ` set cmds)"
proof -
  let ?u = "e_uuid e 0"
  let ?cmd = "new_command (n_id node) ''unregister'' [] (Some (e_now e + decommissionTimeout))
      \<lparr>c_id := ?u, c_phase := CommandPending, c_created_at := e_now e\<rparr>"
  let ?t1 = "sv_commands s @ [?cmd]"
  have get: "\<exists>n. NodeGetByID (e_nodes e) (n_id node) (sv_nodes s) = Inr n"
    using reliable_engine.db_first_total [OF assms(1) assms(5), of "\<lambda>n. n_id n = n_id node"]
    by (auto simp: NodeGetByID_def)
  have create: "db_create (e_commands e) ?cmd (sv_commands s) = (Inr (), ?t1)"
    using assms(4) by (intro reliable_engine.db_create_total [OF assms(2)]) (simp add: cmd_clash_def)
  have u1: "unique_rows cmd_clash ?t1"
    using assms(3,4) by (simp add: unique_rows_def sorted_wrt_append cmd_clash_def)
  have "is_pending ?u ?t1" by (simp add: is_pending_def)
  then have claim: "ClaimForDelivery (e_commands e) (e_now e) ?u ?t1 =
      (Inr True, update_rows (\<lambda>c. c_id c = ?u \<and> c_phase c = CommandPending) (deliver (e_now e)) ?t1)"
    using claim_reliable [OF assms(2) u1] by simp
  let ?t2 = "update_rows (\<lambda>c. c_id c = ?u \<and> c_phase c = CommandPending) (deliver (e_now e)) ?t1"
  have send: "snd (SendCommand (e_write e) i d h) = h" for i d h
    using assms(8) by (simp add: SendCommand_def writeMessage_def split: option.splits)
  have "Decommission e rq s = (Response 200 (Body (DecommissionBody ?u True)), s\<lparr>sv_commands := ?t2\<rparr>)"
    using get assms(6,7) create claim
    by (auto simp: Decommission_def Let_def CommandCreate_def on_commands_eq claim_and_send_def send)
  moreover have "?u \<notin> c_id ` set cmds" if "GetPending (e_commands e) now (n_id node) ?t2 = Inr cmds" for now cmds
  proof -
    have "set cmds \<subseteq> {c \<in> set ?t2. c_phase c = CommandPending}"
      using pending_of_node [OF reliable_engine.axioms(1) [OF assms(2)] unique_commands_update [OF u1] that] by auto
    then show ?thesis using claimed_not_pending [of ?u "e_now e" ?t1] by (auto simp: is_pending_def)
  qed
  ultimately show ?thesis by auto
qed

theorem failed_push_loses_command_witness:
  "let e = sample_env\<lparr>e_write := \<lambda>c m. False\<rparr>; s = sample_server\<lparr>sv_hub := HubRegister ''n1'' 4 NewHub\<rparr>
   in fst (Decommission e (sample_request [] ()) s) = Response 200 (Body (DecommissionBody ''u'' True)) \<and>
      h_wire (sv_hub (snd (Decommission e (sample_request [] ()) s))) = []"
proof -
  let ?e = "sample_env\<lparr>e_write := \<lambda>c m. False\<rparr>"
  let ?s = "sample_server\<lparr>sv_hub := HubRegister ''n1'' 4 NewHub\<rparr>"
  let ?n = "(sample_node ''n1'')\<lparr>n_api_key := ''key1''\<rparr>"
  have "\<exists>s'. Decommission ?e (sample_request [] ()) ?s = (Response 200 (Body (DecommissionBody (e_uuid ?e 0) True)), s') \<and>
    h_wire (sv_hub s') = h_wire (sv_hub ?s) \<and>
    (\<forall>now cmds. GetPending (e_commands ?e) now (n_id ?n) (sv_commands s') = Inr cmds \<longrightarrow> e_uuid ?e 0 \<notin> c_id ` set cmds)"
    by (rule failed_push_loses_command)
      (use sample_server_ok in \<open>simp_all add: sample_env_def sample_server_def sample_node_def sample_command_def
        sample_request_def Param_def map_index_def IsOnline_def HubRegister_def NewHub_def\<close>)
  then show ?thesis
    by (auto simp: Let_def sample_env_def HubRegister_def NewHub_def)
qed

text \<open>
  Release answers by who holds the node, over engines that do not fail: 404 for an unknown
  node, 200 with released=false for a free one, 409 with code ClaimMismatch for one held under
  another key; only when the caller's own key holds it is the claim cleared. The state changes
  in no other case.
\<close>
theorem release_answers:
  assumes "reliable_engine (e_nodes e) n_id node_clash" and "unique_rows node_clash (sv_nodes s)"
    and "rq_body rq = Parsed k" and "k \<noteq> []"
  shows "ReleaseHandler e rq s =
    (let i = Param rq ''nodeID'' in
     case find (\<lambda>n. n_id n = i) (sv_nodes s) of
       None \<Rightarrow> (Response 404 (ErrorBody ''node not found''), s)
     | Some n \<Rightarrow>
         (if n_claim_key n = None then (Response 200 (Body (ReleaseBody False)), s)
          else if n_claim_key n \<noteq> Some k
          then (Response 409 (ErrorCode ''node is claimed by a different key'' ''ClaimMismatch''), s)
          else (Response 200 (Body (ReleaseBody True)),
                s\<lparr>sv_nodes := map (\<lambda>m. if n_id m = i then m\<lparr>n_claim_key := None, n_claimed_at := None\<rparr> else m)
                                (sv_nodes s)\<rparr>)))"
proof (cases "find (\<lambda>n. n_id n = Param rq ''nodeID'') (sv_nodes s)")
  case None
  then have "NodeGetByID (e_nodes e) (Param rq ''nodeID'') (sv_nodes s) = Inl RecordNotFound"
    unfolding NodeGetByID_def by (intro reliable_engine.db_first_missing [OF assms(1)]) (auto simp: find_None_iff)
  then show ?thesis using None assms(3,4) by (simp add: ReleaseHandler_def)
next
  case (Some n)
  then have n: "n \<in> set (sv_nodes s)" "n_id n = Param rq ''nodeID''" by (auto dest: find_Some_iff_first)
  have only: "m = n" if "m \<in> set (sv_nodes s)" "n_id m = Param rq ''nodeID''" for m
    using same_id_same_node [OF assms(2) that(1) n(1)] that(2) n(2) by simp
  obtain m where m: "db_first (e_nodes e) (\<lambda>n. n_id n = Param rq ''nodeID'') (sv_nodes s) = Inr m"
      "m \<in> set (sv_nodes s)" "n_id m = Param rq ''nodeID''"
    using reliable_engine.db_first_total [OF assms(1) n(1), of "\<lambda>n. n_id n = Param rq ''nodeID''"] n(2) by auto
  then have get: "NodeGetByID (e_nodes e) (Param rq ''nodeID'') (sv_nodes s) = Inr n"
    using only by (simp add: NodeGetByID_def)
  show ?thesis
  proof (cases "n_claim_key n = Some k")
    case True
    have "unique_rows node_clash (update_rows (\<lambda>m. n_id m = n_id n \<and> n_claim_key m = Some k)
        (\<lambda>m. m\<lparr>n_claim_key := None, n_claimed_at := None\<rparr>) (sv_nodes s))"
      by (rule unique_rows_update_mono [OF assms(2)]) (auto simp: node_clash_def split: if_splits)
    then have "db_updates (e_nodes e) (\<lambda>m. n_id m = n_id n \<and> n_claim_key m = Some k)
        (\<lambda>m. m\<lparr>n_claim_key := None, n_claimed_at := None\<rparr>) (sv_nodes s) =
        (Inr (length (filter (\<lambda>m. n_id m = n_id n \<and> n_claim_key m = Some k) (sv_nodes s))),
         update_rows (\<lambda>m. n_id m = n_id n \<and> n_claim_key m = Some k)
           (\<lambda>m. m\<lparr>n_claim_key := None, n_claimed_at := None\<rparr>) (sv_nodes s))"
      by (rule reliable_engine.db_updates_total [OF assms(1)])
    moreover have "length (filter (\<lambda>m. n_id m = n_id n \<and> n_claim_key m = Some k) (sv_nodes s)) = 1"
      using distinct_filter_one [OF unique_nodes [OF assms(2)], of "n_id n" "\<lambda>m. n_claim_key m = Some k"] n True by auto
    moreover have "update_rows (\<lambda>m. n_id m = n_id n \<and> n_claim_key m = Some k)
        (\<lambda>m. m\<lparr>n_claim_key := None, n_claimed_at := None\<rparr>) (sv_nodes s) =
        map (\<lambda>m. if n_id m = n_id n then m\<lparr>n_claim_key := None, n_claimed_at := None\<rparr> else m) (sv_nodes s)"
      unfolding update_rows_def using only n(2) True by auto
    ultimately show ?thesis
      using Some get True assms(3,4) n(2)
      by (simp add: ReleaseHandler_def ReleaseNode_def on_nodes_eq Let_def)
  next
    case False
    then show ?thesis
      using Some get assms(3,4) by (auto simp: ReleaseHandler_def Let_def split: option.splits)
  qed
qed

theorem release_answers_witness:
  "fst (ReleaseHandler sample_env (sample_request [] ''k'') sample_server) = Response 200 (Body (ReleaseBody False))"
  using release_answers [OF sample_server_ok(3,6), of "sample_request [] ''k''" "''k''"]
  by (simp add: sample_request_def Param_def map_index_def sample_server_def sample_node_def Let_def)

end
