(* ===== verification/Agent_Socket.thy ===== *)
theory Agent_Socket
  imports Fleet_Handlers
begin

text \<open>
  The agent's WebSocket (\<^verbatim>\<open>pkg/ws/handler.go\<close>): connecting, the messages of the
  read loop, and the teardown. The goroutine of each connection runs \<open>HandleAgentWS\<close>;
  \<open>socket_step\<close> executes one of its events, so a list of events is an interleaving of the
  goroutines. A session is the connection and the node it authenticated as.
\<close>

record heartbeat_data =
  hb_agent_version :: string
  hb_os_release :: strmap
  hb_labels :: strmap

record status_data =
  sd_id :: string
  sd_phase :: string
  sd_result :: string

text \<open>
  A message of the read loop: not JSON, one of the two known types with its data (or data that
  does not unmarshal), or an unknown type.
\<close>

datatype agent_msg =
    BadMessage
  | HeartbeatMsg "heartbeat_data option"
  | StatusMsg "status_data option"
  | UnknownMsg string

fun send_claimed :: "env \<Rightarrow> conn \<Rightarrow> node_command list \<Rightarrow> server \<Rightarrow> server" where
  "send_claimed e c [] s = s"
| "send_claimed e c (cmd # cmds) s =
     (case on_commands (ClaimForDelivery (e_commands e) (e_now e) (c_id cmd)) s of
        (Inl _, s') \<Rightarrow> send_claimed e c cmds s'
      | (Inr claimed, s') \<Rightarrow>
          (if \<not> claimed then send_claimed e c cmds s'
           else case writeMessage (e_write e) c \<lparr>m_type = ''command'', m_data = command_payload cmd\<rparr> (sv_hub s') of
             (True, h) \<Rightarrow> send_claimed e c cmds (s'\<lparr>sv_hub := h\<rparr>)
           | (False, h) \<Rightarrow> s'\<lparr>sv_hub := h\<rparr>))"

definition sendPendingCommands :: "env \<Rightarrow> string \<Rightarrow> conn \<Rightarrow> server \<Rightarrow> server" where
  "sendPendingCommands e nodeID c s =
     (case GetPending (e_commands e) (e_now e) nodeID (sv_commands s) of
        Inl _ \<Rightarrow> s
      | Inr cmds \<Rightarrow> send_claimed e c cmds s)"

text \<open>Errors of the two writes are logged and the handler goes on.\<close>

definition handleHeartbeat :: "env \<Rightarrow> string \<Rightarrow> heartbeat_data option \<Rightarrow> server \<Rightarrow> server" where
  "handleHeartbeat e nodeID data s =
     (case data of
        None \<Rightarrow> s
      | Some hb \<Rightarrow>
          (let s1 = snd (on_nodes (UpdateHeartbeat (e_nodes e) (e_now e) nodeID (hb_agent_version hb)
                      (hb_os_release hb) None []) s);
               s2 = snd (on_nodes (UpdatePhase (e_nodes e) nodeID PhaseOnline) s1)
           in triggerFinalize e nodeID s2))"

definition handleCommandStatus :: "env \<Rightarrow> string \<Rightarrow> status_data option \<Rightarrow> server \<Rightarrow> server" where
  "handleCommandStatus e nodeID data s =
     (case data of
        None \<Rightarrow> s
      | Some st \<Rightarrow>
          (case on_commands (UpdateStatusForNode (e_commands e) (e_now e) (sd_id st) nodeID
                   (sd_phase st) (sd_result st)) s of
             (Inl _, s') \<Rightarrow> s'
           | (Inr _, s') \<Rightarrow>
               s'\<lparr>sv_hub := Broadcast (e_write e)
                    \<lparr>m_type = ''command_update'', m_data = CommandStatusData (sd_id st) (sd_phase st) (sd_result st)\<rparr>
                    (sv_hub s')\<rparr>))"

section \<open>Sessions\<close>

record sockets =
  ss_server :: server
  ss_sessions :: "(conn \<times> string) list"

datatype socket_event =
    Connect conn string
  | Receive conn agent_msg
  | Disconnect conn

text \<open>The part of \<^verbatim>\<open>HandleAgentWS\<close> before the read loop, after a successful upgrade.\<close>

definition agent_connect :: "env \<Rightarrow> conn \<Rightarrow> string \<Rightarrow> sockets \<Rightarrow> sockets" where
  "agent_connect e c token ss =
     (let s = ss_server ss in
      if token = [] then ss
      else case GetByAPIKey (e_nodes e) token (sv_nodes s) of
        Inl _ \<Rightarrow> ss
      | Inr node \<Rightarrow>
          (let s1 = s\<lparr>sv_hub := HubRegister (n_id node) c (sv_hub s)\<rparr>;
               s2 = snd (on_nodes (UpdatePhase (e_nodes e) (n_id node) PhaseOnline) s1)
           in ss\<lparr>ss_server := sendPendingCommands e (n_id node) c s2,
                ss_sessions := AList.update c (n_id node) (ss_sessions ss)\<rparr>))"

text \<open>One turn of the read loop.\<close>

definition agent_receive :: "env \<Rightarrow> string \<Rightarrow> agent_msg \<Rightarrow> server \<Rightarrow> server" where
  "agent_receive e nodeID msg s =
     (case msg of
        BadMessage \<Rightarrow> s
      | HeartbeatMsg data \<Rightarrow> handleHeartbeat e nodeID data s
      | StatusMsg data \<Rightarrow> handleCommandStatus e nodeID data s
      | UnknownMsg _ \<Rightarrow> s)"

text \<open>The deferred teardown when the read loop returns.\<close>

definition agent_disconnect :: "env \<Rightarrow> string \<Rightarrow> server \<Rightarrow> server" where
  "agent_disconnect e nodeID s =
     (let s1 = s\<lparr>sv_hub := HubUnregister nodeID (sv_hub s)\<rparr>
      in snd (on_nodes (UpdatePhase (e_nodes e) nodeID PhaseOffline) s1))"

fun socket_step :: "env \<Rightarrow> socket_event \<Rightarrow> sockets \<Rightarrow> sockets" where
  "socket_step e (Connect c token) ss = agent_connect e c token ss"
| "socket_step e (Receive c msg) ss =
     (case map_of (ss_sessions ss) c of
        None \<Rightarrow> ss
      | Some nodeID \<Rightarrow> ss\<lparr>ss_server := agent_receive e nodeID msg (ss_server ss)\<rparr>)"
| "socket_step e (Disconnect c) ss =
     (case map_of (ss_sessions ss) c of
        None \<Rightarrow> ss
      | Some nodeID \<Rightarrow> ss\<lparr>ss_server := agent_disconnect e nodeID (ss_server ss),
                        ss_sessions := AList.delete c (ss_sessions ss)\<rparr>)"

section \<open>Which connection a command goes to\<close>

text \<open>
  A command frame on the wire is addressed correctly when its connection authenticated as the
  node the command is for. \<open>home\<close> gives the node of a command id, \<open>who\<close> the node a
  connection authenticated as.
\<close>

definition hub_honest :: "(conn \<Rightarrow> string option) \<Rightarrow> hub \<Rightarrow> bool" where
  "hub_honest who h = (\<forall>(n, c) \<in> set (h_conns h). who c = Some n)"

definition addressed :: "(conn \<Rightarrow> string option) \<Rightarrow> (string \<Rightarrow> string) \<Rightarrow> conn \<times> ws_message \<Rightarrow> bool" where
  "addressed who home fr =
     (case m_data (snd fr) of
        CommandData i cmd args \<Rightarrow> m_type (snd fr) = ''command'' \<longrightarrow> who (fst fr) = Some (home i)
      | _ \<Rightarrow> True)"

lemma push_addressed:
  assumes "hub_honest who (sv_hub s)" and "\<forall>f \<in> set (h_wire (sv_hub s)). addressed who home f"
    and "home (c_id cmd) = c_node_id cmd"
  shows "(\<forall>f \<in> set (h_wire (sv_hub (pushCommand e cmd s))). addressed who home f) \<and>
    h_conns (sv_hub (pushCommand e cmd s)) = h_conns (sv_hub s)"
proof -
  have "(\<forall>f \<in> set (h_wire (snd (SendCommand w (c_node_id cmd) (command_payload cmd) (sv_hub s)))). addressed who home f) \<and>
    h_conns (snd (SendCommand w (c_node_id cmd) (command_payload cmd) (sv_hub s))) = h_conns (sv_hub s)" for w
    using assms
    by (auto simp: SendCommand_def writeMessage_def addressed_def command_payload_def hub_honest_def
        split: option.splits dest: map_of_SomeD)
  then show ?thesis
    using assms(2) by (auto simp: pushCommand_def claim_and_send_def on_commands_eq split: sum.splits bool.splits)
qed

lemma send_claimed_addressed:
  assumes "\<forall>f \<in> set (h_wire (sv_hub s)). addressed who home f"
    and "\<forall>cmd \<in> set cmds. who c = Some (home (c_id cmd))"
  shows "(\<forall>f \<in> set (h_wire (sv_hub (send_claimed e c cmds s))). addressed who home f) \<and>
    h_conns (sv_hub (send_claimed e c cmds s)) = h_conns (sv_hub s)"
  using assms
proof (induction cmds arbitrary: s)
  case (Cons cmd cmds)
  obtain r t where cl: "ClaimForDelivery (e_commands e) (e_now e) (c_id cmd) (sv_commands s) = (r, t)" by fastforce
  obtain ok h where wr: "writeMessage (e_write e) c \<lparr>m_type = ''command'', m_data = command_payload cmd\<rparr> (sv_hub s) = (ok, h)"
    by fastforce
  have h: "\<forall>f \<in> set (h_wire h). addressed who home f" "h_conns h = h_conns (sv_hub s)"
    using wr Cons.prems by (auto simp: writeMessage_def addressed_def command_payload_def split: if_splits)
  have rest: "\<forall>cmd \<in> set cmds. who c = Some (home (c_id cmd))" using Cons.prems(2) by auto
  let ?s1 = "s\<lparr>sv_commands := t\<rparr>" and ?s2 = "s\<lparr>sv_commands := t, sv_hub := h\<rparr>"
  have "send_claimed e c (cmd # cmds) s = send_claimed e c cmds ?s1 \<or>
      send_claimed e c (cmd # cmds) s = send_claimed e c cmds ?s2 \<or> send_claimed e c (cmd # cmds) s = ?s2"
    using cl wr by (cases r; cases ok) (simp_all add: on_commands_eq)
  moreover have "(\<forall>f \<in> set (h_wire (sv_hub (send_claimed e c cmds ?s1))). addressed who home f) \<and>
      h_conns (sv_hub (send_claimed e c cmds ?s1)) = h_conns (sv_hub s)"
    using Cons.IH [of ?s1, OF _ rest] Cons.prems(1) by simp
  moreover have "(\<forall>f \<in> set (h_wire (sv_hub (send_claimed e c cmds ?s2))). addressed who home f) \<and>
      h_conns (sv_hub (send_claimed e c cmds ?s2)) = h_conns (sv_hub s)"
    using Cons.IH [of ?s2, OF _ rest] h by simp
  moreover have "(\<forall>f \<in> set (h_wire (sv_hub ?s2)). addressed who home f) \<and> h_conns (sv_hub ?s2) = h_conns (sv_hub s)"
    using h by simp
  ultimately show ?case by metis
qed simp

section \<open>Properties\<close>

text \<open>
  Commands reach only the agent they are for: a pushed command, and the backlog sent when
  an agent connects, are written only to a connection that authenticated as the command's own
  node, as long as the hub's entries are connections of the nodes they are filed under.
\<close>
theorem command_frames_reach_own_node:
  assumes "sql_engine (e_commands e) c_id cmd_clash" and "unique_rows cmd_clash (sv_commands s)"
    and "hub_honest who (sv_hub s)" and "\<forall>f \<in> set (h_wire (sv_hub s)). addressed who home f"
    and "\<forall>cmd \<in> set (sv_commands s). home (c_id cmd) = c_node_id cmd"
    and "cmd \<in> set (sv_commands s)" and "who c = Some nodeID"
  shows "(\<forall>f \<in> set (h_wire (sv_hub (pushCommand e cmd s))). addressed who home f) \<and>
    (\<forall>f \<in> set (h_wire (sv_hub (sendPendingCommands e nodeID c s))). addressed who home f)"
proof
  show "\<forall>f \<in> set (h_wire (sv_hub (pushCommand e cmd s))). addressed who home f"
    using push_addressed [OF assms(3,4)] assms(5,6) by blast
  show "\<forall>f \<in> set (h_wire (sv_hub (sendPendingCommands e nodeID c s))). addressed who home f"
  proof (cases "GetPending (e_commands e) (e_now e) nodeID (sv_commands s)")
    case (Inr cmds)
    have "\<forall>cmd \<in> set cmds. who c = Some (home (c_id cmd))"
      using pending_of_node [OF assms(1,2) Inr] assms(5,7) by auto
    then show ?thesis
      using send_claimed_addressed [OF assms(4)] Inr by (simp add: sendPendingCommands_def)
  qed (use assms(4) in \<open>simp add: sendPendingCommands_def\<close>)
qed

theorem command_frames_reach_own_node_witness:
  "list_all (addressed (\<lambda>c. if c = 4 then Some ''n1'' else None) (\<lambda>i. ''n1''))
     (h_wire (sv_hub (sendPendingCommands sample_env ''n1'' 4
       (sample_server\<lparr>sv_hub := HubRegister ''n1'' 4 NewHub\<rparr>))))"
proof -
  let ?s = "sample_server\<lparr>sv_hub := HubRegister ''n1'' 4 NewHub\<rparr>"
  let ?who = "\<lambda>c. if c = 4 then Some ''n1'' else None"
  have "hub_honest ?who (sv_hub ?s)" "\<forall>f \<in> set (h_wire (sv_hub ?s)). addressed ?who (\<lambda>i. ''n1'') f"
    by (simp_all add: hub_honest_def HubRegister_def NewHub_def)
  moreover have "\<forall>cmd \<in> set (sv_commands ?s). ''n1'' = c_node_id cmd" "sample_command \<in> set (sv_commands ?s)"
    by (simp_all add: sample_server_def sample_command_def)
  moreover have "unique_rows cmd_clash (sv_commands ?s)" using sample_server_ok(5) by simp
  ultimately have "(\<forall>f \<in> set (h_wire (sv_hub (pushCommand sample_env sample_command ?s))). addressed ?who (\<lambda>i. ''n1'') f) \<and>
      (\<forall>f \<in> set (h_wire (sv_hub (sendPendingCommands sample_env ''n1'' 4 ?s))). addressed ?who (\<lambda>i. ''n1'') f)"
    by (intro command_frames_reach_own_node [OF sample_server_ok(2)]) simp_all
  then show ?thesis by (simp add: list_all_iff)
qed

text \<open>
  The teardown of an old connection takes the node's new connection down with it: after a
  node has reconnected, the disconnect of the first connection removes the hub's entry by node
  id, so the node counts as offline, and is stored as Offline, while its second session is
  still open.
\<close>
theorem stale_disconnect_hides_live_connection:
  assumes "reliable_engine (e_nodes e) n_id node_clash" and "unique_rows node_clash (sv_nodes (ss_server ss))"
    and "map_of (ss_sessions ss) c1 = Some nodeID" and "map_of (ss_sessions ss) c2 = Some nodeID" and "c1 \<noteq> c2"
    and "map_of (h_conns (sv_hub (ss_server ss))) nodeID = Some c2"
  shows "let ss' = socket_step e (Disconnect c1) ss in
    map_of (ss_sessions ss') c2 = Some nodeID \<and> \<not> IsOnline nodeID (sv_hub (ss_server ss')) \<and>
    (\<forall>n \<in> set (sv_nodes (ss_server ss')). n_id n = nodeID \<longrightarrow> n_phase n = PhaseOffline) \<and>
    (\<forall>w d. fst (SendCommand w nodeID d (sv_hub (ss_server ss'))) = False)"
proof -
  let ?f = "\<lambda>n. n\<lparr>n_phase := PhaseOffline\<rparr>"
  have "unique_rows node_clash (update_rows (\<lambda>n. n_id n = nodeID) ?f (sv_nodes (ss_server ss)))"
    by (rule unique_rows_update_mono [OF assms(2)]) (auto simp: node_clash_def split: if_splits)
  then have upd: "snd (UpdatePhase (e_nodes e) nodeID PhaseOffline (sv_nodes (ss_server ss))) =
      update_rows (\<lambda>n. n_id n = nodeID) ?f (sv_nodes (ss_server ss))"
    using reliable_engine.db_updates_total [OF assms(1)] by (simp add: UpdatePhase_def)
  have gone: "map_of (AList.delete nodeID (h_conns (sv_hub (ss_server ss)))) nodeID = None"
    by (simp add: delete_conv')
  have step: "socket_step e (Disconnect c1) ss =
      ss\<lparr>ss_server := (ss_server ss)\<lparr>sv_hub := HubUnregister nodeID (sv_hub (ss_server ss)),
           sv_nodes := update_rows (\<lambda>n. n_id n = nodeID) ?f (sv_nodes (ss_server ss))\<rparr>,
         ss_sessions := AList.delete c1 (ss_sessions ss)\<rparr>"
    using assms(3) upd by (simp add: agent_disconnect_def on_nodes_eq)
  have "n_phase n = PhaseOffline"
    if hit: "n \<in> set (update_rows (\<lambda>n. n_id n = nodeID) ?f (sv_nodes (ss_server ss)))" and n: "n_id n = nodeID" for n
  proof -
    obtain y where "n = ?f y" using update_rows_hit [OF hit] n by blast
    then show ?thesis by simp
  qed
  then show ?thesis
    unfolding step Let_def using assms(4,5) gone by (simp add: HubUnregister_def IsOnline_def SendCommand_def)
qed

definition sample_sockets :: sockets where
  "sample_sockets =
     \<lparr>ss_server = sample_server\<lparr>sv_hub := HubRegister ''n1'' 5 (HubRegister ''n1'' 4 NewHub)\<rparr>,
      ss_sessions = [(4, ''n1''), (5, ''n1'')]\<rparr>"

theorem stale_disconnect_hides_live_connection_witness:
  "map_of (ss_sessions (socket_step sample_env (Disconnect 4) sample_sockets)) 5 = Some ''n1'' \<and>
   \<not> IsOnline ''n1'' (sv_hub (ss_server (socket_step sample_env (Disconnect 4) sample_sockets)))"
proof -
  have "unique_rows node_clash (sv_nodes (ss_server sample_sockets))"
    using sample_server_ok(6) by (simp add: sample_sockets_def)
  from stale_disconnect_hides_live_connection [OF sample_server_ok(3) this, of 4 "''n1''" 5]
  show ?thesis by (simp add: sample_sockets_def HubRegister_def NewHub_def Let_def)
qed

end
