(* ===== verification/Artifact_Store.thy ===== *)
theory Artifact_Store
  imports Store_Model Keyed_Table
begin

text \<open>
  Build artifacts and SecureBoot key sets (the \<^verbatim>\<open>ArtifactStore\<close> and
  \<^verbatim>\<open>SecureBootKeySetStore\<close> parts of \<^verbatim>\<open>internal/store/gorm/store.go\<close>).
  The columns that are only copied from a build request are grouped as the builder groups them
  (\<^verbatim>\<open>pkg/builder/builder.go\<close>): the source, the outputs and the recipe of the image.

  The operations differ in the columns they write, and builds, uploads and the log writer run
  concurrently; the last section proves what survives every interleaving.
\<close>

section \<open>Rows\<close>

record image_source =
  so_base_image :: string
  so_kairos_version :: string
  so_model :: string
  so_arch :: string
  so_variant :: string
  so_distro :: string
  so_kubernetes_version :: string
  so_insecure :: bool

record output_options =
  ou_iso :: bool
  ou_cloud_image :: bool
  ou_netboot :: bool
  ou_raw_disk :: bool
  ou_tar :: bool
  ou_gce :: bool
  ou_vhd :: bool
  ou_maas :: bool
  ou_uki :: bool
  ou_fips :: bool
  ou_trusted_boot :: bool

record image_recipe =
  re_dockerfile :: string
  re_init_image :: string
  re_hadron_base :: string
  re_hadron_firmware :: "string list"
  re_hadron_layers :: "string list"
  re_hadron_extra :: string

record artifact =
  ar_id :: string
  ar_name :: string
  ar_saved :: bool
  ar_phase :: string
  ar_message :: string
  ar_source :: image_source
  ar_outputs :: output_options
  ar_recipe :: image_recipe
  ar_auto_install :: bool
  ar_register :: bool
  ar_cloud_config :: string
  ar_kubernetes_enabled :: "bool option"
  ar_target_group :: string
  ar_container_image :: string
  ar_overlay :: string
  ar_files :: "string list"
  ar_logs :: string
  ar_upload_token :: string

abbreviation ArtifactPending :: string where "ArtifactPending \<equiv> ''Pending''"
abbreviation ArtifactBuilding :: string where "ArtifactBuilding \<equiv> ''Building''"
abbreviation ArtifactReady :: string where "ArtifactReady \<equiv> ''Ready''"
abbreviation ArtifactError :: string where "ArtifactError \<equiv> ''Error''"

definition artifact_clash :: "artifact \<Rightarrow> artifact \<Rightarrow> bool" where
  "artifact_clash x y = (ar_id x = ar_id y)"

type_synonym artifacts = "artifact list"

section \<open>Artifacts\<close>

definition ArtifactCreate :: "artifact engine \<Rightarrow> artifact \<Rightarrow> artifacts \<Rightarrow> (artifact, artifacts) db_result" where
  "ArtifactCreate eng rec t =
     (let rec' = (if ar_phase rec = [] then rec\<lparr>ar_phase := ArtifactPending\<rparr> else rec) in
      case db_create eng rec' t of (Inl e, t') \<Rightarrow> (Inl e, t') | (Inr _, t') \<Rightarrow> (Inr rec', t'))"

definition ArtifactGetByID :: "artifact engine \<Rightarrow> string \<Rightarrow> artifacts \<Rightarrow> db_error + artifact" where
  "ArtifactGetByID eng i t = db_first eng (\<lambda>r. ar_id r = i) t"

text \<open>Every column but the logs, which read as empty.\<close>

definition ArtifactList :: "artifact engine \<Rightarrow> artifacts \<Rightarrow> db_error + artifact list" where
  "ArtifactList eng t = map_sum id (map (\<lambda>r. r\<lparr>ar_logs := []\<rparr>)) (db_find eng (\<lambda>_. True) t)"

text \<open>
  \<^verbatim>\<open>Save\<close> is an UPDATE by primary key and, when that affects no row, an upsert;
  with \<^verbatim>\<open>Omit\<close> neither writes the logs column.
\<close>

definition ArtifactUpdate :: "artifact engine \<Rightarrow> artifact \<Rightarrow> artifacts \<Rightarrow> (unit, artifacts) db_result" where
  "ArtifactUpdate eng rec t =
     (case db_updates eng (\<lambda>r. ar_id r = ar_id rec) (\<lambda>r. rec\<lparr>ar_logs := ar_logs r\<rparr>) t of
        (Inl e, t') \<Rightarrow> (Inl e, t')
      | (Inr affected, t') \<Rightarrow> if affected = 0 then db_save eng (rec\<lparr>ar_logs := []\<rparr>) t' else (Inr (), t'))"

definition update_columns ::
  "artifact engine \<Rightarrow> (artifact \<Rightarrow> artifact) \<Rightarrow> string \<Rightarrow> artifacts \<Rightarrow> (nat, artifacts) db_result" where
  "update_columns eng f i t = db_updates eng (\<lambda>r. ar_id r = i) f t"

definition ArtifactUpdatePhaseMessage ::
  "artifact engine \<Rightarrow> string \<Rightarrow> string \<Rightarrow> string \<Rightarrow> artifacts \<Rightarrow> (nat, artifacts) db_result" where
  "ArtifactUpdatePhaseMessage eng i phase message t =
     update_columns eng (\<lambda>r. r\<lparr>ar_phase := phase, ar_message := message\<rparr>) i t"

definition ArtifactUpdateFiles ::
  "artifact engine \<Rightarrow> string \<Rightarrow> string list \<Rightarrow> artifacts \<Rightarrow> (nat, artifacts) db_result" where
  "ArtifactUpdateFiles eng i files t = update_columns eng (\<lambda>r. r\<lparr>ar_files := files\<rparr>) i t"

definition ArtifactClearUploadToken :: "artifact engine \<Rightarrow> string \<Rightarrow> artifacts \<Rightarrow> (nat, artifacts) db_result" where
  "ArtifactClearUploadToken eng i t = update_columns eng (\<lambda>r. r\<lparr>ar_upload_token := []\<rparr>) i t"

definition ArtifactDelete :: "artifact engine \<Rightarrow> string \<Rightarrow> artifacts \<Rightarrow> (nat, artifacts) db_result" where
  "ArtifactDelete eng i t = db_delete eng (\<lambda>r. ar_id r = i) t"

definition ArtifactGetLogs :: "artifact engine \<Rightarrow> string \<Rightarrow> artifacts \<Rightarrow> db_error + string" where
  "ArtifactGetLogs eng i t = map_sum id ar_logs (db_first eng (\<lambda>r. ar_id r = i) t)"

definition ArtifactDeleteByPhase :: "artifact engine \<Rightarrow> string \<Rightarrow> artifacts \<Rightarrow> (nat, artifacts) db_result" where
  "ArtifactDeleteByPhase eng phase t = db_delete eng (\<lambda>r. ar_phase r = phase) t"

definition ArtifactAppendLog :: "artifact engine \<Rightarrow> string \<Rightarrow> string \<Rightarrow> artifacts \<Rightarrow> (nat, artifacts) db_result" where
  "ArtifactAppendLog eng i txt t = update_columns eng (\<lambda>r. r\<lparr>ar_logs := ar_logs r @ txt\<rparr>) i t"

section \<open>SecureBoot key sets\<close>

record key_set =
  ks_id :: string
  ks_name :: string
  ks_dir :: string
  ks_tpm_key_path :: string
  ks_enroll :: string

text \<open>The name is a unique index.\<close>

definition key_set_clash :: "key_set \<Rightarrow> key_set \<Rightarrow> bool" where
  "key_set_clash x y = (ks_id x = ks_id y \<or> ks_name x = ks_name y)"

type_synonym key_sets = "key_set list"

definition SecureBootKeySetCreate :: "key_set engine \<Rightarrow> uuid \<Rightarrow> key_set \<Rightarrow> key_sets \<Rightarrow> (key_set, key_sets) db_result" where
  "SecureBootKeySetCreate eng u ks t =
     (let ks' = ks\<lparr>ks_id := u\<rparr> in
      case db_create eng ks' t of (Inl e, t') \<Rightarrow> (Inl e, t') | (Inr _, t') \<Rightarrow> (Inr ks', t'))"

definition SecureBootKeySetGetByID :: "key_set engine \<Rightarrow> string \<Rightarrow> key_sets \<Rightarrow> db_error + key_set" where
  "SecureBootKeySetGetByID eng i t = db_first eng (\<lambda>k. ks_id k = i) t"

definition SecureBootKeySetGetByName :: "key_set engine \<Rightarrow> string \<Rightarrow> key_sets \<Rightarrow> db_error + key_set" where
  "SecureBootKeySetGetByName eng n t = db_first eng (\<lambda>k. ks_name k = n) t"

definition SecureBootKeySetList :: "key_set engine \<Rightarrow> key_sets \<Rightarrow> db_error + key_set list" where
  "SecureBootKeySetList eng t = db_find eng (\<lambda>_. True) t"

definition SecureBootKeySetDelete :: "key_set engine \<Rightarrow> string \<Rightarrow> key_sets \<Rightarrow> (nat, key_sets) db_result" where
  "SecureBootKeySetDelete eng i t = db_delete eng (\<lambda>k. ks_id k = i) t"

section \<open>What survives every interleaving\<close>

text \<open>
  A content that is only ever appended to: every step adds a text (possibly empty) at the end,
  whatever it returns, except the declared \<open>drops\<close>.
\<close>

definition added :: "('op \<Rightarrow> 'out \<Rightarrow> string) \<Rightarrow> ('op \<times> 'out) list \<Rightarrow> string" where
  "added adds log = concat (map (\<lambda>(op, out). adds op out) log)"

locale append_only =
  fixes step :: "'op \<Rightarrow> 's \<Rightarrow> 'out \<times> 's"
    and content :: "'s \<Rightarrow> string option"
    and adds :: "'op \<Rightarrow> 'out \<Rightarrow> string"
    and drops :: "'op \<Rightarrow> bool"
  assumes step_appends:
      "step op s = (out, s') \<Longrightarrow> \<not> drops op \<Longrightarrow> content s = Some c \<Longrightarrow> content s' = Some (c @ adds op out)"
begin

lemma run_appends:
  "run_ops step ops s = (log, s') \<Longrightarrow> \<forall>op \<in> set ops. \<not> drops op \<Longrightarrow> content s = Some c \<Longrightarrow>
     content s' = Some (c @ added adds log)"
proof (induction ops arbitrary: s c log)
  case Nil
  then show ?case by (simp add: added_def)
next
  case (Cons op ops)
  obtain out s1 where step: "step op s = (out, s1)" by fastforce
  obtain rest where rest: "run_ops step ops s1 = (rest, s')" "log = (op, out) # rest"
    using Cons.prems(1) step by (auto split: prod.splits)
  have "content s1 = Some (c @ adds op out)" using step_appends [OF step] Cons.prems(2,3) by simp
  from Cons.IH [OF rest(1) _ this] Cons.prems(2) show ?case by (simp add: rest(2) added_def)
qed

end

datatype artifact_op =
    OpArtifactCreate artifact
  | OpArtifactUpdate artifact
  | OpPhaseMessage string string string
  | OpFiles string "string list"
  | OpClearToken string
  | OpAppendLog string string
  | OpArtifactDelete string
  | OpDeleteByPhase string

fun artifact_step :: "artifact engine \<Rightarrow> artifact_op \<Rightarrow> artifacts \<Rightarrow> (db_error + nat) \<times> artifacts" where
  "artifact_step eng (OpArtifactCreate rec) t = map_prod (map_sum id (\<lambda>_. 1)) id (ArtifactCreate eng rec t)"
| "artifact_step eng (OpArtifactUpdate rec) t = map_prod (map_sum id (\<lambda>_. 1)) id (ArtifactUpdate eng rec t)"
| "artifact_step eng (OpPhaseMessage i phase message) t = ArtifactUpdatePhaseMessage eng i phase message t"
| "artifact_step eng (OpFiles i files) t = ArtifactUpdateFiles eng i files t"
| "artifact_step eng (OpClearToken i) t = ArtifactClearUploadToken eng i t"
| "artifact_step eng (OpAppendLog i txt) t = ArtifactAppendLog eng i txt t"
| "artifact_step eng (OpArtifactDelete i) t = ArtifactDelete eng i t"
| "artifact_step eng (OpDeleteByPhase phase) t = ArtifactDeleteByPhase eng phase t"

definition logs_of :: "string \<Rightarrow> artifacts \<Rightarrow> string option" where
  "logs_of i t = (if distinct (map ar_id t) then map_option ar_logs (row_map ar_id t i) else None)"

fun log_adds :: "string \<Rightarrow> artifact_op \<Rightarrow> db_error + nat \<Rightarrow> string" where
  "log_adds i (OpAppendLog j txt) out = (if j = i \<and> \<not> isl out then txt else [])"
| "log_adds i _ out = []"

fun log_drops :: "string \<Rightarrow> artifact_op \<Rightarrow> bool" where
  "log_drops i (OpArtifactDelete j) = (j = i)"
| "log_drops i (OpDeleteByPhase phase) = True"
| "log_drops i _ = False"

locale artifact_engine = sql_engine eng ar_id artifact_clash for eng :: "artifact engine"
begin

lemma distinct_unique: "unique_rows artifact_clash t \<longleftrightarrow> distinct (map ar_id t)"
  by (induction t) (auto simp: unique_rows_def artifact_clash_def)

lemma step_distinct: "artifact_step eng op t = (out, t') \<Longrightarrow> distinct (map ar_id t) \<Longrightarrow> distinct (map ar_id t')"
  unfolding distinct_unique [symmetric]
proof (cases op)
  case (OpArtifactUpdate rec)
  obtain r1 t1 where 1: "db_updates eng (\<lambda>r. ar_id r = ar_id rec) (\<lambda>r. rec\<lparr>ar_logs := ar_logs r\<rparr>) t = (r1, t1)" by fastforce
  obtain r2 t2 where 2: "db_save eng (rec\<lparr>ar_logs := []\<rparr>) t1 = (r2, t2)" by fastforce
  assume "artifact_step eng op t = (out, t')" "unique_rows artifact_clash t"
  then show "unique_rows artifact_clash t'"
    using OpArtifactUpdate 1 2 db_updates_unique [OF 1] db_save_unique [OF 2]
    by (auto simp: ArtifactUpdate_def split: sum.splits if_splits)
qed (auto simp: ArtifactCreate_def ArtifactUpdatePhaseMessage_def ArtifactUpdateFiles_def
      ArtifactClearUploadToken_def ArtifactAppendLog_def ArtifactDelete_def ArtifactDeleteByPhase_def update_columns_def Let_def
      split: prod.splits sum.splits if_splits
      dest: db_create_unique db_updates_unique db_delete_unique)

text \<open>A column update, as its effect on the map.\<close>

lemma update_columns_map:
  assumes "update_columns eng f j t = (out, t')" and "distinct (map ar_id t)" and "\<And>r. ar_id (f r) = ar_id r"
  shows "row_map ar_id t' =
    (case row_map ar_id t j of Some r \<Rightarrow> if isl out then row_map ar_id t else (row_map ar_id t)(j \<mapsto> f r)
     | None \<Rightarrow> row_map ar_id t)"
proof (cases out)
  case (Inl err)
  then have "t' = t" using assms(1) db_updates_Inl unfolding update_columns_def by blast
  then show ?thesis using Inl by (simp split: option.splits)
next
  case (Inr n)
  then have "t' = update_rows (\<lambda>r. ar_id r = j \<and> True) f t"
    using assms(1) db_updates_Inr unfolding update_columns_def by fastforce
  then show ?thesis using row_map_update [OF assms(2,3), of j "\<lambda>_. True"] Inr by (auto split: option.splits)
qed

lemma update_map:
  assumes "ArtifactUpdate eng rec t = (out, t')" and "distinct (map ar_id t)"
  shows "row_map ar_id t' = row_map ar_id t \<or>
    row_map ar_id t' = (row_map ar_id t)(ar_id rec \<mapsto> rec\<lparr>ar_logs := (case row_map ar_id t (ar_id rec) of Some r \<Rightarrow> ar_logs r | None \<Rightarrow> [])\<rparr>)"
proof -
  let ?f = "\<lambda>r. rec\<lparr>ar_logs := ar_logs r\<rparr>"
  obtain r1 t1 where 1: "db_updates eng (\<lambda>r. ar_id r = ar_id rec) ?f t = (r1, t1)" by fastforce
  show ?thesis
  proof (cases r1)
    case (Inl err)
    then have "t' = t" using assms(1) 1 db_updates_Inl [of eng _ _ t err t1] by (simp add: ArtifactUpdate_def)
    then show ?thesis by simp
  next
    case (Inr n)
    have t1: "t1 = update_rows (\<lambda>r. ar_id r = ar_id rec) ?f t" "n = length (filter (\<lambda>r. ar_id r = ar_id rec) t)"
      using 1 Inr db_updates_Inr by auto
    show ?thesis
    proof (cases "row_map ar_id t (ar_id rec)")
      case None
      then have "\<forall>r \<in> set t. ar_id r \<noteq> ar_id rec" by (simp add: row_map_None)
      then have "n = 0" "t1 = t" using t1 by (auto simp: filter_empty_conv update_rows_id)
      then have "db_save eng (rec\<lparr>ar_logs := []\<rparr>) t = (out, t')" using assms(1) 1 Inr by (simp add: ArtifactUpdate_def)
      then show ?thesis
        using db_save_Inl [of eng _ t] db_save_Inr [of "rec\<lparr>ar_logs := []\<rparr>" t] None row_map_save [OF assms(2), of "rec\<lparr>ar_logs := []\<rparr>"]
        by (cases out) auto
    next
      case (Some r)
      then have "r \<in> set t" "ar_id r = ar_id rec" using row_map_Some by fastforce+
      then have "n \<noteq> 0" using t1(2) by (auto simp: filter_empty_conv)
      then have "t' = t1" using assms(1) 1 Inr by (simp add: ArtifactUpdate_def)
      moreover have "row_map ar_id t1 = (row_map ar_id t)(ar_id rec \<mapsto> ?f r)"
        using row_map_update_at [OF assms(2), of "ar_id rec" ?f "\<lambda>_. True"] t1(1) Some by simp
      ultimately show ?thesis using Some by simp
    qed
  qed
qed

text \<open>No operation but an append touches the logs of a row.\<close>

lemma column_step_logs:
  assumes "update_columns eng f j t = (out, t')" and "logs_of i t = Some c"
    and "\<And>r. ar_id (f r) = ar_id r" and "\<And>r. ar_logs (f r) = ar_logs r @ (if j = i then txt else [])"
  shows "logs_of i t' = Some (c @ (if j = i \<and> \<not> isl out then txt else []))"
proof -
  have d: "distinct (map ar_id t)" "map_option ar_logs (row_map ar_id t i) = Some c"
    using assms(2) by (auto simp: logs_of_def split: if_splits)
  have "unique_rows artifact_clash t'"
    using db_updates_unique assms(1) d(1) unfolding update_columns_def distinct_unique [symmetric] by blast
  then have d': "distinct (map ar_id t')" by (simp add: distinct_unique)
  obtain r where r: "row_map ar_id t i = Some r" "ar_logs r = c" using d(2) by auto
  note effect = update_columns_map [OF assms(1) d(1) assms(3)]
  have "map_option ar_logs (row_map ar_id t' i) = Some (c @ (if j = i \<and> \<not> isl out then txt else []))"
  proof (cases "j = i")
    case True
    then show ?thesis using effect r assms(4) by (cases out) simp_all
  next
    case False
    then have "row_map ar_id t' i = row_map ar_id t i" using effect by (simp split: option.splits if_splits)
    then show ?thesis using r False by simp
  qed
  then show ?thesis using d' by (simp add: logs_of_def)
qed

lemma other_step_logs:
  assumes "artifact_step eng op t = (out, t')" and "logs_of i t = Some c"
    and "row_map ar_id t' i = row_map ar_id t i"
  shows "logs_of i t' = Some c"
  using step_distinct [OF assms(1)] assms(2,3) by (auto simp: logs_of_def split: if_splits)

lemma create_map_other:
  assumes "ArtifactCreate eng rec t = (out, t')" and "row_map ar_id t i = Some r"
  shows "row_map ar_id t' i = Some r"
proof -
  let ?rec = "if ar_phase rec = [] then rec\<lparr>ar_phase := ArtifactPending\<rparr> else rec"
  obtain r1 t1 where 1: "db_create eng ?rec t = (r1, t1)" by fastforce
  then have t': "t' = t1" using assms(1) by (auto simp: ArtifactCreate_def Let_def split: sum.splits)
  show ?thesis
  proof (cases r1)
    case (Inl err)
    then have "t' = t" using t' 1 db_create_Inl [of eng ?rec t err t1] by simp
    then show ?thesis using assms(2) by simp
  next
    case (Inr u)
    then have "t' = t @ [?rec]" using t' 1 db_create_Inr [of ?rec t u t1] by simp
    then show ?thesis using assms(2) by (simp add: row_map_def)
  qed
qed

lemma delete_map_other:
  assumes "ArtifactDelete eng j t = (out, t')" and "j \<noteq> i" and "distinct (map ar_id t)"
  shows "row_map ar_id t' i = row_map ar_id t i"
proof (cases out)
  case (Inl err)
  then have "t' = t" using assms(1) db_delete_Inl unfolding ArtifactDelete_def by blast
  then show ?thesis by simp
next
  case (Inr n)
  then have "t' = filter (\<lambda>r. ar_id r \<noteq> j) t" using assms(1) db_delete_Inr unfolding ArtifactDelete_def by blast
  then show ?thesis using row_map_filter [OF assms(3), of j] assms(2) by simp
qed

lemma log_step:
  assumes step: "artifact_step eng op t = (out, t')" and keep: "\<not> log_drops i op" and logs: "logs_of i t = Some c"
  shows "logs_of i t' = Some (c @ log_adds i op out)"
proof -
  have d: "distinct (map ar_id t)" using logs by (auto simp: logs_of_def split: if_splits)
  obtain r where r: "row_map ar_id t i = Some r" "ar_logs r = c" using logs d by (auto simp: logs_of_def)
  note column = column_step_logs [OF _ logs, of _ _ out t']
  note columns = ArtifactUpdatePhaseMessage_def ArtifactUpdateFiles_def ArtifactClearUploadToken_def ArtifactAppendLog_def
  show ?thesis
  proof (cases op)
    case (OpArtifactCreate rec)
    then have "row_map ar_id t' i = row_map ar_id t i"
      using step create_map_other [of rec t _ t' i r] r(1) by (cases "ArtifactCreate eng rec t") auto
    then show ?thesis using other_step_logs [OF step logs] OpArtifactCreate by simp
  next
    case (OpArtifactUpdate rec)
    then obtain out1 where "ArtifactUpdate eng rec t = (out1, t')" using step by (cases "ArtifactUpdate eng rec t") auto
    then have "row_map ar_id t' i = row_map ar_id t i \<or> (ar_id rec = i \<and> row_map ar_id t' i = Some (rec\<lparr>ar_logs := c\<rparr>))"
      using update_map [OF _ d, of rec out1 t'] r by (cases "ar_id rec = i") auto
    then have "map_option ar_logs (row_map ar_id t' i) = Some c" using r by auto
    then show ?thesis using step_distinct [OF step d] OpArtifactUpdate by (simp add: logs_of_def)
  next
    case (OpArtifactDelete j)
    then have "row_map ar_id t' i = row_map ar_id t i" using step keep delete_map_other [OF _ _ d] by simp
    then show ?thesis using other_step_logs [OF step logs] OpArtifactDelete by simp
  next
    case (OpAppendLog j chunk)
    then have "update_columns eng (\<lambda>r. r\<lparr>ar_logs := ar_logs r @ chunk\<rparr>) j t = (out, t')"
      using step by (simp add: ArtifactAppendLog_def)
    from update_columns_map [OF this d] r have "map_option ar_logs (row_map ar_id t' i) = Some (c @ log_adds i op out)"
      by (cases "j = i"; cases out) (simp_all add: OpAppendLog split: option.splits)
    then show ?thesis using step_distinct [OF step d] by (simp add: logs_of_def)
  next
    case (OpPhaseMessage j phase message)
    then have "update_columns eng (\<lambda>r. r\<lparr>ar_phase := phase, ar_message := message\<rparr>) j t = (out, t')"
      using step by (simp add: ArtifactUpdatePhaseMessage_def)
    from column_step_logs [OF this logs, of "[]"] show ?thesis using OpPhaseMessage by simp
  next
    case (OpFiles j files)
    then have "update_columns eng (\<lambda>r. r\<lparr>ar_files := files\<rparr>) j t = (out, t')"
      using step by (simp add: ArtifactUpdateFiles_def)
    from column_step_logs [OF this logs, of "[]"] show ?thesis using OpFiles by simp
  next
    case (OpClearToken j)
    then have "update_columns eng (\<lambda>r. r\<lparr>ar_upload_token := []\<rparr>) j t = (out, t')"
      using step by (simp add: ArtifactClearUploadToken_def)
    from column_step_logs [OF this logs, of "[]"] show ?thesis using OpClearToken by simp
  qed (use keep in simp)
qed

end

sublocale artifact_engine \<subseteq> logs: append_only "artifact_step eng" "logs_of i" "log_adds i" "log_drops i" for i
  by unfold_locales (rule log_step)

context artifact_engine
begin

lemma logs_append:
  "run_ops (artifact_step eng) ops t = (log, t') \<Longrightarrow> \<forall>op \<in> set ops. \<not> log_drops i op \<Longrightarrow> logs_of i t = Some c \<Longrightarrow>
     logs_of i t' = Some (c @ added (log_adds i) log)"
  by (rule logs.run_appends)

end

interpretation mem_artifacts: artifact_engine "mem_engine ar_id artifact_clash"
  by unfold_locales

lemma artifact_engine_of: "sql_engine eng ar_id artifact_clash \<Longrightarrow> artifact_engine eng"
  by (simp add: artifact_engine_def)

text \<open>A whole-row update on a database whose statements succeed, of a row that exists.\<close>

lemma update_existing:
  assumes "keyed_engine eng ar_id artifact_clash" and d: "distinct (map ar_id t)" and r: "row_map ar_id t (ar_id rec) = Some r"
  shows "distinct (map ar_id (snd (ArtifactUpdate eng rec t)))"
    and "row_map ar_id (snd (ArtifactUpdate eng rec t)) = (row_map ar_id t)(ar_id rec \<mapsto> rec\<lparr>ar_logs := ar_logs r\<rparr>)"
proof -
  let ?i = "ar_id rec"
  let ?p = "\<lambda>r. ar_id r = ?i \<and> True" and ?f = "\<lambda>r. rec\<lparr>ar_logs := ar_logs r\<rparr>"
  have ids: "map ar_id (update_rows ?p ?f t) = map ar_id t" by (induction t) auto
  have "db_updates eng ?p ?f t = (Inr (length (filter ?p t)), update_rows ?p ?f t)"
    by (rule reliable_engine.db_updates_total [OF keyed_engine.axioms(1) [OF assms(1)]])
      (use ids d in \<open>simp add: keyed_engine.unique_distinct [OF assms(1)]\<close>)
  moreover have "length (filter ?p t) \<noteq> 0" using row_map_Some [OF r] by (auto simp: filter_empty_conv)
  ultimately have upd: "snd (ArtifactUpdate eng rec t) = update_rows ?p ?f t" by (simp add: ArtifactUpdate_def)
  show "distinct (map ar_id (snd (ArtifactUpdate eng rec t)))" using upd ids d by simp
  show "row_map ar_id (snd (ArtifactUpdate eng rec t)) = (row_map ar_id t)(?i \<mapsto> rec\<lparr>ar_logs := ar_logs r\<rparr>)"
    using row_map_update_at [OF d, of ?i ?f "\<lambda>_. True"] r upd by simp
qed

section \<open>Properties\<close>

text \<open>
  Build logs are append-only: in every interleaving of the operations on artifacts, whole-row
  updates from stale copies included, the logs of a row that is not deleted are what they were
  followed by the appended texts, in order and none lost.
\<close>
theorem artifact_logs_append_only:
  assumes "sql_engine eng ar_id artifact_clash" and "\<forall>op \<in> set ops. \<not> log_drops i op"
    and "run_ops (artifact_step eng) ops t = (log, t')" and "logs_of i t = Some c"
  shows "logs_of i t' = Some (c @ added (log_adds i) log)"
  by (rule artifact_engine.logs_append [OF artifact_engine_of [OF assms(1)] assms(3,2,4)])

text \<open>A build whose log is written while its phase is updated and its name is patched from a stale copy.\<close>

definition sample_artifact :: artifact where
  "sample_artifact =
     \<lparr>ar_id = ''a1'', ar_name = ''edge'', ar_saved = False, ar_phase = ArtifactBuilding, ar_message = [],
      ar_source = \<lparr>so_base_image = ''ubuntu'', so_kairos_version = [], so_model = ''generic'', so_arch = ''amd64'',
        so_variant = ''core'', so_distro = [], so_kubernetes_version = [], so_insecure = False\<rparr>,
      ar_outputs = \<lparr>ou_iso = True, ou_cloud_image = False, ou_netboot = False, ou_raw_disk = False, ou_tar = False,
        ou_gce = False, ou_vhd = False, ou_maas = False, ou_uki = False, ou_fips = False, ou_trusted_boot = False\<rparr>,
      ar_recipe = \<lparr>re_dockerfile = [], re_init_image = [], re_hadron_base = [], re_hadron_firmware = [],
        re_hadron_layers = [], re_hadron_extra = []\<rparr>,
      ar_auto_install = True, ar_register = True, ar_cloud_config = [], ar_kubernetes_enabled = None,
      ar_target_group = [], ar_container_image = [], ar_overlay = [], ar_files = [], ar_logs = ''x'',
      ar_upload_token = []\<rparr>"

theorem artifact_logs_append_only_witness:
  "logs_of ''a1'' (snd (run_ops (artifact_step (mem_engine ar_id artifact_clash))
     [OpAppendLog ''a1'' ''y'', OpPhaseMessage ''a1'' ''Ready'' [], OpArtifactUpdate (sample_artifact\<lparr>ar_name := ''b''\<rparr>),
      OpAppendLog ''a1'' ''z''] [sample_artifact])) = Some ''xyz''"
proof -
  let ?ops = "[OpAppendLog ''a1'' ''y'', OpPhaseMessage ''a1'' ''Ready'' [], OpArtifactUpdate (sample_artifact\<lparr>ar_name := ''b''\<rparr>),
      OpAppendLog ''a1'' ''z'']"
  have "logs_of ''a1'' [sample_artifact] = Some ''x''" by (simp add: logs_of_def sample_artifact_def)
  from artifact_logs_append_only [OF mem_sql _ prod.collapse [symmetric] this, of ?ops]
  have "logs_of ''a1'' (snd (run_ops (artifact_step (mem_engine ar_id artifact_clash)) ?ops [sample_artifact])) =
      Some (''x'' @ added (log_adds ''a1'') (fst (run_ops (artifact_step (mem_engine ar_id artifact_clash)) ?ops [sample_artifact])))"
    by simp
  moreover have "added (log_adds ''a1'') (fst (run_ops (artifact_step (mem_engine ar_id artifact_clash)) ?ops [sample_artifact])) = ''yz''"
    by code_simp
  ultimately show ?thesis by simp
qed

text \<open>
  A whole-row update from a copy read before the build ended brings back the upload token and
  the phase that the end of the build had replaced.
\<close>

lemma stale_update_revives_token:
  "map (\<lambda>r. (ar_phase r, ar_upload_token r))
     (snd (run_ops (artifact_step (mem_engine ar_id artifact_clash))
       [OpPhaseMessage ''a1'' ArtifactReady [], OpClearToken ''a1'',
        OpArtifactUpdate (sample_artifact\<lparr>ar_upload_token := ''t'', ar_name := ''b''\<rparr>)]
       [sample_artifact\<lparr>ar_upload_token := ''t''\<rparr>])) = [(ArtifactBuilding, ''t'')]"
  by code_simp

end
