(* ===== verification/Build_Log.thy ===== *)
theory Build_Log
  imports Artifact_Store "HOL-Library.Sublist"
begin

text \<open>
  The log of a build (\<^verbatim>\<open>pkg/builder/redact.go\<close> and the \<^verbatim>\<open>dbLogWriter\<close> of
  \<^verbatim>\<open>internal/builder/auroraboot/builder.go\<close>): redaction of the secrets of the build, the
  buffer, and the two sinks every flush goes to, the artifact row and the UI clients.
\<close>

section \<open>Redaction\<close>

abbreviation redact_marker :: string where "redact_marker \<equiv> ''<redacted>''"

definition redact_one :: "string \<Rightarrow> string \<Rightarrow> string" where
  "redact_one s line = (if length s < 8 then line else ReplaceAll line s redact_marker)"

definition RedactLine :: "string \<Rightarrow> string list \<Rightarrow> string" where
  "RedactLine line secrets = fold redact_one secrets line"

section \<open>The log writer\<close>

record log_writer =
  lw_id :: string
  lw_buf :: string
  lw_redact :: "string list"

record log_sink =
  lk_artifacts :: artifacts
  lk_ui :: "(string \<times> string) list"

definition log_flush :: "artifact engine \<Rightarrow> bool \<Rightarrow> log_writer \<Rightarrow> log_sink \<Rightarrow> log_writer \<times> log_sink" where
  "log_flush eng broadcaster w k =
     (if lw_buf w = [] then (w, k)
      else let txt = RedactLine (lw_buf w) (lw_redact w);
               (_, t) = ArtifactAppendLog eng (lw_id w) txt (lk_artifacts k)
           in (w\<lparr>lw_buf := []\<rparr>,
               \<lparr>lk_artifacts = t, lk_ui = (if broadcaster then lk_ui k @ [(lw_id w, txt)] else lk_ui k)\<rparr>))"

definition log_write :: "artifact engine \<Rightarrow> bool \<Rightarrow> string \<Rightarrow> log_writer \<Rightarrow> log_sink \<Rightarrow> log_writer \<times> log_sink" where
  "log_write eng broadcaster p w k =
     (let w' = w\<lparr>lw_buf := lw_buf w @ p\<rparr> in
      if int (length (lw_buf w')) > 4096 then log_flush eng broadcaster w' k else (w', k))"

text \<open>The writes of a build and its explicit flushes.\<close>

datatype log_op = LogWrite string | LogFlush

fun log_step :: "artifact engine \<Rightarrow> bool \<Rightarrow> log_op \<Rightarrow> log_writer \<times> log_sink \<Rightarrow> log_writer \<times> log_sink" where
  "log_step eng broadcaster (LogWrite p) (w, k) = log_write eng broadcaster p w k"
| "log_step eng broadcaster LogFlush (w, k) = log_flush eng broadcaster w k"

section \<open>What redaction removes\<close>

lemma Contains_split: "x \<notin> set sub \<Longrightarrow> Contains (l @ x # r) sub \<longleftrightarrow> Contains l sub \<or> Contains r sub"
proof
  assume x: "x \<notin> set sub" and "Contains (l @ x # r) sub"
  then obtain a b where ab: "l @ x # r = a @ sub @ b" by (auto simp: Contains_iff)
  show "Contains l sub \<or> Contains r sub"
  proof (cases "length a + length sub \<le> length l")
    case True
    then have "l = a @ sub @ take (length l - length a - length sub) b"
      using arg_cong [OF ab, of "take (length l)"] by (simp add: take_append)
    then show ?thesis unfolding Contains_iff by blast
  next
    case False
    have "length a > length l"
    proof (rule ccontr)
      assume "\<not> length a > length l"
      then have "(a @ sub @ b) ! length l = sub ! (length l - length a)" "length l - length a < length sub"
        using False by (auto simp: nth_append)
      moreover have "(l @ x # r) ! length l = x" by simp
      ultimately show False using x ab nth_mem by metis
    qed
    then have "r = drop (Suc (length l)) a @ sub @ b"
      using arg_cong [OF ab, of "drop (Suc (length l))"] by (simp add: drop_append)
    then show ?thesis unfolding Contains_iff by blast
  qed
next
  assume "Contains l sub \<or> Contains r sub"
  then show "Contains (l @ x # r) sub" unfolding Contains_iff by (metis append.assoc append_Cons)
qed

text \<open>A secret that the marker cannot help to form.\<close>

definition redactable :: "string \<Rightarrow> bool" where
  "redactable s \<longleftrightarrow> length s \<ge> 8 \<and> CHR ''<'' \<notin> set s \<and> CHR ''>'' \<notin> set s \<and> s \<noteq> ''redacted''"

lemma Contains_drop: "Contains (drop n l) s \<Longrightarrow> Contains l s"
  unfolding Contains_iff by (metis append.assoc append_take_drop_id)

lemma redactable_not_inside: "redactable s \<Longrightarrow> \<not> Contains ''redacted'' s"
proof
  assume s: "redactable s" and "Contains ''redacted'' s"
  then obtain l r where lr: "''redacted'' = l @ s @ r" by (auto simp: Contains_iff)
  have "length l + length s + length r = 8" using arg_cong [OF lr, of length] by simp
  then have "length l = 0 \<and> length r = 0" using s unfolding redactable_def by linarith
  then show False using lr s by (simp add: redactable_def)
qed

lemma marker_Contains:
  assumes "redactable s"
  shows "Contains (redact_marker @ t) s \<longleftrightarrow> Contains t s"
proof -
  have nil: "\<not> Contains [] s" using assms by (auto simp: redactable_def)
  have lt: "CHR ''<'' \<notin> set s" and gt: "CHR ''>'' \<notin> set s" using assms by (auto simp: redactable_def)
  have "Contains (redact_marker @ t) s = Contains ([] @ CHR ''<'' # (''redacted'' @ CHR ''>'' # t)) s" by simp
  also have "\<dots> = Contains (''redacted'' @ CHR ''>'' # t) s" using Contains_split [OF lt] nil by blast
  also have "\<dots> = Contains t s" using Contains_split [OF gt] redactable_not_inside [OF assms] by blast
  finally show ?thesis .
qed

lemma marker_prefix:
  assumes "CHR ''<'' \<notin> set p" and "old \<noteq> []" and "HasPrefix (ReplaceAll s old redact_marker) p"
  shows "HasPrefix s p"
  using assms
proof (induction s arbitrary: p)
  case (Cons c cs)
  show ?case
  proof (cases p)
    case (Cons a q)
    have "\<not> HasPrefix (c # cs) old"
      using Cons.prems Cons by (auto simp: ReplaceAll_step HasPrefix_def)
    then have "c = a \<and> HasPrefix (ReplaceAll cs old redact_marker) q"
      using Cons.prems Cons by (auto simp: ReplaceAll_step HasPrefix_def)
    then show ?thesis using Cons.IH [of q] Cons.prems Cons by (simp add: HasPrefix_def)
  qed (simp add: HasPrefix_def)
qed (simp add: HasPrefix_def)

text \<open>A replacement removes its own secret and brings back none that was absent.\<close>

lemma redact_one_removes:
  assumes "redactable s" and "old = s \<or> \<not> Contains line s"
  shows "\<not> Contains (redact_one old line) s"
proof (cases "length old < 8")
  case True
  then show ?thesis using assms by (auto simp: redact_one_def redactable_def)
next
  case False
  then have old: "old \<noteq> []" by auto
  have lt: "CHR ''<'' \<notin> set s" and nil: "s \<noteq> []" using assms(1) by (auto simp: redactable_def)
  have "\<not> Contains (ReplaceAll line old redact_marker) s" if "old = s \<or> \<not> Contains line s" for line
    using that
  proof (induction line rule: length_induct)
    case (1 line)
    show ?case
    proof (cases line)
      case Nil
      then show ?thesis using nil by simp
    next
      case (Cons c cs)
      show ?thesis
      proof (cases "HasPrefix (c # cs) old")
        case True
        let ?r = "drop (length old) (c # cs)"
        have "length ?r < length line" using Cons old by (cases old) auto
        moreover have "old = s \<or> \<not> Contains ?r s"
          using 1(2) Cons Contains_drop by blast
        ultimately have "\<not> Contains (ReplaceAll ?r old redact_marker) s" using 1(1) by blast
        then have "\<not> Contains (redact_marker @ ReplaceAll ?r old redact_marker) s"
          using marker_Contains [OF assms(1)] by blast
        moreover have "ReplaceAll line old redact_marker = redact_marker @ ReplaceAll ?r old redact_marker"
          unfolding Cons ReplaceAll_step [OF old] using True by (rule if_P)
        ultimately show ?thesis by metis
      next
        case False
        have "\<not> Contains (ReplaceAll cs old redact_marker) s" using 1 Cons by auto
        moreover have "\<not> HasPrefix (c # ReplaceAll cs old redact_marker) s"
          using marker_prefix [OF lt old, of line] 1(2) Cons False ReplaceAll_step [OF old] by auto
        ultimately show ?thesis using Cons False ReplaceAll_step [OF old] by simp
      qed
    qed
  qed
  then show ?thesis using False assms(2) by (simp add: redact_one_def)
qed

lemma fold_redact_absent:
  "redactable s \<Longrightarrow> \<not> Contains line s \<Longrightarrow> \<not> Contains (fold redact_one xs line) s"
  by (induction xs arbitrary: line) (simp_all add: redact_one_removes)

lemma RedactLine_removes:
  assumes "redactable s" and "s \<in> set secrets"
  shows "\<not> Contains (RedactLine line secrets) s"
  using assms(2) unfolding RedactLine_def
  by (induction secrets arbitrary: line) (auto simp: assms(1) redact_one_removes fold_redact_absent)

section \<open>What reaches the sinks\<close>

fun log_text :: "log_op \<Rightarrow> string" where
  "log_text (LogWrite p) = p"
| "log_text LogFlush = []"

abbreviation log_run :: "artifact engine \<Rightarrow> bool \<Rightarrow> log_op list \<Rightarrow> log_writer \<times> log_sink \<Rightarrow> log_writer \<times> log_sink" where
  "log_run eng broadcaster ops s \<equiv> fold (log_step eng broadcaster) ops s"

text \<open>
  \<open>raws\<close> are the unredacted flushes that lead from one state of the writer to the next: every
  sink is given their redactions, and the row a subsequence of them, as its write may fail.
\<close>

definition flushes :: "bool \<Rightarrow> string list \<Rightarrow> log_writer \<times> log_sink \<Rightarrow> log_writer \<times> log_sink \<Rightarrow> bool" where
  "flushes broadcaster raws s s' \<longleftrightarrow>
     (let w = fst s; chunks = map (\<lambda>r. RedactLine r (lw_redact w)) raws in
      lw_id (fst s') = lw_id w \<and> lw_redact (fst s') = lw_redact w \<and>
      lk_ui (snd s') = lk_ui (snd s) @ (if broadcaster then map (Pair (lw_id w)) chunks else []) \<and>
      (\<forall>c. logs_of (lw_id w) (lk_artifacts (snd s)) = Some c \<longrightarrow>
        (\<exists>kept. subseq kept chunks \<and> logs_of (lw_id w) (lk_artifacts (snd s')) = Some (c @ concat kept))))"

lemma flushes_Nil: "flushes broadcaster [] s ((fst s)\<lparr>lw_buf := x\<rparr>, snd s)"
proof -
  have "\<exists>kept. subseq kept [] \<and> Some c = Some (c @ concat kept)" for c :: string
    by (rule exI [of _ "[]"]) simp
  then show ?thesis by (simp add: flushes_def)
qed

lemma flushes_refl: "flushes broadcaster [] s s"
  using flushes_Nil [of broadcaster s "lw_buf (fst s)"] by simp

lemma flushes_trans:
  assumes "flushes broadcaster xs s s1" and "flushes broadcaster ys s1 s2"
  shows "flushes broadcaster (xs @ ys) s s2"
proof -
  have "\<exists>kept. subseq kept (map (\<lambda>r. RedactLine r (lw_redact (fst s))) (xs @ ys)) \<and>
      logs_of (lw_id (fst s)) (lk_artifacts (snd s2)) = Some (c @ concat kept)"
    if logs: "logs_of (lw_id (fst s)) (lk_artifacts (snd s)) = Some c" for c
  proof -
    obtain k1 where k1: "subseq k1 (map (\<lambda>r. RedactLine r (lw_redact (fst s))) xs)"
        "logs_of (lw_id (fst s)) (lk_artifacts (snd s1)) = Some (c @ concat k1)"
      using assms(1) logs unfolding flushes_def Let_def by blast
    obtain k2 where k2: "subseq k2 (map (\<lambda>r. RedactLine r (lw_redact (fst s))) ys)"
        "logs_of (lw_id (fst s)) (lk_artifacts (snd s2)) = Some ((c @ concat k1) @ concat k2)"
      using assms k1(2) unfolding flushes_def Let_def by metis
    have "subseq (k1 @ k2) (map (\<lambda>r. RedactLine r (lw_redact (fst s))) (xs @ ys))"
      using list_emb_append_mono [OF k1(1) k2(1)] by simp
    moreover have "logs_of (lw_id (fst s)) (lk_artifacts (snd s2)) = Some (c @ concat (k1 @ k2))" using k2(2) by simp
    ultimately show ?thesis by blast
  qed
  then show ?thesis using assms unfolding flushes_def Let_def by simp
qed

lemma flush_flushes:
  assumes "artifact_engine eng" and "log_flush eng broadcaster w k = s'"
  shows "\<exists>raws. flushes broadcaster raws (w, k) s' \<and> concat raws @ lw_buf (fst s') = lw_buf w \<and> lw_buf (fst s') = []"
proof (cases "lw_buf w = []")
  case True
  then have "s' = (w, k)" using assms(2) by (simp add: log_flush_def)
  then have "flushes broadcaster [] (w, k) s'" using flushes_refl by simp
  then show ?thesis using True \<open>s' = (w, k)\<close> by fastforce
next
  case False
  let ?txt = "RedactLine (lw_buf w) (lw_redact w)"
  obtain out t where app: "ArtifactAppendLog eng (lw_id w) ?txt (lk_artifacts k) = (out, t)" by fastforce
  then have s': "s' = (w\<lparr>lw_buf := []\<rparr>,
      \<lparr>lk_artifacts = t, lk_ui = (if broadcaster then lk_ui k @ [(lw_id w, ?txt)] else lk_ui k)\<rparr>)"
    using assms(2) False by (simp add: log_flush_def)
  have "\<exists>kept. subseq kept [?txt] \<and> logs_of (lw_id w) t = Some (c @ concat kept)"
    if logs: "logs_of (lw_id w) (lk_artifacts k) = Some c" for c
  proof (rule exI [of _ "if isl out then [] else [?txt]"])
    have "logs_of (lw_id w) t = Some (c @ log_adds (lw_id w) (OpAppendLog (lw_id w) ?txt) out)"
      using artifact_engine.log_step [OF assms(1), of "OpAppendLog (lw_id w) ?txt"] app logs by simp
    then show "subseq (if isl out then [] else [?txt]) [?txt] \<and>
        logs_of (lw_id w) t = Some (c @ concat (if isl out then [] else [?txt]))" by simp
  qed
  then have "flushes broadcaster [lw_buf w] (w, k) s'" unfolding flushes_def Let_def s' by simp
  then show ?thesis using s' by (intro exI [of _ "[lw_buf w]"]) simp
qed

lemma step_flushes:
  assumes "artifact_engine eng" and "log_step eng broadcaster op s = s'"
  shows "\<exists>raws. flushes broadcaster raws s s' \<and> concat raws @ lw_buf (fst s') = lw_buf (fst s) @ log_text op"
proof (cases op)
  case (LogWrite p)
  let ?w = "(fst s)\<lparr>lw_buf := lw_buf (fst s) @ p\<rparr>"
  have fill: "flushes broadcaster [] s (?w, snd s)" by (rule flushes_Nil)
  show ?thesis
  proof (cases "int (length (lw_buf ?w)) > 4096")
    case True
    then have "log_flush eng broadcaster ?w (snd s) = s'"
      using assms(2) LogWrite by (cases s) (simp add: log_write_def Let_def)
    from flush_flushes [OF assms(1) this] flushes_trans [OF fill] show ?thesis using LogWrite by fastforce
  next
    case False
    then have "s' = (?w, snd s)" using assms(2) LogWrite by (cases s) (auto simp: log_write_def Let_def)
    then show ?thesis using fill LogWrite by fastforce
  qed
next
  case LogFlush
  then have "log_flush eng broadcaster (fst s) (snd s) = s'" using assms(2) by (cases s) simp
  from flush_flushes [OF assms(1) this] show ?thesis using LogFlush by fastforce
qed

text \<open>Nothing written is lost or reordered: the flushes and the buffer are what was written.\<close>

lemma run_flushes:
  assumes "artifact_engine eng"
  shows "\<exists>raws. flushes broadcaster raws s (log_run eng broadcaster ops s) \<and>
    concat raws @ lw_buf (fst (log_run eng broadcaster ops s)) = lw_buf (fst s) @ concat (map log_text ops)"
proof (induction ops arbitrary: s)
  case Nil
  show ?case using flushes_refl by fastforce
next
  case (Cons op ops)
  obtain xs where xs: "flushes broadcaster xs s (log_step eng broadcaster op s)"
      "concat xs @ lw_buf (fst (log_step eng broadcaster op s)) = lw_buf (fst s) @ log_text op"
    using step_flushes [OF assms] by blast
  obtain ys where ys: "flushes broadcaster ys (log_step eng broadcaster op s) (log_run eng broadcaster (op # ops) s)"
      "concat ys @ lw_buf (fst (log_run eng broadcaster (op # ops) s)) =
        lw_buf (fst (log_step eng broadcaster op s)) @ concat (map log_text ops)"
    using Cons.IH [of "log_step eng broadcaster op s"] by auto
  have "concat (xs @ ys) @ lw_buf (fst (log_run eng broadcaster (op # ops) s)) =
      (concat xs @ lw_buf (fst (log_step eng broadcaster op s))) @ concat (map log_text ops)"
    using ys(2) by simp
  also have "\<dots> = lw_buf (fst s) @ concat (map log_text (op # ops))" unfolding xs(2) by simp
  finally have "concat (xs @ ys) @ lw_buf (fst (log_run eng broadcaster (op # ops) s)) =
      lw_buf (fst s) @ concat (map log_text (op # ops))" .
  then show ?case using flushes_trans [OF xs(1) ys(1)] by blast
qed

lemma buffer_bounded:
  "int (length (lw_buf (fst s))) \<le> 4096 \<Longrightarrow> int (length (lw_buf (fst (log_step eng broadcaster op s)))) \<le> 4096"
  by (cases s; cases op) (auto simp: log_write_def log_flush_def Let_def split: prod.splits if_splits)

section \<open>Properties\<close>

text \<open>
  C18. Build logs are redacted before they leave the writer: over every sequence of writes and
  flushes, what the row and the UI clients are given is chunk by chunk free of the secrets
  of the build that have eight characters or more and cannot be formed with the marker; the row's log is what it
  was followed by chunks of that sequence.
\<close>
theorem log_chunks_redacted:
  assumes "sql_engine eng ar_id artifact_clash" and "redactable s" and "s \<in> set (lw_redact w)"
    and "log_run eng True ops (w, k) = (w', k')"
    and "logs_of (lw_id w) (lk_artifacts k) = Some c"
  shows "\<exists>chunks kept. lk_ui k' = lk_ui k @ map (Pair (lw_id w)) chunks \<and>
    subseq kept chunks \<and> logs_of (lw_id w) (lk_artifacts k') = Some (c @ concat kept) \<and>
    list_all (\<lambda>x. \<not> Contains x s) chunks"
proof -
  obtain raws where raws: "flushes True raws (w, k) (w', k')"
    using run_flushes [OF artifact_engine_of [OF assms(1)], of True "(w, k)" ops] assms(4) by auto
  let ?chunks = "map (\<lambda>r. RedactLine r (lw_redact w)) raws"
  have "list_all (\<lambda>x. \<not> Contains x s) ?chunks"
    using RedactLine_removes [OF assms(2,3)] by (simp add: list_all_iff)
  moreover obtain kept where "subseq kept ?chunks" "logs_of (lw_id w) (lk_artifacts k') = Some (c @ concat kept)"
    using raws assms(5) unfolding flushes_def Let_def by auto
  moreover have "lk_ui k' = lk_ui k @ map (Pair (lw_id w)) ?chunks"
    using raws unfolding flushes_def Let_def by simp
  ultimately show ?thesis by blast
qed

definition sample_writer :: log_writer where
  "sample_writer = \<lparr>lw_id = ''a1'', lw_buf = [], lw_redact = [''hunter2hunter2'', ''kairos'']\<rparr>"

theorem log_chunks_redacted_witness:
  "\<exists>chunks kept.
     lk_ui (snd (log_run (mem_engine ar_id artifact_clash) True [LogWrite ''p: hunter2hunter2'', LogFlush]
       (sample_writer, \<lparr>lk_artifacts = [sample_artifact], lk_ui = []\<rparr>))) = map (Pair ''a1'') chunks \<and>
     subseq kept chunks \<and>
     logs_of ''a1'' (lk_artifacts (snd (log_run (mem_engine ar_id artifact_clash) True [LogWrite ''p: hunter2hunter2'', LogFlush]
       (sample_writer, \<lparr>lk_artifacts = [sample_artifact], lk_ui = []\<rparr>)))) = Some (''x'' @ concat kept) \<and>
     list_all (\<lambda>x. \<not> Contains x ''hunter2hunter2'') chunks"
proof -
  have "redactable ''hunter2hunter2''" "''hunter2hunter2'' \<in> set (lw_redact sample_writer)"
    by (simp_all add: redactable_def sample_writer_def)
  moreover have "logs_of (lw_id sample_writer) (lk_artifacts \<lparr>lk_artifacts = [sample_artifact], lk_ui = []\<rparr>) = Some ''x''"
    by (simp add: logs_of_def sample_artifact_def sample_writer_def)
  ultimately show ?thesis
    using log_chunks_redacted [OF mem_sql _ _ prod.collapse [symmetric], where s = "''hunter2hunter2''" and w = sample_writer
      and ops = "[LogWrite ''p: hunter2hunter2'', LogFlush]" and k = "\<lparr>lk_artifacts = [sample_artifact], lk_ui = []\<rparr>"
      and c = "''x''"]
    by (simp add: sample_writer_def)
qed

text \<open>
  Each flush is redacted alone: a secret that is split over two flushes reaches the row whole.
\<close>

lemma straddling_secret_leaks:
  "logs_of ''a1'' (lk_artifacts (snd (log_run (mem_engine ar_id artifact_clash) True
     [LogWrite ''p: hunter2'', LogFlush, LogWrite ''hunter2'', LogFlush]
     (sample_writer, \<lparr>lk_artifacts = [sample_artifact], lk_ui = []\<rparr>)))) = Some ''xp: hunter2hunter2''"
  by code_simp

end
