(* ===== verification/Local_Builder.thy ===== *)
theory Local_Builder
  imports Build_Log Go_Paths "HOL-Library.AList" "HOL-Library.List_Lexorder" "HOL-Library.Char_ord"
begin

text \<open>
  The local build backend (\<^verbatim>\<open>internal/builder/auroraboot/builder.go\<close>). \<^verbatim>\<open>Build\<close> validates
  the request, registers the build and starts a goroutine, \<^verbatim>\<open>run\<close>; \<^verbatim>\<open>Status\<close>, \<^verbatim>\<open>List\<close>
  and \<^verbatim>\<open>Cancel\<close> run beside it. The goroutine is a machine whose program counter stands at the
  places where another request can observe or change the build; docker, the deployer, the UKI
  builder and the file system are the parameters in \<open>tools\<close>.

  The map of builds is an association list: \<^verbatim>\<open>List\<close> returns its entries in an order Go leaves
  open. A build is reached by its id, which the handler mints, so that no two builds share one.
\<close>

section \<open>Requests\<close>

record signing_options =
  si_key :: string
  si_cert :: string
  si_tpm_key :: string
  si_pub_dir :: string
  si_enroll :: string

record provisioning_options =
  po_auto_install :: bool
  po_register :: bool
  po_target_group :: string
  po_kubernetes_enabled :: bool
  po_allowed_commands :: "string list option"

record build_options =
  bo_id :: string
  bo_name :: string
  bo_upload_token :: string
  bo_redact :: "string list"
  bo_source :: image_source
  bo_outputs :: output_options
  bo_signing :: signing_options
  bo_provisioning :: provisioning_options
  bo_base_image :: string
  bo_kairos_version :: string
  bo_model :: string
  bo_kubernetes_distro :: string
  bo_kubernetes_version :: string
  bo_fips :: bool
  bo_trusted_boot :: bool
  bo_iso :: bool
  bo_cloud_image :: bool
  bo_netboot :: bool
  bo_cloud_config :: string
  bo_overlay :: string
  bo_context_dir :: string
  bo_recipe :: image_recipe

datatype build_error = InvalidBuildOptions string | NotSupported string | BuildFailed string | PersistFailed db_error

record build_status =
  bd_id :: string
  bd_phase :: string
  bd_message :: string
  bd_artifacts :: "string list"

abbreviation BuildPending :: string where "BuildPending \<equiv> ''Pending''"
abbreviation BuildBuilding :: string where "BuildBuilding \<equiv> ''Building''"
abbreviation BuildReady :: string where "BuildReady \<equiv> ''Ready''"
abbreviation BuildError :: string where "BuildError \<equiv> ''Error''"

section \<open>Validation of what reaches a shell\<close>

text \<open>\<^verbatim>\<open>kairosInitValueRe\<close>, \<^verbatim>\<open>^[A-Za-z0-9._+:/-]+$\<close>.\<close>

definition init_char :: "char \<Rightarrow> bool" where
  "init_char c = (c \<in> set ''ABCDEFGHIJKLMNOPQRSTUVWXYZabcdefghijklmnopqrstuvwxyz0123456789._+:/-'')"

definition kairosInitValueRe :: "string \<Rightarrow> bool" where
  "kairosInitValueRe v = (v \<noteq> [] \<and> list_all init_char v)"

definition validateKairosInitValue :: "string \<Rightarrow> string \<Rightarrow> string option" where
  "validateKairosInitValue field v =
     (if \<not> kairosInitValueRe v
      then Some (''invalid '' @ field @ '' '' @ quoted v @ '': must match ^[A-Za-z0-9._+:/-]+$ (no shell metacharacters)'')
      else None)"

fun first_error :: "(string \<times> string) list \<Rightarrow> string option" where
  "first_error [] = None"
| "first_error ((field, v) # fs) =
     (if v \<noteq> [] then (case validateKairosInitValue field v of Some e \<Rightarrow> Some e | None \<Rightarrow> first_error fs)
      else first_error fs)"

definition validateKairosInitOptions :: "build_options \<Rightarrow> string option" where
  "validateKairosInitOptions opts = first_error
     [(''model'', bo_model opts), (''kairos version'', bo_kairos_version opts),
      (''kubernetes version'', bo_kubernetes_version opts), (''kubernetes distro'', bo_kubernetes_distro opts)]"

section \<open>The outside world\<close>

record deploy_config =
  dc_state :: string
  dc_disable_http :: bool
  dc_disable_netboot :: bool
  dc_disable_iso :: bool
  dc_arch :: string
  dc_insecure :: "bool option"
  dc_efi :: bool
  dc_gce :: bool
  dc_vhd :: bool
  dc_maas :: bool
  dc_cloud_config :: string
  dc_iso_overlay :: string

record uki_options =
  uk_source :: string
  uk_output_dir :: string
  uk_output_type :: string
  uk_name :: string
  uk_key :: string
  uk_cert :: string
  uk_tpm_key :: string
  uk_pub_dir :: string
  uk_enroll :: string
  uk_overlay :: string
  uk_insecure :: bool

text \<open>The output directory.\<close>

datatype fs_node = FsFile string | FsDir string "fs_node list"

text \<open>
  A command writes to the log and may fail; a cancelled context is its first argument. The
  deployer and the UKI builder also leave the output directory in some state.
  \<open>bt_done_wins\<close> is the branch that \<^verbatim>\<open>select\<close> takes when the context is done.
\<close>

record build_tools =
  bt_store :: "artifact engine option"
  bt_broadcaster :: bool
  bt_base_dir :: string
  bt_getenv :: "string \<Rightarrow> string"
  bt_mkdir :: "string \<Rightarrow> string option"
  bt_write_file :: "string \<Rightarrow> string \<Rightarrow> string option"
  bt_docker :: "bool \<Rightarrow> string list \<Rightarrow> string list \<times> string option"
  bt_deploy :: "bool \<Rightarrow> deploy_config \<Rightarrow> string \<Rightarrow> string \<Rightarrow> string list \<times> string option \<times> fs_node list"
  bt_uki :: "uki_options \<Rightarrow> fs_node list \<Rightarrow> string list \<times> string option \<times> fs_node list"
  bt_done_wins :: bool
  bt_remove :: "string \<Rightarrow> string option"

record build_state =
  bs_status :: build_status
  bs_cancelled :: bool

record builder =
  lb_builds :: "(string \<times> build_state) list"
  lb_sink :: log_sink

datatype run_pc =
    RStart | RStartStore | RDocker | RKairosify | RDeploy | RTar | RUki | RCollect | RReady "string list" | RStore "string list"
  | RFailed string | RFailStore string | RDone

record build_run =
  ru_pc :: run_pc
  ru_opts :: build_options
  ru_dir :: string
  ru_writer :: "log_writer option"
  ru_image :: string
  ru_nodes :: "fs_node list"

section \<open>Shared state\<close>

definition setPhase :: "string \<Rightarrow> string \<Rightarrow> string \<Rightarrow> builder \<Rightarrow> builder" where
  "setPhase i phase message b =
     b\<lparr>lb_builds := AList.map_entry i
        (\<lambda>bs. bs\<lparr>bs_status := (bs_status bs)\<lparr>bd_phase := phase, bd_message := message\<rparr>\<rparr>) (lb_builds b)\<rparr>"

definition updateDBPhase :: "artifact engine \<Rightarrow> string \<Rightarrow> string \<Rightarrow> string \<Rightarrow> artifacts \<Rightarrow> (unit, artifacts) db_result" where
  "updateDBPhase eng i phase message t =
     (case ArtifactGetByID eng i t of
        Inl e \<Rightarrow> (Inl e, t)
      | Inr rec \<Rightarrow> ArtifactUpdate eng (rec\<lparr>ar_phase := phase, ar_message := message\<rparr>) t)"

definition store_phase :: "build_tools \<Rightarrow> string \<Rightarrow> string \<Rightarrow> string \<Rightarrow> builder \<Rightarrow> builder" where
  "store_phase tools i phase message b =
     (case bt_store tools of
        None \<Rightarrow> b
      | Some eng \<Rightarrow> b\<lparr>lb_sink := (lb_sink b)\<lparr>lk_artifacts :=
          snd (updateDBPhase eng i phase message (lk_artifacts (lb_sink b)))\<rparr>\<rparr>)"

definition cancelled :: "string \<Rightarrow> builder \<Rightarrow> bool" where
  "cancelled i b = (case map_of (lb_builds b) i of Some bs \<Rightarrow> bs_cancelled bs | None \<Rightarrow> False)"

text \<open>Writes and flushes of the log; without a store there is no writer.\<close>

definition log_ops :: "build_tools \<Rightarrow> log_op list \<Rightarrow> build_run \<times> builder \<Rightarrow> build_run \<times> builder" where
  "log_ops tools ops s =
     (case (bt_store tools, ru_writer (fst s)) of
        (Some eng, Some w) \<Rightarrow>
          let (w', k') = fold (log_step eng (bt_broadcaster tools)) ops (w, lb_sink (snd s)) in
          ((fst s)\<lparr>ru_writer := Some w'\<rparr>, (snd s)\<lparr>lb_sink := k'\<rparr>)
      | _ \<Rightarrow> s)"

definition goto_pc :: "run_pc \<Rightarrow> build_run \<times> builder \<Rightarrow> build_run \<times> builder" where
  "goto_pc pc s = ((fst s)\<lparr>ru_pc := pc\<rparr>, snd s)"

section \<open>Images\<close>

abbreviation NL :: string where "NL \<equiv> [CHR 0x0A]"

definition dockerBuildPlatformArgs :: "build_options \<Rightarrow> string list" where
  "dockerBuildPlatformArgs opts =
     (if so_arch (bo_source opts) = [] then [] else [''--platform'', ''linux/'' @ so_arch (bo_source opts)])"

definition isKairosified :: "build_tools \<Rightarrow> bool \<Rightarrow> string \<Rightarrow> bool" where
  "isKairosified tools dead img =
     (snd (bt_docker tools dead [''run'', ''--rm'', ''--entrypoint'', ''cat'', img, ''/etc/kairos-release'']) = None)"

text \<open>\<^verbatim>\<open>kairos-init\<close>'s flags.\<close>

definition kairos_init_flags :: "build_options \<Rightarrow> string list" where
  "kairos_init_flags opts =
     (if bo_model opts \<noteq> [] then [''-m'', bo_model opts] else [])
     @ (if bo_kubernetes_distro opts \<noteq> [] then [''-p'', bo_kubernetes_distro opts] else [])
     @ (if bo_kubernetes_distro opts = ''k3s'' \<and> bo_kubernetes_version opts \<noteq> []
        then [''--provider-k3s-version'', bo_kubernetes_version opts]
        else if bo_kubernetes_distro opts = ''k0s'' \<and> bo_kubernetes_version opts \<noteq> []
        then [''--provider-k0s-version'', bo_kubernetes_version opts] else [])
     @ (if bo_fips opts then [''--fips''] else [])
     @ (if bo_trusted_boot opts then [''-t'', ''true''] else [])
     @ [''--version'', if bo_kairos_version opts = [] then ''latest'' else bo_kairos_version opts]"

definition kairos_init_image :: "build_tools \<Rightarrow> build_options \<Rightarrow> string" where
  "kairos_init_image tools opts =
     (if re_init_image (bo_recipe opts) \<noteq> [] then re_init_image (bo_recipe opts)
      else if bt_getenv tools ''KAIROS_INIT_IMAGE'' \<noteq> [] then bt_getenv tools ''KAIROS_INIT_IMAGE''
      else ''quay.io/kairos/kairos-init'' @ '':'' @ ''v0.16.2'')"

definition kairosify_dockerfile :: "string \<Rightarrow> string \<Rightarrow> string \<Rightarrow> string" where
  "kairosify_dockerfile init_image img flags =
     ''FROM '' @ init_image @ '' AS kairos-init'' @ NL @
     ''FROM '' @ img @ NL @
     ''COPY --from=kairos-init /kairos-init /kairos-init'' @ NL @
     ''RUN /kairos-init -l debug -s install '' @ flags @ '' && '' @ [CHR 0x5C] @ NL @
     ''    /kairos-init -l debug -s init '' @ flags @ '' && '' @ [CHR 0x5C] @ NL @
     ''    rm -f /kairos-init'' @ NL"

definition kairosify ::
  "build_tools \<Rightarrow> string \<Rightarrow> build_run \<times> builder \<Rightarrow> (string + string) \<times> build_run \<times> builder" where
  "kairosify tools img s =
     (let opts = ru_opts (fst s); dir = ru_dir (fst s) in
      case validateKairosInitOptions opts of
        Some e \<Rightarrow> (Inl (''validating kairos-init options: '' @ e), s)
      | None \<Rightarrow>
        let dockerfile = kairosify_dockerfile (kairos_init_image tools opts) img (Join (kairos_init_flags opts) '' '');
            path = PathJoin [dir, ''Dockerfile.kairosify''] in
        case bt_write_file tools path dockerfile of
          Some e \<Rightarrow> (Inl (''writing kairosify Dockerfile: '' @ e), s)
        | None \<Rightarrow>
          let tag = ''auroraboot-kairos:'' @ bo_id opts;
              args = [''build''] @ dockerBuildPlatformArgs opts @ [''-t'', tag, ''-f'', path, dir];
              (out, err) = bt_docker tools (cancelled (bo_id opts) (snd s)) args;
              s' = log_ops tools (map LogWrite out) s in
          (case err of Some e \<Rightarrow> (Inl (''kairosify docker build: '' @ e), s') | None \<Rightarrow> (Inr tag, s')))"

definition ensureKairosified ::
  "build_tools \<Rightarrow> string \<Rightarrow> build_run \<times> builder \<Rightarrow> (string + string) \<times> build_run \<times> builder" where
  "ensureKairosified tools img s =
     (if bt_store tools = None then (Inr img, s)
      else if isKairosified tools (cancelled (bo_id (ru_opts (fst s))) (snd s)) img then (Inr img, s)
      else kairosify tools img s)"

definition dockerBuild :: "build_tools \<Rightarrow> build_run \<times> builder \<Rightarrow> (string + string) \<times> build_run \<times> builder" where
  "dockerBuild tools s =
     (let opts = ru_opts (fst s); dir = ru_dir (fst s);
          base = re_hadron_base (bo_recipe opts);
          dockerfile = (if base \<noteq> [] then ''FROM '' @ base @ NL @ re_dockerfile (bo_recipe opts)
                        else re_dockerfile (bo_recipe opts));
          path = PathJoin [dir, ''Dockerfile''] in
      case bt_write_file tools path dockerfile of
        Some e \<Rightarrow> (Inl (''writing Dockerfile: '' @ e), s)
      | None \<Rightarrow>
        let tag = ''auroraboot-build:'' @ bo_id opts;
            build_context = (if bo_context_dir opts = [] then dir else bo_context_dir opts);
            args = [''build'', ''--no-cache''] @ dockerBuildPlatformArgs opts @ [''-t'', tag, ''-f'', path, build_context];
            (out, err) = bt_docker tools (cancelled (bo_id opts) (snd s)) args;
            s' = log_ops tools (map LogWrite out) s in
        (case err of Some e \<Rightarrow> (Inl e, s') | None \<Rightarrow> (Inr tag, s')))"

section \<open>Outputs\<close>

definition assembleConfig :: "build_options \<Rightarrow> string \<Rightarrow> string \<Rightarrow> deploy_config \<times> string" where
  "assembleConfig opts img dir =
     (let o' = bo_outputs opts in
      (\<lparr>dc_state = dir, dc_disable_http = True, dc_disable_netboot = (\<not> bo_netboot opts),
        dc_disable_iso = (\<not> bo_iso opts), dc_arch = so_arch (bo_source opts),
        dc_insecure = Some (so_insecure (bo_source opts)),
        dc_efi = (bo_cloud_image opts \<or> ou_raw_disk o' \<or> ou_gce o' \<or> ou_vhd o' \<or> ou_maas o'),
        dc_gce = ou_gce o', dc_vhd = ou_vhd o', dc_maas = ou_maas o',
        dc_cloud_config = bo_cloud_config opts, dc_iso_overlay = bo_overlay opts\<rparr>, img))"

text \<open>
  When the context is done the build returns although the UKI builder still runs; its
  output is applied here, at the earliest moment it can come.
\<close>

definition buildUKI :: "build_tools \<Rightarrow> build_run \<times> builder \<Rightarrow> string option \<times> build_run \<times> builder" where
  "buildUKI tools s =
     (let r = fst s; si = bo_signing (ru_opts r) in
      if si_key si = [] \<or> si_cert si = [] \<or> si_tpm_key si = []
      then (Some ''UKI requires SecureBoot keys: sb-key, sb-cert, and tpm-pcr-private-key must all be provided'', s)
      else
        let (out, err, nodes) = bt_uki tools
              \<lparr>uk_source = ru_image r, uk_output_dir = ru_dir r, uk_output_type = ''iso'', uk_name = ''kairos'',
                uk_key = si_key si, uk_cert = si_cert si, uk_tpm_key = si_tpm_key si, uk_pub_dir = si_pub_dir si,
                uk_enroll = si_enroll si, uk_overlay = bo_overlay (ru_opts r),
                uk_insecure = so_insecure (bo_source (ru_opts r))\<rparr> (ru_nodes r);
            (r', b') = log_ops tools (map LogWrite out) s
        in (if cancelled (bo_id (ru_opts r)) (snd s) \<and> bt_done_wins tools then Some ''context canceled'' else err,
            r'\<lparr>ru_nodes := nodes\<rparr>, b'))"

definition HasSuffix :: "string \<Rightarrow> string \<Rightarrow> bool" where
  [go_strings]: "HasSuffix s p = HasPrefix (rev s) (rev p)"

definition artifact_exts :: "string list" where
  "artifact_exts = [''.iso'', ''.raw'', ''.raw.gz'', ''.img'', ''.tar'', ''.tar.gz'', ''.vhd'', ''.sha256'']"

fun node_name :: "fs_node \<Rightarrow> string" where
  "node_name (FsFile n) = n"
| "node_name (FsDir n cs) = n"

text \<open>\<^verbatim>\<open>filepath.Walk\<close> visits the entries of a directory in lexical order.\<close>

fun walk :: "string \<Rightarrow> fs_node \<Rightarrow> string list" where
  "walk path (FsFile n) = (if list_ex (HasSuffix n) artifact_exts then [path] else [])"
| "walk path (FsDir n cs) =
     (if n \<in> {''temp-rootfs'', ''build'', ''rootfs''} then []
      else concat (map (\<lambda>c. walk (PathJoin [path, node_name c]) c) (sort_key node_name cs)))"

definition collectArtifacts :: "string \<Rightarrow> fs_node list \<Rightarrow> string list" where
  "collectArtifacts dir nodes = walk dir (FsDir (Base dir) nodes)"

text \<open>
  Removing the scaffolding ISO: \<^verbatim>\<open>filepath.Glob\<close> matches the entries of the directory itself,
  and \<^verbatim>\<open>os.Remove\<close> may fail.
\<close>

definition remove_matches ::
  "build_tools \<Rightarrow> string \<Rightarrow> build_run \<times> builder \<Rightarrow> build_run \<times> builder" where
  "remove_matches tools sfx s =
     fold (\<lambda>n s'. let path = PathJoin [ru_dir (fst s'), n] in
         case bt_remove tools path of
           Some e \<Rightarrow> log_ops tools [LogWrite (''Warning: could not remove unrequested '' @ Base path @ '': '' @ e @ NL)] s'
         | None \<Rightarrow> ((fst s')\<lparr>ru_nodes := filter (\<lambda>x. node_name x \<noteq> n) (ru_nodes (fst s'))\<rparr>, snd s'))
       (filter (\<lambda>n. HasSuffix n sfx) (map node_name (ru_nodes (fst s)))) s"

section \<open>The build goroutine\<close>

definition output_lines :: "build_options \<Rightarrow> string \<Rightarrow> string \<Rightarrow> log_op list" where
  "output_lines opts img dir =
     [LogWrite (''=== Starting AuroraBoot build ==='' @ NL), LogWrite (''Image: '' @ img @ NL)]
     @ (if bo_iso opts then [LogWrite (''Output: ISO'' @ NL)] else [])
     @ (if bo_cloud_image opts then [LogWrite (''Output: Cloud Image (raw disk)'' @ NL)] else [])
     @ (if bo_netboot opts then [LogWrite (''Output: Netboot'' @ NL)] else [])
     @ [LogWrite (''Output dir: '' @ dir @ NL)]
     @ (if bo_cloud_config opts \<noteq> [] then [LogWrite (''Cloud config:'' @ NL @ bo_cloud_config opts @ NL)] else [])
     @ [LogWrite NL, LogFlush]"

definition run_start :: "build_run \<times> builder \<Rightarrow> build_run \<times> builder" where
  "run_start s = goto_pc RStartStore (fst s, setPhase (bo_id (ru_opts (fst s))) BuildBuilding [] (snd s))"

text \<open>
  The first write of the row runs in the context of the build: when that is cancelled, the database
  refuses the statements.
\<close>

definition run_start_store :: "build_tools \<Rightarrow> build_run \<times> builder \<Rightarrow> build_run \<times> builder" where
  "run_start_store tools s =
     (let i = bo_id (ru_opts (fst s));
          b = (if cancelled i (snd s) then snd s else store_phase tools i ArtifactBuilding [] (snd s)) in
      goto_pc RDocker
       ((fst s)\<lparr>ru_writer := (if bt_store tools = None then None
          else Some \<lparr>lw_id = i, lw_buf = [], lw_redact = bo_redact (ru_opts (fst s))\<rparr>)\<rparr>, b))"

definition run_docker :: "build_tools \<Rightarrow> build_run \<times> builder \<Rightarrow> build_run \<times> builder" where
  "run_docker tools s =
     (let opts = ru_opts (fst s); base = bo_base_image opts in
      if re_dockerfile (bo_recipe opts) \<noteq> [] then
        let s1 = log_ops tools ([LogWrite (''=== Building from Dockerfile ==='' @ NL)]
              @ (if base \<noteq> [] then [LogWrite (''Note: Dockerfile overrides base image ('' @ base @ '')'' @ NL @ NL)] else [])
              @ [LogFlush]) s in
        (case dockerBuild tools s1 of
           (Inl e, s2) \<Rightarrow> goto_pc (RFailed (''docker build failed: '' @ e)) s2
         | (Inr img, s2) \<Rightarrow> goto_pc RKairosify ((fst s2)\<lparr>ru_image := img\<rparr>, snd s2))
      else
        let s1 = log_ops tools [LogWrite (''=== Using base image: '' @ base @ '' ==='' @ NL @ NL), LogFlush] s in
        goto_pc RKairosify ((fst s1)\<lparr>ru_image := base\<rparr>, snd s1))"

definition run_kairosify :: "build_tools \<Rightarrow> build_run \<times> builder \<Rightarrow> build_run \<times> builder" where
  "run_kairosify tools s =
     (let derive = (if re_dockerfile (bo_recipe (ru_opts (fst s))) = [] \<and> bt_store tools \<noteq> None then kairosify
                    else ensureKairosified) in
      case derive tools (ru_image (fst s)) s of
        (Inl e, s1) \<Rightarrow> goto_pc (RFailed (''kairosify failed: '' @ e)) s1
      | (Inr img, s1) \<Rightarrow> goto_pc RDeploy ((fst s1)\<lparr>ru_image := img\<rparr>, snd s1))"

definition run_deploy :: "build_tools \<Rightarrow> build_run \<times> builder \<Rightarrow> build_run \<times> builder" where
  "run_deploy tools s =
     (let r = fst s; opts = ru_opts r;
          s1 = log_ops tools (output_lines opts (ru_image r) (ru_dir r)) s;
          (config, img) = assembleConfig opts (ru_image r) (ru_dir r);
          (out, err, nodes) = bt_deploy tools (cancelled (bo_id opts) (snd s)) config img (ru_dir r);
          (r2, b2) = log_ops tools (map LogWrite out) s1;
          s2 = (r2\<lparr>ru_nodes := nodes\<rparr>, b2) in
      case err of
        Some e \<Rightarrow> goto_pc (RFailed (''auroraboot failed: '' @ e)) s2
      | None \<Rightarrow> goto_pc RTar (log_ops tools [LogWrite (NL @ ''=== AuroraBoot build completed ==='' @ NL), LogFlush] s2))"

definition run_tar :: "build_tools \<Rightarrow> build_run \<times> builder \<Rightarrow> build_run \<times> builder" where
  "run_tar tools s =
     (let opts = ru_opts (fst s); img = ru_image (fst s) in
      goto_pc RUki
       (if ou_tar (bo_outputs opts) \<and> img \<noteq> [] then
          let s1 = log_ops tools [LogWrite (NL @ ''=== Saving container image as TAR ==='' @ NL), LogFlush] s;
              (out, err) = bt_docker tools (cancelled (bo_id opts) (snd s))
                [''save'', ''-o'', PathJoin [ru_dir (fst s), ''container.tar''], img];
              s2 = log_ops tools (map LogWrite out) s1 in
          (case err of
             Some e \<Rightarrow> log_ops tools [LogWrite (''Warning: docker save failed: '' @ e @ NL), LogFlush] s2
           | None \<Rightarrow> ((fst s2)\<lparr>ru_nodes := filter (\<lambda>x. node_name x \<noteq> ''container.tar'') (ru_nodes (fst s2)) @ [FsFile ''container.tar'']\<rparr>,
                     snd s2))
        else s))"

definition run_uki :: "build_tools \<Rightarrow> build_run \<times> builder \<Rightarrow> build_run \<times> builder" where
  "run_uki tools s =
     (if ou_uki (bo_outputs (ru_opts (fst s))) then
        let s1 = log_ops tools [LogWrite (NL @ ''=== Building UKI (Unified Kernel Image) ==='' @ NL), LogFlush] s in
        (case buildUKI tools s1 of
           (Some e, s2) \<Rightarrow>
             let msg = ''UKI build failed: '' @ e in
             goto_pc (RFailed msg) (log_ops tools [LogWrite (msg @ NL), LogFlush] s2)
         | (None, s2) \<Rightarrow> goto_pc RCollect s2)
      else goto_pc RCollect s)"

definition run_collect :: "build_tools \<Rightarrow> build_run \<times> builder \<Rightarrow> build_run \<times> builder" where
  "run_collect tools s =
     (let s1 = (if \<not> ou_iso (bo_outputs (ru_opts (fst s)))
                then remove_matches tools ''.iso.sha256'' (remove_matches tools ''.iso'' s) else s);
          files = collectArtifacts (ru_dir (fst s1)) (ru_nodes (fst s1)) in
      goto_pc (RReady files)
       (log_ops tools ([LogWrite (''Artifacts:'' @ NL)] @ map (\<lambda>a. LogWrite (''  '' @ Base a @ NL)) files @ [LogFlush]) s1))"

definition run_ready :: "string list \<Rightarrow> build_run \<times> builder \<Rightarrow> build_run \<times> builder" where
  "run_ready files s =
     goto_pc (RStore files) (fst s,
       (snd s)\<lparr>lb_builds := AList.map_entry (bo_id (ru_opts (fst s)))
          (\<lambda>bs. bs\<lparr>bs_status := (bs_status bs)\<lparr>bd_phase := BuildReady, bd_message := [], bd_artifacts := files\<rparr>\<rparr>)
          (lb_builds (snd s))\<rparr>)"

definition run_store :: "build_tools \<Rightarrow> string list \<Rightarrow> build_run \<times> builder \<Rightarrow> build_run \<times> builder" where
  "run_store tools files s =
     (let (r, b) = log_ops tools [LogFlush] s; t = lk_artifacts (lb_sink b) in
      goto_pc RDone
       (case bt_store tools of
          None \<Rightarrow> (r, b)
        | Some eng \<Rightarrow> (case ArtifactGetByID eng (bo_id (ru_opts r)) t of
              Inl e \<Rightarrow> (r, b)
            | Inr rec \<Rightarrow> (r, b\<lparr>lb_sink := (lb_sink b)\<lparr>lk_artifacts := snd (ArtifactUpdate eng
                (rec\<lparr>ar_phase := ArtifactReady, ar_message := [], ar_files := files, ar_container_image := ru_image r\<rparr>) t)\<rparr>\<rparr>))))"

fun run_step :: "build_tools \<Rightarrow> build_run \<times> builder \<Rightarrow> build_run \<times> builder" where
  "run_step tools s =
     (case ru_pc (fst s) of
        RStart \<Rightarrow> run_start s
      | RStartStore \<Rightarrow> run_start_store tools s
      | RDocker \<Rightarrow> run_docker tools s
      | RKairosify \<Rightarrow> run_kairosify tools s
      | RDeploy \<Rightarrow> run_deploy tools s
      | RTar \<Rightarrow> run_tar tools s
      | RUki \<Rightarrow> run_uki tools s
      | RCollect \<Rightarrow> run_collect tools s
      | RReady files \<Rightarrow> run_ready files s
      | RStore files \<Rightarrow> run_store tools files s
      | RFailed msg \<Rightarrow> goto_pc (RFailStore msg) (fst s, setPhase (bo_id (ru_opts (fst s))) BuildError msg (snd s))
      | RFailStore msg \<Rightarrow>
          let s1 = log_ops tools [LogFlush] s in
          goto_pc RDone (fst s1, store_phase tools (bo_id (ru_opts (fst s))) ArtifactError msg (snd s1))
      | RDone \<Rightarrow> s)"

declare run_step.simps [simp del]

section \<open>Requests to the builder\<close>

definition build_record :: "build_options \<Rightarrow> string \<Rightarrow> artifact" where
  "build_record opts i =
     \<lparr>ar_id = i, ar_name = bo_name opts, ar_saved = False, ar_phase = ArtifactPending, ar_message = [],
      ar_source = \<lparr>so_base_image = bo_base_image opts, so_kairos_version = bo_kairos_version opts,
        so_model = bo_model opts, so_arch = so_arch (bo_source opts), so_variant = so_variant (bo_source opts),
        so_distro = so_distro (bo_source opts), so_kubernetes_version = so_kubernetes_version (bo_source opts),
        so_insecure = so_insecure (bo_source opts)\<rparr>,
      ar_outputs = (bo_outputs opts)\<lparr>ou_iso := bo_iso opts, ou_cloud_image := bo_cloud_image opts,
        ou_netboot := bo_netboot opts, ou_fips := bo_fips opts, ou_trusted_boot := bo_trusted_boot opts\<rparr>,
      ar_recipe = bo_recipe opts,
      ar_auto_install = po_auto_install (bo_provisioning opts), ar_register = po_register (bo_provisioning opts),
      ar_cloud_config = bo_cloud_config opts,
      ar_kubernetes_enabled = Some (po_kubernetes_enabled (bo_provisioning opts)),
      ar_target_group = po_target_group (bo_provisioning opts), ar_container_image = [],
      ar_overlay = bo_overlay opts, ar_files = [], ar_logs = [], ar_upload_token = []\<rparr>"

definition pending_status :: "string \<Rightarrow> build_status" where
  "pending_status i = \<lparr>bd_id = i, bd_phase = BuildPending, bd_message = [], bd_artifacts = []\<rparr>"

definition cancel_context :: "string \<Rightarrow> builder \<Rightarrow> builder" where
  "cancel_context i b = b\<lparr>lb_builds := AList.map_entry i (\<lambda>bs. bs\<lparr>bs_cancelled := True\<rparr>) (lb_builds b)\<rparr>"

text \<open>The goroutine that \<open>Build\<close> starts, if it does, is the last component.\<close>

definition Build :: "build_tools \<Rightarrow> uuid \<Rightarrow> build_options \<Rightarrow> builder \<Rightarrow>
    (build_error + build_status) \<times> builder \<times> build_run option" where
  "Build tools u opts0 b =
     (case validateKairosInitOptions opts0 of
        Some e \<Rightarrow> (Inl (InvalidBuildOptions (''invalid build options: '' @ e)), b, None)
      | None \<Rightarrow>
        let i = (if bo_id opts0 = [] then u else bo_id opts0);
            opts = opts0\<lparr>bo_id := i\<rparr>;
            dir = PathJoin [bt_base_dir tools, i] in
        case bt_mkdir tools dir of
          Some e \<Rightarrow> (Inl (BuildFailed (''creating output dir: '' @ e)), b, None)
        | None \<Rightarrow>
          let b1 = b\<lparr>lb_builds := AList.update i \<lparr>bs_status = pending_status i, bs_cancelled = False\<rparr> (lb_builds b)\<rparr>;
              run = \<lparr>ru_pc = RStart, ru_opts = opts, ru_dir = dir, ru_writer = None, ru_image = [], ru_nodes = []\<rparr> in
          (case bt_store tools of
             None \<Rightarrow> (Inr (pending_status i), b1, Some run)
           | Some eng \<Rightarrow>
             (case ArtifactCreate eng (build_record opts i) (lk_artifacts (lb_sink b1)) of
                (Inl e, t) \<Rightarrow>
                  (Inl (PersistFailed e),
                   cancel_context i (b1\<lparr>lb_sink := (lb_sink b1)\<lparr>lk_artifacts := t\<rparr>\<rparr>), None)
              | (Inr _, t) \<Rightarrow> (Inr (pending_status i), b1\<lparr>lb_sink := (lb_sink b1)\<lparr>lk_artifacts := t\<rparr>\<rparr>, Some run))))"

definition status_of :: "artifact \<Rightarrow> build_status" where
  "status_of r = \<lparr>bd_id = ar_id r, bd_phase = ar_phase r, bd_message = ar_message r, bd_artifacts = ar_files r\<rparr>"

definition memory_status :: "string \<Rightarrow> builder \<Rightarrow> string + build_status" where
  "memory_status i b =
     (case map_of (lb_builds b) i of
        None \<Rightarrow> Inl (''build '' @ quoted i @ '' not found'')
      | Some bs \<Rightarrow> Inr (bs_status bs))"

definition Status :: "build_tools \<Rightarrow> string \<Rightarrow> builder \<Rightarrow> string + build_status" where
  "Status tools i b =
     (case bt_store tools of
        None \<Rightarrow> memory_status i b
      | Some eng \<Rightarrow> (case ArtifactGetByID eng i (lk_artifacts (lb_sink b)) of
            Inr rec \<Rightarrow> Inr (status_of rec)
          | Inl _ \<Rightarrow> memory_status i b))"

definition BuildList :: "build_tools \<Rightarrow> builder \<Rightarrow> build_status list" where
  "BuildList tools b =
     (let memory = map (\<lambda>(_, bs). bs_status bs) (lb_builds b) in
      case bt_store tools of
        None \<Rightarrow> memory
      | Some eng \<Rightarrow> (case ArtifactList eng (lk_artifacts (lb_sink b)) of
            Inr recs \<Rightarrow> map status_of recs
          | Inl _ \<Rightarrow> memory))"

text \<open>Cancelling holds the lock of the builder over both of its writes.\<close>

definition BuildCancel :: "build_tools \<Rightarrow> string \<Rightarrow> builder \<Rightarrow> builder" where
  "BuildCancel tools i b =
     (case map_of (lb_builds b) i of
        None \<Rightarrow> b
      | Some bs \<Rightarrow>
        let b1 = cancel_context i b;
            b2 = (if bd_phase (bs_status bs) \<in> {BuildPending, BuildBuilding}
                  then setPhase i BuildError ''cancelled'' b1 else b1)
        in store_phase tools i ArtifactError ''cancelled'' b2)"

section \<open>A build among other requests\<close>

datatype build_op = RunStep | CancelBuild string | TableOp "artifact_op"

fun build_step :: "build_tools \<Rightarrow> build_op \<Rightarrow> build_run \<times> builder \<Rightarrow> build_run \<times> builder" where
  "build_step tools RunStep s = run_step tools s"
| "build_step tools (CancelBuild i) s = (fst s, BuildCancel tools i (snd s))"
| "build_step tools (TableOp op) s =
     (case bt_store tools of
        None \<Rightarrow> s
      | Some eng \<Rightarrow> (fst s, (snd s)\<lparr>lb_sink := (lb_sink (snd s))\<lparr>lk_artifacts :=
          snd (artifact_step eng op (lk_artifacts (lb_sink (snd s))))\<rparr>\<rparr>))"

abbreviation build_run_ops :: "build_tools \<Rightarrow> build_op list \<Rightarrow> build_run \<times> builder \<Rightarrow> build_run \<times> builder" where
  "build_run_ops tools ops s \<equiv> fold (build_step tools) ops s"

text \<open>
  Most steps only write the log and the goroutine's own variables: what these leave alone, the
  steps leave alone.
\<close>

locale run_frame =
  fixes tools :: build_tools
    and view :: "build_run \<times> builder \<Rightarrow> 'v"
  assumes view_log [simp]: "view (log_ops tools ops s) = view s"
    and view_image [simp]: "view (r\<lparr>ru_image := img\<rparr>, b) = view (r, b)"
    and view_nodes [simp]: "view (r\<lparr>ru_nodes := ns\<rparr>, b) = view (r, b)"
    and view_pc: "view (r\<lparr>ru_pc := pc\<rparr>, b) = view (r, b)"
begin

lemma view_updates [simp]:
  "view ((fst s)\<lparr>ru_image := img\<rparr>, snd s) = view s" "view ((fst s)\<lparr>ru_nodes := ns\<rparr>, snd s) = view s"
  by (simp_all add: view_image view_nodes)

lemma view_goto [simp]: "view (goto_pc pc s) = view s"
  by (simp add: goto_pc_def view_pc)

lemma view_log_pair: "log_ops tools ops s = s' \<Longrightarrow> view s' = view s"
  by auto

lemma view_kairosify: "kairosify tools img s = (r, s') \<Longrightarrow> view s' = view s"
  by (auto simp: kairosify_def Let_def split: option.splits prod.splits)

lemma view_ensure: "ensureKairosified tools img s = (r, s') \<Longrightarrow> view s' = view s"
  by (auto simp: ensureKairosified_def view_kairosify split: if_splits)

lemma view_docker: "dockerBuild tools s = (r, s') \<Longrightarrow> view s' = view s"
  by (auto simp: dockerBuild_def Let_def split: option.splits prod.splits)

lemma view_uki: "buildUKI tools s = (r, s') \<Longrightarrow> view s' = view s"
  by (auto simp: buildUKI_def Let_def view_nodes dest: view_log_pair split: if_splits prod.splits)

lemma view_remove [simp]: "view (remove_matches tools sfx s) = view s"
proof -
  have fold_view: "view (fold f ns s) = view s" if "\<And>n s. view (f n s) = view s"
    for f :: "string \<Rightarrow> build_run \<times> builder \<Rightarrow> build_run \<times> builder" and ns s
    using that by (induction ns arbitrary: s) auto
  show ?thesis unfolding remove_matches_def
    by (rule fold_view) (auto simp: Let_def split: option.splits)
qed

lemma run_docker_view: "view (run_docker tools s) = view s"
  by (auto simp: run_docker_def Let_def split: sum.splits prod.splits dest!: view_docker)

lemma run_kairosify_view: "view (run_kairosify tools s) = view s"
  by (auto simp: run_kairosify_def Let_def split: sum.splits prod.splits if_splits dest!: view_kairosify view_ensure)

lemma run_deploy_view: "view (run_deploy tools s) = view s"
  by (auto simp: run_deploy_def Let_def view_nodes split: option.splits prod.splits dest!: view_log_pair)

lemma run_tar_view: "view (run_tar tools s) = view s"
  by (auto simp: run_tar_def Let_def split: option.splits prod.splits)

lemma run_uki_view: "view (run_uki tools s) = view s"
  by (auto simp: run_uki_def Let_def split: option.splits prod.splits dest!: view_uki)

lemma run_collect_view: "view (run_collect tools s) = view s"
  by (auto simp: run_collect_def Let_def)

lemmas run_views = run_docker_view run_kairosify_view run_deploy_view run_tar_view run_uki_view run_collect_view

lemma run_keeps:
  "ru_pc (fst s) \<in> {RDocker, RKairosify, RDeploy, RTar, RUki, RCollect} \<Longrightarrow> view (run_step tools s) = view s"
  by (auto simp: run_step.simps run_views)

end

text \<open>The request and the builds in memory are such a view.\<close>

definition build_view :: "build_run \<times> builder \<Rightarrow> build_options \<times> (string \<times> build_state) list" where
  "build_view s = (ru_opts (fst s), lb_builds (snd s))"

interpretation memory: run_frame tools build_view for tools
  by unfold_locales (auto simp: build_view_def log_ops_def split: option.splits prod.splits)

section \<open>Every build ends\<close>

fun rank :: "run_pc \<Rightarrow> nat" where
  "rank RStart = 10"
| "rank RStartStore = 9"
| "rank RDocker = 8"
| "rank RKairosify = 7"
| "rank RDeploy = 6"
| "rank RTar = 5"
| "rank RUki = 4"
| "rank RCollect = 3"
| "rank (RReady _) = 2"
| "rank (RFailed _) = 2"
| "rank (RStore _) = 1"
| "rank (RFailStore _) = 1"
| "rank RDone = 0"

lemma goto_pc_sel [simp]:
  "ru_pc (fst (goto_pc pc s)) = pc" "ru_opts (fst (goto_pc pc s)) = ru_opts (fst s)"
  "lb_builds (snd (goto_pc pc s)) = lb_builds (snd s)" "lb_sink (snd (goto_pc pc s)) = lb_sink (snd s)"
  by (simp_all add: goto_pc_def)

lemmas run_steps = run_start_def run_start_store_def run_docker_def run_kairosify_def run_deploy_def run_tar_def run_uki_def
  run_collect_def run_ready_def run_store_def

lemma run_step_rank: "ru_pc (fst s) \<noteq> RDone \<Longrightarrow> rank (ru_pc (fst (run_step tools s))) < rank (ru_pc (fst s))"
  by (cases "ru_pc (fst s)")
    (auto simp: run_step.simps run_steps Let_def split: prod.splits sum.splits option.splits if_splits)

lemma rank_0 [simp]: "rank pc = 0 \<longleftrightarrow> pc = RDone"
  by (cases pc) simp_all

lemma build_step_rank:
  "rank (ru_pc (fst (build_step tools op s))) \<le> rank (ru_pc (fst s)) - (if op = RunStep then 1 else 0)"
proof (cases op)
  case RunStep
  then show ?thesis using run_step_rank [of s tools] by (cases "ru_pc (fst s) = RDone") (auto simp: run_step.simps)
qed (auto split: option.splits)


lemma run_steps_rank: "rank (ru_pc (fst ((run_step tools ^^ n) s))) \<le> rank (ru_pc (fst s)) - n"
proof (induction n)
  case (Suc n)
  have "rank (ru_pc (fst ((run_step tools ^^ Suc n) s))) \<le> rank (ru_pc (fst ((run_step tools ^^ n) s))) - 1"
    using build_step_rank [of tools RunStep "(run_step tools ^^ n) s"] by simp
  then show ?case using Suc by linarith
qed simp

text \<open>Between the writes at the start and those at the end.\<close>

fun running :: "run_pc \<Rightarrow> bool" where
  "running RStart = False"
| "running RStartStore = False"
| "running (RStore _) = False"
| "running (RFailStore _) = False"
| "running RDone = False"
| "running _ = True"



lemma map_of_entry: "map_of (AList.map_entry k f al) i = (if i = k then map_option f (map_of al i) else map_of al i)"
  by (induction al) (auto split: if_splits)

lemma run_continues:
  assumes "ru_pc (fst s) \<in> {RDocker, RKairosify, RDeploy, RTar, RUki, RCollect}"
  shows "running (ru_pc (fst (run_step tools s)))"
  using assms by (auto simp: run_step.simps run_steps Let_def split: prod.splits sum.splits option.splits if_splits)



lemma store_phase_builds [simp]: "lb_builds (store_phase tools i phase message b) = lb_builds b"
  by (simp add: store_phase_def split: option.splits)

lemma run_store_view: "build_view (run_store tools files s) = build_view s"
  by (auto simp: run_store_def Let_def build_view_def split: option.splits sum.splits prod.splits dest!: memory.view_log_pair)






section \<open>The row and the memory agree\<close>

text \<open>The status of the row, as \<open>Status\<close> reads it.\<close>

definition row_status :: "string \<Rightarrow> artifacts \<Rightarrow> build_status option" where
  "row_status i t = (if distinct (map ar_id t) then map_option status_of (row_map ar_id t i) else None)"

definition row_view :: "string \<Rightarrow> build_run \<times> builder \<Rightarrow> build_status option" where
  "row_view i s = row_status i (lk_artifacts (lb_sink (snd s)))"

text \<open>
  Requests that come in time and leave the build alone: a cancellation of the build comes while its
  goroutine runs, neither before its first step nor after its last, and other statements on
  the table keep the status columns of its row.
\<close>

fun between_writes :: "run_pc \<Rightarrow> bool" where
  "between_writes RStartStore = True"
| "between_writes (RStore _) = True"
| "between_writes (RFailStore _) = True"
| "between_writes _ = False"

fun in_time :: "build_tools \<Rightarrow> string \<Rightarrow> build_run \<times> builder \<Rightarrow> build_op \<Rightarrow> bool" where
  "in_time tools i s RunStep = True"
| "in_time tools i s (CancelBuild j) = (j = i \<longrightarrow> ru_pc (fst s) \<notin> {RStart, RDone})"
| "in_time tools i s (TableOp op) = (row_view i (build_step tools (TableOp op) s) = row_view i s)"

fun undisturbed :: "build_tools \<Rightarrow> string \<Rightarrow> build_op list \<Rightarrow> build_run \<times> builder \<Rightarrow> bool" where
  "undisturbed tools i [] s = True"
| "undisturbed tools i (op # ops) s = (in_time tools i s op \<and> undisturbed tools i ops (build_step tools op s))"

locale stored_builder = keyed_engine eng ar_id artifact_clash for eng :: "artifact engine" +
  fixes tools :: build_tools
  assumes stored: "bt_store tools = Some eng"
begin

lemma artifact_eng: "artifact_engine eng"
  by (rule artifact_engine_of) (rule sql_engine_axioms)

lemma append_status:
  assumes "ArtifactAppendLog eng j txt t = (out, t')"
  shows "row_status i t' = row_status i t"
proof -
  have "t' = t \<or> t' = update_rows (\<lambda>r. ar_id r = j) (\<lambda>r. r\<lparr>ar_logs := ar_logs r @ txt\<rparr>) t"
    using assms db_updates_Inl db_updates_Inr unfolding ArtifactAppendLog_def update_columns_def by (cases out) fastforce+
  then have ids: "map ar_id t' = map ar_id t" by (auto simp: map_update_rows)
  have "map_option status_of (row_map ar_id t' i) = map_option status_of (row_map ar_id t i)" if "distinct (map ar_id t)"
    using artifact_engine.update_columns_map [OF artifact_eng assms [unfolded ArtifactAppendLog_def] that]
    by (auto simp: status_of_def split: option.splits)
  then show ?thesis by (simp add: row_status_def ids)
qed

lemma flush_status: "row_status i (lk_artifacts (snd (log_flush eng bc w k))) = row_status i (lk_artifacts k)"
  using append_status by (auto simp: log_flush_def Let_def split: prod.splits)

lemma log_status:
  "row_status i (lk_artifacts (snd (fold (log_step eng bc) ops s))) = row_status i (lk_artifacts (snd s))"
proof (induction ops arbitrary: s)
  case (Cons op ops)
  have "row_status i (lk_artifacts (snd (log_step eng bc op s))) = row_status i (lk_artifacts (snd s))"
    by (cases s; cases op) (simp_all add: log_write_def Let_def flush_status)
  then show ?case using Cons by simp
qed simp

lemma log_ops_row: "row_view i (log_ops tools ops s) = row_view i s"
proof (cases "ru_writer (fst s)")
  case (Some w)
  then show ?thesis
    using log_status [of i "bt_broadcaster tools" ops "(w, lb_sink (snd s))"]
    by (auto simp: row_view_def log_ops_def stored split: prod.splits)
qed (simp add: log_ops_def stored)

end

sublocale stored_builder \<subseteq> rows: run_frame tools "row_view i" for i
  by unfold_locales (simp_all add: log_ops_row, simp_all add: row_view_def)

context stored_builder
begin

lemma update_row:
  assumes "row_status i t = Some st" and "ar_id rec = i"
  shows "row_status i (snd (ArtifactUpdate eng rec t)) = Some (status_of rec)"
proof -
  obtain r where d: "distinct (map ar_id t)" and r: "row_map ar_id t (ar_id rec) = Some r"
    using assms by (auto simp: row_status_def split: if_splits)
  show ?thesis using update_existing [OF keyed_engine_axioms d r] assms(2) by (simp add: row_status_def status_of_def)
qed

lemma get_row: "row_status i t = Some st \<Longrightarrow> \<exists>rec. ArtifactGetByID eng i t = Inr rec \<and> ar_id rec = i \<and> status_of rec = st"
  using first_map [of t i] by (auto simp: row_status_def ArtifactGetByID_def dest: row_map_Some split: if_splits)

lemma phase_row:
  assumes "row_status i t = Some st"
  shows "row_status i (snd (updateDBPhase eng i phase message t)) = Some (st\<lparr>bd_phase := phase, bd_message := message\<rparr>)"
proof -
  obtain rec where rec: "ArtifactGetByID eng i t = Inr rec" "ar_id rec = i" "status_of rec = st"
    using get_row [OF assms] by blast
  then show ?thesis using update_row [OF assms, of "rec\<lparr>ar_phase := phase, ar_message := message\<rparr>"]
    by (auto simp: updateDBPhase_def status_of_def)
qed

lemma store_phase_row:
  "row_view i (r, b) = Some st \<Longrightarrow>
     row_view i (r', store_phase tools i phase message b) = Some (st\<lparr>bd_phase := phase, bd_message := message\<rparr>)"
  using phase_row by (simp add: row_view_def store_phase_def stored)

end

text \<open>
  Between the two writes at the start of a build, and the two at its end, the row still has the old
  status. A cancellation during the first of these makes the two agree at once, since
  the write that is left is then refused.
\<close>

definition agree :: "string \<Rightarrow> build_run \<times> builder \<Rightarrow> bool" where
  "agree i s \<longleftrightarrow> bo_id (ru_opts (fst s)) = i \<and>
     (\<exists>st bs. row_view i s = Some st \<and> bd_id st = i \<and> map_of (lb_builds (snd s)) i = Some bs \<and>
        (case ru_pc (fst s) of
           RStart \<Rightarrow> bs_status bs = st \<and> \<not> bs_cancelled bs
         | RStartStore \<Rightarrow>
             (if bs_cancelled bs then bs_status bs = st \<and> (bd_phase st, bd_message st) = (BuildError, ''cancelled'')
              else bs_status bs = st\<lparr>bd_phase := BuildBuilding, bd_message := []\<rparr>)
         | RStore files \<Rightarrow> bs_status bs = \<lparr>bd_id = i, bd_phase = BuildReady, bd_message = [], bd_artifacts = files\<rparr>
         | RFailStore msg \<Rightarrow> bs_status bs = st\<lparr>bd_phase := BuildError, bd_message := msg\<rparr>
         | RDone \<Rightarrow> bs_status bs = st
         | _ \<Rightarrow> bs_status bs = st \<and> (bd_phase st, bd_message st) \<in> {(BuildBuilding, []), (BuildError, ''cancelled'')}))"

lemma agree_running:
  "running (ru_pc (fst s)) \<Longrightarrow> agree i s \<longleftrightarrow> bo_id (ru_opts (fst s)) = i \<and>
     (\<exists>st bs. row_view i s = Some st \<and> bd_id st = i \<and> map_of (lb_builds (snd s)) i = Some bs \<and>
        bs_status bs = st \<and> (bd_phase st, bd_message st) \<in> {(BuildBuilding, []), (BuildError, ''cancelled'')})"
  by (cases "ru_pc (fst s)") (simp_all add: agree_def)

context stored_builder
begin

lemma agree_keeps:
  assumes "agree i s" and pc: "ru_pc (fst s) \<in> {RDocker, RKairosify, RDeploy, RTar, RUki, RCollect}"
  shows "agree i (run_step tools s)"
proof -
  have "build_view (run_step tools s) = build_view s" by (rule memory.run_keeps [OF pc])
  moreover have "row_view i (run_step tools s) = row_view i s" by (rule rows.run_keeps [OF pc])
  moreover have "running (ru_pc (fst s))" using pc by auto
  moreover have "running (ru_pc (fst (run_step tools s)))" by (rule run_continues [OF pc])
  ultimately show ?thesis
    using assms(1) by (simp add: agree_running build_view_def)
qed

lemma agree_start:
  assumes "agree i s" and pc: "ru_pc (fst s) = RStart"
  shows "agree i (run_step tools s)"
proof -
  obtain st bs where st: "row_view i s = Some st" "map_of (lb_builds (snd s)) i = Some bs" "bd_id st = i" "bo_id (ru_opts (fst s)) = i"
      "bs_status bs = st" "\<not> bs_cancelled bs"
    using assms by (auto simp: agree_def)
  have "row_view i (run_step tools s) = Some st"
    using st(1) pc by (simp add: run_step.simps run_start_def goto_pc_def row_view_def setPhase_def)
  moreover have "map_of (lb_builds (snd (run_step tools s))) i =
      Some (bs\<lparr>bs_status := st\<lparr>bd_phase := BuildBuilding, bd_message := []\<rparr>\<rparr>)"
    using st pc by (simp add: run_step.simps run_start_def setPhase_def map_of_entry)
  moreover have "ru_pc (fst (run_step tools s)) = RStartStore" "bo_id (ru_opts (fst (run_step tools s))) = i"
    using st(4) pc by (simp_all add: run_step.simps run_start_def)
  ultimately show ?thesis using st(3,6) by (simp add: agree_def)
qed

lemma agree_start_store:
  assumes "agree i s" and pc: "ru_pc (fst s) = RStartStore"
  shows "agree i (run_step tools s)"
proof -
  obtain st bs where st: "row_view i s = Some st" "map_of (lb_builds (snd s)) i = Some bs" "bd_id st = i" "bo_id (ru_opts (fst s)) = i"
      "if bs_cancelled bs then bs_status bs = st \<and> (bd_phase st, bd_message st) = (BuildError, ''cancelled'')
       else bs_status bs = st\<lparr>bd_phase := BuildBuilding, bd_message := []\<rparr>"
    using assms by (auto simp: agree_def)
  have row: "row_view i (run_step tools s) =
      Some (if bs_cancelled bs then st else st\<lparr>bd_phase := ArtifactBuilding, bd_message := []\<rparr>)"
    using store_phase_row [of i "fst s" "snd s" st] st(1,2,4) pc
    by (auto simp: run_step.simps run_start_store_def cancelled_def Let_def goto_pc_def row_view_def)
  have mem: "ru_opts (fst (run_step tools s)) = ru_opts (fst s)" "lb_builds (snd (run_step tools s)) = lb_builds (snd s)"
    "ru_pc (fst (run_step tools s)) = RDocker"
    using pc by (simp_all add: run_step.simps run_start_store_def Let_def)
  show ?thesis
    using st row mem by (cases "bs_cancelled bs") (auto simp: agree_running)
qed

lemma agree_ready:
  assumes "agree i s" and pc: "ru_pc (fst s) = RReady files"
  shows "agree i (run_step tools s)"
  using assms by (auto simp: agree_def run_step.simps run_ready_def goto_pc_def row_view_def map_of_entry)

lemma agree_failed:
  assumes "agree i s" and pc: "ru_pc (fst s) = RFailed msg"
  shows "agree i (run_step tools s)"
  using assms by (auto simp: agree_def run_step.simps goto_pc_def row_view_def setPhase_def map_of_entry)

lemma agree_fail_store:
  assumes "agree i s" and pc: "ru_pc (fst s) = RFailStore msg"
  shows "agree i (run_step tools s)"
proof -
  let ?s = "log_ops tools [LogFlush] s"
  obtain st bs where st: "row_view i s = Some st" "map_of (lb_builds (snd s)) i = Some bs"
      "bs_status bs = st\<lparr>bd_phase := BuildError, bd_message := msg\<rparr>" "bd_id st = i" "bo_id (ru_opts (fst s)) = i"
    using assms by (auto simp: agree_def)
  have mem: "build_view ?s = build_view s" by (rule memory.view_log)
  have "row_view i ?s = Some st" using st(1) by (simp add: log_ops_row)
  then have "row_view i (run_step tools s) = Some (st\<lparr>bd_phase := ArtifactError, bd_message := msg\<rparr>)"
    using store_phase_row [of i "fst ?s" "snd ?s" st] st(5) pc by (simp add: run_step.simps Let_def goto_pc_def)
  then show ?thesis using st pc mem
    by (auto simp: agree_def run_step.simps Let_def build_view_def)
qed

lemma agree_store:
  assumes "agree i s" and pc: "ru_pc (fst s) = RStore files"
  shows "agree i (run_step tools s)"
proof -
  obtain r b where log: "log_ops tools [LogFlush] s = (r, b)" by fastforce
  obtain st bs where st: "row_view i s = Some st" "map_of (lb_builds (snd s)) i = Some bs"
      "bs_status bs = \<lparr>bd_id = i, bd_phase = BuildReady, bd_message = [], bd_artifacts = files\<rparr>"
      "bo_id (ru_opts (fst s)) = i"
    using assms by (auto simp: agree_def)
  have mem: "build_view (r, b) = build_view s" using memory.view_log_pair [OF log] .
  have row: "row_status i (lk_artifacts (lb_sink b)) = Some st"
    using rows.view_log_pair [OF log, of i] st(1) by (simp add: row_view_def)
  then obtain rec where rec: "ArtifactGetByID eng i (lk_artifacts (lb_sink b)) = Inr rec" "ar_id rec = i"
    using get_row by blast
  have i: "bo_id (ru_opts r) = i" using mem st(4) by (simp add: build_view_def)
  have "row_view i (run_step tools s) =
      Some \<lparr>bd_id = i, bd_phase = ArtifactReady, bd_message = [], bd_artifacts = files\<rparr>"
    using update_row [OF row, of "rec\<lparr>ar_phase := ArtifactReady, ar_message := [], ar_files := files, ar_container_image := ru_image r\<rparr>"]
      rec log i pc
    by (simp add: run_step.simps run_store_def Let_def stored goto_pc_def row_view_def status_of_def)
  moreover have "build_view (run_step tools s) = build_view s" using pc by (simp add: run_step.simps run_store_view)
  moreover have "ru_pc (fst (run_step tools s)) = RDone"
    using pc log rec i by (simp add: run_step.simps run_store_def Let_def stored)
  ultimately show ?thesis using st by (simp add: agree_def build_view_def)
qed

lemma run_step_agree: "agree i s \<Longrightarrow> agree i (run_step tools s)"
proof (cases "ru_pc (fst s)")
  case RDone
  then show "agree i s \<Longrightarrow> agree i (run_step tools s)" by (simp add: run_step.simps)
qed (simp_all add: agree_keeps agree_start agree_start_store agree_ready agree_failed agree_fail_store agree_store)

text \<open>Another row, and the row of the build itself, under a cancellation.\<close>

lemma phase_other_row:
  assumes "row_status i t = Some st" and "j \<noteq> i"
  shows "row_status i (snd (updateDBPhase eng j phase message t)) = Some st"
proof (cases "ArtifactGetByID eng j t")
  case (Inl err)
  then show ?thesis using assms(1) by (simp add: updateDBPhase_def)
next
  case (Inr rec)
  let ?rec = "rec\<lparr>ar_phase := phase, ar_message := message\<rparr>"
  have d: "distinct (map ar_id t)" using assms(1) by (auto simp: row_status_def split: if_splits)
  have j: "ar_id ?rec = j" using Inr db_first_Inr by (auto simp: ArtifactGetByID_def)
  obtain out t' where u: "ArtifactUpdate eng ?rec t = (out, t')" by fastforce
  have "distinct (map ar_id t')"
    by (rule artifact_engine.step_distinct [OF artifact_eng, of "OpArtifactUpdate ?rec" t "map_sum id (\<lambda>_. 1) out"]) (use u d in simp_all)
  then show ?thesis
    using artifact_engine.update_map [OF artifact_eng u d] j assms d u Inr by (auto simp: updateDBPhase_def row_status_def)
qed

lemma cancel_other_agree:
  assumes "agree i s" and "j \<noteq> i"
  shows "agree i (fst s, BuildCancel tools j (snd s))"
proof -
  have "map_of (lb_builds (BuildCancel tools j (snd s))) i = map_of (lb_builds (snd s)) i"
    using assms(2) by (auto simp: BuildCancel_def cancel_context_def setPhase_def map_of_entry Let_def split: option.splits)
  moreover have "row_view i (fst s, BuildCancel tools j (snd s)) = row_view i s"
    using assms phase_other_row [of i "lk_artifacts (lb_sink (snd s))" _ j]
    by (auto simp: agree_def row_view_def BuildCancel_def cancel_context_def setPhase_def store_phase_def stored Let_def split: option.splits)
  ultimately show ?thesis using assms(1) by (simp add: agree_def)
qed

lemma cancel_agree:
  assumes "agree i s" and "ru_pc (fst s) \<notin> {RStart, RDone}"
  shows "agree i (fst s, BuildCancel tools i (snd s))"
proof -
  let ?s = "(fst s, BuildCancel tools i (snd s))"
  obtain st bs where st: "row_view i s = Some st" "map_of (lb_builds (snd s)) i = Some bs" "bd_id st = i" "bo_id (ru_opts (fst s)) = i"
    using assms(1) by (auto simp: agree_def)
  have row: "row_view i ?s = Some (st\<lparr>bd_phase := BuildError, bd_message := ''cancelled''\<rparr>)"
    using st(1,2) phase_row [of i "lk_artifacts (lb_sink (snd s))" st]
    by (simp add: row_view_def BuildCancel_def cancel_context_def setPhase_def store_phase_def stored Let_def)
  have mem: "map_of (lb_builds (snd ?s)) i = Some (bs\<lparr>bs_cancelled := True, bs_status :=
      (if bd_phase (bs_status bs) \<in> {BuildPending, BuildBuilding}
       then (bs_status bs)\<lparr>bd_phase := BuildError, bd_message := ''cancelled''\<rparr> else bs_status bs)\<rparr>)"
    using st(2) by (auto simp: BuildCancel_def cancel_context_def setPhase_def map_of_entry Let_def)
  show ?thesis
    using assms st row mem by (cases "ru_pc (fst s)") (auto simp: agree_def split: if_splits)
qed

lemma build_step_agree:
  assumes "agree i s" and "in_time tools i s op"
  shows "agree i (build_step tools op s)"
proof (cases op)
  case RunStep
  then show ?thesis using run_step_agree [OF assms(1)] by simp
next
  case (CancelBuild j)
  then show ?thesis using cancel_other_agree [OF assms(1)] cancel_agree [OF assms(1)] assms(2) by (cases "j = i") auto
next
  case (TableOp aop)
  then show ?thesis using assms by (simp add: agree_def stored)
qed

lemma run_agree: "agree i s \<Longrightarrow> undisturbed tools i ops s \<Longrightarrow> agree i (build_run_ops tools ops s)"
  by (induction ops arbitrary: s) (simp_all add: build_step_agree)

lemma create_status:
  assumes "ArtifactCreate eng (build_record opts i) t = (Inr rec, t')" and "distinct (map ar_id t)"
  shows "row_status i t' = Some (pending_status i)"
proof -
  have id: "ar_id (build_record opts i) = i" and phase: "ar_phase (build_record opts i) \<noteq> []"
    by (simp_all add: build_record_def)
  then have create: "db_create eng (build_record opts i) t = (Inr (), t')"
    using assms(1) by (auto simp: ArtifactCreate_def Let_def split: sum.splits prod.splits)
  then have t': "t' = t @ [build_record opts i]" and fresh: "\<forall>y \<in> set t. ar_id y \<noteq> i"
    using db_create_Inr [OF create] id by (auto simp: artifact_clash_def)
  then have "row_map ar_id t' i = Some (build_record opts i)"
    using row_map_append [of t ar_id "build_record opts i"] id by simp
  then show ?thesis using t' fresh id assms(2)
    by (auto simp: row_status_def status_of_def pending_status_def build_record_def)
qed

lemma Build_agree:
  assumes "Build tools u opts b = (Inr st, b', Some r)" and d: "distinct (map ar_id (lk_artifacts (lb_sink b)))"
  shows "agree (bd_id st) (r, b')"
proof -
  let ?i = "if bo_id opts = [] then u else bo_id opts"
  obtain rec t where create: "ArtifactCreate eng (build_record (opts\<lparr>bo_id := ?i\<rparr>) ?i) (lk_artifacts (lb_sink b)) = (Inr rec, t)"
      "lk_artifacts (lb_sink b') = t" "ru_pc r = RStart" "bo_id (ru_opts r) = ?i" "st = pending_status ?i"
      "lb_builds b' = AList.update ?i \<lparr>bs_status = pending_status ?i, bs_cancelled = False\<rparr> (lb_builds b)"
    using assms(1) unfolding Build_def Let_def stored
    by (auto split: option.splits sum.splits prod.splits)
  have "row_status ?i t = Some (pending_status ?i)" by (rule create_status [OF create(1) d])
  moreover have "bd_id st = ?i" using create(5) by (simp add: pending_status_def)
  ultimately show ?thesis
    using create(2-) by (simp add: agree_def row_view_def AList.update_conv')
qed

lemma Status_agree:
  assumes "agree i s" and "\<not> between_writes (ru_pc (fst s))"
  shows "Status tools i (snd s) = memory_status i (snd s)"
proof -
  obtain st bs where st: "row_view i s = Some st" "map_of (lb_builds (snd s)) i = Some bs" "bs_status bs = st"
    using assms by (cases "ru_pc (fst s)") (auto simp: agree_def)
  then obtain rec where "ArtifactGetByID eng i (lk_artifacts (lb_sink (snd s))) = Inr rec" "status_of rec = st"
    using get_row [of i "lk_artifacts (lb_sink (snd s))" st] by (auto simp: row_view_def)
  then show ?thesis using st by (simp add: Status_def memory_status_def stored)
qed

end

interpretation mem_builder: stored_builder "mem_engine ar_id artifact_clash" "tools\<lparr>bt_store := Some (mem_engine ar_id artifact_clash)\<rparr>"
  for tools
  by unfold_locales (simp_all add: artifact_clash_def)


section \<open>Properties\<close>


text \<open>A build of an ISO with a working docker, deployer and file system.\<close>

definition sample_tools :: build_tools where
  "sample_tools =
     \<lparr>bt_store = Some (mem_engine ar_id artifact_clash), bt_broadcaster = False, bt_base_dir = ''/data'',
      bt_getenv = (\<lambda>_. []), bt_mkdir = (\<lambda>_. None), bt_write_file = (\<lambda>_ _. None),
      bt_docker = (\<lambda>dead _. ([], if dead then Some ''killed'' else None)),
      bt_deploy = (\<lambda>_ _ _ _. ([], None, [FsFile ''k.iso''])), bt_uki = (\<lambda>_ ns. ([], None, ns)),
      bt_done_wins = True, bt_remove = (\<lambda>_. None)\<rparr>"

definition sample_build :: build_options where
  "sample_build =
     \<lparr>bo_id = ''b1'', bo_name = ''edge'', bo_upload_token = ''t'', bo_redact = [],
      bo_source = ar_source sample_artifact, bo_outputs = ar_outputs sample_artifact,
      bo_signing = \<lparr>si_key = [], si_cert = [], si_tpm_key = [], si_pub_dir = [], si_enroll = []\<rparr>,
      bo_provisioning = \<lparr>po_auto_install = True, po_register = True, po_target_group = [],
        po_kubernetes_enabled = True, po_allowed_commands = None\<rparr>,
      bo_base_image = ''ubuntu'', bo_kairos_version = ''v3.6.0'', bo_model = ''generic'', bo_kubernetes_distro = [],
      bo_kubernetes_version = [], bo_fips = False, bo_trusted_boot = False, bo_iso = True, bo_cloud_image = False,
      bo_netboot = False, bo_cloud_config = [], bo_overlay = [], bo_context_dir = [],
      bo_recipe = ar_recipe sample_artifact\<rparr>"

definition sample_builder :: builder where
  "sample_builder = \<lparr>lb_builds = [], lb_sink = \<lparr>lk_artifacts = [], lk_ui = []\<rparr>\<rparr>"

definition sample_run :: "build_run \<times> builder" where
  "sample_run = (let (_, b, r) = Build sample_tools [] sample_build sample_builder in (the r, b))"





text \<open>
  What reaches the shell of the image build is allowlisted: for a request that passes validation every flag
  of the generated RUN lines consists of the characters of the allowlist.
\<close>
theorem init_flags_allowlisted:
  assumes "validateKairosInitOptions opts = None"
  shows "list_all (list_all init_char) (kairos_init_flags opts)"
proof -
  have "v = [] \<or> list_all init_char v"
    if "v \<in> {bo_model opts, bo_kairos_version opts, bo_kubernetes_version opts, bo_kubernetes_distro opts}" for v
    using assms that
    by (auto simp: validateKairosInitOptions_def validateKairosInitValue_def kairosInitValueRe_def split: if_splits)
  then show ?thesis by (auto simp: kairos_init_flags_def init_char_def)
qed

theorem init_flags_allowlisted_witness:
  "list_all (list_all init_char) (kairos_init_flags sample_build)"
proof -
  have "validateKairosInitOptions sample_build = None" by code_simp
  then show ?thesis by (rule init_flags_allowlisted)
qed

text \<open>
  A cancellation that comes while the outputs are collected is lost: the build ends Ready in
  memory and in the row. One that comes after a build has ended turns the row, and so
  \<open>Status\<close>, to Error while the build in memory stays Ready. One that comes before the goroutine
  has started is overwritten in memory, while the row keeps it until the build ends.
\<close>

lemma cancel_while_collecting_is_lost:
  "map_sum id bd_phase (Status sample_tools ''b1''
     (snd (build_run_ops sample_tools (replicate 7 RunStep @ [CancelBuild ''b1''] @ replicate 3 RunStep) sample_run))) = Inr BuildReady"
  by code_simp

lemma cancel_after_end_unreadies:
  "map_sum id bd_phase (Status sample_tools ''b1''
     (snd (build_run_ops sample_tools (replicate 10 RunStep @ [CancelBuild ''b1'']) sample_run))) = Inr BuildError"
  "map_sum id bd_phase (memory_status ''b1''
     (snd (build_run_ops sample_tools (replicate 10 RunStep @ [CancelBuild ''b1'']) sample_run))) = Inr BuildReady"
  by code_simp+

lemma cancel_before_start_disagrees:
  "map_sum id bd_phase (Status sample_tools ''b1''
     (snd (build_run_ops sample_tools (CancelBuild ''b1'' # replicate 2 RunStep) sample_run))) = Inr BuildError"
  "map_sum id bd_phase (memory_status ''b1''
     (snd (build_run_ops sample_tools (CancelBuild ''b1'' # replicate 2 RunStep) sample_run))) = Inr BuildBuilding"
  by code_simp+

text \<open>The row the builder writes carries no digest of the upload token.\<close>

lemma builder_row_has_no_token: "ar_upload_token (build_record opts i) = []"
  by (simp add: build_record_def)

end
