(* ===== verification/Cloud_Config.thy ===== *)
theory Cloud_Config
  imports Aurora_Prelude "HOL-Library.AList"
begin

text \<open>
  The cloud-config a build bakes into its image (\<^verbatim>\<open>buildCloudConfig\<close> and
  \<^verbatim>\<open>mergeYAML\<close> in \<^verbatim>\<open>pkg/handlers/artifacts.go\<close>). A document is a value
  as \<^verbatim>\<open>yaml.v3\<close> decodes it into an interface: a map with string keys is an association
  list with distinct keys, and \<open>YOther\<close> is every value the code never looks into (numbers,
  dates, maps with other keys). Decoding and encoding YAML are parameters.
\<close>

section \<open>Values\<close>

datatype yaml =
    YNull
  | YBool bool
  | YStr string
  | YOther string
  | YSeq "yaml list"
  | YMap "(string \<times> yaml) list"

type_synonym yaml_map = "(string \<times> yaml) list"

lemma size_value [termination_simp]: "(k, v) \<in> set m \<Longrightarrow> size v < Suc (size_list (size_prod (\<lambda>_. 0) size) m)"
  by (induction m) auto

section \<open>Merging\<close>

text \<open>
  The loop takes the keys of \<open>src\<close> in some order; \<open>merge_value\<close> is its body for a key both
  maps have.
\<close>

function merge_value :: "yaml \<Rightarrow> yaml \<Rightarrow> yaml" and mergeYAML :: "yaml_map \<Rightarrow> yaml_map \<Rightarrow> yaml_map" where
  "merge_value dv sv =
     (case (dv, sv) of
        (YMap d, YMap s) \<Rightarrow> YMap (mergeYAML d s)
      | (YSeq xs, YSeq ys) \<Rightarrow> YSeq (xs @ ys)
      | _ \<Rightarrow> sv)"
| "mergeYAML dst [] = dst"
| "mergeYAML dst ((k, sv) # src) =
     mergeYAML (AList.update k (case map_of dst k of None \<Rightarrow> sv | Some dv \<Rightarrow> merge_value dv sv) dst) src"
  by pat_completeness auto
termination
  by (relation "measure (\<lambda>x. case x of Inl (dv, sv) \<Rightarrow> 2 * size sv | Inr (dst, src) \<Rightarrow> Suc (2 * size_list (size_prod (\<lambda>_. 0) size) src))")
    auto

declare merge_value.simps [simp del]

lemma merge_value_simps [simp]:
  "merge_value (YMap d) (YMap s) = YMap (mergeYAML d s)"
  "merge_value (YSeq xs) (YSeq ys) = YSeq (xs @ ys)"
  by (simp_all add: merge_value.simps)

section \<open>The document\<close>

record cloud_config_params =
  cc_auto_install :: bool
  cc_register :: bool
  cc_url :: string
  cc_reg_token :: string
  cc_group :: string
  cc_allowed :: "string list option"
  cc_variant :: string
  cc_distro :: string
  cc_kubernetes :: bool
  cc_user_mode :: string
  cc_username :: string
  cc_password :: string
  cc_ssh_keys :: string
  cc_extra :: string

definition phonehomeSafeDefaults :: "string list" where
  "phonehomeSafeDefaults = [''upgrade'', ''upgrade-recovery'', ''reboot'', ''unregister'']"

text \<open>\<^verbatim>\<open>strings.Split\<close> at newlines.\<close>

fun lines_of :: "string \<Rightarrow> string \<Rightarrow> string list" where
  "lines_of [] acc = [rev acc]"
| "lines_of (c # cs) acc = (if c = CHR 0x0A then rev acc # lines_of cs [] else lines_of cs (c # acc))"

definition ssh_lines :: "string \<Rightarrow> string list" where
  "ssh_lines keys = filter (\<lambda>l. l \<noteq> []) (map TrimSpace (lines_of keys []))"

definition install_part :: "cloud_config_params \<Rightarrow> yaml_map" where
  "install_part p =
     (if cc_auto_install p
      then [(''install'', YMap [(''auto'', YBool True), (''device'', YStr ''auto''), (''reboot'', YBool True)])] else [])"

definition kubernetes_part :: "cloud_config_params \<Rightarrow> yaml_map" where
  "kubernetes_part p =
     (if cc_variant p = ''standard'' \<and> cc_distro p \<noteq> [] then
        (if cc_distro p = ''k3s'' then [(''k3s'', YMap [(''enabled'', YBool (cc_kubernetes p))])]
         else if cc_distro p = ''k0s'' then [(''k0s'', YMap [(''enabled'', YBool (cc_kubernetes p))])]
         else [])
      else [])"

definition phonehome_part :: "cloud_config_params \<Rightarrow> yaml_map" where
  "phonehome_part p =
     (if cc_register p then
        (let allowed = (case cc_allowed p of None \<Rightarrow> phonehomeSafeDefaults | Some cmds \<Rightarrow> cmds) in
         [(''phonehome'', YMap
            [(''url'', YStr (cc_url p)), (''registration_token'', YStr (cc_reg_token p)),
             (''group'', YStr (cc_group p)), (''allowed_commands'', YSeq (map YStr allowed))])])
      else [])"

definition user_part :: "cloud_config_params \<Rightarrow> yaml_map" where
  "user_part p =
     (let mode = (if cc_user_mode p = [] then ''default'' else cc_user_mode p) in
      if mode = ''none'' then []
      else
        let username = (if mode = ''default'' \<or> cc_username p = [] then ''kairos'' else cc_username p);
            password = (if mode = ''default'' \<or> cc_password p = [] then ''kairos'' else cc_password p);
            keys = ssh_lines (cc_ssh_keys p);
            stage = (if keys \<noteq> [] then ''network'' else ''initramfs'');
            user = [(''passwd'', YStr password), (''groups'', YSeq [YStr ''admin''])] @
              (if keys \<noteq> [] then [(''ssh_authorized_keys'', YSeq (map YStr keys))] else [])
        in [(''stages'', YMap [(stage, YSeq [YMap [(''users'', YMap [(username, YMap user)])]])])])"

definition canonical_doc :: "cloud_config_params \<Rightarrow> yaml_map" where
  "canonical_doc p = install_part p @ kubernetes_part p @ phonehome_part p @ user_part p"

text \<open>The text of the Advanced field that is decoded.\<close>

definition extra_text :: "string \<Rightarrow> string" where
  "extra_text raw =
     (let extra = TrimSpace raw in
      if extra = [] then []
      else dropWhile (\<lambda>c. c = CHR 0x0A \<or> c = CHR 0x0D \<or> c = CHR 0x20) (TrimPrefix extra ''#cloud-config''))"

text \<open>\<open>decode\<close> is \<open>None\<close> on an error and on a document that is not a map.\<close>

definition cloud_config_doc :: "(string \<Rightarrow> yaml_map option) \<Rightarrow> cloud_config_params \<Rightarrow> yaml_map" where
  "cloud_config_doc decode p =
     (if TrimSpace (cc_extra p) = [] then canonical_doc p
      else case decode (extra_text (cc_extra p)) of
        None \<Rightarrow> canonical_doc p
      | Some extra \<Rightarrow> mergeYAML (canonical_doc p) extra)"

definition buildCloudConfig ::
  "(string \<Rightarrow> yaml_map option) \<Rightarrow> (yaml_map \<Rightarrow> string option) \<Rightarrow> cloud_config_params \<Rightarrow> string" where
  "buildCloudConfig decode encode p =
     (case encode (cloud_config_doc decode p) of
        None \<Rightarrow> (''#cloud-config'' @ [CHR 0x0A])
      | Some out \<Rightarrow> (''#cloud-config'' @ [CHR 0x0A]) @ out)"

section \<open>What merging does to a path\<close>

text \<open>A document all of whose maps have distinct keys, as decoding yields it.\<close>

fun wf_yaml :: "yaml \<Rightarrow> bool" where
  "wf_yaml (YMap m) = (distinct (map fst m) \<and> (\<forall>kv \<in> set m. wf_yaml (snd kv)))"
| "wf_yaml (YSeq xs) = (\<forall>x \<in> set xs. wf_yaml x)"
| "wf_yaml _ = True"

fun yaml_at :: "string list \<Rightarrow> yaml \<Rightarrow> yaml option" where
  "yaml_at [] v = Some v"
| "yaml_at (k # ks) (YMap m) = (case map_of m k of None \<Rightarrow> None | Some v \<Rightarrow> yaml_at ks v)"
| "yaml_at (k # ks) _ = None"

definition collection :: "yaml \<Rightarrow> bool" where
  "collection v = (case v of YMap _ \<Rightarrow> True | YSeq _ \<Rightarrow> True | _ \<Rightarrow> False)"

lemma merge_scalar: "\<not> collection sv \<Longrightarrow> merge_value dv sv = sv"
  by (cases sv; cases dv) (simp_all add: merge_value.simps collection_def)

lemma distinct_mergeYAML: "distinct (map fst dst) \<Longrightarrow> distinct (map fst (mergeYAML dst src))"
proof (induction src arbitrary: dst)
  case (Cons kv src)
  then show ?case by (cases kv) (simp add: distinct_update)
qed simp

text \<open>The merge, key by key; the order of the keys does not matter.\<close>

lemma lookup_mergeYAML:
  "distinct (map fst src) \<Longrightarrow> map_of (mergeYAML dst src) k =
     (case map_of src k of
        None \<Rightarrow> map_of dst k
      | Some sv \<Rightarrow> Some (case map_of dst k of None \<Rightarrow> sv | Some dv \<Rightarrow> merge_value dv sv))"
proof (induction src arbitrary: dst)
  case (Cons kv src)
  obtain k' sv where kv: "kv = (k', sv)" by (cases kv)
  have "map_of src k' = None" using Cons.prems kv by (simp add: map_of_eq_None_iff)
  then show ?case using Cons kv by (auto simp: update_conv' split: option.splits)
qed simp

text \<open>What the extra document says about a path: it leaves it alone when it diverges at a map key.\<close>

fun leaves_alone :: "string list \<Rightarrow> yaml \<Rightarrow> bool" where
  "leaves_alone (k # ks) (YMap m) = (case map_of m k of None \<Rightarrow> True | Some v \<Rightarrow> leaves_alone ks v)"
| "leaves_alone _ _ = False"

lemma merged_scalar:
  "yaml_at ks (YMap s) = Some v \<Longrightarrow> \<not> collection v \<Longrightarrow> wf_yaml (YMap s) \<Longrightarrow> yaml_at ks (YMap (mergeYAML d s)) = Some v"
proof (induction ks arbitrary: d s)
  case Nil
  then show ?case by (auto simp: collection_def)
next
  case (Cons k ks)
  obtain sv where sv: "map_of s k = Some sv" "yaml_at ks sv = Some v" using Cons.prems(1) by (auto split: option.splits)
  have wf: "wf_yaml sv" using Cons.prems(3) map_of_SomeD [OF sv(1)] by fastforce
  have look: "map_of (mergeYAML d s) k = Some (case map_of d k of None \<Rightarrow> sv | Some dv \<Rightarrow> merge_value dv sv)"
    using lookup_mergeYAML [of s d k] Cons.prems(3) sv(1) by simp
  have "yaml_at ks (merge_value dv sv) = Some v" for dv
  proof (cases "\<exists>m m'. sv = YMap m \<and> dv = YMap m'")
    case True
    then show ?thesis using Cons.IH sv(2) Cons.prems(2) wf by auto
  next
    case False
    then show ?thesis
    proof (cases sv)
      case (YSeq xs)
      then show ?thesis using sv(2) Cons.prems(2) by (cases ks) (auto simp: collection_def)
    qed (use False sv(2) in \<open>cases dv; auto simp: merge_value.simps\<close>)+
  qed
  then show ?case using look sv(2) by (simp split: option.splits)
qed

lemma merged_untouched:
  "yaml_at ks (YMap d) = Some v \<Longrightarrow> leaves_alone ks (YMap s) \<Longrightarrow> wf_yaml (YMap s) \<Longrightarrow>
     yaml_at ks (YMap (mergeYAML d s)) = Some v"
proof (induction ks arbitrary: d s)
  case (Cons k ks)
  obtain dv where dv: "map_of d k = Some dv" "yaml_at ks dv = Some v" using Cons.prems(1) by (auto split: option.splits)
  have look: "map_of (mergeYAML d s) k = (case map_of s k of None \<Rightarrow> Some dv | Some sv \<Rightarrow> Some (merge_value dv sv))"
    using lookup_mergeYAML [of s d k] Cons.prems(3) dv(1) by (simp split: option.splits)
  show ?case
  proof (cases "map_of s k")
    case None
    then show ?thesis using look dv(2) by simp
  next
    case (Some sv)
    then have alone: "leaves_alone ks sv" using Cons.prems(2) by simp
    have wf: "wf_yaml sv" using Cons.prems(3) map_of_SomeD [OF Some] by fastforce
    obtain k' ks' m where ks: "ks = k' # ks'" "sv = YMap m" using alone by (cases "(ks, sv)" rule: leaves_alone.cases) auto
    then obtain m' where "dv = YMap m'" using dv(2) by (cases dv) auto
    then show ?thesis using Cons.IH [of m' m] look Some alone dv(2) wf ks by simp
  qed
qed simp

lemma merged_sequences:
  "yaml_at ks (YMap d) = Some (YSeq xs) \<Longrightarrow> yaml_at ks (YMap s) = Some (YSeq ys) \<Longrightarrow> wf_yaml (YMap s) \<Longrightarrow>
     yaml_at ks (YMap (mergeYAML d s)) = Some (YSeq (xs @ ys))"
proof (induction ks arbitrary: d s)
  case (Cons k ks)
  obtain dv where dv: "map_of d k = Some dv" "yaml_at ks dv = Some (YSeq xs)" using Cons.prems(1) by (auto split: option.splits)
  obtain sv where sv: "map_of s k = Some sv" "yaml_at ks sv = Some (YSeq ys)" using Cons.prems(2) by (auto split: option.splits)
  have look: "map_of (mergeYAML d s) k = Some (merge_value dv sv)"
    using lookup_mergeYAML [of s d k] Cons.prems(3) dv(1) sv(1) by simp
  have wf: "wf_yaml sv" using Cons.prems(3) map_of_SomeD [OF sv(1)] by fastforce
  show ?case
  proof (cases ks)
    case Nil
    then show ?thesis using look dv(2) sv(2) by simp
  next
    case (Cons k' ks')
    then obtain m m' where "dv = YMap m" "sv = YMap m'" using dv(2) sv(2) by (cases dv; cases sv) auto
    then show ?thesis using Cons.IH [of m m'] dv(2) sv(2) wf look by simp
  qed
qed simp

section \<open>Properties\<close>

text \<open>
  C16. The Advanced field refines the canonical cloud-config, it does not replace it: a scalar the
  extra document sets is in the result, whatever the canonical document has there; a canonical
  value at a path the extra document does not reach stays; a sequence both have is the canonical
  one followed by the extra one; and no map key is duplicated at the top.
\<close>
theorem extra_yaml_refines_canonical:
  assumes "TrimSpace (cc_extra p) \<noteq> []" and "decode (extra_text (cc_extra p)) = Some extra" and "wf_yaml (YMap extra)"
    and "(yaml_at ks (YMap extra) = Some v \<and> \<not> collection v) \<or>
      (yaml_at ks (YMap (canonical_doc p)) = Some v \<and> leaves_alone ks (YMap extra)) \<or>
      (\<exists>xs ys. yaml_at ks (YMap (canonical_doc p)) = Some (YSeq xs) \<and> yaml_at ks (YMap extra) = Some (YSeq ys) \<and> v = YSeq (xs @ ys))"
  shows "yaml_at ks (YMap (cloud_config_doc decode p)) = Some v \<and> distinct (map fst (cloud_config_doc decode p))"
proof -
  have doc: "cloud_config_doc decode p = mergeYAML (canonical_doc p) extra" using assms(1,2) by (simp add: cloud_config_doc_def)
  have "distinct (map fst (canonical_doc p))"
    by (auto simp: canonical_doc_def install_part_def kubernetes_part_def phonehome_part_def user_part_def Let_def)
  then show ?thesis
    using assms(4) merged_scalar [OF _ _ assms(3)] merged_untouched [OF _ _ assms(3)] merged_sequences [OF _ _ assms(3)]
    unfolding doc by (auto intro: distinct_mergeYAML)
qed

text \<open>
  A registering node always gets an explicit list of the commands it accepts: the one of the
  request, an empty one included, or the safe defaults when the request has none, unless the
  extra document says something about it.
\<close>
theorem allowed_commands_explicit:
  assumes "cc_register p"
    and "\<And>extra. decode (extra_text (cc_extra p)) = Some extra \<Longrightarrow>
           wf_yaml (YMap extra) \<and> leaves_alone [''phonehome'', ''allowed_commands''] (YMap extra)"
  shows "yaml_at [''phonehome'', ''allowed_commands''] (YMap (cloud_config_doc decode p)) =
    Some (YSeq (map YStr (case cc_allowed p of None \<Rightarrow> phonehomeSafeDefaults | Some cmds \<Rightarrow> cmds)))"
proof -
  have canonical: "yaml_at [''phonehome'', ''allowed_commands''] (YMap (canonical_doc p)) =
      Some (YSeq (map YStr (case cc_allowed p of None \<Rightarrow> phonehomeSafeDefaults | Some cmds \<Rightarrow> cmds)))"
    using assms(1) by (simp add: canonical_doc_def install_part_def kubernetes_part_def phonehome_part_def Let_def)
  show ?thesis
  proof (cases "TrimSpace (cc_extra p) = [] \<or> decode (extra_text (cc_extra p)) = None")
    case True
    then show ?thesis using canonical by (auto simp: cloud_config_doc_def)
  next
    case False
    then obtain extra where extra: "decode (extra_text (cc_extra p)) = Some extra" by auto
    then show ?thesis
      using merged_untouched [OF canonical] assms(2) [OF extra] False by (simp add: cloud_config_doc_def)
  qed
qed

definition sample_params :: cloud_config_params where
  "sample_params =
     \<lparr>cc_auto_install = True, cc_register = True, cc_url = ''http://a'', cc_reg_token = ''t'', cc_group = [],
      cc_allowed = Some [''reboot''], cc_variant = ''core'', cc_distro = [], cc_kubernetes = True, cc_user_mode = [],
      cc_username = [], cc_password = [], cc_ssh_keys = [], cc_extra = ''install: {device: sda}''\<rparr>"

definition sample_decode :: "string \<Rightarrow> yaml_map option" where
  "sample_decode txt = Some [(''install'', YMap [(''device'', YStr ''sda'')])]"

theorem extra_yaml_refines_canonical_witness:
  "yaml_at [''install'', ''device''] (YMap (cloud_config_doc sample_decode sample_params)) = Some (YStr ''sda'')"
proof -
  have "TrimSpace (cc_extra sample_params) \<noteq> []" by code_simp
  moreover have "wf_yaml (YMap [(''install'', YMap [(''device'', YStr ''sda'')])])" by simp
  moreover have "yaml_at [''install'', ''device''] (YMap [(''install'', YMap [(''device'', YStr ''sda'')])]) = Some (YStr ''sda'') \<and>
      \<not> collection (YStr ''sda'')"
    by (simp add: collection_def)
  ultimately show ?thesis
    using extra_yaml_refines_canonical [of sample_params sample_decode _ "[''install'', ''device'']" "YStr ''sda''"]
    by (auto simp: sample_decode_def)
qed

theorem allowed_commands_explicit_witness:
  "yaml_at [''phonehome'', ''allowed_commands''] (YMap (cloud_config_doc sample_decode sample_params)) = Some (YSeq [YStr ''reboot''])"
  using allowed_commands_explicit [of sample_params sample_decode] by (simp add: sample_params_def sample_decode_def)

end
