(* ===== verification/Overlay_Archive.thy ===== *)
theory Overlay_Archive
  imports Go_Paths
begin

text \<open>
  Extraction of an uploaded overlay archive (\<^verbatim>\<open>extractOverlayTarGz\<close> in
  \<^verbatim>\<open>pkg/handlers/artifacts.go\<close>). The gzip and tar readers deliver a list of headers
  with the bytes behind them, at most as many as the header says, and an error or the end of the
  archive; the file system answers each attempt with an error text or success. The events are
  the attempts, in order.
\<close>

datatype tar_type = TypeReg | TypeDir | TypeSymlink | TypeLink | TypeOther

text \<open>\<open>te_error\<close> is the error behind a truncated member.\<close>

record tar_entry =
  te_name :: string
  te_type :: tar_type
  te_size :: nat
  te_mode :: nat
  te_data :: string
  te_error :: "string option"

record overlay_fs =
  ov_mkdir :: "string \<Rightarrow> string option"
  ov_open :: "string \<Rightarrow> string option"
  ov_close :: "string \<Rightarrow> string option"

datatype overlay_event =
    MakeDirs string
  | OpenFile string nat
  | Copied string string

abbreviation maxOverlaySize :: int where "maxOverlaySize \<equiv> 512 * 1024 * 1024"
abbreviation maxOverlayFileSize :: int where "maxOverlayFileSize \<equiv> 256 * 1024 * 1024"

definition delivered :: "tar_entry \<Rightarrow> string" where
  "delivered h = take (te_size h) (te_data h)"

text \<open>The path checks of one member: the target, or the error.\<close>

definition member_target :: "string \<Rightarrow> string \<Rightarrow> string + string" where
  "member_target cleanDest name =
     (let cleaned = Clean name in
      if IsAbs cleaned \<or> cleaned = ''..'' \<or> HasPrefix cleaned ''../''
      then Inl (''unsafe path in archive: '' @ quoted name)
      else let target = PathJoin [cleanDest, cleaned] in
        if target \<noteq> cleanDest \<and> \<not> HasPrefix target (cleanDest @ ''/'')
        then Inl (''unsafe path in archive: '' @ quoted name @ '' escapes overlay directory'')
        else Inr target)"

text \<open>One regular file: the error that ends the extraction, and the attempts.\<close>

definition extract_file :: "overlay_fs \<Rightarrow> tar_entry \<Rightarrow> string \<Rightarrow> string option \<times> overlay_event list" where
  "extract_file fs h target =
     (case ov_mkdir fs (Dir target) of
        Some err \<Rightarrow> (Some (''creating parent directory for '' @ quoted (te_name h) @ '': '' @ err), [MakeDirs (Dir target)])
      | None \<Rightarrow>
          (let perm = te_mode h mod 512; mode = (if perm = 0 then 420 else perm) in
           case ov_open fs target of
             Some err \<Rightarrow> (Some (''creating file '' @ quoted (te_name h) @ '': '' @ err), [MakeDirs (Dir target), OpenFile target mode])
           | None \<Rightarrow>
               (let data = take (te_size h + 1) (delivered h);
                    done_so_far = [MakeDirs (Dir target), OpenFile target mode, Copied target data]
                in case te_error h of
                     Some err \<Rightarrow> (Some (''writing file '' @ quoted (te_name h) @ '': '' @ err), done_so_far)
                   | None \<Rightarrow>
                       (case ov_close fs target of
                          Some err \<Rightarrow> (Some (''closing file '' @ quoted (te_name h) @ '': '' @ err), done_so_far)
                        | None \<Rightarrow> (None, done_so_far)))))"

fun extract_entries ::
  "overlay_fs \<Rightarrow> string \<Rightarrow> tar_entry list \<Rightarrow> string option \<Rightarrow> int \<Rightarrow> string option \<times> overlay_event list" where
  "extract_entries fs cleanDest [] ending used = (map_option (\<lambda>err. ''reading tar entry: '' @ err) ending, [])"
| "extract_entries fs cleanDest (h # hs) ending used =
     (if te_type h = TypeSymlink \<or> te_type h = TypeLink
      then (Some (''archive contains a link entry '' @ quoted (te_name h) @ '' which is not allowed''), [])
      else if te_type h = TypeOther then extract_entries fs cleanDest hs ending used
      else case member_target cleanDest (te_name h) of
        Inl err \<Rightarrow> (Some err, [])
      | Inr target \<Rightarrow>
          (if te_type h = TypeDir then
             (case ov_mkdir fs target of
                Some err \<Rightarrow> (Some (''creating directory '' @ quoted (te_name h) @ '': '' @ err), [MakeDirs target])
              | None \<Rightarrow> (let (r, evs) = extract_entries fs cleanDest hs ending used in (r, MakeDirs target # evs)))
           else if int (te_size h) > maxOverlayFileSize
           then (Some (''file '' @ quoted (te_name h) @ '' exceeds per-file size limit''), [])
           else let used' = used + int (te_size h) in
             if used' > maxOverlaySize then (Some ''archive exceeds total size limit'', [])
             else case extract_file fs h target of
               (Some err, evs) \<Rightarrow> (Some err, evs)
             | (None, evs) \<Rightarrow>
                 (let (r, evs') = extract_entries fs cleanDest hs ending used' in (r, evs @ evs'))))"

text \<open>\<open>archive\<close> is what the gzip reader makes of the upload.\<close>

definition extractOverlayTarGz ::
  "overlay_fs \<Rightarrow> string \<Rightarrow> string + tar_entry list \<times> string option \<Rightarrow> string \<Rightarrow> string option \<times> overlay_event list" where
  "extractOverlayTarGz fs cwd archive destDir =
     (case archive of
        Inl err \<Rightarrow> (Some (''opening gzip stream: '' @ err), [])
      | Inr (entries, ending) \<Rightarrow> extract_entries fs (Abs_path cwd destDir) entries ending 0)"

section \<open>Containment\<close>

text \<open>The paths at or below a directory given by its parts.\<close>

definition below :: "string list \<Rightarrow> string \<Rightarrow> bool" where
  "below ps p \<longleftrightarrow> (\<exists>qs. p = path_of True (ps @ qs) \<and> list_all plain_segment qs)"

definition contained :: "string list \<Rightarrow> overlay_event \<Rightarrow> bool" where
  "contained ps ev =
     (case ev of
        MakeDirs p \<Rightarrow> below ps p \<or> p = Dir (path_of True ps)
      | OpenFile p mode \<Rightarrow> below ps p
      | Copied p data \<Rightarrow> below ps p)"

definition copied_bytes :: "overlay_event list \<Rightarrow> nat" where
  "copied_bytes evs = sum_list (map (\<lambda>ev. case ev of Copied p data \<Rightarrow> length data | _ \<Rightarrow> 0) evs)"

lemma copied_bytes_simps [simp]:
  "copied_bytes [] = 0"
  "copied_bytes (MakeDirs p # evs) = copied_bytes evs"
  "copied_bytes (OpenFile p mode # evs) = copied_bytes evs"
  "copied_bytes (Copied p data # evs) = length data + copied_bytes evs"
  "copied_bytes (evs @ evs') = copied_bytes evs + copied_bytes evs'"
  by (simp_all add: copied_bytes_def)

lemma relative_below:
  assumes dest: "\<forall>s \<in> set ps. plain_segment s"
    and name: "\<not> IsAbs (Clean name)" "Clean name \<noteq> ''..''" "\<not> HasPrefix (Clean name) ''../''"
  shows "below ps (PathJoin [path_of True ps, Clean name])"
proof -
  have rel: "\<not> IsAbs name" using name(1) by (auto simp: Clean_def IsAbs_def HasPrefix_def)
  obtain n qs where parts: "clean_parts name = replicate n ''..'' @ qs" "''..'' \<notin> set qs"
    and ok: "\<forall>s \<in> set (clean_parts name). s \<noteq> [] \<and> s \<noteq> ''.'' \<and> CHR ''/'' \<notin> set s"
    using clean_parts_normal [of name] by (auto simp: normal_parts_def)
  have n: "n = 0"
  proof (rule ccontr)
    assume "n \<noteq> 0"
    then obtain m where "n = Suc m" by (cases n) auto
    then have "clean_parts name = ''..'' # (replicate m ''..'' @ qs)" using parts(1) by simp
    then show False using name(2,3) rel by (cases "replicate m ''..'' @ qs") (simp_all add: Clean_def HasPrefix_def)
  qed
  have plain: "\<forall>s \<in> set qs. plain_segment s" using parts ok n by (auto simp: plain_segment_def)
  have ne: "path_of True ps \<noteq> []" by (simp add: path_of_def)
  show ?thesis
  proof (cases "qs = []")
    case True
    then have "Clean name = ''.''" using parts(1) n rel by (simp add: Clean_def)
    then have "PathJoin [path_of True ps, Clean name] = Clean (path_of True ps @ CHR ''/'' # ''.'')" using ne by (simp add: PathJoin_def)
    also have "\<dots> = path_of True ps"
      using clean_parts_child [OF ne, of "''.''"] clean_parts_rooted [OF dest] IsAbs_append [OF ne, of "CHR ''/'' # ''.''"]
      by (simp add: Clean_path_of clean_segment_def)
    finally show ?thesis unfolding below_def by (intro exI [of _ "[]"]) simp
  next
    case False
    then have "Clean name = Join qs ''/''" using parts(1) n rel by (simp add: Clean_def)
    then have "PathJoin [path_of True ps, Clean name] = path_of True (ps @ qs)"
      using PathJoin_below [OF ne False plain] clean_parts_rooted [OF dest] by simp
    then show ?thesis using plain unfolding below_def by (intro exI [of _ qs]) (simp add: list_all_iff)
  qed
qed

lemma target_below:
  assumes "\<forall>s \<in> set ps. plain_segment s" and "member_target (path_of True ps) name = Inr target"
  shows "below ps target"
  using relative_below [OF assms(1)] assms(2) by (auto simp: member_target_def Let_def split: if_splits)

lemma dir_contained:
  assumes "\<forall>s \<in> set ps. plain_segment s" and "below ps target"
  shows "contained ps (MakeDirs (Dir target))"
proof -
  obtain qs where target: "target = path_of True (ps @ qs)" and qs: "list_all plain_segment qs"
    using assms(2) by (auto simp: below_def)
  show ?thesis
  proof (cases qs rule: rev_cases)
    case Nil
    then show ?thesis using target by (simp add: contained_def)
  next
    case (snoc rs q)
    then have "Dir target = path_of True (ps @ rs)"
      using Dir_path_of [of "ps @ rs" q] assms(1) qs target by (auto simp: list_all_iff)
    then show ?thesis using qs snoc unfolding contained_def below_def by auto
  qed
qed

lemma extract_file_contained:
  assumes "\<forall>s \<in> set ps. plain_segment s" and "below ps target" and "extract_file fs h target = (r, evs)"
  shows "list_all (contained ps) evs \<and> copied_bytes evs \<le> te_size h"
  using assms(3) dir_contained [OF assms(1,2)] assms(2)
  by (auto simp: extract_file_def Let_def contained_def delivered_def split: option.splits)

lemma extract_entries_contained:
  assumes "\<forall>s \<in> set ps. plain_segment s"
  shows "extract_entries fs (path_of True ps) hs ending used = (r, evs) \<Longrightarrow> used \<le> maxOverlaySize \<Longrightarrow>
    list_all (contained ps) evs \<and> used + int (copied_bytes evs) \<le> maxOverlaySize"
proof (induction hs arbitrary: used r evs)
  case (Cons h hs)
  show ?case
  proof (cases "te_type h \<in> {TypeSymlink, TypeLink, TypeOther}")
    case True
    then show ?thesis using Cons by (auto split: if_splits)
  next
    case False
    show ?thesis
    proof (cases "member_target (path_of True ps) (te_name h)")
      case (Inl err)
      then show ?thesis using Cons.prems False by simp
    next
      case (Inr target)
      have below: "below ps target" using target_below [OF assms Inr] .
      show ?thesis
      proof (cases "te_type h = TypeDir")
        case True
        obtain r' evs' where rest: "extract_entries fs (path_of True ps) hs ending used = (r', evs')" by fastforce
        show ?thesis
          using Cons.prems False Inr True rest Cons.IH [OF rest Cons.prems(2)] below
          by (auto simp: contained_def split: option.splits)
      next
        case dir: False
        obtain r1 evs1 where one: "extract_file fs h target = (r1, evs1)" by fastforce
        note first = extract_file_contained [OF assms below one]
        show ?thesis
        proof (cases "int (te_size h) > maxOverlayFileSize \<or> used + int (te_size h) > maxOverlaySize \<or> r1 \<noteq> None")
          case True
          then show ?thesis using Cons.prems False Inr dir one first by (auto simp: Let_def split: if_splits)
        next
          case ok: False
          obtain r2 evs2 where rest: "extract_entries fs (path_of True ps) hs ending (used + int (te_size h)) = (r2, evs2)" by fastforce
          have "evs = evs1 @ evs2" using Cons.prems(1) False Inr dir one ok rest by (simp add: Let_def)
          then show ?thesis using first Cons.IH [OF rest] ok by auto
        qed
      qed
    qed
  qed
qed simp

section \<open>Properties\<close>

text \<open>
  C17. An uploaded archive cannot write outside its overlay directory: whatever its members are
  called and however the file system answers, every file opened or written and every directory
  made lies at or below the resolved directory (or is its existing parent), and no more than the
  size limit is written in all.
\<close>
theorem overlay_stays_contained:
  assumes "IsAbs cwd" and "extractOverlayTarGz fs cwd archive destDir = (r, evs)"
  shows "\<exists>ps. Abs_path cwd destDir = path_of True ps \<and> list_all (contained ps) evs \<and> int (copied_bytes evs) \<le> maxOverlaySize"
proof -
  obtain ps where ps: "Abs_path cwd destDir = path_of True ps" "\<forall>s \<in> set ps. plain_segment s"
    using Abs_path_rooted [OF assms(1)] by blast
  have "list_all (contained ps) evs \<and> int (copied_bytes evs) \<le> maxOverlaySize"
  proof (cases archive)
    case (Inl err)
    then show ?thesis using assms(2) by (simp add: extractOverlayTarGz_def)
  next
    case (Inr a)
    then have "extract_entries fs (path_of True ps) (fst a) (snd a) 0 = (r, evs)"
      using assms(2) ps(1) by (simp add: extractOverlayTarGz_def split_beta)
    from extract_entries_contained [OF ps(2) this] show ?thesis by simp
  qed
  then show ?thesis using ps(1) by blast
qed

text \<open>
  A member that climbs out after another was extracted.
\<close>

definition sample_fs :: overlay_fs where
  "sample_fs = \<lparr>ov_mkdir = \<lambda>_. None, ov_open = \<lambda>_. None, ov_close = \<lambda>_. None\<rparr>"

definition sample_member :: "string \<Rightarrow> tar_entry" where
  "sample_member name = \<lparr>te_name = name, te_type = TypeReg, te_size = 2, te_mode = 420, te_data = ''hi'', te_error = None\<rparr>"

theorem overlay_stays_contained_witness:
  "extractOverlayTarGz sample_fs ''/srv'' (Inr ([sample_member ''etc/a'', sample_member ''b/../../c''], None)) ''data/o'' =
     (Some (''unsafe path in archive: '' @ quoted ''b/../../c''),
      [MakeDirs ''/srv/data/o/etc'', OpenFile ''/srv/data/o/etc/a'' 420, Copied ''/srv/data/o/etc/a'' ''hi'']) \<and>
   (\<exists>ps. list_all (contained ps)
      [MakeDirs ''/srv/data/o/etc'', OpenFile ''/srv/data/o/etc/a'' 420, Copied ''/srv/data/o/etc/a'' ''hi''])"
proof -
  have run: "extractOverlayTarGz sample_fs ''/srv'' (Inr ([sample_member ''etc/a'', sample_member ''b/../../c''], None)) ''data/o'' =
     (Some (''unsafe path in archive: '' @ quoted ''b/../../c''),
      [MakeDirs ''/srv/data/o/etc'', OpenFile ''/srv/data/o/etc/a'' 420, Copied ''/srv/data/o/etc/a'' ''hi''])"
    by code_simp
  have "IsAbs ''/srv''" by code_simp
  from overlay_stays_contained [OF this run] run show ?thesis by blast
qed

end
