(* ===== verification/Artifact_Handlers.thy ===== *)
theory Artifact_Handlers
  imports Local_Builder Cloud_Config Overlay_Archive Node_Store
begin

text \<open>
  The artifact endpoints (\<^verbatim>\<open>pkg/handlers/artifacts.go\<close>). The build backend is an interface with
  two implementations; the handlers are written over its operations, and the laws they need are
  the locale \<open>artifact_backend\<close>, met by the local builder. The disk is the list of what was
  done to it, in order; SHA-256, the randomness and the YAML library are parameters.
\<close>

section \<open>The world of the handlers\<close>

datatype disk_event =
    MadeDir string
  | WroteFile string string
  | WrotePart string
  | Renamed string string
  | RemovedAll string
  | ImageRemoved string
  | Extracted "overlay_event list"

record 'b artifact_world =
  aw_rows :: artifacts
  aw_backend :: 'b
  aw_disk :: "disk_event list"

text \<open>\<^verbatim>\<open>builder.ArtifactBuilder\<close>; a backend may write the artifact table.\<close>

record 'b build_backend =
  be_Build :: "build_options \<Rightarrow> artifacts \<Rightarrow> 'b \<Rightarrow> (build_error + build_status) \<times> artifacts \<times> 'b"
  be_Status :: "string \<Rightarrow> artifacts \<Rightarrow> 'b \<Rightarrow> build_error + build_status"
  be_List :: "artifacts \<Rightarrow> 'b \<Rightarrow> build_error + build_status list"
  be_Cancel :: "string \<Rightarrow> artifacts \<Rightarrow> 'b \<Rightarrow> build_error option \<times> artifacts \<times> 'b"

record 'b artifact_handler =
  ah_backend :: "'b build_backend"
  ah_store :: "artifact engine option"
  ah_groups :: "(node_group engine \<times> groups) option"
  ah_key_sets :: "(key_set engine \<times> key_sets) option"
  ah_reg_token :: string
  ah_url :: string
  ah_dir :: string
  ah_sha256 :: "string \<Rightarrow> string"
  ah_decode :: "string \<Rightarrow> yaml_map option"
  ah_encode :: "yaml_map \<Rightarrow> string option"

datatype artifact_body =
    BuildStatusBody build_status
  | BuildStatusesBody "build_status list"
  | ArtifactBody artifact
  | ArtifactsBody "artifact list"
  | TextBody string
  | CancelledBody
  | PathBody string
  | FileBody string

type_synonym artifact_response = "artifact_body response"

section \<open>Upload tokens\<close>

definition EncodeToString :: "string \<Rightarrow> string" where
  "EncodeToString bs = concat (map (\<lambda>c. let n = of_char c :: nat in [hex_digit (n div 16), hex_digit (n mod 16)]) bs)"

text \<open>The 32 random bytes, or the error of the reader.\<close>

definition mintUploadToken :: "string + string \<Rightarrow> string + string" where
  "mintUploadToken random =
     (case random of Inl e \<Rightarrow> Inl (''mint upload token: '' @ e) | Inr bs \<Rightarrow> Inr (EncodeToString bs))"

definition hashUploadToken :: "'b artifact_handler \<Rightarrow> string \<Rightarrow> string" where
  "hashUploadToken h plaintext = EncodeToString (ah_sha256 h plaintext)"

section \<open>Creating a build\<close>

record signing_config =
  sc_key_set :: string
  sc_key :: string
  sc_cert :: string
  sc_tpm_key :: string
  sc_pub_dir :: string
  sc_enroll :: string

record create_request =
  cr_name :: string
  cr_source :: image_source
  cr_kubernetes_enabled :: "bool option"
  cr_recipe :: image_recipe
  cr_context_dir :: string
  cr_overlay :: string
  cr_outputs :: output_options
  cr_signing :: "signing_config option"
  cr_auto_install :: "bool option"
  cr_register :: "bool option"
  cr_target_group :: string
  cr_user_mode :: string
  cr_username :: string
  cr_password :: string
  cr_ssh_keys :: string
  cr_allowed :: "string list option"
  cr_cloud_config :: string

definition default_true :: "bool option \<Rightarrow> bool" where
  "default_true b = (case b of None \<Rightarrow> True | Some v \<Rightarrow> v)"

text \<open>\<open>None\<close> is the key set that was not found.\<close>

definition resolve_signing :: "'b artifact_handler \<Rightarrow> signing_config option \<Rightarrow> signing_options option" where
  "resolve_signing h sc =
     (case sc of
        None \<Rightarrow> Some \<lparr>si_key = [], si_cert = [], si_tpm_key = [], si_pub_dir = [], si_enroll = []\<rparr>
      | Some s \<Rightarrow>
        let given = \<lparr>si_key = sc_key s, si_cert = sc_cert s, si_tpm_key = sc_tpm_key s, si_pub_dir = sc_pub_dir s,
                     si_enroll = sc_enroll s\<rparr> in
        (case ah_key_sets h of
           None \<Rightarrow> Some given
         | Some (eng, t) \<Rightarrow>
           if sc_key_set s = [] then Some given
           else (case SecureBootKeySetGetByID eng (sc_key_set s) t of
               Inl _ \<Rightarrow> None
             | Inr ks \<Rightarrow> Some \<lparr>si_key = PathJoin [ks_dir ks, ''db.key''], si_cert = PathJoin [ks_dir ks, ''db.pem''],
                 si_tpm_key = ks_tpm_key_path ks, si_pub_dir = ks_dir ks, si_enroll = sc_enroll s\<rparr>)))"

definition group_name :: "'b artifact_handler \<Rightarrow> string \<Rightarrow> string" where
  "group_name h i =
     (case ah_groups h of
        None \<Rightarrow> []
      | Some (eng, t) \<Rightarrow>
        if i = [] then [] else (case GroupGetByID eng i t of Inl _ \<Rightarrow> [] | Inr grp \<Rightarrow> g_name grp))"

definition allowed_commands :: "create_request \<Rightarrow> string list" where
  "allowed_commands req = (case cr_allowed req of None \<Rightarrow> phonehomeSafeDefaults | Some cs \<Rightarrow> cs)"

definition create_cloud_config :: "'b artifact_handler \<Rightarrow> create_request \<Rightarrow> string" where
  "create_cloud_config h req = buildCloudConfig (ah_decode h) (ah_encode h)
     \<lparr>cc_auto_install = default_true (cr_auto_install req), cc_register = default_true (cr_register req),
      cc_url = ah_url h, cc_reg_token = ah_reg_token h, cc_group = group_name h (cr_target_group req),
      cc_allowed = Some (allowed_commands req), cc_variant = so_variant (cr_source req),
      cc_distro = so_distro (cr_source req), cc_kubernetes = default_true (cr_kubernetes_enabled req),
      cc_user_mode = cr_user_mode req, cc_username = cr_username req, cc_password = cr_password req,
      cc_ssh_keys = cr_ssh_keys req, cc_extra = cr_cloud_config req\<rparr>"

definition create_options ::
  "'b artifact_handler \<Rightarrow> uuid \<Rightarrow> string \<Rightarrow> signing_options \<Rightarrow> create_request \<Rightarrow> build_options" where
  "create_options h u token si req =
     \<lparr>bo_id = u, bo_name = cr_name req, bo_upload_token = token, bo_redact = [ah_reg_token h, cr_password req],
      bo_source = cr_source req, bo_outputs = cr_outputs req, bo_signing = si,
      bo_provisioning = \<lparr>po_auto_install = default_true (cr_auto_install req),
        po_register = default_true (cr_register req), po_target_group = cr_target_group req,
        po_kubernetes_enabled = default_true (cr_kubernetes_enabled req),
        po_allowed_commands = Some (allowed_commands req)\<rparr>,
      bo_base_image = so_base_image (cr_source req), bo_kairos_version = so_kairos_version (cr_source req),
      bo_model = so_model (cr_source req), bo_kubernetes_distro = so_distro (cr_source req),
      bo_kubernetes_version = so_kubernetes_version (cr_source req),
      bo_fips = ou_fips (cr_outputs req), bo_trusted_boot = ou_trusted_boot (cr_outputs req),
      bo_iso = ou_iso (cr_outputs req), bo_cloud_image = ou_cloud_image (cr_outputs req),
      bo_netboot = ou_netboot (cr_outputs req), bo_cloud_config = create_cloud_config h req,
      bo_overlay = cr_overlay req, bo_context_dir = cr_context_dir req, bo_recipe = cr_recipe req\<rparr>"

definition create_record ::
  "'b artifact_handler \<Rightarrow> string \<Rightarrow> create_request \<Rightarrow> build_status \<Rightarrow> artifact" where
  "create_record h token req st =
     \<lparr>ar_id = bd_id st, ar_name = cr_name req, ar_saved = False, ar_phase = bd_phase st, ar_message = bd_message st,
      ar_source = cr_source req, ar_outputs = cr_outputs req, ar_recipe = cr_recipe req,
      ar_auto_install = default_true (cr_auto_install req), ar_register = default_true (cr_register req),
      ar_cloud_config = create_cloud_config h req,
      ar_kubernetes_enabled = Some (default_true (cr_kubernetes_enabled req)),
      ar_target_group = cr_target_group req, ar_container_image = [], ar_overlay = cr_overlay req, ar_files = [],
      ar_logs = [], ar_upload_token = hashUploadToken h token\<rparr>"

definition ArtifactHandlerCreate :: "'b artifact_handler \<Rightarrow> uuid \<Rightarrow> string + string \<Rightarrow> create_request option \<Rightarrow>
    'b artifact_world \<Rightarrow> artifact_response \<times> 'b artifact_world" where
  "ArtifactHandlerCreate h u random req0 w =
     (case req0 of
        None \<Rightarrow> (Response 400 (ErrorBody ''invalid request body''), w)
      | Some req \<Rightarrow> (case resolve_signing h (cr_signing req) of
          None \<Rightarrow> (Response 400 (ErrorBody ''key set not found''), w)
        | Some si \<Rightarrow> (case mintUploadToken random of
            Inl _ \<Rightarrow> (Response 500 (ErrorBody ''failed to prepare build''), w)
          | Inr token \<Rightarrow>
            let (r, t, b) = be_Build (ah_backend h) (create_options h u token si req) (aw_rows w) (aw_backend w);
                w1 = w\<lparr>aw_rows := t, aw_backend := b\<rparr> in
            (case r of
               Inl (InvalidBuildOptions e) \<Rightarrow> (Response 400 (ErrorBody e), w1)
             | Inl (NotSupported e) \<Rightarrow> (Response 501 (ErrorBody e), w1)
             | Inl _ \<Rightarrow> (Response 500 (ErrorBody ''failed to start build''), w1)
             | Inr st \<Rightarrow> (case ah_store h of
                 None \<Rightarrow> (Response 201 (Body (BuildStatusBody st)), w1)
               | Some eng \<Rightarrow> (case ArtifactGetByID eng (bd_id st) t of
                   Inr _ \<Rightarrow> (Response 201 (Body (BuildStatusBody st)), w1)
                 | Inl _ \<Rightarrow> (case ArtifactCreate eng (create_record h token req st) t of
                     (Inr _, t2) \<Rightarrow> (Response 201 (Body (BuildStatusBody st)), w1\<lparr>aw_rows := t2\<rparr>)
                   | (Inl _, t2) \<Rightarrow>
                     let (_, t3, b3) = be_Cancel (ah_backend h) (bd_id st) t2 b in
                     (Response 500 (ErrorBody ''failed to persist build''), w1\<lparr>aw_rows := t3, aw_backend := b3\<rparr>))))))))"

section \<open>Reading\<close>

definition ArtifactHandlerList :: "'b artifact_handler \<Rightarrow> 'b artifact_world \<Rightarrow> artifact_response" where
  "ArtifactHandlerList h w =
     (case ah_store h of
        Some eng \<Rightarrow> (case ArtifactList eng (aw_rows w) of
            Inl _ \<Rightarrow> Response 500 (ErrorBody ''failed to list artifacts'')
          | Inr recs \<Rightarrow> Response 200 (Body (ArtifactsBody recs)))
      | None \<Rightarrow> (case be_List (ah_backend h) (aw_rows w) (aw_backend w) of
            Inl (NotSupported e) \<Rightarrow> Response 501 (ErrorBody e)
          | Inl _ \<Rightarrow> Response 500 (ErrorBody ''failed to list artifacts'')
          | Inr sts \<Rightarrow> Response 200 (Body (BuildStatusesBody sts))))"

definition ArtifactHandlerGet :: "'b artifact_handler \<Rightarrow> string \<Rightarrow> 'b artifact_world \<Rightarrow> artifact_response" where
  "ArtifactHandlerGet h i w =
     (case ah_store h of
        Some eng \<Rightarrow> (case ArtifactGetByID eng i (aw_rows w) of
            Inl _ \<Rightarrow> Response 404 (ErrorBody ''artifact not found'')
          | Inr rec \<Rightarrow> Response 200 (Body (ArtifactBody rec)))
      | None \<Rightarrow> (case be_Status (ah_backend h) i (aw_rows w) (aw_backend w) of
            Inl (NotSupported e) \<Rightarrow> Response 501 (ErrorBody e)
          | Inl _ \<Rightarrow> Response 404 (ErrorBody ''artifact not found'')
          | Inr st \<Rightarrow> Response 200 (Body (BuildStatusBody st))))"

definition ArtifactHandlerGetLogs :: "'b artifact_handler \<Rightarrow> string \<Rightarrow> 'b artifact_world \<Rightarrow> artifact_response" where
  "ArtifactHandlerGetLogs h i w =
     (case ah_store h of
        None \<Rightarrow> Response 501 (Body (TextBody ''log storage not available''))
      | Some eng \<Rightarrow> (case ArtifactGetLogs eng i (aw_rows w) of
            Inl _ \<Rightarrow> Response 404 (ErrorBody ''artifact not found'')
          | Inr logs \<Rightarrow> Response 200 (Body (TextBody logs))))"

section \<open>Uploading\<close>

definition safePathSegment :: "string \<Rightarrow> string option" where
  "safePathSegment s =
     (if s = [] \<or> s = ''.'' then Some ''empty segment''
      else if CHR ''/'' \<in> set s \<or> CHR 0x5C \<in> set s \<or> Contains s ''..'' \<or> IsAbs s then Some ''path traversal''
      else None)"

definition appendArtifactFile :: "artifact \<Rightarrow> string \<Rightarrow> artifact" where
  "appendArtifactFile rec n = (if n \<in> set (ar_files rec) then rec else rec\<lparr>ar_files := ar_files rec @ [n]\<rparr>)"

abbreviation maxUploadBytes :: int where "maxUploadBytes \<equiv> 20 * 1024 * 1024 * 1024"

text \<open>
  The body of the request and what the disk answers: the temporary name, or an error,
  and whether writing it, closing it and renaming it fail.
\<close>

record upload_io =
  up_body :: string
  up_read_fails :: bool
  up_mkdir_fails :: bool
  up_temp :: "string option"
  up_write_fails :: bool
  up_close_fails :: bool
  up_rename_fails :: bool

definition upload_accepted :: "'b artifact_handler \<Rightarrow> artifact \<Rightarrow> string \<Rightarrow> bool" where
  "upload_accepted h rec authorization =
     (let presented = TrimPrefix authorization ''Bearer '' in
      presented \<noteq> [] \<and> ar_upload_token rec \<noteq> [] \<and> hashUploadToken h presented = ar_upload_token rec)"

text \<open>
  A body that exceeds the limit or cannot be read reaches the temporary file in part; a deferred
  removal takes that file away, without effect once it has been renamed.
\<close>

definition store_upload :: "upload_io \<Rightarrow> string \<Rightarrow> string \<Rightarrow> artifact_response option \<times> disk_event list" where
  "store_upload io buildDir filename =
     (if up_mkdir_fails io then (Some (Response 500 (ErrorBody ''failed to prepare artifact directory'')), [])
      else case up_temp io of
        None \<Rightarrow> (Some (Response 500 (ErrorBody ''failed to open upload buffer'')), [MadeDir buildDir])
      | Some sfx \<Rightarrow>
        let tmp = PathJoin [buildDir, ''.upload-'' @ sfx];
            part = [MadeDir buildDir, WrotePart tmp, RemovedAll tmp];
            whole = [MadeDir buildDir, WroteFile tmp (up_body io)] in
        if up_write_fails io then (Some (Response 500 (ErrorBody ''upload write failed'')), part)
        else if int (length (up_body io)) > maxUploadBytes
        then (Some (Response 413 (ErrorBody ''upload exceeds size limit'')), part)
        else if up_read_fails io then (Some (Response 500 (ErrorBody ''upload write failed'')), part)
        else if up_close_fails io then (Some (Response 500 (ErrorBody ''upload close failed'')), whole @ [RemovedAll tmp])
        else if up_rename_fails io then (Some (Response 500 (ErrorBody ''upload finalize failed'')), whole @ [RemovedAll tmp])
        else (None, whole @ [Renamed tmp (PathJoin [buildDir, filename])]))"

definition Upload :: "'b artifact_handler \<Rightarrow> string \<Rightarrow> string \<Rightarrow> string \<Rightarrow> upload_io \<Rightarrow> 'b artifact_world \<Rightarrow>
    artifact_response \<times> 'b artifact_world" where
  "Upload h i filename authorization io w =
     (if safePathSegment i \<noteq> None then (Response 400 (ErrorBody ''invalid artifact id''), w)
      else if safePathSegment filename \<noteq> None then (Response 400 (ErrorBody ''invalid filename''), w)
      else case ah_store h of
        None \<Rightarrow> (Response 404 (ErrorBody ''artifact not found''), w)
      | Some eng \<Rightarrow> (case ArtifactGetByID eng i (aw_rows w) of
          Inl _ \<Rightarrow> (Response 404 (ErrorBody ''artifact not found''), w)
        | Inr rec \<Rightarrow>
          if \<not> upload_accepted h rec authorization then (Response 401 (ErrorBody ''invalid upload token''), w)
          else if ar_phase rec \<in> {ArtifactReady, ArtifactError}
          then (Response 409 (ErrorBody ''build is not accepting uploads''), w)
          else
            let (failure, evs) = store_upload io (PathJoin [ah_dir h, i]) filename;
                w1 = w\<lparr>aw_disk := aw_disk w @ evs\<rparr> in
            (case failure of
               Some resp \<Rightarrow> (resp, w1)
             | None \<Rightarrow> (Response 201 NoContent,
                 w1\<lparr>aw_rows := snd (ArtifactUpdateFiles eng i (ar_files (appendArtifactFile rec filename)) (aw_rows w))\<rparr>))))"

section \<open>Cancelling, downloading, deleting\<close>

definition ArtifactHandlerCancel :: "'b artifact_handler \<Rightarrow> string \<Rightarrow> 'b artifact_world \<Rightarrow> artifact_response \<times> 'b artifact_world" where
  "ArtifactHandlerCancel h i w =
     (let (r, t, b) = be_Cancel (ah_backend h) i (aw_rows w) (aw_backend w);
          w1 = w\<lparr>aw_rows := t, aw_backend := b\<rparr>;
          unknown = Response 404 (ErrorBody ''artifact not found or cannot be cancelled'') in
      case r of
        Some (NotSupported e) \<Rightarrow> (Response 501 (ErrorBody e), w1)
      | _ \<Rightarrow> (case ah_store h of
          None \<Rightarrow> (if r \<noteq> None then unknown else Response 200 (Body CancelledBody), w1)
        | Some eng \<Rightarrow> (case ArtifactGetByID eng i t of
            Inl _ \<Rightarrow> (if r \<noteq> None then unknown else Response 200 (Body CancelledBody), w1)
          | Inr rec \<Rightarrow> (if r \<noteq> None then Response 500 (ErrorBody ''cancel failed'')
                        else Response 200 (Body (ArtifactBody rec)), w1))))"

text \<open>\<open>cwd\<close> is the working directory, \<open>None\<close> when it cannot be had. Echo answers for a file it is given.\<close>

definition Download :: "'b artifact_handler \<Rightarrow> string option \<Rightarrow> string \<Rightarrow> string \<Rightarrow> 'b artifact_world \<Rightarrow> artifact_response" where
  "Download h cwd i filename w =
     (if safePathSegment i \<noteq> None then Response 400 (ErrorBody ''invalid artifact id'')
      else if safePathSegment filename \<noteq> None then Response 400 (ErrorBody ''invalid filename'')
      else if (case ah_store h of None \<Rightarrow> False | Some eng \<Rightarrow> isl (ArtifactGetByID eng i (aw_rows w)))
      then Response 404 (ErrorBody ''artifact not found'')
      else
        let filePath = PathJoin [ah_dir h, i, filename]; base = PathJoin [ah_dir h, i] in
        if cwd = None \<and> \<not> (IsAbs filePath \<and> IsAbs base)
        then Response 400 (ErrorBody ''invalid path'')
        else let dir = (case cwd of Some d \<Rightarrow> d | None \<Rightarrow> ''/'') in
          if \<not> HasPrefix (Abs_path dir filePath) (Abs_path dir base)
          then Response 400 (ErrorBody ''invalid path'')
          else Response 200 (Body (FileBody filePath)))"

definition remove_overlay :: "'b artifact_handler \<Rightarrow> artifact \<Rightarrow> disk_event list" where
  "remove_overlay h rec =
     (if ar_overlay rec \<noteq> [] \<and> HasPrefix (ar_overlay rec) (ah_dir h) then [RemovedAll (ar_overlay rec)] else [])"

definition reap :: "'b artifact_handler \<Rightarrow> artifact \<Rightarrow> 'b artifact_world \<Rightarrow> 'b artifact_world" where
  "reap h rec w =
     (let (_, t, b) = be_Cancel (ah_backend h) (ar_id rec) (aw_rows w) (aw_backend w) in
      w\<lparr>aw_rows := t, aw_backend := b,
        aw_disk := aw_disk w @ [RemovedAll (PathJoin [ah_dir h, ar_id rec])] @ remove_overlay h rec\<rparr>)"

definition ClearFailed :: "'b artifact_handler \<Rightarrow> artifact engine \<Rightarrow> 'b artifact_world \<Rightarrow> artifact_response \<times> 'b artifact_world" where
  "ClearFailed h eng w =
     (let w1 = (case ArtifactList eng (aw_rows w) of
            Inl _ \<Rightarrow> w
          | Inr recs \<Rightarrow> fold (\<lambda>rec w'. if ar_phase rec = ArtifactError then reap h rec w' else w') recs w);
          (r, t) = ArtifactDeleteByPhase eng ArtifactError (aw_rows w1);
          w2 = w1\<lparr>aw_rows := t\<rparr> in
      case r of
        Inl _ \<Rightarrow> (Response 500 (ErrorBody ''failed to clear''), w2)
      | Inr _ \<Rightarrow> (Response 204 NoContent, w2))"

definition ArtifactHandlerDelete :: "'b artifact_handler \<Rightarrow> artifact engine \<Rightarrow> string \<Rightarrow> 'b artifact_world \<Rightarrow>
    artifact_response \<times> 'b artifact_world" where
  "ArtifactHandlerDelete h eng i w =
     (case ArtifactGetByID eng i (aw_rows w) of
        Inl _ \<Rightarrow> (Response 404 (ErrorBody ''artifact not found''), w)
      | Inr rec \<Rightarrow>
        let (_, t, b) = be_Cancel (ah_backend h) i (aw_rows w) (aw_backend w);
            evs = [RemovedAll (PathJoin [ah_dir h, i])] @ remove_overlay h rec
              @ (if ar_container_image rec \<noteq> [] then [ImageRemoved (ar_container_image rec)] else []);
            (r, t2) = ArtifactDelete eng i t;
            w1 = w\<lparr>aw_rows := t2, aw_backend := b, aw_disk := aw_disk w @ evs\<rparr> in
        (case r of
           Inl _ \<Rightarrow> (Response 500 (ErrorBody ''failed to delete''), w1)
         | Inr _ \<Rightarrow> (Response 204 NoContent, w1)))"

text \<open>The patch is \<open>None\<close> when the body does not parse.\<close>

definition ArtifactHandlerUpdate :: "artifact engine \<Rightarrow> string \<Rightarrow> (string option \<times> bool option) option \<Rightarrow>
    'b artifact_world \<Rightarrow> artifact_response \<times> 'b artifact_world" where
  "ArtifactHandlerUpdate eng i patch w =
     (case ArtifactGetByID eng i (aw_rows w) of
        Inl _ \<Rightarrow> (Response 404 (ErrorBody ''artifact not found''), w)
      | Inr rec \<Rightarrow> (case patch of
          None \<Rightarrow> (Response 400 (ErrorBody ''invalid request body''), w)
        | Some (n, saved) \<Rightarrow>
          let rec' = rec\<lparr>ar_name := (case n of None \<Rightarrow> ar_name rec | Some v \<Rightarrow> v),
                ar_saved := (case saved of None \<Rightarrow> ar_saved rec | Some v \<Rightarrow> v)\<rparr> in
          (case ArtifactUpdate eng rec' (aw_rows w) of
             (Inl _, t) \<Rightarrow> (Response 500 (ErrorBody ''failed to update''), w\<lparr>aw_rows := t\<rparr>)
           | (Inr _, t) \<Rightarrow> (Response 200 (Body (ArtifactBody rec')), w\<lparr>aw_rows := t\<rparr>))))"

section \<open>Overlays\<close>

text \<open>A part of the form: its file name, whether it opens, and its bytes, also as an archive.\<close>

record form_file =
  ff_name :: string
  ff_opens :: bool
  ff_data :: string
  ff_archive :: "string + tar_entry list \<times> string option"
  ff_create_fails :: bool

fun upload_files :: "overlay_fs \<Rightarrow> string \<Rightarrow> string \<Rightarrow> form_file list \<Rightarrow> artifact_response \<times> disk_event list" where
  "upload_files fs cwd dir [] = (Response 200 (Body (PathBody dir)), [])"
| "upload_files fs cwd dir (f # fs') =
     (if \<not> ff_opens f then upload_files fs cwd dir fs'
      else let n = Base (ff_name f) in
        if HasSuffix n ''.tar.gz'' \<or> HasSuffix n ''.tgz'' then
          (case extractOverlayTarGz fs cwd (ff_archive f) dir of
             (Some e, evs) \<Rightarrow> (Response 400 (ErrorBody (''failed to extract '' @ n @ '': '' @ e)), [Extracted evs])
           | (None, evs) \<Rightarrow> let (r, evs') = upload_files fs cwd dir fs' in (r, Extracted evs # evs'))
        else if ff_create_fails f then upload_files fs cwd dir fs'
        else let (r, evs') = upload_files fs cwd dir fs' in (r, WroteFile (PathJoin [dir, n]) (ff_data f) # evs'))"

definition UploadOverlay :: "'b artifact_handler \<Rightarrow> overlay_fs \<Rightarrow> string \<Rightarrow> uuid \<Rightarrow> bool \<Rightarrow> form_file list option \<Rightarrow>
    'b artifact_world \<Rightarrow> artifact_response \<times> 'b artifact_world" where
  "UploadOverlay h fs cwd u mkdir_fails form w =
     (let dir = PathJoin [ah_dir h, ''overlays'', u] in
      if mkdir_fails then (Response 500 (ErrorBody ''failed to create overlay directory''), w)
      else case form of
        None \<Rightarrow> (Response 400 (ErrorBody ''invalid multipart form''), w\<lparr>aw_disk := aw_disk w @ [MadeDir dir]\<rparr>)
      | Some files \<Rightarrow>
        let (r, evs) = upload_files fs cwd dir files in (r, w\<lparr>aw_disk := aw_disk w @ MadeDir dir # evs\<rparr>))"

section \<open>After a restart\<close>

fun reconcile_artifacts :: "artifact engine \<Rightarrow> artifact list \<Rightarrow> artifacts \<Rightarrow> artifacts" where
  "reconcile_artifacts eng [] t = t"
| "reconcile_artifacts eng (rec # recs) t =
     (if ar_phase rec \<noteq> ArtifactPending \<and> ar_phase rec \<noteq> ArtifactBuilding then reconcile_artifacts eng recs t
      else reconcile_artifacts eng recs
        (snd (ArtifactUpdate eng (rec\<lparr>ar_phase := ArtifactError, ar_message := ''interrupted by server restart''\<rparr>) t)))"

definition ReconcileOrphanedArtifacts :: "artifact engine \<Rightarrow> artifacts \<Rightarrow> (unit, artifacts) db_result" where
  "ReconcileOrphanedArtifacts eng t =
     (case ArtifactList eng t of Inl e \<Rightarrow> (Inl e, t) | Inr recs \<Rightarrow> (Inr (), reconcile_artifacts eng recs t))"

section \<open>The backend as an interface\<close>

text \<open>Whatever a cancellation does to the builds, of the table it changes at most the phase and message of its row.\<close>

definition phase_only :: "string \<Rightarrow> artifacts \<Rightarrow> artifacts \<Rightarrow> bool" where
  "phase_only i t t' \<longleftrightarrow> distinct (map ar_id t') \<and>
     (\<exists>phase message. row_map ar_id t' = row_map ar_id t \<or>
        row_map ar_id t' = (row_map ar_id t)(i := map_option (\<lambda>r. r\<lparr>ar_phase := phase, ar_message := message\<rparr>) (row_map ar_id t i)))"

locale artifact_backend =
  fixes be :: "'b build_backend"
  assumes cancel_phase_only: "be_Cancel be i t b = (r, t', b') \<Longrightarrow> distinct (map ar_id t) \<Longrightarrow> phase_only i t t'"
begin

lemma cancel_other:
  "be_Cancel be i t b = (r, t', b') \<Longrightarrow> distinct (map ar_id t) \<Longrightarrow> j \<noteq> i \<Longrightarrow> row_map ar_id t' j = row_map ar_id t j"
  using cancel_phase_only unfolding phase_only_def by fastforce

lemma cancel_distinct: "be_Cancel be i t b = (r, t', b') \<Longrightarrow> distinct (map ar_id t) \<Longrightarrow> distinct (map ar_id t')"
  using cancel_phase_only unfolding phase_only_def by blast

text \<open>A deletion that answers 204 takes the row away and no other, whatever the backend says.\<close>

lemma delete_row:
  assumes "ah_backend h = be" and "artifact_engine eng" and "distinct (map ar_id (aw_rows w))"
    and "ArtifactHandlerDelete h eng i w = (Response 204 NoContent, w')"
  shows "row_map ar_id (aw_rows w') = (row_map ar_id (aw_rows w))(i := None)"
proof -
  obtain r t b where cancel: "be_Cancel be i (aw_rows w) (aw_backend w) = (r, t, b)" by (metis prod_cases3)
  obtain q t2 where del: "ArtifactDelete eng i t = (q, t2)" by fastforce
  have t2: "aw_rows w' = t2" and "\<exists>n. q = Inr n"
    using assms(1,4) cancel del by (auto simp: ArtifactHandlerDelete_def Let_def split: sum.splits)
  then have "t2 = filter (\<lambda>r. ar_id r \<noteq> i) t"
    using sql_engine.db_delete_Inr [of eng ar_id artifact_clash] assms(2) del
    by (fastforce simp: artifact_engine_def ArtifactDelete_def)
  then have "row_map ar_id t2 = (row_map ar_id t)(i := None)"
    using row_map_filter [OF cancel_distinct [OF cancel assms(3)]] by simp
  moreover have "(row_map ar_id t)(i := None) = (row_map ar_id (aw_rows w))(i := None)"
    using cancel_other [OF cancel assms(3)] by (auto simp: fun_eq_iff)
  ultimately show ?thesis using t2 by simp
qed

text \<open>A sweep of the failed builds.\<close>

lemma reap_distinct:
  "ah_backend h = be \<Longrightarrow> distinct (map ar_id (aw_rows w)) \<Longrightarrow> distinct (map ar_id (aw_rows (reap h rec w)))"
  using cancel_distinct by (auto simp: reap_def split: prod.splits)

lemma reap_other:
  "ah_backend h = be \<Longrightarrow> distinct (map ar_id (aw_rows w)) \<Longrightarrow> j \<noteq> ar_id rec \<Longrightarrow>
     row_map ar_id (aw_rows (reap h rec w)) j = row_map ar_id (aw_rows w) j"
  using cancel_other by (auto simp: reap_def split: prod.splits)

lemma reap_all:
  assumes "ah_backend h = be" and "distinct (map ar_id (aw_rows w))" and "\<And>rec. rec \<in> set recs \<Longrightarrow> ar_phase rec = ArtifactError \<Longrightarrow> ar_id rec \<noteq> j"
  shows "row_map ar_id (aw_rows (fold (\<lambda>rec w'. if ar_phase rec = ArtifactError then reap h rec w' else w') recs w)) j =
      row_map ar_id (aw_rows w) j \<and>
    distinct (map ar_id (aw_rows (fold (\<lambda>rec w'. if ar_phase rec = ArtifactError then reap h rec w' else w') recs w)))"
  using assms(2,3)
proof (induction recs arbitrary: w)
  case (Cons rec recs)
  then show ?case using reap_distinct [OF assms(1)] reap_other [OF assms(1), of w j rec] by auto
qed simp

end

text \<open>The local builder as a backend: its builds, its goroutines, and the table it shares.\<close>

definition with_rows :: "artifacts \<Rightarrow> builder \<Rightarrow> builder" where
  "with_rows t b = b\<lparr>lb_sink := (lb_sink b)\<lparr>lk_artifacts := t\<rparr>\<rparr>"

definition local_backend :: "build_tools \<Rightarrow> uuid \<Rightarrow> (builder \<times> build_run list) build_backend" where
  "local_backend tools u =
     \<lparr>be_Build = (\<lambda>opts t (b, runs). let (r, b', run) = Build tools u opts (with_rows t b) in
        (r, lk_artifacts (lb_sink b'), b', runs @ (case run of None \<Rightarrow> [] | Some x \<Rightarrow> [x]))),
      be_Status = (\<lambda>i t (b, runs). map_sum BuildFailed id (Status tools i (with_rows t b))),
      be_List = (\<lambda>t (b, runs). Inr (BuildList tools (with_rows t b))),
      be_Cancel = (\<lambda>i t (b, runs). let b' = BuildCancel tools i (with_rows t b) in
        (None, lk_artifacts (lb_sink b'), b', runs))\<rparr>"

lemma update_phase_only:
  assumes "artifact_engine eng" and d: "distinct (map ar_id t)"
  shows "phase_only i t (snd (updateDBPhase eng i phase message t))"
proof (cases "ArtifactGetByID eng i t")
  case (Inl e)
  then show ?thesis using d by (simp add: updateDBPhase_def phase_only_def)
next
  case (Inr rec)
  then have rec: "rec \<in> set t" "ar_id rec = i"
    using sql_engine.db_first_Inr [of eng ar_id artifact_clash] assms(1)
    by (auto simp: artifact_engine_def ArtifactGetByID_def)
  let ?rec = "rec\<lparr>ar_phase := phase, ar_message := message\<rparr>"
  obtain out t' where upd: "ArtifactUpdate eng ?rec t = (out, t')" by fastforce
  have row: "row_map ar_id t i = Some rec" using row_map_distinct [OF d rec(1)] rec(2) by simp
  have "distinct (map ar_id t')"
    using artifact_engine.step_distinct [OF assms(1), of "OpArtifactUpdate ?rec" t "map_sum id (\<lambda>_. 1) out" t'] upd d by simp
  moreover have "row_map ar_id t' = row_map ar_id t \<or> row_map ar_id t' = (row_map ar_id t)(i \<mapsto> ?rec)"
    using artifact_engine.update_map [OF assms(1) upd d] row rec(2) by simp
  ultimately show ?thesis using Inr upd row by (auto simp: updateDBPhase_def phase_only_def)
qed

lemma local_cancel_rows:
  assumes "case bt_store tools of None \<Rightarrow> True | Some eng \<Rightarrow> artifact_engine eng" and "distinct (map ar_id t)"
  shows "phase_only i t (lk_artifacts (lb_sink (BuildCancel tools i (with_rows t b))))"
proof -
  have same: "phase_only i t t" using assms(2) by (auto simp: phase_only_def)
  show ?thesis
    using assms(1) update_phase_only [OF _ assms(2)] same
    by (auto simp: BuildCancel_def with_rows_def store_phase_def cancel_context_def setPhase_def Let_def split: option.splits)
qed

lemma local_backendI:
  "(case bt_store tools of None \<Rightarrow> True | Some eng \<Rightarrow> artifact_engine eng) \<Longrightarrow> artifact_backend (local_backend tools u)"
  by unfold_locales (auto simp: local_backend_def Let_def dest: local_cancel_rows)

interpretation local_builds: artifact_backend "local_backend (tools\<lparr>bt_store := Some (mem_engine ar_id artifact_clash)\<rparr>) u"
  for tools u
  by (rule local_backendI) (simp add: mem_artifacts.artifact_engine_axioms)

section \<open>Paths of a build\<close>

lemma safe_plain: "safePathSegment s = None \<Longrightarrow> plain_segment s"
  by (auto simp: safePathSegment_def plain_segment_def Contains_iff split: if_splits)

definition build_path :: "'b artifact_handler \<Rightarrow> string list \<Rightarrow> string" where
  "build_path h qs = path_of (IsAbs (ah_dir h)) (clean_parts (ah_dir h) @ qs)"

lemma PathJoin_build:
  "ah_dir h \<noteq> [] \<Longrightarrow> plain_segment a \<Longrightarrow> PathJoin [ah_dir h, a] = build_path h [a]"
  "ah_dir h \<noteq> [] \<Longrightarrow> plain_segment a \<Longrightarrow> plain_segment b \<Longrightarrow> PathJoin [ah_dir h, a, b] = build_path h [a, b]"
  by (simp_all add: build_path_def PathJoin_child PathJoin_grandchild)

lemma build_path_clean:
  assumes "plain_segment a"
  shows "IsAbs (build_path h [a]) = IsAbs (ah_dir h)" and "clean_parts (build_path h [a]) = clean_parts (ah_dir h) @ [a]"
    and "build_path h [a] \<noteq> []"
proof -
  have n: "normal_parts (IsAbs (ah_dir h)) (clean_parts (ah_dir h) @ [a])"
    by (rule normal_parts_plain [OF clean_parts_normal assms])
  show "IsAbs (build_path h [a]) = IsAbs (ah_dir h)" "clean_parts (build_path h [a]) = clean_parts (ah_dir h) @ [a]"
    unfolding build_path_def by (rule IsAbs_path_of_normal [OF n], rule clean_parts_path_of [OF n])
  then show "build_path h [a] \<noteq> []" by (auto simp: clean_parts_def clean_segment_def)
qed

lemma PathJoin_file:
  assumes "plain_segment a" and "plain_segment b"
  shows "PathJoin [build_path h [a], b] = build_path h [a, b]"
  unfolding PathJoin_child [OF build_path_clean(3) [OF assms(1)] assms(2)] build_path_clean(1,2) [OF assms(1)]
  by (simp add: build_path_def)

text \<open>What an upload may do to the disk: a temporary file beside the named file of the build.\<close>

fun upload_event :: "'b artifact_handler \<Rightarrow> string \<Rightarrow> string \<Rightarrow> string \<Rightarrow> disk_event \<Rightarrow> bool" where
  "upload_event h i filename tmp (MadeDir p) = (p = build_path h [i])"
| "upload_event h i filename tmp (WroteFile p data) = (p = build_path h [i, tmp])"
| "upload_event h i filename tmp (WrotePart p) = (p = build_path h [i, tmp])"
| "upload_event h i filename tmp (RemovedAll p) = (p = build_path h [i, tmp])"
| "upload_event h i filename tmp (Renamed p q) = (p = build_path h [i, tmp] \<and> q = build_path h [i, filename])"
| "upload_event h i filename tmp _ = False"

lemma plain_temp: "CHR ''/'' \<notin> set sfx \<Longrightarrow> plain_segment (''.upload-'' @ sfx)"
  by (simp add: plain_segment_def)

lemma store_upload_events:
  assumes "plain_segment i" and "plain_segment filename" and "\<And>sfx. up_temp io = Some sfx \<Longrightarrow> CHR ''/'' \<notin> set sfx"
    and "store_upload io (build_path h [i]) filename = (failure, evs)"
  shows "list_all (upload_event h i filename (''.upload-'' @ (case up_temp io of Some sfx \<Rightarrow> sfx | None \<Rightarrow> []))) evs"
  using assms(4) PathJoin_file [OF assms(1,2)] PathJoin_file [OF assms(1) plain_temp] assms(3)
  by (auto simp: store_upload_def Let_def split: option.splits if_splits)

text \<open>
  Who may upload, and when the disk takes the file: the presented bearer is not empty and hashes to the
  token of the row, which is not empty either, and the build has not ended.
\<close>

definition admits_upload :: "'b artifact_handler \<Rightarrow> string \<Rightarrow> string \<Rightarrow> 'b artifact_world \<Rightarrow> artifact \<Rightarrow> bool" where
  "admits_upload h i authorization w rec \<longleftrightarrow>
     (\<exists>eng. ah_store h = Some eng \<and> ArtifactGetByID eng i (aw_rows w) = Inr rec) \<and>
     (let bearer = TrimPrefix authorization ''Bearer '' in
      bearer \<noteq> [] \<and> ar_upload_token rec \<noteq> [] \<and> hashUploadToken h bearer = ar_upload_token rec) \<and>
     ar_phase rec \<noteq> ArtifactReady \<and> ar_phase rec \<noteq> ArtifactError"

definition disk_takes :: "upload_io \<Rightarrow> bool" where
  "disk_takes io \<longleftrightarrow> \<not> up_mkdir_fails io \<and> up_temp io \<noteq> None \<and> \<not> up_write_fails io \<and> \<not> up_read_fails io \<and>
     \<not> up_close_fails io \<and> \<not> up_rename_fails io \<and> int (length (up_body io)) \<le> 20 * 1024 * 1024 * 1024"

definition temp_name :: "upload_io \<Rightarrow> string" where
  "temp_name io = ''.upload-'' @ (case up_temp io of Some sfx \<Rightarrow> sfx | None \<Rightarrow> [])"

lemma store_upload_taken:
  assumes "plain_segment i" and "plain_segment filename" and "\<And>sfx. up_temp io = Some sfx \<Longrightarrow> CHR ''/'' \<notin> set sfx"
    and "store_upload io (build_path h [i]) filename = (failure, evs)"
  shows "failure = None \<longleftrightarrow> disk_takes io"
    and "failure = None \<Longrightarrow> evs = [MadeDir (build_path h [i]), WroteFile (build_path h [i, temp_name io]) (up_body io),
        Renamed (build_path h [i, temp_name io]) (build_path h [i, filename])]"
    and "failure \<noteq> None \<Longrightarrow> failure \<noteq> Some (Response 201 NoContent) \<and> Renamed p q \<notin> set evs"
  using assms(4) PathJoin_file [OF assms(1,2)] PathJoin_file [OF assms(1) plain_temp] assms(3)
  by (auto simp: store_upload_def Let_def disk_takes_def temp_name_def split: option.splits if_splits)

text \<open>The row after the upload: the name of the file is added once.\<close>

lemma upload_row:
  assumes "sql_engine eng ar_id artifact_clash" and "distinct (map ar_id (aw_rows w))"
    and "ArtifactGetByID eng i (aw_rows w) = Inr rec"
    and "ArtifactUpdateFiles eng i (ar_files (appendArtifactFile rec filename)) (aw_rows w) = (out, t)"
  shows "row_map ar_id t = (row_map ar_id (aw_rows w))
       (i \<mapsto> rec\<lparr>ar_files := (if filename \<in> set (ar_files rec) then ar_files rec else ar_files rec @ [filename])\<rparr>) \<or>
     t = aw_rows w \<and> \<not> reliable_engine eng ar_id artifact_clash"
proof -
  let ?f = "\<lambda>r. r\<lparr>ar_files := ar_files (appendArtifactFile rec filename)\<rparr>"
  have rec: "row_map ar_id (aw_rows w) i = Some rec"
    using sql_engine.db_first_Inr [OF assms(1) assms(3) [unfolded ArtifactGetByID_def]] row_map_in [OF assms(2)] by blast
  have up: "update_columns eng ?f i (aw_rows w) = (out, t)" using assms(4) by (simp add: ArtifactUpdateFiles_def)
  show ?thesis
  proof (cases out)
    case (Inl err)
    then have "t = aw_rows w" using up db_updates_Inl unfolding update_columns_def by blast
    moreover have "\<not> reliable_engine eng ar_id artifact_clash"
    proof
      assume "reliable_engine eng ar_id artifact_clash"
      then have k: "keyed_engine eng ar_id artifact_clash" by (rule keyed_engineI) (simp add: artifact_clash_def)
      show False
        using keyed_engine.updates_map [OF k assms(2), of ?f i "\<lambda>_. True"] up Inl by (auto simp: update_columns_def)
    qed
    ultimately show ?thesis by blast
  next
    case (Inr n)
    then show ?thesis
      using artifact_engine.update_columns_map [OF artifact_engine_of [OF assms(1)] up assms(2)] rec
      by (simp add: appendArtifactFile_def)
  qed
qed

section \<open>Properties\<close>

text \<open>
  C21. An upload is answered 201 exactly when id and file name are safe segments, the bearer is that of a
  build in progress, and the disk takes the file within the size limit. Then the body is written to a
  temporary file beside the named file of that build and renamed to it, and the only change of the table is
  the name added to the files of that row (none, when the store fails the update). Any other upload
  changes no row and puts no file in place, and without that bearer it changes nothing at all.
\<close>
theorem upload_guarded:
  assumes "Upload h i filename authorization io w = (resp, w')" and "ah_dir h \<noteq> []"
    and "\<And>sfx. up_temp io = Some sfx \<Longrightarrow> CHR ''/'' \<notin> set sfx"
    and "\<And>eng. ah_store h = Some eng \<Longrightarrow> sql_engine eng ar_id artifact_clash" and "distinct (map ar_id (aw_rows w))"
  shows "(resp = Response 201 NoContent \<longleftrightarrow>
       safePathSegment i = None \<and> safePathSegment filename = None \<and> (\<exists>rec. admits_upload h i authorization w rec) \<and> disk_takes io) \<and>
    (w' = w \<and> resp \<noteq> Response 201 NoContent \<or>
     (\<exists>rec evs. admits_upload h i authorization w rec \<and> plain_segment i \<and> plain_segment filename \<and>
      aw_disk w' = aw_disk w @ evs \<and> aw_backend w' = aw_backend w \<and>
      (if resp = Response 201 NoContent
       then evs = [MadeDir (build_path h [i]), WroteFile (build_path h [i, temp_name io]) (up_body io),
              Renamed (build_path h [i, temp_name io]) (build_path h [i, filename])] \<and>
         (row_map ar_id (aw_rows w') = (row_map ar_id (aw_rows w))
            (i \<mapsto> rec\<lparr>ar_files := (if filename \<in> set (ar_files rec) then ar_files rec else ar_files rec @ [filename])\<rparr>) \<or>
          aw_rows w' = aw_rows w \<and> (\<exists>eng. ah_store h = Some eng \<and> \<not> reliable_engine eng ar_id artifact_clash))
       else aw_rows w' = aw_rows w \<and> list_all (upload_event h i filename (temp_name io)) evs \<and> (\<forall>p q. Renamed p q \<notin> set evs))))"
proof (cases "safePathSegment i = None \<and> safePathSegment filename = None \<and> (\<exists>rec. admits_upload h i authorization w rec)")
  case True
  then obtain rec eng where adm: "admits_upload h i authorization w rec" "ah_store h = Some eng"
      "ArtifactGetByID eng i (aw_rows w) = Inr rec"
    unfolding admits_upload_def by blast
  have i: "plain_segment i" and f: "plain_segment filename" using True by (simp_all add: safe_plain)
  obtain failure evs where put: "store_upload io (build_path h [i]) filename = (failure, evs)" by fastforce
  have up: "(resp, w') = (case failure of Some r \<Rightarrow> (r, w\<lparr>aw_disk := aw_disk w @ evs\<rparr>)
      | None \<Rightarrow> (Response 201 NoContent, w\<lparr>aw_disk := aw_disk w @ evs,
          aw_rows := snd (ArtifactUpdateFiles eng i (ar_files (appendArtifactFile rec filename)) (aw_rows w))\<rparr>))"
    using assms(1) True adm put unfolding Upload_def PathJoin_build(1) [OF assms(2) i]
    by (simp add: admits_upload_def upload_accepted_def Let_def)
  note taken = store_upload_taken [OF i f assms(3) put]
  show ?thesis
  proof (cases failure)
    case None
    obtain out t where t: "ArtifactUpdateFiles eng i (ar_files (appendArtifactFile rec filename)) (aw_rows w) = (out, t)" by fastforce
    have "aw_rows w' = t" "aw_disk w' = aw_disk w @ evs" "aw_backend w' = aw_backend w" "resp = Response 201 NoContent"
      using up None t by simp_all
    then show ?thesis
      using upload_row [OF assms(4) [OF adm(2)] assms(5) adm(3) t] taken(1,2) None True adm(1,2) i f by metis
  next
    case (Some r)
    then have "aw_rows w' = aw_rows w" "aw_disk w' = aw_disk w @ evs" "aw_backend w' = aw_backend w" "resp = r"
      using up by simp_all
    moreover have "r \<noteq> Response 201 NoContent" "\<forall>p q. Renamed p q \<notin> set evs" "\<not> disk_takes io"
      using taken(1,3) Some by auto
    moreover have "list_all (upload_event h i filename (temp_name io)) evs"
      using store_upload_events [OF i f assms(3) put] by (simp add: temp_name_def)
    ultimately show ?thesis using adm(1) i f by auto
  qed
next
  case False
  then have "w' = w \<and> resp \<noteq> Response 201 NoContent"
    using assms(1) unfolding Upload_def
    by (auto simp: admits_upload_def upload_accepted_def Let_def split: if_splits option.splits sum.splits)
  then show ?thesis using False by blast
qed

text \<open>
  The token of a build round-trips: when a build is created on a backend that leaves the record to the
  handler, the stored record carries a digest only, and the upload endpoint accepts the bearer that the
  backend was given.
\<close>
theorem minted_token_is_accepted:
  assumes "reliable_engine eng ar_id artifact_clash" and "ah_store h = Some eng"
    and "distinct (map ar_id (aw_rows w))" and "\<And>x. ah_sha256 h x \<noteq> []" and "bytes \<noteq> []"
    and "\<And>opts t b. \<exists>b' st. be_Build (ah_backend h) opts t b = (Inr st, t, b') \<and> bd_id st = bo_id opts"
    and "row_map ar_id (aw_rows w) u = None" and "resolve_signing h (cr_signing req) \<noteq> None"
  shows "\<exists>st rec w'. ArtifactHandlerCreate h u (Inr bytes) (Some req) w = (Response 201 (Body (BuildStatusBody st)), w') \<and>
    ArtifactGetByID eng u (aw_rows w') = Inr rec \<and>
    upload_accepted h rec (''Bearer '' @ EncodeToString bytes) \<and> ar_upload_token rec = hashUploadToken h (EncodeToString bytes)"
proof -
  have keyed: "keyed_engine eng ar_id artifact_clash" by (rule keyed_engineI [OF assms(1)]) (simp add: artifact_clash_def)
  obtain si where si: "resolve_signing h (cr_signing req) = Some si" using assms(8) by blast
  let ?token = "EncodeToString bytes"
  let ?opts = "create_options h u ?token si req"
  obtain b' st where build: "be_Build (ah_backend h) ?opts (aw_rows w) (aw_backend w) = (Inr st, aw_rows w, b')" "bd_id st = u"
    using assms(6) [of ?opts "aw_rows w" "aw_backend w"] by (auto simp: create_options_def)
  let ?rec = "create_record h ?token req st"
  let ?rec' = "if ar_phase ?rec = [] then ?rec\<lparr>ar_phase := ArtifactPending\<rparr> else ?rec"
  have id: "ar_id ?rec' = u" and tok: "ar_upload_token ?rec' = hashUploadToken h ?token"
    using build(2) by (simp_all add: create_record_def)
  obtain t where t: "db_create eng ?rec' (aw_rows w) = (Inr (), t)" "distinct (map ar_id t)"
      "row_map ar_id t = (row_map ar_id (aw_rows w))(u \<mapsto> ?rec')"
    using keyed_engine.create_map [OF keyed assms(3), of ?rec'] id assms(7) by auto
  have missing: "ArtifactGetByID eng u (aw_rows w) = Inl RecordNotFound"
    using keyed_engine.first_map [OF keyed assms(3), of u] assms(7) by (simp add: ArtifactGetByID_def)
  have create: "ArtifactCreate eng ?rec (aw_rows w) = (Inr ?rec', t)" using t(1) by (simp add: ArtifactCreate_def Let_def)
  have resp: "ArtifactHandlerCreate h u (Inr bytes) (Some req) w =
      (Response 201 (Body (BuildStatusBody st)), w\<lparr>aw_rows := t, aw_backend := b'\<rparr>)"
    using si build create missing assms(2) by (simp add: ArtifactHandlerCreate_def mintUploadToken_def Let_def)
  have get: "ArtifactGetByID eng u t = Inr ?rec'"
    using keyed_engine.first_map [OF keyed t(2), of u] t(3) by (simp add: ArtifactGetByID_def)
  have ne: "EncodeToString x \<noteq> []" if "x \<noteq> []" for x using that by (cases x) (simp_all add: EncodeToString_def Let_def)
  have "upload_accepted h ?rec' (''Bearer '' @ ?token)"
    unfolding upload_accepted_def Let_def tok
    using ne [OF assms(5)] ne [OF assms(4)] by (simp add: TrimPrefix_def hashUploadToken_def HasPrefix_def)
  with resp get tok show ?thesis by fastforce
qed

text \<open>
  A download serves exactly the files of a build: with an absolute artifacts directory the endpoint answers with
  a file if and only if id and file name are safe segments and the store knows the build, and the file is the one
  named so in the directory of the build.
\<close>
theorem download_serves_build_files:
  assumes "IsAbs (ah_dir h)"
  shows "Download h cwd i filename w = Response 200 (Body (FileBody p)) \<longleftrightarrow>
    safePathSegment i = None \<and> safePathSegment filename = None \<and>
    (case ah_store h of None \<Rightarrow> True | Some eng \<Rightarrow> \<not> isl (ArtifactGetByID eng i (aw_rows w))) \<and>
    p = build_path h [i, filename]"
proof (cases "safePathSegment i = None \<and> safePathSegment filename = None")
  case True
  then have i: "plain_segment i" and f: "plain_segment filename" by (simp_all add: safe_plain)
  have dir: "ah_dir h \<noteq> []" using assms by (auto simp: IsAbs_def HasPrefix_def)
  note paths = PathJoin_build(1) [OF dir i] PathJoin_build(2) [OF dir i f]
  have abs: "IsAbs (build_path h [i])" "IsAbs (build_path h [i, filename])" using assms by (simp_all add: build_path_def)
  have clean: "Clean (build_path h [i]) = build_path h [i]" "Clean (build_path h [i, filename]) = build_path h [i, filename]"
    using Clean_idem [of "ah_dir h @ CHR ''/'' # i"] Clean_idem [of "(ah_dir h @ CHR ''/'' # i) @ CHR ''/'' # filename"]
      paths i f dir by (simp_all add: PathJoin_def plain_segment_def)
  have "build_path h [i, filename] = build_path h [i] @ ''/'' @ filename"
    using assms Join_append [of "clean_parts (ah_dir h) @ [i]" "[filename]" "''/''"] by (simp add: build_path_def path_of_def)
  then have "HasPrefix (build_path h [i, filename]) (build_path h [i])" by simp
  then show ?thesis
    using True abs clean by (auto simp: Download_def paths Abs_path_def split: option.splits)
next
  case False
  then show ?thesis by (auto simp: Download_def)
qed

text \<open>What a restart makes of a row.\<close>

definition restarted :: "artifact \<Rightarrow> artifact" where
  "restarted r = (if ar_phase r \<in> {ArtifactPending, ArtifactBuilding}
     then r\<lparr>ar_phase := ArtifactError, ar_message := ''interrupted by server restart''\<rparr> else r)"

lemma reconcile_artifacts_map:
  assumes "keyed_engine eng ar_id artifact_clash"
  shows "distinct (map ar_id t) \<Longrightarrow> distinct (map ar_id recs) \<Longrightarrow>
    (\<And>rec. rec \<in> set recs \<Longrightarrow> \<exists>r. row_map ar_id t (ar_id rec) = Some r \<and> rec = r\<lparr>ar_logs := []\<rparr>) \<Longrightarrow>
    distinct (map ar_id (reconcile_artifacts eng recs t)) \<and>
    row_map ar_id (reconcile_artifacts eng recs t) =
      (\<lambda>i. if i \<in> ar_id ` set recs then map_option restarted (row_map ar_id t i) else row_map ar_id t i)"
proof (induction recs arbitrary: t)
  case (Cons rec recs)
  obtain r where r: "row_map ar_id t (ar_id rec) = Some r" "rec = r\<lparr>ar_logs := []\<rparr>" using Cons.prems(3) by fastforce
  have fresh: "ar_id rec \<notin> ar_id ` set recs" and d: "distinct (map ar_id recs)" using Cons.prems(2) by auto
  show ?case
  proof (cases "ar_phase rec \<in> {ArtifactPending, ArtifactBuilding}")
    case False
    then have "restarted r = r" using r(2) by (simp add: restarted_def)
    moreover have "reconcile_artifacts eng (rec # recs) t = reconcile_artifacts eng recs t" using False by simp
    ultimately show ?thesis using Cons.IH [OF Cons.prems(1) d] Cons.prems(3) r(1) by (auto simp: fun_eq_iff)
  next
    case True
    let ?rec = "rec\<lparr>ar_phase := ArtifactError, ar_message := ''interrupted by server restart''\<rparr>"
    let ?t = "snd (ArtifactUpdate eng ?rec t)"
    have upd: "distinct (map ar_id ?t)" "row_map ar_id ?t = (row_map ar_id t)(ar_id rec \<mapsto> restarted r)"
      using update_existing [OF assms Cons.prems(1), of ?rec r] r True by (simp_all add: restarted_def)
    have "\<exists>q. row_map ar_id ?t (ar_id x) = Some q \<and> x = q\<lparr>ar_logs := []\<rparr>" if "x \<in> set recs" for x
    proof -
      have "ar_id x \<noteq> ar_id rec" using that fresh by (metis image_eqI)
      then show ?thesis using Cons.prems(3) [of x] that upd(2) by simp
    qed
    from Cons.IH [OF upd(1) d this] show ?thesis using True fresh upd(2) r(1) by (auto simp: fun_eq_iff)
  qed
qed simp

text \<open>
  C22. After a restart no build is left in progress: the reconciliation turns every Pending and Building row
  into an Error with the message that says so and leaves all else as it is, the logs of the failed rows
  included.
\<close>
theorem restart_fails_orphaned_builds:
  assumes "reliable_engine eng ar_id artifact_clash" and "distinct (map ar_id t)"
  shows "\<exists>t'. ReconcileOrphanedArtifacts eng t = (Inr (), t') \<and> distinct (map ar_id t') \<and>
    row_map ar_id t' = map_option restarted \<circ> row_map ar_id t"
proof -
  have keyed: "keyed_engine eng ar_id artifact_clash" by (rule keyed_engineI [OF assms(1)]) (simp add: artifact_clash_def)
  obtain xs where xs: "db_find eng (\<lambda>_. True) t = Inr xs" using reliable_engine.db_find_total [OF assms(1)] by blast
  have mset: "mset xs = mset t"
    using sql_engine.db_find_mset [OF reliable_engine.axioms(1) [OF assms(1)] xs] by simp
  let ?recs = "map (\<lambda>r. r\<lparr>ar_logs := []\<rparr>) xs"
  have ids: "map ar_id ?recs = map ar_id xs" by simp
  have "mset (map ar_id xs) = mset (map ar_id t)" using mset by (metis mset_map)
  then have "distinct (map ar_id ?recs)" using assms(2) ids by (metis mset_eq_imp_distinct_iff)
  moreover have "\<exists>r. row_map ar_id t (ar_id rec) = Some r \<and> rec = r\<lparr>ar_logs := []\<rparr>" if "rec \<in> set ?recs" for rec
    using that row_map_distinct [OF assms(2)] mset_eq_setD [OF mset] by auto
  ultimately have out: "distinct (map ar_id (reconcile_artifacts eng ?recs t))"
      "row_map ar_id (reconcile_artifacts eng ?recs t) =
        (\<lambda>i. if i \<in> ar_id ` set ?recs then map_option restarted (row_map ar_id t i) else row_map ar_id t i)"
    using reconcile_artifacts_map [OF keyed assms(2), of ?recs] by blast+
  have img: "ar_id ` set ?recs = ar_id ` set t" using ids mset_eq_setD [OF mset] by (metis list.set_map)
  have "row_map ar_id t i = None" if "i \<notin> ar_id ` set ?recs" for i
    using that unfolding img row_map_None by blast
  then have "row_map ar_id (reconcile_artifacts eng ?recs t) i = map_option restarted (row_map ar_id t i)" for i
    unfolding out(2) by (cases "i \<in> ar_id ` set ?recs") simp_all
  then have "row_map ar_id (reconcile_artifacts eng ?recs t) = map_option restarted \<circ> row_map ar_id t"
    by (simp add: fun_eq_iff)
  then show ?thesis using out(1) xs by (simp add: ReconcileOrphanedArtifacts_def ArtifactList_def)
qed

text \<open>
  A deletion that answers 204 takes the row of the artifact away and touches no other row, whatever state the
  build was in.
\<close>
theorem delete_takes_only_its_row:
  assumes "sql_engine eng ar_id artifact_clash" and "bt_store tools = Some eng" and "ah_backend h = local_backend tools u"
    and "distinct (map ar_id (aw_rows w))" and "ArtifactHandlerDelete h eng i w = (Response 204 NoContent, w')"
  shows "row_map ar_id (aw_rows w') = (row_map ar_id (aw_rows w))(i := None)"
proof -
  have "artifact_backend (local_backend tools u)"
    using local_backendI [of tools u] artifact_engine_of [OF assms(1)] assms(2) by simp
  from artifact_backend.delete_row [OF this assms(3) artifact_engine_of [OF assms(1)] assms(4,5)] show ?thesis .
qed

text \<open>
  The sweep of failed builds spares all others: a row that is not in Error is there unchanged afterwards,
  whether the statements of the sweep succeed or fail.
\<close>
theorem sweep_spares_other_builds:
  assumes "sql_engine eng ar_id artifact_clash" and "bt_store tools = Some eng" and "ah_backend h = local_backend tools u"
    and d: "distinct (map ar_id (aw_rows w))" and "ClearFailed h eng w = (resp, w')"
    and r: "row_map ar_id (aw_rows w) j = Some r" "ar_phase r \<noteq> ArtifactError"
  shows "row_map ar_id (aw_rows w') j = Some r"
proof -
  have be: "artifact_backend (local_backend tools u)"
    using local_backendI [of tools u] artifact_engine_of [OF assms(1)] assms(2) by simp
  let ?sweep = "\<lambda>recs. fold (\<lambda>rec w'. if ar_phase rec = ArtifactError then reap h rec w' else w') recs w"
  have swept: "row_map ar_id (aw_rows w1) j = Some r \<and> distinct (map ar_id (aw_rows w1))"
    if w1: "w1 = (case ArtifactList eng (aw_rows w) of Inl _ \<Rightarrow> w | Inr recs \<Rightarrow> ?sweep recs)" for w1
  proof (cases "ArtifactList eng (aw_rows w)")
    case (Inl err)
    then show ?thesis using w1 d r(1) by simp
  next
    case (Inr recs)
    have "ar_id rec \<noteq> j" if failed: "rec \<in> set recs" "ar_phase rec = ArtifactError" for rec
    proof
      assume j: "ar_id rec = j"
      obtain xs where xs: "db_find eng (\<lambda>_. True) (aw_rows w) = Inr xs" "recs = map (\<lambda>r. r\<lparr>ar_logs := []\<rparr>) xs"
        using Inr by (auto simp: ArtifactList_def map_sum_def split: sum.splits)
      then obtain q where q: "q \<in> set (aw_rows w)" "rec = q\<lparr>ar_logs := []\<rparr>"
        using failed(1) sql_engine.db_find_set [OF assms(1) xs(1)] by auto
      then have "row_map ar_id (aw_rows w) j = Some q" using row_map_distinct [OF d q(1)] j by simp
      then show False using r failed(2) q(2) by simp
    qed
    then show ?thesis using artifact_backend.reap_all [OF be assms(3) d, of recs j] w1 Inr r(1) by simp
  qed
  obtain w1 q t where w1: "w1 = (case ArtifactList eng (aw_rows w) of Inl _ \<Rightarrow> w | Inr recs \<Rightarrow> ?sweep recs)"
      and del: "ArtifactDeleteByPhase eng ArtifactError (aw_rows w1) = (q, t)" and t: "aw_rows w' = t"
    using assms(5) unfolding ClearFailed_def Let_def
    by (auto split: prod.splits sum.splits)
  note swept = swept [OF w1]
  have "t = aw_rows w1 \<or> t = filter (\<lambda>x. ar_phase x \<noteq> ArtifactError) (aw_rows w1)"
    using del sql_engine.db_delete_Inr [OF assms(1)] db_delete_Inl unfolding ArtifactDeleteByPhase_def by (cases q) fastforce+
  moreover have "r \<in> set (aw_rows w1) \<and> ar_id r = j" using row_map_Some swept by fastforce
  moreover have "distinct (map ar_id (filter (\<lambda>x. ar_phase x \<noteq> ArtifactError) (aw_rows w1)))"
    using swept by (simp add: distinct_map_filter)
  ultimately show ?thesis
    using t swept r(2) row_map_distinct [of ar_id "filter (\<lambda>x. ar_phase x \<noteq> ArtifactError) (aw_rows w1)" r] by auto
qed

section \<open>Concrete requests\<close>

definition sample_handler :: "(builder \<times> build_run list) artifact_handler" where
  "sample_handler =
     \<lparr>ah_backend = local_backend sample_tools ''u'', ah_store = Some (mem_engine ar_id artifact_clash),
      ah_groups = None, ah_key_sets = None, ah_reg_token = ''reg'', ah_url = ''http://ab'', ah_dir = ''/data/artifacts'',
      ah_sha256 = (\<lambda>s. CHR ''#'' # s), ah_decode = (\<lambda>_. None), ah_encode = (\<lambda>_. None)\<rparr>"

definition sample_world :: "(builder \<times> build_run list) artifact_world" where
  "sample_world =
     \<lparr>aw_rows = [sample_artifact\<lparr>ar_upload_token := hashUploadToken sample_handler ''t''\<rparr>,
        sample_artifact\<lparr>ar_id := ''a2'', ar_phase := ArtifactError\<rparr>],
      aw_backend = (sample_builder, []), aw_disk = []\<rparr>"

definition sample_upload :: upload_io where
  "sample_upload = \<lparr>up_body = ''iso'', up_read_fails = False, up_mkdir_fails = False, up_temp = Some ''7'',
     up_write_fails = False, up_close_fails = False, up_rename_fails = False\<rparr>"

theorem upload_guarded_witness:
  "let r = Upload sample_handler ''a1'' ''k.iso'' ''Bearer t'' sample_upload sample_world in
   fst r = Response 201 NoContent \<and>
   (\<exists>rec. row_map ar_id (aw_rows (snd r)) = (row_map ar_id (aw_rows sample_world))(''a1'' \<mapsto> rec) \<and> ''k.iso'' \<in> set (ar_files rec))"
proof -
  let ?r = "Upload sample_handler ''a1'' ''k.iso'' ''Bearer t'' sample_upload sample_world"
  have ok: "fst ?r = Response 201 NoContent" by code_simp
  have "ah_dir sample_handler \<noteq> []" by (simp add: sample_handler_def)
  moreover have "CHR ''/'' \<notin> set sfx" if "up_temp sample_upload = Some sfx" for sfx
    using that by (auto simp: sample_upload_def)
  moreover have rel: "reliable_engine eng ar_id artifact_clash" if "ah_store sample_handler = Some eng" for eng
    using that mem_reliable [of ar_id artifact_clash] by (auto simp: sample_handler_def artifact_clash_def)
  moreover have "distinct (map ar_id (aw_rows sample_world))" by code_simp
  ultimately have "\<exists>rec. row_map ar_id (aw_rows (snd ?r)) = (row_map ar_id (aw_rows sample_world))
      (''a1'' \<mapsto> rec\<lparr>ar_files := (if ''k.iso'' \<in> set (ar_files rec) then ar_files rec else ar_files rec @ [''k.iso''])\<rparr>)"
    using upload_guarded [OF prod.collapse [symmetric],
        where h = sample_handler and i = "''a1''" and filename = "''k.iso''" and authorization = "''Bearer t''"
          and io = sample_upload and w = sample_world] ok reliable_engine.axioms(1) by fastforce
  then show ?thesis using ok by (fastforce simp: Let_def)
qed

text \<open>A backend that leaves the record to the handler, as the one in the cluster does.\<close>

definition forwarding_backend :: "unit build_backend" where
  "forwarding_backend =
     \<lparr>be_Build = (\<lambda>opts t b. (Inr (pending_status (bo_id opts)), t, b)), be_Status = (\<lambda>i t b. Inr (pending_status i)),
      be_List = (\<lambda>t b. Inr []), be_Cancel = (\<lambda>i t b. (None, t, b))\<rparr>"

definition sample_request :: create_request where
  "sample_request =
     \<lparr>cr_name = ''edge'', cr_source = ar_source sample_artifact, cr_kubernetes_enabled = None,
      cr_recipe = ar_recipe sample_artifact, cr_context_dir = [], cr_overlay = [], cr_outputs = ar_outputs sample_artifact,
      cr_signing = None, cr_auto_install = None, cr_register = None, cr_target_group = [], cr_user_mode = ''none'',
      cr_username = [], cr_password = [], cr_ssh_keys = [], cr_allowed = None, cr_cloud_config = []\<rparr>"

definition forwarding_handler :: "unit artifact_handler" where
  "forwarding_handler =
     \<lparr>ah_backend = forwarding_backend, ah_store = Some (mem_engine ar_id artifact_clash),
      ah_groups = None, ah_key_sets = None, ah_reg_token = ''reg'', ah_url = ''http://ab'', ah_dir = ''/data/artifacts'',
      ah_sha256 = (\<lambda>s. CHR ''#'' # s), ah_decode = (\<lambda>_. None), ah_encode = (\<lambda>_. None)\<rparr>"

theorem minted_token_is_accepted_witness:
  "\<exists>st rec w'. ArtifactHandlerCreate forwarding_handler ''b1'' (Inr ''xy'') (Some sample_request)
      \<lparr>aw_rows = [], aw_backend = (), aw_disk = []\<rparr> = (Response 201 (Body (BuildStatusBody st)), w') \<and>
    ArtifactGetByID (mem_engine ar_id artifact_clash) ''b1'' (aw_rows w') = Inr rec \<and>
    upload_accepted forwarding_handler rec (''Bearer '' @ EncodeToString ''xy'') \<and>
    ar_upload_token rec = hashUploadToken forwarding_handler (EncodeToString ''xy'')"
  by (rule minted_token_is_accepted [OF mem_reliable])
    (simp_all add: forwarding_handler_def forwarding_backend_def pending_status_def resolve_signing_def sample_request_def)

theorem download_serves_build_files_witness:
  "Download sample_handler None ''a1'' ''k.iso'' sample_world = Response 200 (Body (FileBody (build_path sample_handler [''a1'', ''k.iso'']))) \<and>
   build_path sample_handler [''a1'', ''k.iso''] = ''/data/artifacts/a1/k.iso''"
proof -
  have "IsAbs (ah_dir sample_handler)" by code_simp
  moreover have "safePathSegment ''a1'' = None \<and> safePathSegment ''k.iso'' = None" by code_simp
  moreover have "case ah_store sample_handler of None \<Rightarrow> True | Some eng \<Rightarrow> \<not> isl (ArtifactGetByID eng ''a1'' (aw_rows sample_world))"
    by code_simp
  moreover have "build_path sample_handler [''a1'', ''k.iso''] = ''/data/artifacts/a1/k.iso''" by code_simp
  ultimately show ?thesis using download_serves_build_files [of sample_handler] by blast
qed

theorem restart_fails_orphaned_builds_witness:
  "\<exists>t'. ReconcileOrphanedArtifacts (mem_engine ar_id artifact_clash) [sample_artifact] = (Inr (), t') \<and> distinct (map ar_id t') \<and>
    row_map ar_id t' = map_option restarted \<circ> row_map ar_id [sample_artifact]"
  by (rule restart_fails_orphaned_builds [OF mem_reliable]) simp

lemma sample_world_rows:
  "ah_backend sample_handler = local_backend sample_tools ''u''" "bt_store sample_tools = Some (mem_engine ar_id artifact_clash)"
  "distinct (map ar_id (aw_rows sample_world))"
  by (simp_all add: sample_handler_def sample_tools_def sample_world_def sample_artifact_def)

theorem delete_takes_only_its_row_witness:
  "row_map ar_id (aw_rows (snd (ArtifactHandlerDelete sample_handler (mem_engine ar_id artifact_clash) ''a1'' sample_world))) =
   (row_map ar_id (aw_rows sample_world))(''a1'' := None)"
proof -
  have "fst (ArtifactHandlerDelete sample_handler (mem_engine ar_id artifact_clash) ''a1'' sample_world) = Response 204 NoContent"
    by code_simp
  then have "ArtifactHandlerDelete sample_handler (mem_engine ar_id artifact_clash) ''a1'' sample_world =
      (Response 204 NoContent, snd (ArtifactHandlerDelete sample_handler (mem_engine ar_id artifact_clash) ''a1'' sample_world))"
    by (metis prod.collapse)
  from delete_takes_only_its_row [OF mem_sql sample_world_rows(2,1,3) this] show ?thesis .
qed

theorem sweep_spares_other_builds_witness:
  "map_option ar_phase (row_map ar_id (aw_rows (snd (ClearFailed sample_handler (mem_engine ar_id artifact_clash) sample_world))) ''a1'') =
   Some ArtifactBuilding"
proof -
  let ?r = "sample_artifact\<lparr>ar_upload_token := hashUploadToken sample_handler ''t''\<rparr>"
  have "row_map ar_id (aw_rows sample_world) ''a1'' = Some ?r" "ar_phase ?r = ArtifactBuilding"
    by (simp_all add: sample_world_def sample_artifact_def)
  then show ?thesis
    using sweep_spares_other_builds [OF mem_sql sample_world_rows(2,1,3) prod.collapse [symmetric], of "''a1''" ?r] by simp
qed

section \<open>What the checks do not catch\<close>

text \<open>
  The overlay directory of a build comes from the request. The check before it is removed compares text, so a
  path that climbs out of the artifacts directory, and the artifacts directory itself, pass it.
\<close>

lemma overlay_removal_escapes:
  "remove_overlay sample_handler (sample_artifact\<lparr>ar_overlay := ''/data/artifacts/../keys''\<rparr>) = [RemovedAll ''/data/artifacts/../keys'']"
  "Clean ''/data/artifacts/../keys'' = ''/data/keys''"
  "remove_overlay sample_handler (sample_artifact\<lparr>ar_overlay := ''/data/artifacts''\<rparr>) = [RemovedAll ''/data/artifacts'']"
  by code_simp+

text \<open>
  Two uploads that read the row before either wrote it: each appends its name to the list it read, and the
  later write drops the name of the earlier one.
\<close>

lemma concurrent_uploads_lose_a_file:
  "map ar_files (snd (run_ops (artifact_step (mem_engine ar_id artifact_clash))
     [OpFiles ''a1'' (ar_files (appendArtifactFile sample_artifact ''k.iso'')),
      OpFiles ''a1'' (ar_files (appendArtifactFile sample_artifact ''k.raw''))] [sample_artifact])) = [[''k.raw'']]"
  by code_simp

text \<open>The row of the local builder has no digest, so no bearer can upload to such a build.\<close>

lemma local_rows_accept_no_upload: "\<not> upload_accepted h (build_record opts i) authorization"
  by (simp add: upload_accepted_def builder_row_has_no_token)

end
