(* ===== verification/Redfish_Transport.thy ===== *)
theory Redfish_Transport
  imports Redfish_Deployer
begin

text \<open>
  The HTTP client every Redfish call goes through (\<^verbatim>\<open>pkg/redfish/transport.go\<close>):
  the redirect guard and the cap on response bodies, the ServiceRoot fetch built on it
  (\<^verbatim>\<open>fetchServiceRoot\<close> in \<^verbatim>\<open>deployer.go\<close>) and the
  session-free reachability check (\<^verbatim>\<open>ping.go\<close>).

  What the network does is a record of functions on a world: parsing a URL, sending one request
  and reading from the body of the last answer. \<open>http_do\<close> is the redirect loop of Go's
  \<^verbatim>\<open>http.Client\<close> and \<open>ReadAll\<close> is \<^verbatim>\<open>io.ReadAll\<close>, both as
  documented. A body that yields nothing and no error for as many reads as \<open>tr_reads\<close> is
  \<open>CutOff\<close>. The TLS settings are left out.
\<close>

section \<open>The network\<close>

record url =
  ur_scheme :: string
  ur_host :: string
  ur_text :: string

datatype http_reply = Redirected url | Answered nat

datatype read_end = EOF | ReadError go_error

text \<open>\<open>tr_buffer\<close> is the room that \<^verbatim>\<open>io.ReadAll\<close> has for the next read.\<close>

record 'w transport =
  tr_parse :: "string \<Rightarrow> string + url"
  tr_send :: "bool \<Rightarrow> url \<Rightarrow> 'w \<Rightarrow> (go_error + http_reply) \<times> 'w"
  tr_read :: "nat \<Rightarrow> 'w \<Rightarrow> (string \<times> read_end option) \<times> 'w"
  tr_decode :: "string \<Rightarrow> string + (string \<times> string)"
  tr_buffer :: "nat \<Rightarrow> nat"
  tr_reads :: nat

section \<open>Redirects\<close>

definition rejectCrossOriginRedirect :: "url \<Rightarrow> url list \<Rightarrow> go_error option" where
  "rejectCrossOriginRedirect req via =
     (if via = [] then None
      else if length via \<ge> 10 then Some (ErrorsNew (''stopped after '' @ Itoa (length via) @ '' redirects''))
      else let prev = last via in
        if \<not> EqualFold (ur_scheme req) (ur_scheme prev) \<or> \<not> EqualFold (ur_host req) (ur_host prev)
        then Some (ErrorsNew (''refusing cross-origin redirect from '' @ ur_host prev @ '' to '' @ ur_scheme req @ ''://'' @
               ur_host req @ '' (possible hostile BMC)''))
        else None)"

text \<open>
  \<open>via\<close> are the requests sent so far, oldest first; the loop returns them all. An error names
  the last one.
\<close>

definition url_op_error :: "url list \<Rightarrow> go_error \<Rightarrow> go_error" where
  "url_op_error via err = Wrap (''Get '' @ quoted (ur_text (last via)) @ '': '') err []"

function http_do :: "'w transport \<Rightarrow> bool \<Rightarrow> url list \<Rightarrow> url \<Rightarrow> 'w \<Rightarrow> ((go_error + nat) \<times> url list) \<times> 'w" where
  "http_do tr insecure via req w =
     (case tr_send tr insecure req w of
        (Inl err, w') \<Rightarrow> ((Inl (url_op_error (via @ [req]) err), via @ [req]), w')
      | (Inr (Answered code), w') \<Rightarrow> ((Inr code, via @ [req]), w')
      | (Inr (Redirected next_req), w') \<Rightarrow>
          (case rejectCrossOriginRedirect next_req (via @ [req]) of
             Some err \<Rightarrow> ((Inl (url_op_error (via @ [req]) err), via @ [req]), w')
           | None \<Rightarrow> http_do tr insecure (via @ [req]) next_req w'))"
  by pat_completeness auto
termination
  by (relation "measure (\<lambda>(tr, insecure, via, req, w). 10 - length via)")
    (auto simp: rejectCrossOriginRedirect_def split: if_splits)

declare http_do.simps [simp del]

section \<open>Bodies\<close>

abbreviation maxBMCResponseBytes :: int where "maxBMCResponseBytes \<equiv> 8388608"

text \<open>\<open>cr_left\<close> is what the \<^verbatim>\<open>LimitReader\<close> still lets through.\<close>

record capped_reader =
  cr_left :: int
  cr_limit :: int
  cr_read :: int

definition capped :: "int \<Rightarrow> capped_reader" where
  "capped limit = \<lparr>cr_left = limit + 1, cr_limit = limit, cr_read = 0\<rparr>"

definition limited_read :: "'w transport \<Rightarrow> nat \<Rightarrow> int \<Rightarrow> 'w \<Rightarrow> (string \<times> read_end option) \<times> int \<times> 'w" where
  "limited_read tr room left w =
     (if left \<le> 0 then (([], Some EOF), left, w)
      else case tr_read tr (if int room > left then nat left else room) w of
        ((p, err), w') \<Rightarrow> ((p, err), left - int (length p), w'))"

definition cappedRead :: "'w transport \<Rightarrow> nat \<Rightarrow> capped_reader \<Rightarrow> 'w \<Rightarrow> (string \<times> read_end option) \<times> capped_reader \<times> 'w" where
  "cappedRead tr room c w =
     (case limited_read tr room (cr_left c) w of
        ((p, err), left, w') \<Rightarrow>
          (let c' = c\<lparr>cr_left := left, cr_read := cr_read c + int (length p)\<rparr> in
           ((p, if cr_read c' > cr_limit c'
                then Some (ReadError (ErrorsNew (''BMC response body exceeds the '' @ Itoa (nat (cr_limit c')) @
                       ''-byte cap (possible hostile BMC)'')))
                else err), c', w')))"

text \<open>The bytes read so far and how the reading ended, \<open>None\<close> when it has not.\<close>

fun ReadAll :: "nat \<Rightarrow> 'w transport \<Rightarrow> string \<Rightarrow> capped_reader \<Rightarrow> 'w \<Rightarrow> (string \<times> read_end option) \<times> 'w" where
  "ReadAll 0 tr acc c w = ((acc, None), w)"
| "ReadAll (Suc n) tr acc c w =
     (case cappedRead tr (tr_buffer tr (length acc)) c w of
        ((p, None), c', w') \<Rightarrow> ReadAll n tr (acc @ p) c' w'
      | ((p, Some stop), c', w') \<Rightarrow> ((acc @ p, Some stop), w'))"

section \<open>The ServiceRoot and reachability\<close>

definition fetchServiceRoot :: "'w transport \<Rightarrow> string \<Rightarrow> bool \<Rightarrow> 'w \<Rightarrow> (string \<times> string) result \<times> 'w" where
  "fetchServiceRoot tr endpoint insecure w =
     (case tr_parse tr (TrimRight endpoint (CHR ''/'') @ ''/redfish/v1/'') of
        Inl msg \<Rightarrow> (Fail (Wrap ''building ServiceRoot request: '' (ErrorsNew msg) []), w)
      | Inr req \<Rightarrow>
          (case http_do tr insecure [] req w of
             ((Inl err, _), w1) \<Rightarrow> (Fail (Wrap ''fetching ServiceRoot: '' err []), w1)
           | ((Inr code, _), w1) \<Rightarrow>
               (if code < 200 \<or> code \<ge> 300
                then (Fail (ErrorsNew (''fetching ServiceRoot: unexpected status '' @ Itoa code)), w1)
                else case ReadAll (tr_reads tr) tr [] (capped maxBMCResponseBytes) w1 of
                  ((body, Some EOF), w2) \<Rightarrow>
                    (case tr_decode tr body of
                       Inl msg \<Rightarrow> (Fail (Wrap ''parsing ServiceRoot: '' (ErrorsNew msg) []), w2)
                     | Inr root \<Rightarrow> (Ok root, w2))
                | ((_, Some (ReadError err)), w2) \<Rightarrow> (Fail (Wrap ''reading ServiceRoot: '' err []), w2)
                | ((_, None), w2) \<Rightarrow> (CutOff, w2))))"

definition Reachable :: "'w transport \<Rightarrow> string \<Rightarrow> bool \<Rightarrow> 'w \<Rightarrow> unit result \<times> 'w" where
  "Reachable tr endpoint insecure w =
     (if TrimSpace endpoint = [] then (Fail (ErrorsNew ''redfish endpoint is empty''), w)
      else case fetchServiceRoot tr endpoint insecure w of
        (Fail err, w') \<Rightarrow> (Fail (scrubError err []), w')
      | (Ok _, w') \<Rightarrow> (Ok (), w')
      | (CutOff, w') \<Rightarrow> (CutOff, w'))"

section \<open>Where the requests go\<close>

definition same_origin :: "url \<Rightarrow> url \<Rightarrow> bool" where
  "same_origin u v \<longleftrightarrow> EqualFold (ur_scheme u) (ur_scheme v) \<and> EqualFold (ur_host u) (ur_host v)"

lemma same_origin_refl [simp]: "same_origin u u"
  by (simp add: same_origin_def EqualFold_def)

lemma same_origin_trans: "same_origin u v \<Longrightarrow> same_origin v w \<Longrightarrow> same_origin u w"
  by (simp add: same_origin_def EqualFold_def)

lemma redirect_allowed:
  "rejectCrossOriginRedirect req via = None \<Longrightarrow> via \<noteq> [] \<Longrightarrow> same_origin req (last via) \<and> length via < 10"
  by (auto simp: rejectCrossOriginRedirect_def same_origin_def Let_def split: if_splits)

lemma http_do_requests:
  assumes "\<forall>v \<in> set via. same_origin v u" and "same_origin req u" and "length via < 10"
    and "http_do tr insecure via req w = ((r, sent), w')"
  shows "(\<forall>v \<in> set sent. same_origin v u) \<and> length sent \<le> 10 \<and> (\<exists>more. sent = via @ req # more)"
  using assms
proof (induction tr insecure via req w rule: http_do.induct)
  case (1 tr insecure via req w)
  obtain a w1 where a: "tr_send tr insecure req w = (a, w1)" by fastforce
  have here: "\<forall>v \<in> set (via @ [req]). same_origin v u" using 1(2,3) by simp
  show ?case
  proof (cases "\<exists>v. a = Inr (Redirected v) \<and> rejectCrossOriginRedirect v (via @ [req]) = None")
    case True
    then obtain v where v: "a = Inr (Redirected v)" "rejectCrossOriginRedirect v (via @ [req]) = None" by blast
    then have "same_origin v req" "length (via @ [req]) < 10" using redirect_allowed [OF v(2)] by simp_all
    moreover from this have "same_origin v u" using 1(3) same_origin_trans by blast
    moreover have "http_do tr insecure (via @ [req]) v w1 = ((r, sent), w')"
      using 1(5) a v by (subst (asm) http_do.simps) simp
    ultimately have "(\<forall>v \<in> set sent. same_origin v u) \<and> length sent \<le> 10 \<and> (\<exists>more. sent = (via @ [req]) @ v # more)"
      using 1(1) [of a w1 "Redirected v" v] a v here by metis
    then show ?thesis by auto
  next
    case False
    then have "sent = via @ [req]"
      using 1(5) a by (subst (asm) http_do.simps) (auto split: sum.splits http_reply.splits option.splits)
    then show ?thesis using here 1(4) by simp
  qed
qed

section \<open>What is read\<close>

text \<open>The contract of \<^verbatim>\<open>io.Reader\<close>, and that it makes progress.\<close>

definition reader_ok :: "'w transport \<Rightarrow> bool" where
  "reader_ok tr \<longleftrightarrow> (\<forall>room w. length (fst (fst (tr_read tr room w))) \<le> room)"

definition reader_progress :: "'w transport \<Rightarrow> bool" where
  "reader_progress tr \<longleftrightarrow> (\<forall>n. 0 < tr_buffer tr n) \<and>
     (\<forall>room w. 0 < room \<longrightarrow> snd (fst (tr_read tr room w)) = None \<longrightarrow> fst (fst (tr_read tr room w)) \<noteq> [])"

definition capped_ok :: "capped_reader \<Rightarrow> bool" where
  "capped_ok c \<longleftrightarrow> 0 \<le> cr_left c \<and> cr_left c + cr_read c = cr_limit c + 1"

lemma cappedRead_ok:
  assumes "reader_ok tr" and "capped_ok c" and "cappedRead tr room c w = ((p, stop), c', w')"
  shows "capped_ok c' \<and> cr_limit c' = cr_limit c \<and> cr_read c' = cr_read c + int (length p) \<and>
    (stop = Some EOF \<or> stop = None \<longrightarrow> cr_read c' \<le> cr_limit c')"
proof -
  obtain q err w1 where r: "tr_read tr (if int room > cr_left c then nat (cr_left c) else room) w = ((q, err), w1)" by (metis surj_pair)
  have "length q \<le> (if int room > cr_left c then nat (cr_left c) else room)"
    using assms(1) r unfolding reader_ok_def by (metis fst_conv)
  then have "int (length q) \<le> cr_left c" if "0 < cr_left c" using that by (auto split: if_splits)
  then show ?thesis
    using assms(2,3) r
    by (auto simp: cappedRead_def limited_read_def capped_ok_def Let_def split: if_splits)
qed

lemma ReadAll_bounded:
  assumes "reader_ok tr" and "capped_ok c" and "cr_read c = int (length acc)"
    and "ReadAll n tr acc c w = ((body, stop), w')"
  shows "int (length body) \<le> cr_limit c + 1 \<and> (stop = Some EOF \<longrightarrow> int (length body) \<le> cr_limit c)"
  using assms(2-)
proof (induction n arbitrary: acc c w)
  case 0
  then show ?case by (auto simp: capped_ok_def)
next
  case (Suc n)
  obtain p s c1 w1 where r: "cappedRead tr (tr_buffer tr (length acc)) c w = ((p, s), c1, w1)" by (metis surj_pair)
  note ok = cappedRead_ok [OF assms(1) Suc.prems(1) r]
  have len: "cr_read c1 = int (length (acc @ p))" using ok Suc.prems(2) by simp
  show ?case
  proof (cases s)
    case None
    then have "ReadAll n tr (acc @ p) c1 w1 = ((body, stop), w')" using Suc.prems(3) r by simp
    moreover have "capped_ok c1" "cr_limit c1 = cr_limit c" using ok by simp_all
    ultimately show ?thesis using Suc.IH [OF _ len] by fastforce
  next
    case (Some e)
    then show ?thesis using Suc.prems(3) r ok len by (auto simp: capped_ok_def)
  qed
qed

text \<open>Nothing is cut off in silence: the end the caller sees is the end of the source.\<close>

lemma cappedRead_EOF:
  assumes "capped_ok c" and "cappedRead tr room c w = ((p, Some EOF), c', w')"
  shows "\<exists>room'. tr_read tr room' w = ((p, Some EOF), w')"
  using assms by (fastforce simp: cappedRead_def limited_read_def capped_ok_def Let_def split: if_splits prod.splits)

lemma ReadAll_EOF:
  assumes "reader_ok tr" and "capped_ok c" and "ReadAll n tr acc c w = ((body, Some EOF), w')"
  shows "\<exists>room w1 p. tr_read tr room w1 = ((p, Some EOF), w')"
  using assms(2,3)
proof (induction n arbitrary: acc c w)
  case (Suc n)
  obtain p s c1 w1 where r: "cappedRead tr (tr_buffer tr (length acc)) c w = ((p, s), c1, w1)" by (metis surj_pair)
  have "capped_ok c1" using cappedRead_ok [OF assms(1) Suc.prems(1) r] by blast
  show ?case
  proof (cases s)
    case None
    then show ?thesis using Suc.IH [OF \<open>capped_ok c1\<close>] Suc.prems(2) r by simp
  next
    case (Some stop)
    then have "cappedRead tr (tr_buffer tr (length acc)) c w = ((p, Some EOF), c1, w')" using Suc.prems(2) r by simp
    from cappedRead_EOF [OF Suc.prems(1) this] show ?thesis by blast
  qed
qed simp

lemma cappedRead_moves:
  assumes "reader_ok tr" and "reader_progress tr" and "capped_ok c" and "0 < room" and "cappedRead tr room c w = ((p, None), c', w')"
  shows "cr_left c' < cr_left c"
proof -
  have left: "0 < cr_left c" using assms(5) by (auto simp: cappedRead_def limited_read_def Let_def split: if_splits)
  let ?room = "if int room > cr_left c then nat (cr_left c) else room"
  obtain q err w1 where r: "tr_read tr ?room w = ((q, err), w1)" by (metis surj_pair)
  have p: "p = q" "err = None" "cr_left c' = cr_left c - int (length q)"
    using assms(5) r left by (auto simp: cappedRead_def limited_read_def Let_def split: if_splits)
  have "0 < ?room" using left assms(4) by simp
  then have "fst (fst (tr_read tr ?room w)) \<noteq> []"
    using assms(2) r p(2) unfolding reader_progress_def by (metis fst_conv snd_conv)
  then show ?thesis using p r by simp
qed

lemma ReadAll_ends:
  assumes "reader_ok tr" and "reader_progress tr" and "capped_ok c" and "nat (cr_left c) < n"
  shows "snd (fst (ReadAll n tr acc c w)) \<noteq> None"
  using assms(3,4)
proof (induction n arbitrary: acc c w)
  case (Suc n)
  obtain p s c1 w1 where r: "cappedRead tr (tr_buffer tr (length acc)) c w = ((p, s), c1, w1)" by (metis surj_pair)
  show ?case
  proof (cases s)
    case None
    have "0 < tr_buffer tr (length acc)" using assms(2) by (simp add: reader_progress_def)
    then have "cr_left c1 < cr_left c" using cappedRead_moves [OF assms(1,2) Suc.prems(1)] r None by blast
    moreover have "capped_ok c1" using cappedRead_ok [OF assms(1) Suc.prems(1) r] by blast
    ultimately have "nat (cr_left c1) < n" using Suc.prems(2) by (auto simp: capped_ok_def)
    then show ?thesis using Suc.IH [OF \<open>capped_ok c1\<close>] r None by simp
  qed (use r in simp)
qed simp

lemma capped_capped_ok: "0 \<le> limit \<Longrightarrow> capped_ok (capped limit)"
  by (simp add: capped_ok_def capped_def)

text \<open>With one read more than the cap lets through, the fetch returns.\<close>

lemma fetchServiceRoot_returns:
  assumes "reader_ok tr" and "reader_progress tr" and "maxBMCResponseBytes + 1 < int (tr_reads tr)"
  shows "fst (fetchServiceRoot tr endpoint insecure w) \<noteq> CutOff"
proof -
  have left: "nat (cr_left (capped maxBMCResponseBytes)) < tr_reads tr" using assms(3) by (simp add: capped_def)
  have "snd (fst (ReadAll (tr_reads tr) tr [] (capped maxBMCResponseBytes) w1)) \<noteq> None" for w1
    by (rule ReadAll_ends [OF assms(1,2) capped_capped_ok left]) simp
  then have ends: "ReadAll (tr_reads tr) tr [] (capped maxBMCResponseBytes) w1 \<noteq> ((body, None), w2)" for w1 body w2
    by (metis fst_conv snd_conv)
  show ?thesis
    using ends by (simp add: fetchServiceRoot_def split: sum.split prod.split option.split read_end.split)
qed

section \<open>Properties\<close>

text \<open>
  A BMC cannot send the client elsewhere: whatever it answers, every request of one call goes to
  the scheme and host of the first, at most ten are sent, and the first is the one asked for.
\<close>
theorem requests_stay_on_origin:
  assumes "http_do tr insecure [] req w = ((r, sent), w')"
  shows "list_all (\<lambda>u. same_origin u req) sent \<and> hd sent = req \<and> length sent \<le> 10"
  using http_do_requests [of "[]" req req tr insecure w r sent w'] assms by (auto simp: list_all_iff)

text \<open>
  C29. A response body is bounded and never truncated in silence: over any reader that fills no
  more than its buffer, at most one byte above the cap is held in memory, and a body that is
  returned without an error is within the cap and ended where the source ended it.
\<close>
theorem bmc_body_capped:
  assumes "reader_ok tr" and "ReadAll n tr [] (capped maxBMCResponseBytes) w = ((body, stop), w')"
  shows "int (length body) \<le> maxBMCResponseBytes + 1 \<and>
    (stop = Some EOF \<longrightarrow> int (length body) \<le> maxBMCResponseBytes \<and> (\<exists>room w1 p. tr_read tr room w1 = ((p, Some EOF), w')))"
proof -
  have ok: "capped_ok (capped maxBMCResponseBytes)" by (rule capped_capped_ok) simp
  have fields: "cr_read (capped maxBMCResponseBytes) = 0" "cr_limit (capped maxBMCResponseBytes) = maxBMCResponseBytes"
    by (simp_all add: capped_def)
  show ?thesis
    using ReadAll_bounded [OF assms(1) ok _ assms(2)] ReadAll_EOF [OF assms(1) ok, of n "[]" w body w'] assms(2)
    unfolding fields by auto
qed

text \<open>
  A BMC that redirects a first request to its canonical path and then answers with a small
  document; the world is what is left of the body.
\<close>

definition sample_transport :: "string transport" where
  "sample_transport =
     \<lparr>tr_parse = \<lambda>s. Inr \<lparr>ur_scheme = ''https'', ur_host = ''bmc'', ur_text = s\<rparr>,
      tr_send = \<lambda>insecure u w. (Inr (if ur_scheme u = ''https'' then Redirected (u\<lparr>ur_scheme := ''HTTPS''\<rparr>) else Answered 200), w),
      tr_read = \<lambda>room w. ((take room w, if length w \<le> room then Some EOF else None), drop room w),
      tr_decode = \<lambda>b. Inr (b, []), tr_buffer = \<lambda>n. 2, tr_reads = 4\<rparr>"

lemma sample_transport_ok: "reader_ok sample_transport" "reader_progress sample_transport"
  by (auto simp: reader_ok_def reader_progress_def sample_transport_def)

theorem requests_stay_on_origin_witness:
  "list_all (\<lambda>u. same_origin u \<lparr>ur_scheme = ''https'', ur_host = ''bmc'', ur_text = ''u''\<rparr>)
     (snd (fst (http_do sample_transport False [] \<lparr>ur_scheme = ''https'', ur_host = ''bmc'', ur_text = ''u''\<rparr> ''abc''))) \<and>
   length (snd (fst (http_do sample_transport False [] \<lparr>ur_scheme = ''https'', ur_host = ''bmc'', ur_text = ''u''\<rparr> ''abc''))) = 2"
proof -
  let ?u = "\<lparr>ur_scheme = ''https'', ur_host = ''bmc'', ur_text = ''u''\<rparr>"
  have two: "length (snd (fst (http_do sample_transport False [] ?u ''abc''))) = 2"
    by (simp add: http_do.simps sample_transport_def rejectCrossOriginRedirect_def go_strings)
  obtain r sent w' where run: "http_do sample_transport False [] ?u ''abc'' = ((r, sent), w')" by (metis surj_pair)
  from requests_stay_on_origin [OF run] two show ?thesis unfolding run by simp
qed

theorem bmc_body_capped_witness:
  "fst (ReadAll (Suc (Suc 0)) sample_transport [] (capped maxBMCResponseBytes) ''abc'') = (''abc'', Some EOF) \<and>
   int (length ''abc'') \<le> maxBMCResponseBytes"
proof -
  have run: "ReadAll (Suc (Suc 0)) sample_transport [] (capped maxBMCResponseBytes) ''abc'' = ((''abc'', Some EOF), [])"
    by (simp add: sample_transport_def capped_def cappedRead_def limited_read_def)
  from bmc_body_capped [OF sample_transport_ok(1) run] run show ?thesis by simp
qed

end
