(* ===== verification/Hardware_Gate.thy ===== *)
theory Hardware_Gate
  imports Redfish_Deployer
begin

text \<open>
  The hardware inspector and its requirements gate (\<^verbatim>\<open>pkg/hardware/inspector.go\<close>)
  over the deployer's typed \<^verbatim>\<open>Inspect\<close>. The map of detected features is the
  list of its keys, whose values are always true.
\<close>

section \<open>Inspection and requirements\<close>

record hardware_info =
  hw_memory_gib :: int
  hw_processors :: int
  hw_model :: string
  hw_manufacturer :: string
  hw_serial :: string
  hw_features :: "string list"

record requirements =
  rq_min_memory :: int
  rq_min_storage :: int
  rq_min_cpus :: int
  rq_features :: "string list"

definition hardware_info_of :: "system_info \<Rightarrow> hardware_info" where
  "hardware_info_of i =
     \<lparr>hw_memory_gib = si_memory_gib i, hw_processors = si_processors i, hw_model = si_model i,
      hw_manufacturer = si_manufacturer i, hw_serial = si_serial i, hw_features = si_features i\<rparr>"

definition InspectSystem :: "'w bmc \<Rightarrow> deployer \<Rightarrow> ('w, hardware_info) act" where
  "InspectSystem b d =
     bindE (on_error (\<lambda>err. Wrap ''getting system info: '' err []) (Inspect b d)) (\<lambda>i. returnE (hardware_info_of i))"

definition upper_char :: "char \<Rightarrow> char" where
  [go_strings]: "upper_char c =
     (if (97::nat) \<le> of_char c \<and> of_char c \<le> (122::nat) then char_of ((of_char c :: nat) - 32) else c)"

definition ToUpper :: "string \<Rightarrow> string" where
  [go_strings]: "ToUpper s = map upper_char s"

definition knownFeatures :: "string list" where
  "knownFeatures = [ToUpper ''UEFI'', ToUpper ''SecureBoot'']"

definition isKnownFeature :: "string \<Rightarrow> bool" where
  "isKnownFeature name = (ToUpper name \<in> set knownFeatures)"

definition hasFeature :: "hardware_info \<Rightarrow> string \<Rightarrow> bool" where
  "hasFeature info feature = list_ex (\<lambda>name. EqualFold name feature) (hw_features info)"

fun check_features :: "hardware_info \<Rightarrow> string list \<Rightarrow> go_error option" where
  "check_features info [] = None"
| "check_features info (feature # features) =
     (let name = TrimSpace feature in
      if name = [] then check_features info features
      else if \<not> isKnownFeature name then
        Some (ErrorsNew (''required feature '' @ quoted name @
          '' is not known to AuroraBoot (cannot be verified); known features: UEFI, SecureBoot''))
      else if \<not> hasFeature info name then
        Some (ErrorsNew (''required feature '' @ quoted name @ '' is not supported by this system''))
      else check_features info features)"

definition ValidateRequirements :: "hardware_info \<Rightarrow> requirements \<Rightarrow> go_error option" where
  "ValidateRequirements info reqs =
     (if hw_memory_gib info < rq_min_memory reqs then
        Some (ErrorsNew (''insufficient memory: '' @ Itoa_int (hw_memory_gib info) @ '' GiB (minimum: '' @
          Itoa_int (rq_min_memory reqs) @ '' GiB)''))
      else if hw_processors info < rq_min_cpus reqs then
        Some (ErrorsNew (''insufficient CPUs: '' @ Itoa_int (hw_processors info) @ '' (minimum: '' @
          Itoa_int (rq_min_cpus reqs) @ '')''))
      else check_features info (rq_features reqs))"

section \<open>What the gate lets through\<close>

lemma char_case:
  "lower_char c = lower_char d \<longleftrightarrow> upper_char c = upper_char d"
proof -
  have "\<forall>a \<in> set [0..<256]. \<forall>b \<in> set [0..<256].
      (let l = (\<lambda>n::nat. if 65 \<le> n \<and> n \<le> 90 then n + 32 else n); u = (\<lambda>n::nat. if 97 \<le> n \<and> n \<le> 122 then n - 32 else n)
       in (l a = l b) = (u a = u b))"
    by (auto simp: Let_def)
  moreover have "of_char c \<in> set [0..<256::nat]" "of_char d \<in> set [0..<256::nat]"
    using nat_of_char_less_256 by simp_all
  ultimately have nums: "(let l = (\<lambda>n::nat. if 65 \<le> n \<and> n \<le> 90 then n + 32 else n); u = (\<lambda>n::nat. if 97 \<le> n \<and> n \<le> 122 then n - 32 else n)
       in (l (of_char c) = l (of_char d)) = (u (of_char c) = u (of_char d)))"
    by blast
  have lower: "(of_char (lower_char x) :: nat) = (if 65 \<le> (of_char x :: nat) \<and> of_char x \<le> (90::nat) then of_char x + 32 else of_char x)" for x
    using nat_of_char_less_256 [of x] by (simp add: lower_char_def)
  have upper: "(of_char (upper_char x) :: nat) = (if 97 \<le> (of_char x :: nat) \<and> of_char x \<le> (122::nat) then of_char x - 32 else of_char x)" for x
    using nat_of_char_less_256 [of x] by (auto simp: upper_char_def intro!: mod_less)
  have "lower_char c = lower_char d \<longleftrightarrow> (of_char (lower_char c) :: nat) = of_char (lower_char d)"
    "upper_char c = upper_char d \<longleftrightarrow> (of_char (upper_char c) :: nat) = of_char (upper_char d)"
    by simp_all
  then show ?thesis using nums by (simp only: lower upper Let_def)
qed

lemma EqualFold_upper: "EqualFold s t \<longleftrightarrow> ToUpper s = ToUpper t"
proof -
  have "map lower_char s = map lower_char t \<longleftrightarrow> map upper_char s = map upper_char t"
  proof (induction s arbitrary: t)
    case (Cons c s)
    then show ?case using char_case by (cases t) auto
  qed auto
  then show ?thesis by (simp add: EqualFold_def ToLower_def ToUpper_def)
qed

lemma isKnownFeature_fold: "isKnownFeature name \<longleftrightarrow> EqualFold name ''UEFI'' \<or> EqualFold name ''SecureBoot''"
  by (simp add: isKnownFeature_def knownFeatures_def EqualFold_upper)

lemma check_features_None:
  "check_features info fs = None \<longleftrightarrow>
     list_all (\<lambda>f. TrimSpace f = [] \<or> (isKnownFeature (TrimSpace f) \<and> hasFeature info (TrimSpace f))) fs"
  by (induction fs) (auto simp: Let_def)

lemma hasFeature_detected:
  assumes "hw_features info = detectFeatures system"
  shows "hasFeature info name \<longleftrightarrow>
    (detectUEFI system \<and> EqualFold name ''UEFI'') \<or> (detectSecureBoot system \<and> EqualFold name ''SecureBoot'')"
  unfolding hasFeature_def assms detectFeatures_def by (auto simp: EqualFold_def)

lemma ValidateRequirements_None:
  assumes "hw_features info = detectFeatures system"
  shows "ValidateRequirements info reqs = None \<longleftrightarrow>
    rq_min_memory reqs \<le> hw_memory_gib info \<and> rq_min_cpus reqs \<le> hw_processors info \<and>
    list_all (\<lambda>f. TrimSpace f = [] \<or> (EqualFold (TrimSpace f) ''UEFI'' \<and> detectUEFI system) \<or>
                (EqualFold (TrimSpace f) ''SecureBoot'' \<and> detectSecureBoot system)) (rq_features reqs)"
  unfolding ValidateRequirements_def
  by (auto simp: check_features_None isKnownFeature_fold hasFeature_detected [OF assms] list_all_iff not_less)

section \<open>Properties\<close>

text \<open>
  The hardware gate fails closed: the facts of a system pass exactly when it has the memory and
  the processors asked for and every required feature (blank entries aside) is UEFI or
  SecureBoot, in any letter case, and was positively detected on that system; a feature that
  cannot be detected is never taken for granted.
\<close>
theorem gate_fails_closed:
  assumes "hw_features info = detectFeatures system"
  shows "ValidateRequirements info reqs = None \<longleftrightarrow>
    rq_min_memory reqs \<le> hw_memory_gib info \<and> rq_min_cpus reqs \<le> hw_processors info \<and>
    list_all (\<lambda>f. TrimSpace f = [] \<or> (EqualFold (TrimSpace f) ''UEFI'' \<and> detectUEFI system) \<or>
                (EqualFold (TrimSpace f) ''SecureBoot'' \<and> detectSecureBoot system)) (rq_features reqs)"
  by (rule ValidateRequirements_None [OF assms])

text \<open>No storage is ever looked at: the minimum that the type declares has no effect.\<close>

lemma storage_is_not_checked: "ValidateRequirements info (reqs\<lparr>rq_min_storage := n\<rparr>) = ValidateRequirements info reqs"
  by (simp add: ValidateRequirements_def)

theorem gate_fails_closed_witness:
  "ValidateRequirements (hardware_info_of \<lparr>si_id = [], si_name = [], si_model = [], si_manufacturer = [], si_serial = [],
       si_power_state = [], si_memory_gib = 8, si_processors = 4, si_features = detectFeatures sample_system\<rparr>)
     \<lparr>rq_min_memory = 4, rq_min_storage = 0, rq_min_cpus = 2, rq_features = ['' sriov '']\<rparr> \<noteq> None"
proof -
  have "\<not> EqualFold (TrimSpace '' sriov '') ''UEFI''" "\<not> EqualFold (TrimSpace '' sriov '') ''SecureBoot''"
    "TrimSpace '' sriov '' \<noteq> []" by code_simp+
  then show ?thesis
    using gate_fails_closed [of "hardware_info_of \<lparr>si_id = [], si_name = [], si_model = [], si_manufacturer = [], si_serial = [],
       si_power_state = [], si_memory_gib = 8, si_processors = 4, si_features = detectFeatures sample_system\<rparr>" sample_system
       "\<lparr>rq_min_memory = 4, rq_min_storage = 0, rq_min_cpus = 2, rq_features = ['' sriov '']\<rparr>"]
    by (simp add: hardware_info_of_def)
qed

end
