(* ===== verification/Netboot_Manager.thy ===== *)
theory Netboot_Manager
  imports Go_Paths
begin

text \<open>
  The netboot server's life cycle (\<^verbatim>\<open>internal/netbootmgr/manager.go\<close>): one child
  process at a time, started for an artifact, stopped on request, and observed by a goroutine
  that waits for it.

  A process is a number; \<open>os_alive\<close> are the processes that run and \<open>os_killed\<close> those a kill
  was delivered to. Whether a file exists, whether the child starts and whether a kill is
  delivered are parameters. Every method holds the manager's mutex, so an interleaving is a
  sequence of the steps below.
\<close>

section \<open>The manager\<close>

record netboot_status =
  ns_running :: bool
  ns_artifact :: string
  ns_address :: string
  ns_port :: string

record manager =
  nm_cmd :: "nat option"
  nm_status :: netboot_status
  nm_address :: string
  nm_port :: string

record processes =
  os_next :: nat
  os_alive :: "nat list"
  os_killed :: "nat list"
  os_argv :: "(nat \<times> string list) list"

definition NewManager :: manager where
  "NewManager =
     \<lparr>nm_cmd = None, nm_status = \<lparr>ns_running = False, ns_artifact = [], ns_address = [], ns_port = []\<rparr>,
      nm_address = ''0.0.0.0'', nm_port = ''8090''\<rparr>"

definition netboot_file :: "string \<Rightarrow> string \<Rightarrow> string \<Rightarrow> string" where
  "netboot_file artifactsDir artifactID name = PathJoin [PathJoin [artifactsDir, artifactID, ''netboot''], name]"

definition spawn :: "string list \<Rightarrow> processes \<Rightarrow> nat \<times> processes" where
  "spawn argv os =
     (os_next os, os\<lparr>os_next := Suc (os_next os), os_alive := os_next os # os_alive os,
                    os_argv := (os_next os, argv) # os_argv os\<rparr>)"

text \<open>\<open>launch\<close> is the error of starting the child, if any.\<close>

definition Start ::
  "(string \<Rightarrow> bool) \<Rightarrow> string option \<Rightarrow> string \<Rightarrow> string \<Rightarrow> manager \<Rightarrow> processes \<Rightarrow> string option \<times> manager \<times> processes"
where
  "Start exists launch artifactsDir artifactID m os =
     (if ns_running (nm_status m) then (Some ''netboot server is already running'', m, os)
      else
        let kernel = netboot_file artifactsDir artifactID ''kairos-kernel'';
            initrd = netboot_file artifactsDir artifactID ''kairos-initrd'';
            squashfs = netboot_file artifactsDir artifactID ''kairos.squashfs''
        in case find (\<lambda>f. \<not> exists f) [kernel, initrd, squashfs] of
             Some f \<Rightarrow> (Some (''required netboot file not found: '' @ f), m, os)
           | None \<Rightarrow>
               (case launch of
                  Some msg \<Rightarrow> (Some (''failed to start netboot server: '' @ msg), m, os)
                | None \<Rightarrow>
                    (let (cmd, os') = spawn [''auroraboot'', ''start-pixie'', [], squashfs, nm_address m, nm_port m, initrd, kernel] os
                     in (None,
                         m\<lparr>nm_cmd := Some cmd,
                           nm_status := \<lparr>ns_running = True, ns_artifact = artifactID, ns_address = nm_address m, ns_port = nm_port m\<rparr>\<rparr>,
                         os'))))"

text \<open>\<open>deliver\<close> is the error of the kill, if any.\<close>

definition Stop :: "string option \<Rightarrow> manager \<Rightarrow> processes \<Rightarrow> string option \<times> manager \<times> processes" where
  "Stop deliver m os =
     (if \<not> ns_running (nm_status m) \<or> nm_cmd m = None then (Some ''netboot server is not running'', m, os)
      else case deliver of
        Some msg \<Rightarrow> (Some (''failed to stop netboot server: '' @ msg), m, os)
      | None \<Rightarrow>
          (None, m\<lparr>nm_cmd := None, nm_status := (nm_status m)\<lparr>ns_running := False, ns_artifact := []\<rparr>\<rparr>,
           os\<lparr>os_killed := the (nm_cmd m) # os_killed os\<rparr>))"

definition GetStatus :: "manager \<Rightarrow> netboot_status" where
  "GetStatus m = nm_status m"

text \<open>The goroutine that waited for a process, once it has exited.\<close>

definition waited :: "nat \<Rightarrow> manager \<Rightarrow> manager" where
  "waited cmd m =
     (if nm_cmd m = Some cmd then m\<lparr>nm_status := (nm_status m)\<lparr>ns_running := False\<rparr>, nm_cmd := None\<rparr> else m)"

section \<open>The system\<close>

text \<open>
  A process that was killed, or that ends by itself, exits at any later time, and is waited for
  after that. A kill is delivered or fails as the operating system decides.
\<close>

inductive nb_step :: "manager \<times> processes \<Rightarrow> manager \<times> processes \<Rightarrow> bool" where
  nb_start: "Start exists launch dir i m os = (r, m', os') \<Longrightarrow> nb_step (m, os) (m', os')"
| nb_stop: "Stop deliver m os = (r, m', os') \<Longrightarrow> nb_step (m, os) (m', os')"
| nb_exit: "nb_step (m, os) (m, os\<lparr>os_alive := removeAll p (os_alive os)\<rparr>)"
| nb_waited: "p < os_next os \<Longrightarrow> p \<notin> set (os_alive os) \<Longrightarrow> nb_step (m, os) (waited p m, os)"

inductive nb_reachable :: "manager \<times> processes \<Rightarrow> bool" where
  nb_init: "nb_reachable (NewManager, \<lparr>os_next = 0, os_alive = [], os_killed = [], os_argv = []\<rparr>)"
| nb_more: "nb_reachable s \<Longrightarrow> nb_step s s' \<Longrightarrow> nb_reachable s'"

inductive_cases nb_stepE: "nb_step (m, os) s'"

definition nb_inv :: "manager \<Rightarrow> processes \<Rightarrow> bool" where
  "nb_inv m os \<longleftrightarrow> ns_running (nm_status m) = (nm_cmd m \<noteq> None) \<and>
     (\<forall>p \<in> set (os_alive os). p < os_next os \<and> (nm_cmd m = Some p \<or> p \<in> set (os_killed os))) \<and>
     (\<forall>p. nm_cmd m = Some p \<longrightarrow> p < os_next os) \<and> (\<forall>p \<in> set (os_killed os). p < os_next os)"

lemma Start_inv: "nb_inv m os \<Longrightarrow> Start exists launch dir i m os = (r, m', os') \<Longrightarrow> nb_inv m' os'"
  by (auto simp: Start_def nb_inv_def spawn_def Let_def less_Suc_eq split: if_splits option.splits)

lemma Stop_inv: "nb_inv m os \<Longrightarrow> Stop deliver m os = (r, m', os') \<Longrightarrow> nb_inv m' os'"
  by (auto simp: Stop_def nb_inv_def split: if_splits option.splits)

lemma nb_step_inv: "nb_step (m, os) (m', os') \<Longrightarrow> nb_inv m os \<Longrightarrow> nb_inv m' os'"
proof (erule nb_stepE, goal_cases)
  case (3 p)
  then show ?case by (auto simp: nb_inv_def)
next
  case (4 p)
  then show ?case by (auto simp: nb_inv_def waited_def)
qed (auto dest: Start_inv Stop_inv)

lemma nb_reachable_inv: "nb_reachable s \<Longrightarrow> nb_inv (fst s) (snd s)"
proof (induction rule: nb_reachable.induct)
  case nb_init
  then show ?case by (simp add: nb_inv_def NewManager_def)
next
  case (nb_more s s')
  then show ?case using nb_step_inv [of "fst s" "snd s" "fst s'" "snd s'"] by simp
qed

section \<open>Properties\<close>

text \<open>
  C28. At most one netboot server is in charge: in every reachable state all running processes but
  at most one were killed, that one is the manager's, and when the status says that nothing
  runs every process still alive was killed. A start while one runs is refused and changes
  nothing.
\<close>
theorem one_netboot_server:
  assumes "nb_reachable (m, os)"
  shows "length (filter (\<lambda>p. p \<notin> set (os_killed os)) (remdups (os_alive os))) \<le> (if ns_running (GetStatus m) then 1 else 0) \<and>
    (if ns_running (GetStatus m) then Start exists launch dir i m os = (Some ''netboot server is already running'', m, os) else True)"
proof -
  have inv: "nb_inv m os" using nb_reachable_inv [OF assms] by simp
  let ?left = "filter (\<lambda>p. p \<notin> set (os_killed os)) (remdups (os_alive os))"
  have "set ?left \<subseteq> set_option (nm_cmd m)" using inv by (auto simp: nb_inv_def)
  moreover have "distinct ?left" by simp
  then have "card (set ?left) = length ?left" by (rule distinct_card)
  moreover have "finite (set_option (nm_cmd m))" by (cases "nm_cmd m") auto
  ultimately have "length ?left \<le> card (set_option (nm_cmd m))" by (metis card_mono)
  moreover have "card (set_option (nm_cmd m)) = (if ns_running (GetStatus m) then 1 else 0)"
    using inv by (cases "nm_cmd m") (auto simp: nb_inv_def GetStatus_def)
  ultimately show ?thesis by (simp add: Start_def GetStatus_def)
qed

text \<open>
  The artifact id is joined as it comes: one with parent references leads out of the artifacts
  directory.
\<close>

lemma netboot_id_escapes:
  "netboot_file ''/data/artifacts'' ''../../mnt'' ''kairos-kernel'' = ''/mnt/netboot/kairos-kernel''"
  by code_simp

text \<open>A server that ends by itself leaves the id of its artifact in the status.\<close>

lemma stale_artifact_in_status:
  "nm_cmd m = Some p \<Longrightarrow> ns_artifact (GetStatus (waited p m)) = ns_artifact (GetStatus m) \<and> \<not> ns_running (GetStatus (waited p m))"
  by (simp add: waited_def GetStatus_def)

theorem one_netboot_server_witness:
  "\<exists>m os. nb_reachable (m, os) \<and> ns_running (GetStatus m) \<and> os_alive os = [0] \<and>
     Start (\<lambda>_. True) None ''/a'' ''y'' m os = (Some ''netboot server is already running'', m, os)"
proof -
  let ?os = "\<lparr>os_next = 0, os_alive = [], os_killed = [], os_argv = []\<rparr>"
  obtain r m os where st: "Start (\<lambda>_. True) None ''/a'' ''x'' NewManager ?os = (r, m, os)" by (metis surj_pair)
  have run: "ns_running (GetStatus m)" "os_alive os = [0]"
    using st by (auto simp: Start_def NewManager_def spawn_def Let_def GetStatus_def)
  have reach: "nb_reachable (m, os)" by (rule nb_more [OF nb_init nb_start [OF st]])
  from one_netboot_server [OF this, of "\<lambda>_. True" None "''/a''" "''y''"] run reach show ?thesis by auto
qed

end
