(* ===== verification/Deploy_Handlers.thy ===== *)
theory Deploy_Handlers
  imports Deploy_Outcomes Redfish_Transport Hardware_Gate Artifact_Store Netboot_Manager
begin

text \<open>
  The deploy endpoints of the fleet server (\<^verbatim>\<open>pkg/handlers/deploy.go\<close>,
  \<^verbatim>\<open>bmc_status.go\<close> and \<^verbatim>\<open>redfish_profiles.go\<close>): starting a Redfish
  deploy, with the choice of the image source and its token; the inspection and the
  reachability checks with the status cache they maintain; the BMC targets; the history; the
  netboot server.

  A request that starts a deploy puts its job into \<open>dh_jobs\<close>; \<open>run_job\<close> is the goroutine. A
  handler that waits for a BMC that never answers gives no reply (\<open>None\<close>). The JSON body of a
  target is a record of its fields; \<open>bind_target\<close> is what the tags of
  \<^verbatim>\<open>store.BMCTarget\<close> let through.
\<close>

section \<open>State and environment\<close>

record 'w deploy_host =
  dh_fleet :: "'w fleet"
  dh_artifacts :: artifacts
  dh_settings :: settings
  dh_jobs :: "deploy_job list"
  dh_runs :: "string list"
  dh_cancelled :: "string list"
  dh_refreshing :: bool
  dh_netboot :: manager
  dh_processes :: processes

text \<open>
  \<open>dx_settings\<close> is \<open>None\<close> when no settings store is wired; \<open>dx_gone\<close> is \<^verbatim>\<open>ctx.Err() != nil\<close> and
  \<open>dx_pause\<close> the \<^verbatim>\<open>select\<close> between two pings, true when the client has gone.
\<close>

record 'w deploy_env =
  dx_fleet :: "'w fleet_env"
  dx_artifacts :: "artifact engine"
  dx_settings :: "setting engine option"
  dx_artifacts_dir :: string
  dx_net :: net
  dx_transport :: "'w transport"
  dx_stat :: "string \<Rightarrow> file_info"
  dx_os_text :: "iso_error \<Rightarrow> string"
  dx_rnd :: "string option"
  dx_uuid :: uuid
  dx_cwd :: "string + string"
  dx_gone :: "'w \<Rightarrow> bool \<times> 'w"
  dx_pause :: "'w \<Rightarrow> bool \<times> 'w"
  dx_exists :: "string \<Rightarrow> bool"
  dx_launch :: "string option"
  dx_kill :: "string option"

record inspect_response =
  ir_memory :: int
  ir_processors :: int
  ir_model :: string
  ir_manufacturer :: string
  ir_serial :: string
  ir_features :: "string list"

record bmc_status =
  bs_id :: string
  bs_status :: string
  bs_last_ping_at :: "instant option"
  bs_error :: string

datatype host_body =
    DeployBody deploy_body
  | InspectBody inspect_response
  | PingBody bmc_status
  | RefreshBody "bmc_status list"
  | NetbootBody netboot_status
  | ProfilesBody "(string \<times> tier \<times> string \<times> string \<times> string) list"

type_synonym 'w host_reply = "host_body response option \<times> 'w deploy_host"

abbreviation refuse :: "nat \<Rightarrow> string \<Rightarrow> 'w deploy_host \<Rightarrow> 'w host_reply" where
  "refuse code msg h \<equiv> (Some (Response code (ErrorBody msg)), h)"

abbreviation accept :: "nat \<Rightarrow> host_body \<Rightarrow> 'w deploy_host \<Rightarrow> 'w host_reply" where
  "accept code b h \<equiv> (Some (Response code (Body b)), h)"

abbreviation get_target :: "'w deploy_env \<Rightarrow> string \<Rightarrow> 'w deploy_host \<Rightarrow> db_error + bmc_target" where
  "get_target e i h \<equiv> target_by_id (dx_fleet e) i (dh_fleet h)"

definition save_target :: "'w deploy_env \<Rightarrow> bmc_target \<Rightarrow> 'w deploy_host \<Rightarrow> (store_error + unit) \<times> 'w deploy_host" where
  "save_target e t h =
     (let f = dx_fleet e; s = dh_fleet h in
      case BMCTargetUpdate (fe_targets f) (fe_cipher f) (fe_nonce f t) t (fl_targets s) of
        (r, ts) \<Rightarrow> (r, h\<lparr>dh_fleet := s\<lparr>fl_targets := ts\<rparr>\<rparr>))"

definition host_now :: "'w deploy_env \<Rightarrow> 'w deploy_host \<Rightarrow> instant \<times> 'w deploy_host" where
  "host_now e h = (case now_at (dx_fleet e) (dh_fleet h) of (t, s) \<Rightarrow> (t, h\<lparr>dh_fleet := s\<rparr>))"

section \<open>Runs\<close>

definition registerRun :: "string \<Rightarrow> 'w deploy_host \<Rightarrow> 'w deploy_host" where
  "registerRun i h = h\<lparr>dh_runs := List.insert i (dh_runs h)\<rparr>"

definition deregisterRun :: "string \<Rightarrow> 'w deploy_host \<Rightarrow> 'w deploy_host" where
  "deregisterRun i h = h\<lparr>dh_runs := removeAll i (dh_runs h)\<rparr>"

definition CancelRun :: "string \<Rightarrow> 'w deploy_host \<Rightarrow> bool \<times> 'w deploy_host" where
  "CancelRun i h = (if i \<in> set (dh_runs h) then (True, h\<lparr>dh_cancelled := i # dh_cancelled h\<rparr>) else (False, h))"

definition run_job :: "'w deploy_env \<Rightarrow> deploy_job \<Rightarrow> 'w deploy_host \<Rightarrow> 'w deploy_host" where
  "run_job e j h =
     deregisterRun (dj_deployment j)
       (h\<lparr>dh_fleet := runRedfishDeploy (dx_fleet e) j (dh_fleet h), dh_jobs := remove1 j (dh_jobs h)\<rparr>)"

section \<open>Netboot\<close>

definition StartNetboot :: "'w deploy_env \<Rightarrow> string option \<Rightarrow> 'w deploy_host \<Rightarrow> 'w host_reply" where
  "StartNetboot e body h =
     (case body of
        None \<Rightarrow> refuse 400 ''invalid request body'' h
      | Some artifactID \<Rightarrow>
          (if artifactID = [] then refuse 400 ''artifactId is required'' h
           else case Start (dx_exists e) (dx_launch e) (dx_artifacts_dir e) artifactID (dh_netboot h) (dh_processes h) of
             (Some msg, _, _) \<Rightarrow> refuse 500 msg h
           | (None, m, os) \<Rightarrow> accept 200 (NetbootBody (GetStatus m)) (h\<lparr>dh_netboot := m, dh_processes := os\<rparr>)))"

definition StopNetboot :: "'w deploy_env \<Rightarrow> 'w deploy_host \<Rightarrow> 'w host_reply" where
  "StopNetboot e h =
     (case Stop (dx_kill e) (dh_netboot h) (dh_processes h) of
        (Some msg, _, _) \<Rightarrow> refuse 500 msg h
      | (None, m, os) \<Rightarrow> accept 200 (NetbootBody (GetStatus m)) (h\<lparr>dh_netboot := m, dh_processes := os\<rparr>))"

definition NetbootStatus :: "'w deploy_host \<Rightarrow> 'w host_reply" where
  "NetbootStatus h = accept 200 (NetbootBody (GetStatus (dh_netboot h))) h"

section \<open>Starting a Redfish deploy\<close>

record redfish_request =
  rr_target :: string
  rr_image_url :: string
  rr_endpoint :: string
  rr_username :: string
  rr_password :: string
  rr_vendor :: string
  rr_verify_ssl :: "bool option"
  rr_system_id :: string
  rr_eject :: "bool option"

abbreviation SettingDefaultImageURL :: string where "SettingDefaultImageURL \<equiv> ''imageSource.defaultImageURL''"
abbreviation SettingLocalServeEnabled :: string where "SettingLocalServeEnabled \<equiv> ''imageSource.localServeEnabled''"

definition imageURLUsesHTTPS :: "net \<Rightarrow> string \<Rightarrow> string + bool" where
  "imageURLUsesHTTPS n imageURL =
     (case nt_parse n imageURL of Inl msg \<Rightarrow> Inl msg | Inr (scheme, _) \<Rightarrow> Inr (EqualFold scheme ''https''))"

definition resolveOperatorImageURL :: "string \<Rightarrow> string \<Rightarrow> string \<Rightarrow> string" where
  "resolveOperatorImageURL reqURL bmcURL defaultURL =
     (if reqURL \<noteq> [] then reqURL else if bmcURL \<noteq> [] then bmcURL else defaultURL)"

definition defaultImageURL :: "'w deploy_env \<Rightarrow> 'w deploy_host \<Rightarrow> db_error + string" where
  "defaultImageURL e h =
     (case dx_settings e of
        None \<Rightarrow> Inr []
      | Some eng \<Rightarrow> map_sum id fst (SettingGet eng SettingDefaultImageURL (dh_settings h)))"

definition localServeEnabled :: "'w deploy_env \<Rightarrow> 'w deploy_host \<Rightarrow> bool" where
  "localServeEnabled e h =
     (case dx_settings e of
        None \<Rightarrow> False
      | Some eng \<Rightarrow>
          (case SettingGet eng SettingLocalServeEnabled (dh_settings h) of Inl _ \<Rightarrow> False | Inr (v, _) \<Rightarrow> v = ''true''))"

text \<open>The BMC of a deploy: its connection, image URL, id and durable eject policy.\<close>

record deploy_bmc =
  db_config :: config
  db_image_url :: string
  db_id :: string
  db_eject :: bool

definition deploy_bmc_of :: "'w deploy_env \<Rightarrow> redfish_request \<Rightarrow> 'w deploy_host \<Rightarrow> (nat \<times> string) + deploy_bmc" where
  "deploy_bmc_of e rq h =
     (if rr_target rq \<noteq> [] then
        (case get_target e (rr_target rq) h of
           Inl _ \<Rightarrow> Inl (404, ''BMC target not found'')
         | Inr t \<Rightarrow>
             Inr \<lparr>db_config = target_config t redfishDeployTimeout, db_image_url = b_image_url t, db_id = b_id t,
                  db_eject = b_eject_after_install t\<rparr>)
      else if rr_endpoint rq = [] \<or> rr_username rq = [] \<or> rr_password rq = [] then
        Inl (400, ''endpoint, username, and password are required when bmcTargetId is not provided'')
      else
        Inr \<lparr>db_config = \<lparr>cf_endpoint = rr_endpoint rq, cf_username = rr_username rq, cf_password = rr_password rq,
                 cf_vendor = (if rr_vendor rq = [] then ''generic'' else rr_vendor rq),
                 cf_verify_ssl = (case rr_verify_ssl rq of Some v \<Rightarrow> v | None \<Rightarrow> True),
                 cf_timeout = redfishDeployTimeout, cf_system_id = [], cf_auth_mode = []\<rparr>,
             db_image_url = [], db_id = [], db_eject = False\<rparr>)"

definition effective_config :: "redfish_request \<Rightarrow> deploy_bmc \<Rightarrow> config" where
  "effective_config rq d =
     (if rr_system_id rq \<noteq> [] then (db_config d)\<lparr>cf_system_id := rr_system_id rq\<rparr> else db_config d)"

definition effective_eject :: "redfish_request \<Rightarrow> deploy_bmc \<Rightarrow> bool" where
  "effective_eject rq d = (case rr_eject rq of Some v \<Rightarrow> v | None \<Rightarrow> db_eject d)"

definition iso_file :: "artifact \<Rightarrow> string" where
  "iso_file a = (case find (\<lambda>f. Go_Paths.Ext f = ''.iso'') (ar_files a) of Some f \<Rightarrow> f | None \<Rightarrow> [])"

text \<open>The URL, the serve token, and whether the BMC fetches over HTTPS.\<close>

definition serve_artifact ::
  "'w deploy_env \<Rightarrow> string \<Rightarrow> 'w deploy_host \<Rightarrow> ((nat \<times> string) + (string \<times> string \<times> bool)) \<times> 'w deploy_host" where
  "serve_artifact e isoFile h =
     (case fl_iso (dh_fleet h) of
        None \<Rightarrow> (Inl (503, ''local ISO serving is not enabled on this server; provide imageUrl with a URL the BMC can reach, set a default image URL, or enable AuroraBoot-served artifacts''), h)
      | Some srv \<Rightarrow>
          (if \<not> localServeEnabled e h then
             (Inl (503, ''local ISO serving is not enabled on this server; provide imageUrl with a URL the BMC can reach, set a default image URL, or enable AuroraBoot-served artifacts''), h)
           else case dx_cwd e of
             Inl msg \<Rightarrow> (Inl (500, ''resolving artifact ISO path: '' @ msg), h)
           | Inr cwd \<Rightarrow>
               (let absISO = Abs_path cwd isoFile; (now, h1) = host_now e h in
                case iso_register (dx_stat e) (dx_rnd e) now absISO (redfishDeployTimeout + 5 * minute) srv of
                  (Inl err, _) \<Rightarrow> (Inl (500, ''failed to serve artifact ISO: '' @ iso_error_text (dx_os_text e) absISO err), h1)
                | (Inr (url, tok), srv') \<Rightarrow>
                    (Inr (url, tok, UsesTLS srv'), h1\<lparr>dh_fleet := (dh_fleet h1)\<lparr>fl_iso := Some srv'\<rparr>\<rparr>))))"

definition deploy_image ::
  "'w deploy_env \<Rightarrow> string \<Rightarrow> string \<Rightarrow> 'w deploy_host \<Rightarrow> ((nat \<times> string) + (string \<times> string \<times> bool)) \<times> 'w deploy_host" where
  "deploy_image e imageURL isoFile h =
     (if imageURL \<noteq> [] then
        (case ValidateMediaURL (dx_net e) imageURL of
           Some err \<Rightarrow> (Inl (400, ''invalid imageUrl: '' @ url_error_text (dx_net e) err), h)
         | None \<Rightarrow>
             (case imageURLUsesHTTPS (dx_net e) imageURL of
                Inl msg \<Rightarrow> (Inl (400, ''invalid imageUrl: '' @ msg), h)
              | Inr useHTTPS \<Rightarrow> (Inr (imageURL, [], useHTTPS), h)))
      else serve_artifact e isoFile h)"

text \<open>The id given here is replaced by the store.\<close>

definition new_deployment :: "uuid \<Rightarrow> string \<Rightarrow> string \<Rightarrow> instant \<Rightarrow> deployment" where
  "new_deployment u artifactID bmcID now =
     \<lparr>d_id = u, d_artifact_id = artifactID, d_method = ''redfish'', d_status = DeployActive,
      d_message = ''Deployment initiated'', d_bmc_target_id = bmcID, d_progress = 0, d_started_at = now,
      d_completed_at = None, d_node_id = [], d_eject_policy = [], d_eject_state = [], d_eject_error = [], d_ejected_at = None\<rparr>"

definition start_deploy ::
  "'w deploy_env \<Rightarrow> string \<Rightarrow> redfish_request \<Rightarrow> deploy_bmc \<Rightarrow> string \<times> string \<times> bool \<Rightarrow> 'w deploy_host \<Rightarrow> 'w host_reply" where
  "start_deploy e artifactID rq d img h =
     (case img of (imageURL, serveToken, useHTTPS) \<Rightarrow>
      let (now, h1) = host_now e h in
      case DeploymentCreate (fe_deployments (dx_fleet e)) (dx_uuid e) (new_deployment (dx_uuid e) artifactID (db_id d) now)
             (fl_deployments (dh_fleet h1)) of
        (Inl _, ds) \<Rightarrow>
          refuse 500 ''failed to create deployment record''
            (h1\<lparr>dh_fleet := revoke_token serveToken ((dh_fleet h1)\<lparr>fl_deployments := ds\<rparr>)\<rparr>)
      | (Inr dep, ds) \<Rightarrow>
          accept 202 (DeployBody (DeploymentBody dep))
            (registerRun (d_id dep)
              (h1\<lparr>dh_fleet := (dh_fleet h1)\<lparr>fl_deployments := ds\<rparr>,
                  dh_jobs := dh_jobs h1 @
                    [\<lparr>dj_deployment = d_id dep, dj_image_url = imageURL, dj_serve_token = serveToken,
                      dj_config = effective_config rq d, dj_https = useHTTPS, dj_eject_after = effective_eject rq d\<rparr>]\<rparr>)))"

text \<open>\<open>body\<close> is \<open>None\<close> when the request does not bind.\<close>

definition DeployRedfish :: "'w deploy_env \<Rightarrow> string \<Rightarrow> redfish_request option \<Rightarrow> 'w deploy_host \<Rightarrow> 'w host_reply" where
  "DeployRedfish e artifactID body h =
     (case ArtifactGetByID (dx_artifacts e) artifactID (dh_artifacts h) of
        Inl _ \<Rightarrow> refuse 404 ''artifact not found'' h
      | Inr artifact \<Rightarrow>
      case body of
        None \<Rightarrow> refuse 400 ''invalid request body'' h
      | Some rq \<Rightarrow>
      case deploy_bmc_of e rq h of
        Inl (code, msg) \<Rightarrow> refuse code msg h
      | Inr d \<Rightarrow>
      if iso_file artifact = [] then refuse 400 ''no ISO file found for this artifact'' h
      else case defaultImageURL e h of
        Inl _ \<Rightarrow> refuse 500 ''failed to read image-source settings'' h
      | Inr defaultURL \<Rightarrow>
      case deploy_image e (resolveOperatorImageURL (rr_image_url rq) (db_image_url d) defaultURL) (iso_file artifact) h of
        (Inl (code, msg), h1) \<Rightarrow> refuse code msg h1
      | (Inr img, h1) \<Rightarrow> start_deploy e artifactID rq d img h1)"

section \<open>Where the image comes from\<close>

abbreviation operator_urls :: "'w deploy_env \<Rightarrow> redfish_request \<Rightarrow> deploy_bmc \<Rightarrow> 'w deploy_host \<Rightarrow> string list" where
  "operator_urls e rq d h \<equiv>
     filter (\<lambda>u. u \<noteq> []) [rr_image_url rq, db_image_url d, (case defaultImageURL e h of Inl _ \<Rightarrow> [] | Inr u \<Rightarrow> u)]"

definition tokens :: "'w deploy_host \<Rightarrow> string \<rightharpoonup> iso_entry" where
  "tokens h = (case fl_iso (dh_fleet h) of None \<Rightarrow> Map.empty | Some srv \<Rightarrow> map_of (is_entries srv))"

lemma host_now_fields:
  assumes "host_now e h = (t, h1)"
  shows "fl_iso (dh_fleet h1) = fl_iso (dh_fleet h)" "fl_deployments (dh_fleet h1) = fl_deployments (dh_fleet h)"
    "fl_targets (dh_fleet h1) = fl_targets (dh_fleet h)" "dh_jobs h1 = dh_jobs h" "dh_runs h1 = dh_runs h"
    "dh_artifacts h1 = dh_artifacts h" "dh_settings h1 = dh_settings h" "fl_events (dh_fleet h1) = fl_events (dh_fleet h)"
    "dh_refreshing h1 = dh_refreshing h"
  using assms now_at_fields [of "dx_fleet e" "dh_fleet h"] by (auto simp: host_now_def split: prod.splits)

lemma serve_artifact_ok:
  assumes "serve_artifact e isoFile h = (Inr (url, tok, https), h1)"
  shows "\<exists>srv srv' cwd now. fl_iso (dh_fleet h) = Some srv \<and> fl_iso (dh_fleet h1) = Some srv' \<and> localServeEnabled e h \<and>
    dx_cwd e = Inr cwd \<and> newToken (dx_rnd e) = Some tok \<and> https = UsesTLS srv' \<and>
    is_entries srv' = AList.update tok \<lparr>ie_path = Clean (Abs_path cwd isoFile), ie_expiry = now + (redfishDeployTimeout + 5 * minute)\<rparr> (is_entries srv) \<and>
    url = is_base_url srv @ routePrefix @ ''/'' @ tok @ ''/'' @ Base (Clean (Abs_path cwd isoFile))"
proof -
  obtain srv cwd where srv: "fl_iso (dh_fleet h) = Some srv" "localServeEnabled e h" "dx_cwd e = Inr cwd"
    using assms by (auto simp: serve_artifact_def split: option.splits if_splits sum.splits)
  obtain now h0 where n: "host_now e h = (now, h0)" by fastforce
  obtain srv' where r: "iso_register (dx_stat e) (dx_rnd e) now (Abs_path cwd isoFile) (redfishDeployTimeout + 5 * minute) srv = (Inr (url, tok), srv')"
    "h1 = h0\<lparr>dh_fleet := (dh_fleet h0)\<lparr>fl_iso := Some srv'\<rparr>\<rparr>" "https = UsesTLS srv'"
    using assms srv n by (auto simp: serve_artifact_def Let_def split: prod.splits sum.splits)
  show ?thesis
    using srv r by (auto simp: iso_register_def Let_def split: if_splits file_info.splits option.splits)
qed

lemma serve_artifact_fields:
  assumes "serve_artifact e isoFile h = (r, h1)"
  shows "fl_deployments (dh_fleet h1) = fl_deployments (dh_fleet h)" "dh_jobs h1 = dh_jobs h" "dh_runs h1 = dh_runs h"
    "fl_targets (dh_fleet h1) = fl_targets (dh_fleet h)"
    "isl r \<Longrightarrow> fl_iso (dh_fleet h1) = fl_iso (dh_fleet h)"
proof -
  obtain now h0 where n: "host_now e h = (now, h0)" by fastforce
  note f = host_now_fields [OF n]
  show "fl_deployments (dh_fleet h1) = fl_deployments (dh_fleet h)" "dh_jobs h1 = dh_jobs h" "dh_runs h1 = dh_runs h"
    "fl_targets (dh_fleet h1) = fl_targets (dh_fleet h)"
    "isl r \<Longrightarrow> fl_iso (dh_fleet h1) = fl_iso (dh_fleet h)"
    using assms f by (auto simp: serve_artifact_def Let_def n split: option.splits if_splits sum.splits prod.splits)
qed

lemma deploy_image_fields:
  assumes "deploy_image e u isoFile h = (r, h1)"
  shows "fl_deployments (dh_fleet h1) = fl_deployments (dh_fleet h)" "dh_jobs h1 = dh_jobs h" "dh_runs h1 = dh_runs h"
    "fl_targets (dh_fleet h1) = fl_targets (dh_fleet h)"
    "isl r \<or> u \<noteq> [] \<Longrightarrow> fl_iso (dh_fleet h1) = fl_iso (dh_fleet h)"
  using assms serve_artifact_fields [of e isoFile h]
  by (auto simp: deploy_image_def split: option.splits if_splits sum.splits)

lemma operator_url_first:
  "resolveOperatorImageURL a b c \<noteq> [] \<Longrightarrow> resolveOperatorImageURL a b c = hd (filter (\<lambda>u. u \<noteq> []) [a, b, c])"
  "resolveOperatorImageURL a b c = [] \<longleftrightarrow> filter (\<lambda>u. u \<noteq> []) [a, b, c] = []"
  by (auto simp: resolveOperatorImageURL_def)

text \<open>An accepted request in one step: what was resolved, and the job it left.\<close>

lemma deploy_accepted:
  assumes "DeployRedfish e i body h = (Some (Response 202 b), h')"
  shows "\<exists>a rq d dflt url tok https h1 now h2 dep ds.
    ArtifactGetByID (dx_artifacts e) i (dh_artifacts h) = Inr a \<and> body = Some rq \<and> deploy_bmc_of e rq h = Inr d \<and>
    iso_file a \<noteq> [] \<and> defaultImageURL e h = Inr dflt \<and>
    deploy_image e (resolveOperatorImageURL (rr_image_url rq) (db_image_url d) dflt) (iso_file a) h = (Inr (url, tok, https), h1) \<and>
    host_now e h1 = (now, h2) \<and>
    DeploymentCreate (fe_deployments (dx_fleet e)) (dx_uuid e) (new_deployment (dx_uuid e) i (db_id d) now) (fl_deployments (dh_fleet h2)) = (Inr dep, ds) \<and>
    b = Body (DeployBody (DeploymentBody dep)) \<and>
    h' = registerRun (d_id dep) (h2\<lparr>dh_fleet := (dh_fleet h2)\<lparr>fl_deployments := ds\<rparr>,
      dh_jobs := dh_jobs h2 @ [\<lparr>dj_deployment = d_id dep, dj_image_url = url, dj_serve_token = tok,
        dj_config = effective_config rq d, dj_https = https, dj_eject_after = effective_eject rq d\<rparr>]\<rparr>)"
proof -
  have codes: "(fst c :: nat) \<noteq> 202" if "deploy_bmc_of e rq h = Inl c" for rq c
    using that by (auto simp: deploy_bmc_of_def split: if_splits sum.splits)
  have codes': "(fst c :: nat) \<noteq> 202" if "deploy_image e u f h = (Inl c, h1)" for u f c h1
    using that by (auto simp: deploy_image_def serve_artifact_def Let_def split: if_splits sum.splits option.splits prod.splits)
  show ?thesis
    using assms codes codes'
    by (fastforce simp: DeployRedfish_def start_deploy_def Let_def split: sum.splits option.splits if_splits prod.splits)
qed

section \<open>How a started deploy ends\<close>

lemma revoke_token_iso: "fl_iso (revoke_token tok s) = (if tok \<noteq> [] then map_option (iso_revoke tok) (fl_iso s) else fl_iso s)"
  by (simp add: revoke_token_def)

lemma on_bmc_iso: "on_bmc m s = (r, s1) \<Longrightarrow> fl_iso s1 = fl_iso s"
  using on_bmc_fields(5) [of m s] by simp

lemma runRedfishDeploy_iso:
  assumes "deployment_map e" and "deadline_bound (fe_bmc e (dj_config j)) budget" and "budget (fl_world s) < fe_turns e"
  shows "fl_iso (runRedfishDeploy e j s) = fl_iso (revoke_token (dj_serve_token j) s)"
proof -
  let ?b = "fe_bmc e (dj_config j)"
  let ?work = "with_connection ?b id (NewDeployer (fe_manifest e) (fe_registry e) (dj_config j))
    (\<lambda>d1. attempt (Deploy (fe_turns e) ?b d1 (job_request j)))"
  obtain r progress s1 where run: "on_bmc ?work s = ((r, progress), s1)" by (metis surj_pair)
  have "returns budget (fe_turns e) ?work"
    by (rule with_connection_returns [OF assms(2)]) (intro returns_rules Deploy_returns assms(2))
  then have "r \<noteq> CutOff"
    using deployment_map.on_bmc_returns [OF assms(1), of budget "fe_turns e" ?work s] run assms(3) by simp
  moreover have "fl_iso s1 = fl_iso s" using on_bmc_iso [OF run] .
  ultimately show ?thesis
    unfolding runRedfishDeploy_def Let_def run prod.case
    by (auto simp: revoke_token_iso deployment_map.iso_of_routines [OF assms(1)] deployment_map.iso_of_progress [OF assms(1)]
        split: result.split sum.split option.split prod.split)
qed

lemma tokens_revoked:
  "fl_iso s = Some srv \<Longrightarrow> tok \<noteq> [] \<Longrightarrow>
     (case fl_iso (revoke_token tok s) of None \<Rightarrow> Map.empty | Some srv \<Rightarrow> map_of (is_entries srv)) = (map_of (is_entries srv))(tok := None)"
  by (simp add: revoke_token_iso iso_revoke_def delete_conv')

lemma fresh_token_undone:
  "map_of es tok = None \<Longrightarrow> (map_of (AList.update tok x es))(tok := None) = map_of es"
  by (simp add: update_conv' fun_upd_idem_iff)

text \<open>A random token is not empty and not in use.\<close>

definition fresh_rnd :: "'w deploy_env \<Rightarrow> 'w deploy_host \<Rightarrow> bool" where
  "fresh_rnd e h \<longleftrightarrow> (case newToken (dx_rnd e) of None \<Rightarrow> True | Some tok \<Rightarrow> tok \<noteq> [] \<and> tokens h tok = None)"

lemma deploy_image_tokens:
  assumes "deploy_image e u f h = (Inr (url, tok, https), h1)" and "fresh_rnd e h"
  shows "tokens h1 = tokens h \<and> tok = [] \<or>
    (\<exists>srv. tok \<noteq> [] \<and> fl_iso (dh_fleet h1) = Some srv \<and> (map_of (is_entries srv))(tok := None) = tokens h)"
proof (cases "u = []")
  case False
  then show ?thesis using assms(1) by (auto simp: deploy_image_def split: option.splits sum.splits)
next
  case True
  then have serve: "serve_artifact e f h = (Inr (url, tok, https), h1)" using assms(1) by (simp add: deploy_image_def)
  obtain srv srv' x where s: "fl_iso (dh_fleet h) = Some srv" "fl_iso (dh_fleet h1) = Some srv'" "newToken (dx_rnd e) = Some tok"
    "is_entries srv' = AList.update tok x (is_entries srv)"
    using serve_artifact_ok [OF serve] by blast
  have "tok \<noteq> []" "map_of (is_entries srv) tok = None" using assms(2) s by (auto simp: fresh_rnd_def tokens_def)
  then show ?thesis using s fresh_token_undone by (auto simp: tokens_def)
qed

section \<open>Properties\<close>

text \<open>
  C23. The image source follows the documented precedence: an accepted deploy fetches the first URL
  that is set among the request's, the BMC's and the global default, and only if that URL passes
  the guard against internal addresses, with the protocol of its scheme; only when none is set
  is the artifact's own ISO served, and then local serving is enabled, the token registered for
  exactly that file, and the URL leads to it.
\<close>
theorem image_source_precedence:
  assumes "DeployRedfish e i body h = (Some (Response 202 b), h')"
  shows "\<exists>rq d job. body = Some rq \<and> deploy_bmc_of e rq h = Inr d \<and> dh_jobs h' = dh_jobs h @ [job] \<and>
    (case operator_urls e rq d h of
       u # _ \<Rightarrow> dj_image_url job = u \<and> ValidateMediaURL (dx_net e) u = None \<and> imageURLUsesHTTPS (dx_net e) u = Inr (dj_https job) \<and>
         dj_serve_token job = [] \<and> tokens h' = tokens h
     | [] \<Rightarrow> localServeEnabled e h \<and> (\<exists>a cwd srv entry base path. ArtifactGetByID (dx_artifacts e) i (dh_artifacts h) = Inr a \<and>
         dx_cwd e = Inr cwd \<and> fl_iso (dh_fleet h') = Some srv \<and> dj_https job = UsesTLS srv \<and>
         map_of (is_entries srv) (dj_serve_token job) = Some entry \<and> ie_path entry = Clean (Abs_path cwd (iso_file a)) \<and>
         dj_image_url job = base @ path \<and> tokenFromPath path = dj_serve_token job))"
proof -
  obtain a rq d dflt url tok https h1 now h2 ds and dep :: deployment where acc:
    "ArtifactGetByID (dx_artifacts e) i (dh_artifacts h) = Inr a" "body = Some rq" "deploy_bmc_of e rq h = Inr d"
    "defaultImageURL e h = Inr dflt"
    "deploy_image e (resolveOperatorImageURL (rr_image_url rq) (db_image_url d) dflt) (iso_file a) h = (Inr (url, tok, https), h1)"
    "host_now e h1 = (now, h2)"
    "h' = registerRun (d_id dep) (h2\<lparr>dh_fleet := (dh_fleet h2)\<lparr>fl_deployments := ds\<rparr>,
      dh_jobs := dh_jobs h2 @ [\<lparr>dj_deployment = d_id dep, dj_image_url = url, dj_serve_token = tok,
        dj_config = effective_config rq d, dj_https = https, dj_eject_after = effective_eject rq d\<rparr>]\<rparr>)"
    using deploy_accepted [OF assms] by blast
  let ?u = "resolveOperatorImageURL (rr_image_url rq) (db_image_url d) dflt"
  let ?job = "\<lparr>dj_deployment = d_id dep, dj_image_url = url, dj_serve_token = tok,
        dj_config = effective_config rq d, dj_https = https, dj_eject_after = effective_eject rq d\<rparr>"
  note f = deploy_image_fields [OF acc(5)] host_now_fields [OF acc(6)]
  have jobs: "dh_jobs h' = dh_jobs h @ [?job]" using f acc(7) by (simp add: registerRun_def)
  have iso: "fl_iso (dh_fleet h') = fl_iso (dh_fleet h1)" using f acc(7) by (simp add: registerRun_def)
  have urls: "operator_urls e rq d h = filter (\<lambda>u. u \<noteq> []) [rr_image_url rq, db_image_url d, dflt]" using acc(4) by simp
  show ?thesis
  proof (cases "?u = []")
    case True
    then have none: "operator_urls e rq d h = []" unfolding urls using operator_url_first(2) by metis
    have serve: "serve_artifact e (iso_file a) h = (Inr (url, tok, https), h1)" using acc(5) True by (simp add: deploy_image_def)
    obtain srv' cwd n and srv :: iso_server where s: "localServeEnabled e h" "fl_iso (dh_fleet h1) = Some srv'" "dx_cwd e = Inr cwd"
      "newToken (dx_rnd e) = Some tok" "https = UsesTLS srv'"
      "is_entries srv' = AList.update tok \<lparr>ie_path = Clean (Abs_path cwd (iso_file a)), ie_expiry = n + (redfishDeployTimeout + 5 * minute)\<rparr> (is_entries srv)"
      "url = is_base_url srv @ routePrefix @ ''/'' @ tok @ ''/'' @ Base (Clean (Abs_path cwd (iso_file a)))"
      using serve_artifact_ok [OF serve] by blast
    have "\<forall>c \<in> set tok. c \<noteq> CHR ''/''" using s(4) raw_url_no_slash by (auto simp: newToken_def)
    then have "tokenFromPath (routePrefix @ ''/'' @ tok @ ''/'' @ Base (Clean (Abs_path cwd (iso_file a)))) = tok"
      by (rule tokenFromPath_url)
    moreover have "map_of (is_entries srv') tok = Some \<lparr>ie_path = Clean (Abs_path cwd (iso_file a)), ie_expiry = n + (redfishDeployTimeout + 5 * minute)\<rparr>"
      using s(6) by (simp add: update_conv')
    ultimately have "\<exists>entry base path. map_of (is_entries srv') tok = Some entry \<and> ie_path entry = Clean (Abs_path cwd (iso_file a)) \<and>
        url = base @ path \<and> tokenFromPath path = tok"
      using s(7) by (metis iso_entry.select_convs(1))
    then have "\<exists>a cwd srv entry base path. ArtifactGetByID (dx_artifacts e) i (dh_artifacts h) = Inr a \<and>
         dx_cwd e = Inr cwd \<and> fl_iso (dh_fleet h') = Some srv \<and> dj_https ?job = UsesTLS srv \<and>
         map_of (is_entries srv) (dj_serve_token ?job) = Some entry \<and> ie_path entry = Clean (Abs_path cwd (iso_file a)) \<and>
         dj_image_url ?job = base @ path \<and> tokenFromPath path = dj_serve_token ?job"
      using acc(1) s(2,3,5) iso by (intro exI [of _ a] exI [of _ cwd] exI [of _ srv']) simp
    then show ?thesis
      using acc(2,3) jobs s(1)
      by (intro exI [of _ rq] exI [of _ d] exI [of _ ?job]) (simp only: none list.case simp_thms)
  next
    case False
    then obtain us where u: "operator_urls e rq d h = ?u # us"
      unfolding urls using operator_url_first [of "rr_image_url rq" "db_image_url d" dflt] by (metis list.collapse)
    have "url = ?u" "tok = []" "ValidateMediaURL (dx_net e) ?u = None" "imageURLUsesHTTPS (dx_net e) ?u = Inr https"
      using acc(5) False by (auto simp: deploy_image_def split: option.splits sum.splits)
    moreover have "tokens h' = tokens h" using iso f(5) False by (simp add: tokens_def)
    ultimately show ?thesis
      using acc(2,3) jobs by (intro exI [of _ rq] exI [of _ d] exI [of _ ?job]) (simp add: u del: filter.simps)
  qed
qed

text \<open>
  C24. No serve token outlives its deploy. A request that is not accepted leaves no job and the served
  tokens as they were, also when the deployment record cannot be created after a token was
  registered; an accepted one leaves one job, and once its goroutine has run (under a deadline,
  whatever the BMC does) the served tokens are again those before the request.
\<close>
theorem no_token_outlives_its_deploy:
  assumes "keyed_engine (fe_deployments (dx_fleet e)) d_id dep_clash" and "fresh_rnd e h"
    and "DeployRedfish e i body h = (r, h')"
    and "\<forall>cfg. deadline_bound (fe_bmc (dx_fleet e) cfg) budget" and "budget (fl_world (dh_fleet h')) < fe_turns (dx_fleet e)"
  shows "(dh_jobs h' = dh_jobs h \<and> tokens h' = tokens h) \<or>
    (\<exists>job. dh_jobs h' = dh_jobs h @ [job] \<and> tokens (run_job e job h') = tokens h)"
proof (cases "\<exists>b. r = Some (Response 202 b)")
  case True
  then obtain b where b: "DeployRedfish e i body h = (Some (Response 202 b), h')" using assms(3) by blast
  obtain a rq d dflt url tok https h1 now h2 ds and dep :: deployment where acc:
    "deploy_image e (resolveOperatorImageURL (rr_image_url rq) (db_image_url d) dflt) (iso_file a) h = (Inr (url, tok, https), h1)"
    "host_now e h1 = (now, h2)"
    "h' = registerRun (d_id dep) (h2\<lparr>dh_fleet := (dh_fleet h2)\<lparr>fl_deployments := ds\<rparr>,
      dh_jobs := dh_jobs h2 @ [\<lparr>dj_deployment = d_id dep, dj_image_url = url, dj_serve_token = tok,
        dj_config = effective_config rq d, dj_https = https, dj_eject_after = effective_eject rq d\<rparr>]\<rparr>)"
    using deploy_accepted [OF b] by blast
  let ?job = "\<lparr>dj_deployment = d_id dep, dj_image_url = url, dj_serve_token = tok,
        dj_config = effective_config rq d, dj_https = https, dj_eject_after = effective_eject rq d\<rparr>"
  note f = deploy_image_fields [OF acc(1)] host_now_fields [OF acc(2)]
  have jobs: "dh_jobs h' = dh_jobs h @ [?job]" using f acc(3) by (simp add: registerRun_def)
  have iso: "fl_iso (dh_fleet h') = fl_iso (dh_fleet h1)" using f acc(3) by (simp add: registerRun_def)
  have "fl_iso (dh_fleet (run_job e ?job h')) = fl_iso (revoke_token tok (dh_fleet h'))"
    using runRedfishDeploy_iso [OF deployment_map_of_engine [OF assms(1)], of ?job budget "dh_fleet h'"] assms(4,5)
    by (simp add: run_job_def deregisterRun_def)
  then have "tokens (run_job e ?job h') = tokens h"
    using deploy_image_tokens [OF acc(1) assms(2)] iso
    by (auto simp: tokens_def revoke_token_iso iso_revoke_def delete_conv')
  then show ?thesis using jobs by blast
next
  case False
  have undone: "tokens (h0\<lparr>dh_fleet := revoke_token tok ((dh_fleet h0)\<lparr>fl_deployments := ds\<rparr>)\<rparr>) = tokens h"
    if "deploy_image e u f h = (Inr (url, tok, https), h1)" "host_now e h1 = (now, h0)" for u f url tok https h1 now h0 ds
    using deploy_image_tokens [OF that(1) assms(2)] host_now_fields(1) [OF that(2)]
    by (auto simp: tokens_def revoke_token_iso iso_revoke_def delete_conv')
  have quiet: "dh_jobs h1 = dh_jobs h \<and> tokens h1 = tokens h" if "deploy_image e u f h = (Inl c, h1)" for u f c h1
    using deploy_image_fields [OF that] by (simp add: tokens_def)
  have jobs: "dh_jobs h0 = dh_jobs h" if "deploy_image e u f h = (x, h1)" "host_now e h1 = (now, h0)" for u f x h1 now h0
    using deploy_image_fields(2) [OF that(1)] host_now_fields(4) [OF that(2)] by simp
  show ?thesis
    using assms(3) False undone quiet jobs
    by (fastforce simp: DeployRedfish_def start_deploy_def Let_def split: sum.splits option.splits if_splits prod.splits)
qed

text \<open>
  What was asked about the eject: the request decides when it says anything, else the stored policy
  of the target, and a BMC given inline has none.
\<close>

definition asks_eject :: "'w deploy_env \<Rightarrow> redfish_request \<Rightarrow> 'w deploy_host \<Rightarrow> bool" where
  "asks_eject e rq h =
     (case rr_eject rq of
        Some asked \<Rightarrow> asked
      | None \<Rightarrow> (\<exists>t. rr_target rq \<noteq> [] \<and> get_target e (rr_target rq) h = Inr t \<and> b_eject_after_install t))"

lemma asked_eject: "deploy_bmc_of e rq h = Inr d \<Longrightarrow> effective_eject rq d \<longleftrightarrow> asks_eject e rq h"
  by (auto simp: deploy_bmc_of_def effective_eject_def asks_eject_def split: if_splits sum.splits option.splits)

text \<open>
  C25. Every accepted deploy is recorded and settles: the answer carries an active row that is new and
  in the store, the job is registered under its id, and when its goroutine has run the row is
  completed (and armed for the eject exactly when the request, or else the stored policy of its target,
  asks for it) or failed, no other row has changed, and the run is deregistered.
\<close>
theorem accepted_deploy_settles:
  assumes "keyed_engine (fe_deployments (dx_fleet e)) d_id dep_clash" and "dep_ok (dh_fleet h)"
    and "DeployRedfish e i body h = (Some (Response 202 b), h')"
    and "\<forall>cfg. deadline_bound (fe_bmc (dx_fleet e) cfg) budget" and "budget (fl_world (dh_fleet h')) < fe_turns (dx_fleet e)"
  shows "\<exists>rq dep job row. body = Some rq \<and>
    b = Body (DeployBody (DeploymentBody dep)) \<and> d_status dep = DeployActive \<and> d_artifact_id dep = i \<and>
    dep_map (dh_fleet h) (d_id dep) = None \<and> dep_map (dh_fleet h') = (dep_map (dh_fleet h))(d_id dep \<mapsto> dep) \<and>
    dh_jobs h' = dh_jobs h @ [job] \<and> dj_deployment job = d_id dep \<and> d_id dep \<in> set (dh_runs h') \<and>
    dep_map (dh_fleet (run_job e job h')) = (dep_map (dh_fleet h))(d_id dep \<mapsto> row) \<and> settled_row (asks_eject e rq h) dep row \<and>
    d_id dep \<notin> set (dh_runs (run_job e job h'))"
proof -
  obtain a rq d dflt url tok https h1 now h2 ds and dep :: deployment where rq: "body = Some rq" "deploy_bmc_of e rq h = Inr d"
    and acc: "deploy_image e (resolveOperatorImageURL (rr_image_url rq) (db_image_url d) dflt) (iso_file a) h = (Inr (url, tok, https), h1)"
    "host_now e h1 = (now, h2)"
    "DeploymentCreate (fe_deployments (dx_fleet e)) (dx_uuid e) (new_deployment (dx_uuid e) i (db_id d) now) (fl_deployments (dh_fleet h2)) = (Inr dep, ds)"
    "b = Body (DeployBody (DeploymentBody dep))"
    "h' = registerRun (d_id dep) (h2\<lparr>dh_fleet := (dh_fleet h2)\<lparr>fl_deployments := ds\<rparr>,
      dh_jobs := dh_jobs h2 @ [\<lparr>dj_deployment = d_id dep, dj_image_url = url, dj_serve_token = tok,
        dj_config = effective_config rq d, dj_https = https, dj_eject_after = effective_eject rq d\<rparr>]\<rparr>)"
    using deploy_accepted [OF assms(3)] by blast
  let ?job = "\<lparr>dj_deployment = d_id dep, dj_image_url = url, dj_serve_token = tok,
        dj_config = effective_config rq d, dj_https = https, dj_eject_after = effective_eject rq d\<rparr>"
  note f = deploy_image_fields [OF acc(1)] host_now_fields [OF acc(2)]
  have rows: "fl_deployments (dh_fleet h2) = fl_deployments (dh_fleet h)" using f by simp
  have sql: "sql_engine (fe_deployments (dx_fleet e)) d_id dep_clash"
    by (rule reliable_engine.axioms(1), rule keyed_engine.axioms(1), rule assms(1))
  have dep: "dep = (new_deployment (dx_uuid e) i (db_id d) now)\<lparr>d_id := dx_uuid e\<rparr>"
    "ds = fl_deployments (dh_fleet h) @ [dep]" "\<forall>y \<in> set (fl_deployments (dh_fleet h)). \<not> dep_clash y dep"
    using acc(3) sql_engine.db_create_Inr [OF sql] rows by (auto simp: DeploymentCreate_def Let_def split: prod.splits sum.splits)
  then have fresh: "\<forall>y \<in> set (fl_deployments (dh_fleet h)). d_id y \<noteq> d_id dep" by (simp add: dep_clash_def)
  have h'_rows: "fl_deployments (dh_fleet h') = fl_deployments (dh_fleet h) @ [dep]" using acc(5) dep(2) by (simp add: registerRun_def)
  have map': "dep_map (dh_fleet h') = (dep_map (dh_fleet h))(d_id dep \<mapsto> dep)" "dep_map (dh_fleet h) (d_id dep) = None"
    using row_map_append [OF fresh] row_map_None [of d_id "fl_deployments (dh_fleet h)"] fresh by (simp_all add: dep_map_def h'_rows)
  have ok': "dep_ok (dh_fleet h')" using assms(2) fresh by (auto simp: dep_ok_def h'_rows)
  have at: "dep_map (dh_fleet h') (dj_deployment ?job) = Some dep" using map' by simp
  obtain row where row: "dep_map (runRedfishDeploy (dx_fleet e) ?job (dh_fleet h')) = (dep_map (dh_fleet h'))(d_id dep \<mapsto> row)"
    "settled_row (dj_eject_after ?job) dep row"
    using deployment_map.deploy_effect [OF deployment_map_of_engine [OF assms(1)] ok' at, of budget] assms(4,5) by auto
  have fleet: "dh_fleet (run_job e ?job h') = runRedfishDeploy (dx_fleet e) ?job (dh_fleet h')"
    and runs: "dh_runs (run_job e ?job h') = removeAll (d_id dep) (dh_runs h')"
    by (simp_all add: run_job_def deregisterRun_def)
  have "dh_jobs h' = dh_jobs h @ [?job]" "d_id dep \<in> set (dh_runs h')" using f acc(5) by (simp_all add: registerRun_def)
  moreover have "dep_map (dh_fleet (run_job e ?job h')) = (dep_map (dh_fleet h))(d_id dep \<mapsto> row)"
    unfolding fleet row(1) map'(1) by simp
  moreover have "d_status dep = DeployActive" "d_artifact_id dep = i" using dep(1) by (simp_all add: new_deployment_def)
  ultimately show ?thesis
    using acc(4) map' row(2) runs rq(1) asked_eject [OF rq(2)]
    by (intro exI [of _ rq] exI [of _ dep] exI [of _ ?job] exI [of _ row]) simp
qed

text \<open>
  The sample fleet with one built artifact, local serving enabled and no URL set anywhere.
\<close>

definition sample_deploy_env :: "nat deploy_env" where
  "sample_deploy_env =
     \<lparr>dx_fleet = sample_fleet_env, dx_artifacts = mem_engine ar_id artifact_clash,
      dx_settings = Some (mem_engine s_key setting_clash), dx_artifacts_dir = ''/data'', dx_net = sample_net,
      dx_transport = \<lparr>tr_parse = \<lambda>s. Inl ''no route'', tr_send = \<lambda>i u w. (Inr (Answered 200), w),
        tr_read = \<lambda>room w. (([], Some EOF), w), tr_decode = \<lambda>b. Inr ([], []), tr_buffer = \<lambda>n. 1, tr_reads = 1\<rparr>,
      dx_stat = \<lambda>p. RegularFile, dx_os_text = \<lambda>_. [], dx_rnd = Some [CHR 0x00, CHR 0x00, CHR 0x00], dx_uuid = ''d2'',
      dx_cwd = Inr ''/srv'', dx_gone = \<lambda>w. (False, w), dx_pause = \<lambda>w. (False, w), dx_exists = \<lambda>_. False,
      dx_launch = None, dx_kill = None\<rparr>"

definition sample_host :: "nat deploy_host" where
  "sample_host =
     \<lparr>dh_fleet = (sample_fleet DeployCompleted [])\<lparr>fl_iso := Some (iso_new ''http://h'' ''h'' [] [])\<rparr>,
      dh_artifacts = [sample_artifact\<lparr>ar_files := [''data/a1/a.iso'']\<rparr>],
      dh_settings = [\<lparr>s_key = SettingLocalServeEnabled, s_value = ''true'', s_updated_at = 0\<rparr>],
      dh_jobs = [], dh_runs = [], dh_cancelled = [], dh_refreshing = False, dh_netboot = NewManager,
      dh_processes = \<lparr>os_next = 0, os_alive = [], os_killed = [], os_argv = []\<rparr>\<rparr>"

definition sample_request :: redfish_request where
  "sample_request =
     \<lparr>rr_target = ''b1'', rr_image_url = [], rr_endpoint = [], rr_username = [], rr_password = [], rr_vendor = [],
      rr_verify_ssl = None, rr_system_id = [], rr_eject = Some True\<rparr>"

abbreviation sample_started :: "nat host_reply" where
  "sample_started \<equiv> DeployRedfish sample_deploy_env ''a1'' (Some sample_request) sample_host"

lemma sample_accepted: "\<exists>b. sample_started = (Some (Response 202 b), snd sample_started)"
proof -
  have "map_option status (fst sample_started) = Some 202" by code_simp
  then obtain r where "fst sample_started = Some r" "status r = 202" by auto
  then show ?thesis by (metis prod.collapse response.collapse)
qed

lemma sample_deadline:
  "\<forall>cfg. deadline_bound (fe_bmc (dx_fleet sample_deploy_env) cfg) id"
  "id (fl_world (dh_fleet (snd sample_started))) < fe_turns (dx_fleet sample_deploy_env)"
  "keyed_engine (fe_deployments (dx_fleet sample_deploy_env)) d_id dep_clash" "dep_ok (dh_fleet sample_host)"
proof -
  show "\<forall>cfg. deadline_bound (fe_bmc (dx_fleet sample_deploy_env) cfg) id"
    using sample_bound by (simp add: sample_deploy_env_def sample_fleet_env_def)
  show "id (fl_world (dh_fleet (snd sample_started))) < fe_turns (dx_fleet sample_deploy_env)" by code_simp
  show "keyed_engine (fe_deployments (dx_fleet sample_deploy_env)) d_id dep_clash"
    using deployments.keyed_engine_axioms by (simp add: sample_deploy_env_def sample_fleet_env_def)
  show "dep_ok (dh_fleet sample_host)" by (simp add: dep_ok_def sample_host_def sample_fleet_def)
qed

theorem image_source_precedence_witness:
  "\<exists>job entry srv. dh_jobs (snd sample_started) = [job] \<and> fl_iso (dh_fleet (snd sample_started)) = Some srv \<and>
     map_of (is_entries srv) (dj_serve_token job) = Some entry \<and> ie_path entry = ''/srv/data/a1/a.iso''"
proof -
  obtain b where b: "sample_started = (Some (Response 202 b), snd sample_started)" using sample_accepted by blast
  have none: "operator_urls sample_deploy_env sample_request d sample_host = []"
    if "deploy_bmc_of sample_deploy_env sample_request sample_host = Inr d" for d
  proof -
    have "map_sum id db_image_url (deploy_bmc_of sample_deploy_env sample_request sample_host) = Inr []" by code_simp
    then have "db_image_url d = []" using that by simp
    moreover have "defaultImageURL sample_deploy_env sample_host = Inr []" "rr_image_url sample_request = []" by code_simp+
    ultimately show ?thesis by simp
  qed
  have path: "Clean (Abs_path ''/srv'' ''data/a1/a.iso'') = ''/srv/data/a1/a.iso''" "dh_jobs sample_host = []"
    "dx_cwd sample_deploy_env = Inr ''/srv''"
    "map_sum id iso_file (ArtifactGetByID (dx_artifacts sample_deploy_env) ''a1'' (dh_artifacts sample_host)) = Inr ''data/a1/a.iso''"
    by code_simp+
  from image_source_precedence [OF b] none path show ?thesis by fastforce
qed

theorem no_token_outlives_its_deploy_witness:
  "\<exists>job. dh_jobs (snd sample_started) = [job] \<and> tokens (run_job sample_deploy_env job (snd sample_started)) = tokens sample_host"
proof -
  have "newToken (dx_rnd sample_deploy_env) = Some ''AAAA''" by code_simp
  then have fresh: "fresh_rnd sample_deploy_env sample_host"
    by (simp add: fresh_rnd_def tokens_def sample_host_def iso_new_def)
  have jobs: "length (dh_jobs (snd sample_started)) = 1" "dh_jobs sample_host = []" by code_simp+
  from no_token_outlives_its_deploy [OF sample_deadline(3) fresh prod.collapse [symmetric] sample_deadline(1,2)] jobs
  show ?thesis by auto
qed

theorem accepted_deploy_settles_witness:
  "\<exists>dep job row. dh_jobs (snd sample_started) = [job] \<and> dep_map (dh_fleet (run_job sample_deploy_env job (snd sample_started))) (d_id dep) = Some row \<and>
     settled_row True dep row"
proof -
  obtain b where b: "sample_started = (Some (Response 202 b), snd sample_started)" using sample_accepted by blast
  have "dh_jobs sample_host = []" "asks_eject sample_deploy_env sample_request sample_host"
    by (simp_all add: sample_host_def asks_eject_def sample_request_def)
  with accepted_deploy_settles [OF sample_deadline(3,4) b sample_deadline(1,2)] show ?thesis by fastforce
qed

end
