(* ===== verification/Bmc_Handlers.thy ===== *)
theory Bmc_Handlers
  imports Deploy_Handlers
begin

text \<open>
  The BMC targets of the fleet server (\<^verbatim>\<open>pkg/handlers/deploy.go\<close>,
  \<^verbatim>\<open>bmc_status.go\<close>, \<^verbatim>\<open>redfish_profiles.go\<close>): create, list,
  update and delete, the hardware inspection and the reachability pings that maintain the
  server-owned status cache of a target, the guarded refresh of all targets, the deployment
  history and the list of quirk profiles.
\<close>

section \<open>The status cache\<close>

abbreviation bmcStatusReachable :: string where "bmcStatusReachable \<equiv> ''reachable''"
abbreviation bmcStatusUnreachable :: string where "bmcStatusUnreachable \<equiv> ''unreachable''"

definition clearBMCStatusCache :: "bmc_target \<Rightarrow> bmc_target" where
  "clearBMCStatusCache t =
     t\<lparr>b_last_status := [], b_last_error := [], b_last_inspect_at := None, b_last_ping_at := None, b_last_model := [],
       b_last_manufacturer := [], b_last_serial := [], b_last_memory_gib := 0, b_last_cpu_count := 0, b_last_features := []\<rparr>"

definition sortedFeatures :: "string list \<Rightarrow> string list" where
  "sortedFeatures features = sort features"

definition persistInspectSuccess ::
  "'w deploy_env \<Rightarrow> bmc_target \<Rightarrow> hardware_info \<Rightarrow> string list \<Rightarrow> 'w deploy_host \<Rightarrow> 'w deploy_host" where
  "persistInspectSuccess e target info features h =
     (let (now, h1) = host_now e h in
      snd (save_target e (target\<lparr>b_last_status := bmcStatusReachable, b_last_error := [], b_last_inspect_at := Some now,
             b_last_model := hw_model info, b_last_manufacturer := hw_manufacturer info, b_last_serial := hw_serial info,
             b_last_memory_gib := hw_memory_gib info, b_last_cpu_count := hw_processors info, b_last_features := features\<rparr>) h1))"

definition persistInspectFailure :: "'w deploy_env \<Rightarrow> bmc_target \<Rightarrow> go_error \<Rightarrow> 'w deploy_host \<Rightarrow> 'w deploy_host" where
  "persistInspectFailure e target cause h =
     (let (now, h1) = host_now e h in
      snd (save_target e (target\<lparr>b_last_status := bmcStatusUnreachable, b_last_error := scrubBMCError cause,
             b_last_inspect_at := Some now\<rparr>) h1))"

text \<open>A failure to connect is \<open>Fail\<close> of the run, a failure to inspect an error inside its value.\<close>

definition InspectHardware :: "'w deploy_env \<Rightarrow> string \<Rightarrow> 'w deploy_host \<Rightarrow> 'w host_reply" where
  "InspectHardware e i h =
     (case get_target e i h of
        Inl _ \<Rightarrow> refuse 404 ''BMC target not found'' h
      | Inr target \<Rightarrow>
          (let cfg = target_config target (30 * second);
               f = dx_fleet e;
               b = fe_bmc f cfg;
               d = NewDeployer (fe_manifest f) (fe_registry f) cfg;
               ((r, _), s1) = on_bmc (with_connection b id d (\<lambda>d1. attempt (InspectSystem b d1))) (dh_fleet h);
               h1 = h\<lparr>dh_fleet := s1\<rparr>
           in case r of
                Fail err \<Rightarrow> refuse 500 (''failed to connect to redfish endpoint: '' @ Error err) (persistInspectFailure e target err h1)
              | Ok (Inl err) \<Rightarrow> refuse 500 (''failed to inspect hardware: '' @ Error err) (persistInspectFailure e target err h1)
              | Ok (Inr info) \<Rightarrow>
                  (let features = sortedFeatures (hw_features info) in
                   accept 200 (InspectBody \<lparr>ir_memory = hw_memory_gib info, ir_processors = hw_processors info,
                       ir_model = hw_model info, ir_manufacturer = hw_manufacturer info, ir_serial = hw_serial info,
                       ir_features = features\<rparr>)
                     (persistInspectSuccess e target info features h1))
              | CutOff \<Rightarrow> (None, h1)))"

section \<open>Pings\<close>

definition pingErrorMessage :: "go_error \<Rightarrow> string" where
  "pingErrorMessage err =
     (let msg = scrubBMCError err in
      if Contains msg ''status 401'' \<or> Contains msg ''status 403''
      then ''ServiceRoot requires authentication; use Inspect for an authenticated check'' else msg)"

text \<open>\<open>None\<close> when the ServiceRoot never ends.\<close>

definition pingTarget :: "'w deploy_env \<Rightarrow> bmc_target \<Rightarrow> 'w deploy_host \<Rightarrow> bmc_status option \<times> 'w deploy_host" where
  "pingTarget e target h =
     (let (now, h1) = host_now e h in
      case Reachable (dx_transport e) (b_endpoint target) (\<not> b_verify_ssl target) (fl_world (dh_fleet h1)) of
        (CutOff, w) \<Rightarrow> (None, h1\<lparr>dh_fleet := (dh_fleet h1)\<lparr>fl_world := w\<rparr>\<rparr>)
      | (r, w) \<Rightarrow>
          (let h2 = h1\<lparr>dh_fleet := (dh_fleet h1)\<lparr>fl_world := w\<rparr>\<rparr>;
               target' = (case r of
                   Fail err \<Rightarrow> target\<lparr>b_last_ping_at := Some now, b_last_status := bmcStatusUnreachable, b_last_error := pingErrorMessage err\<rparr>
                 | _ \<Rightarrow> target\<lparr>b_last_ping_at := Some now, b_last_status := bmcStatusReachable, b_last_error := []\<rparr>)
           in (Some \<lparr>bs_id = b_id target', bs_status = b_last_status target', bs_last_ping_at = b_last_ping_at target',
                     bs_error = b_last_error target'\<rparr>,
               snd (save_target e target' h2))))"

definition PingBMCTarget :: "'w deploy_env \<Rightarrow> string \<Rightarrow> 'w deploy_host \<Rightarrow> 'w host_reply" where
  "PingBMCTarget e i h =
     (case get_target e i h of
        Inl _ \<Rightarrow> refuse 404 ''BMC target not found'' h
      | Inr target \<Rightarrow>
          (case pingTarget e target h of
             (None, h1) \<Rightarrow> (None, h1)
           | (Some resp, h1) \<Rightarrow> accept 200 (PingBody (resp\<lparr>bs_id := []\<rparr>)) h1))"

definition ask_world :: "('w \<Rightarrow> bool \<times> 'w) \<Rightarrow> 'w deploy_host \<Rightarrow> bool \<times> 'w deploy_host" where
  "ask_world f h = (case f (fl_world (dh_fleet h)) of (r, w) \<Rightarrow> (r, h\<lparr>dh_fleet := (dh_fleet h)\<lparr>fl_world := w\<rparr>\<rparr>))"

text \<open>The sweep; \<open>first\<close> says that no target came before.\<close>

fun refresh_targets ::
  "'w deploy_env \<Rightarrow> bool \<Rightarrow> bmc_target list \<Rightarrow> bmc_status list \<Rightarrow> 'w deploy_host \<Rightarrow> bmc_status list option \<times> 'w deploy_host" where
  "refresh_targets e first [] results h = (Some results, h)"
| "refresh_targets e first (t # ts) results h =
     (let (gone, h1) = ask_world (dx_gone e) h in
      if gone then (Some results, h1)
      else let (left, h2) = (if first then (False, h1) else ask_world (dx_pause e) h1) in
        if left then (Some results, h2)
        else case pingTarget e t h2 of
          (None, h3) \<Rightarrow> (None, h3)
        | (Some res, h3) \<Rightarrow> refresh_targets e False ts (results @ [res]) h3)"

definition tryAcquire :: "bool \<Rightarrow> bool \<times> bool" where
  "tryAcquire inflight = (if inflight then (False, inflight) else (True, True))"

definition release_refresh :: "bool \<Rightarrow> bool" where
  "release_refresh inflight = False"

text \<open>The deferred release does not run while the sweep hangs.\<close>

definition RefreshAllBMCTargets :: "'w deploy_env \<Rightarrow> 'w deploy_host \<Rightarrow> 'w host_reply" where
  "RefreshAllBMCTargets e h =
     (case tryAcquire (dh_refreshing h) of
        (False, _) \<Rightarrow> refuse 409 ''a refresh is already in progress'' h
      | (True, g) \<Rightarrow>
          (let h0 = h\<lparr>dh_refreshing := g\<rparr>;
               done_h = (\<lambda>h'. h'\<lparr>dh_refreshing := release_refresh (dh_refreshing h')\<rparr>)
           in case BMCTargetList (fe_targets (dx_fleet e)) (fe_cipher (dx_fleet e)) (fl_targets (dh_fleet h0)) of
                Inl _ \<Rightarrow> refuse 500 ''failed to list BMC targets'' (done_h h0)
              | Inr targets \<Rightarrow>
                  (case refresh_targets e True targets [] h0 of
                     (None, h1) \<Rightarrow> (None, h1)
                   | (Some results, h1) \<Rightarrow> accept 200 (RefreshBody results) (done_h h1))))"

section \<open>Targets\<close>

text \<open>Decoding a JSON object into the row: the tag of the password is \<^verbatim>\<open>json:"-"\<close>.\<close>

definition bind_target :: "bmc_target \<Rightarrow> bmc_target" where
  "bind_target json = json\<lparr>b_password := []\<rparr>"

definition check_url :: "'w deploy_env \<Rightarrow> string \<Rightarrow> string \<Rightarrow> string option" where
  "check_url e what u =
     (if u = [] then None
      else map_option (\<lambda>err. ''invalid '' @ what @ '': '' @ url_error_text (dx_net e) err) (ValidateMediaURL (dx_net e) u))"

definition CreateBMCTarget :: "'w deploy_env \<Rightarrow> bmc_target option \<Rightarrow> 'w deploy_host \<Rightarrow> 'w host_reply" where
  "CreateBMCTarget e body h =
     (case map_option bind_target body of
        None \<Rightarrow> refuse 400 ''invalid request body'' h
      | Some target \<Rightarrow>
          (if b_endpoint target = [] then refuse 400 ''endpoint is required'' h
           else case check_url e ''endpoint'' (b_endpoint target) of
             Some msg \<Rightarrow> refuse 400 msg h
           | None \<Rightarrow>
               (case check_url e ''imageUrl'' (b_image_url target) of
                  Some msg \<Rightarrow> refuse 400 msg h
                | None \<Rightarrow>
                    (let f = dx_fleet e; t = clearBMCStatusCache target; s = dh_fleet h in
                     case BMCTargetCreate (fe_targets f) (fe_cipher f) (fe_nonce f t) (dx_uuid e) t (fl_targets s) of
                       (Inl _, ts) \<Rightarrow> refuse 500 ''failed to create BMC target'' (h\<lparr>dh_fleet := s\<lparr>fl_targets := ts\<rparr>\<rparr>)
                     | (Inr created, ts) \<Rightarrow>
                         accept 201 (DeployBody (TargetBody created)) (h\<lparr>dh_fleet := s\<lparr>fl_targets := ts\<rparr>\<rparr>)))))"

definition ListBMCTargets :: "'w deploy_env \<Rightarrow> 'w deploy_host \<Rightarrow> 'w host_reply" where
  "ListBMCTargets e h =
     (case BMCTargetList (fe_targets (dx_fleet e)) (fe_cipher (dx_fleet e)) (fl_targets (dh_fleet h)) of
        Inl _ \<Rightarrow> refuse 500 ''failed to list BMC targets'' h
      | Inr ts \<Rightarrow> accept 200 (DeployBody (TargetsBody ts)) h)"

definition merge_target :: "bmc_target \<Rightarrow> bmc_target \<Rightarrow> bmc_target" where
  "merge_target existing updated =
     (let t = existing\<lparr>b_name := b_name updated, b_endpoint := b_endpoint updated, b_vendor := b_vendor updated,
                       b_username := b_username updated\<rparr>;
          t' = (if b_password updated \<noteq> [] then t\<lparr>b_password := b_password updated\<rparr> else t)
      in t'\<lparr>b_verify_ssl := b_verify_ssl updated, b_system_id := b_system_id updated, b_image_url := b_image_url updated,
            b_node_id := b_node_id updated, b_eject_after_install := b_eject_after_install updated,
            b_eject_power_cycle := b_eject_power_cycle updated\<rparr>)"

definition UpdateBMCTarget :: "'w deploy_env \<Rightarrow> string \<Rightarrow> bmc_target option \<Rightarrow> 'w deploy_host \<Rightarrow> 'w host_reply" where
  "UpdateBMCTarget e i body h =
     (case get_target e i h of
        Inl _ \<Rightarrow> refuse 404 ''BMC target not found'' h
      | Inr existing \<Rightarrow>
          (case map_option bind_target body of
             None \<Rightarrow> refuse 400 ''invalid request body'' h
           | Some updated \<Rightarrow>
               (case check_url e ''endpoint'' (b_endpoint updated) of
                  Some msg \<Rightarrow> refuse 400 msg h
                | None \<Rightarrow>
                    (case check_url e ''imageUrl'' (b_image_url updated) of
                       Some msg \<Rightarrow> refuse 400 msg h
                     | None \<Rightarrow>
                         (case save_target e (merge_target existing updated) h of
                            (Inl _, h1) \<Rightarrow> refuse 500 ''failed to update BMC target'' h1
                          | (Inr _, h1) \<Rightarrow> accept 200 (DeployBody (TargetBody (merge_target existing updated))) h1)))))"

definition DeleteBMCTarget :: "'w deploy_env \<Rightarrow> string \<Rightarrow> 'w deploy_host \<Rightarrow> 'w host_reply" where
  "DeleteBMCTarget e i h =
     (case BMCTargetDelete (fe_targets (dx_fleet e)) i (fl_targets (dh_fleet h)) of
        (Inl _, ts) \<Rightarrow> refuse 500 ''failed to delete BMC target'' (h\<lparr>dh_fleet := (dh_fleet h)\<lparr>fl_targets := ts\<rparr>\<rparr>)
      | (Inr _, ts) \<Rightarrow> (Some (Response 204 NoContent), h\<lparr>dh_fleet := (dh_fleet h)\<lparr>fl_targets := ts\<rparr>\<rparr>))"

section \<open>History and profiles\<close>

definition ListDeployments :: "'w deploy_env \<Rightarrow> 'w deploy_host \<Rightarrow> 'w host_reply" where
  "ListDeployments e h =
     (case DeploymentList (fe_deployments (dx_fleet e)) (fl_deployments (dh_fleet h)) of
        Inl _ \<Rightarrow> refuse 500 ''failed to list deployments'' h
      | Inr ds \<Rightarrow> accept 200 (DeployBody (DeploymentsBody ds)) h)"

definition GetDeployment :: "'w deploy_env \<Rightarrow> string \<Rightarrow> 'w deploy_host \<Rightarrow> 'w host_reply" where
  "GetDeployment e i h =
     (case dep_by_id (dx_fleet e) i (dh_fleet h) of
        Inl _ \<Rightarrow> refuse 404 ''deployment not found'' h
      | Inr dep \<Rightarrow> accept 200 (DeployBody (DeploymentBody dep)) h)"

definition ListQuirkProfiles :: "'w deploy_env \<Rightarrow> 'w deploy_host \<Rightarrow> 'w host_reply" where
  "ListQuirkProfiles e h =
     accept 200 (ProfilesBody (map (\<lambda>p. (pi_name p, pi_tier p, pi_description p, pi_origin p, pi_firmware p))
       (Profiles (fe_registry (dx_fleet e))))) h"

section \<open>The targets as a map\<close>

text \<open>What reading a target by id yields, and the contract of the store behind it.\<close>

definition target_view :: "'w deploy_env \<Rightarrow> 'w deploy_host \<Rightarrow> string \<Rightarrow> bmc_target option" where
  "target_view e h i = (case get_target e i h of Inl _ \<Rightarrow> None | Inr t \<Rightarrow> Some t)"

definition targets_ok :: "'w deploy_host \<Rightarrow> bool" where
  "targets_ok h = distinct (map b_id (fl_targets (dh_fleet h)))"

definition sealing_ok :: "'w deploy_env \<Rightarrow> bool" where
  "sealing_ok e \<longleftrightarrow> (case fe_cipher (dx_fleet e) of None \<Rightarrow> True
     | Some c \<Rightarrow> aead_opens c \<and> (\<forall>t. \<exists>n. fe_nonce (dx_fleet e) t = Some n \<and> length n = nonce_size c))"

lemma decrypt_id [simp]: "b_id (decryptPassword c t) = b_id t"
  by (simp add: decryptPassword_def split: option.split sum.split)

lemma cleared [simp]:
  "clearBMCStatusCache (t\<lparr>b_last_status := a, b_last_error := b, b_last_inspect_at := c\<rparr>) = clearBMCStatusCache t"
  "clearBMCStatusCache (t\<lparr>b_last_ping_at := c, b_last_status := a, b_last_error := b\<rparr>) = clearBMCStatusCache t"
  "clearBMCStatusCache (t\<lparr>b_last_status := a, b_last_error := b, b_last_inspect_at := c, b_last_model := m,
     b_last_manufacturer := mf, b_last_serial := sn, b_last_memory_gib := mem, b_last_cpu_count := cpu, b_last_features := fs\<rparr>)
   = clearBMCStatusCache t"
  by (simp_all add: clearBMCStatusCache_def)

locale target_store =
  fixes e :: "'w deploy_env"
  assumes engine: "keyed_engine (fe_targets (dx_fleet e)) b_id bmc_clash"
    and sealing: "sealing_ok e"
begin

lemma view_row:
  "targets_ok h \<Longrightarrow>
     target_view e h i = map_option (decryptPassword (fe_cipher (dx_fleet e))) (row_map b_id (fl_targets (dh_fleet h)) i)"
  using keyed_engine.first_map [OF engine, of "fl_targets (dh_fleet h)" i]
  by (simp add: target_view_def BMCTargetGetByID_def targets_ok_def split: option.splits)

lemma sealed_opens:
  "encryptPassword (fe_cipher (dx_fleet e)) (fe_nonce (dx_fleet e) t) t' = Inr row \<Longrightarrow> decryptPassword (fe_cipher (dx_fleet e)) row = t'"
  by (rule decrypt_encrypted [where nonce = "fe_nonce (dx_fleet e) t"])
    (use sealing in \<open>auto simp: sealing_ok_def split: option.splits\<close>)

lemma save_target_view:
  assumes "targets_ok h" and "save_target e t h = (r, h')"
  shows "targets_ok h' \<and> target_view e h' = (if isl r then target_view e h else (target_view e h)(b_id t \<mapsto> t)) \<and>
    dh_fleet h' = (dh_fleet h)\<lparr>fl_targets := fl_targets (dh_fleet h')\<rparr> \<and> h' = h\<lparr>dh_fleet := dh_fleet h'\<rparr>"
proof -
  let ?f = "dx_fleet e"
  show ?thesis
  proof (cases "encryptPassword (fe_cipher ?f) (fe_nonce ?f t) t")
    case (Inl err)
    then show ?thesis using assms by (auto simp: save_target_def BMCTargetUpdate_def Let_def)
  next
    case (Inr row)
    have id: "b_id row = b_id t" using Inr by (auto simp: encryptPassword_def split: option.splits if_splits sum.splits)
    obtain ts where s: "db_save (fe_targets ?f) row (fl_targets (dh_fleet h)) = (Inr (), ts)" "distinct (map b_id ts)"
      "row_map b_id ts = (row_map b_id (fl_targets (dh_fleet h)))(b_id row \<mapsto> row)"
      using keyed_engine.save_map [OF engine] assms(1) unfolding targets_ok_def by blast
    have h': "r = Inr ()" "h' = h\<lparr>dh_fleet := (dh_fleet h)\<lparr>fl_targets := ts\<rparr>\<rparr>"
      using assms(2) Inr s(1) by (auto simp: save_target_def BMCTargetUpdate_def Let_def)
    have ok': "targets_ok h'" using s(2) h'(2) by (simp add: targets_ok_def)
    have "target_view e h' j = ((target_view e h)(b_id t \<mapsto> t)) j" for j
      using view_row [OF ok', of j] view_row [OF assms(1), of j] s(3) h'(2) id sealed_opens [OF Inr] by simp
    then show ?thesis using ok' h' by (simp add: fun_eq_iff)
  qed
qed

lemma view_cong:
  "fl_targets (dh_fleet h1) = fl_targets (dh_fleet h) \<Longrightarrow> target_view e h1 = target_view e h \<and> targets_ok h1 = targets_ok h"
  by (simp add: target_view_def targets_ok_def fun_eq_iff)

lemma view_id: "targets_ok h \<Longrightarrow> target_view e h i = Some t \<Longrightarrow> b_id t = i"
  by (auto simp: view_row dest!: row_map_Some)

text \<open>A target whose cache was rewritten.\<close>

lemma restatus_view:
  assumes "targets_ok h" and "target_view e h i = Some t" and "save_target e t' h0 = (r, h')"
    and "fl_targets (dh_fleet h0) = fl_targets (dh_fleet h)" and "clearBMCStatusCache t' = clearBMCStatusCache t"
  shows "targets_ok h' \<and> map_option clearBMCStatusCache (target_view e h' j) = map_option clearBMCStatusCache (target_view e h j) \<and>
    (if j = i then True else target_view e h' j = target_view e h j)"
proof -
  have id: "b_id t' = i"
    using view_id [OF assms(1,2)] arg_cong [OF assms(5), of b_id] by (simp add: clearBMCStatusCache_def)
  have h0: "targets_ok h0" "target_view e h0 = target_view e h" using view_cong [OF assms(4)] assms(1) by simp_all
  show ?thesis using save_target_view [OF h0(1) assms(3)] h0(2) assms(2,5) id by (auto split: if_splits)
qed

lemma pingTarget_view:
  assumes "targets_ok h" and "target_view e h i = Some t" and "pingTarget e t h = (r, h')"
  shows "targets_ok h' \<and> map_option clearBMCStatusCache (target_view e h' j) = map_option clearBMCStatusCache (target_view e h j) \<and>
    (if j = i then True else target_view e h' j = target_view e h j)"
proof -
  obtain now h1 where n: "host_now e h = (now, h1)" by fastforce
  obtain x w where x: "Reachable (dx_transport e) (b_endpoint t) (\<not> b_verify_ssl t) (fl_world (dh_fleet h1)) = (x, w)" by fastforce
  let ?h2 = "h1\<lparr>dh_fleet := (dh_fleet h1)\<lparr>fl_world := w\<rparr>\<rparr>"
  have rows: "fl_targets (dh_fleet ?h2) = fl_targets (dh_fleet h)" using host_now_fields(3) [OF n] by simp
  show ?thesis
  proof (cases "x = CutOff")
    case True
    then have "h' = ?h2" using assms(3) n x by (simp add: pingTarget_def)
    then show ?thesis using view_cong [OF rows] assms(1) by simp
  next
    case False
    then have "\<exists>t'. h' = snd (save_target e t' ?h2) \<and> clearBMCStatusCache t' = clearBMCStatusCache t"
      using assms(3) n x by (cases x) (auto simp: pingTarget_def Let_def intro!: exI)
    then obtain t' where "h' = snd (save_target e t' ?h2)" "clearBMCStatusCache t' = clearBMCStatusCache t" by blast
    then show ?thesis
      using restatus_view [OF assms(1,2) prod.collapse [symmetric] rows, of t' j] by simp
  qed
qed

lemma InspectHardware_view:
  assumes "targets_ok h"
  shows "targets_ok (snd (InspectHardware e i h)) \<and>
    map_option clearBMCStatusCache (target_view e (snd (InspectHardware e i h)) j) = map_option clearBMCStatusCache (target_view e h j) \<and>
    (if j = i then True else target_view e (snd (InspectHardware e i h)) j = target_view e h j)"
proof (cases "get_target e i h")
  case (Inl err)
  then show ?thesis using assms by (simp add: InspectHardware_def)
next
  case (Inr t)
  then have t: "target_view e h i = Some t" by (simp add: target_view_def)
  let ?cfg = "target_config t (30 * second)"
  let ?b = "fe_bmc (dx_fleet e) ?cfg"
  let ?work = "with_connection ?b id (NewDeployer (fe_manifest (dx_fleet e)) (fe_registry (dx_fleet e)) ?cfg) (\<lambda>d1. attempt (InspectSystem ?b d1))"
  obtain r pr s1 where run: "on_bmc ?work (dh_fleet h) = ((r, pr), s1)" by (metis surj_pair)
  let ?h1 = "h\<lparr>dh_fleet := s1\<rparr>"
  have s1: "fl_targets s1 = fl_targets (dh_fleet h)" using on_bmc_fields(4) [of ?work "dh_fleet h"] run by simp
  obtain now h2 where n: "host_now e ?h1 = (now, h2)" by fastforce
  have rows: "fl_targets (dh_fleet h2) = fl_targets (dh_fleet h)" "fl_targets (dh_fleet ?h1) = fl_targets (dh_fleet h)"
    using host_now_fields(3) [OF n] s1 by simp_all
  have failed: "\<exists>t'. persistInspectFailure e t err ?h1 = snd (save_target e t' h2) \<and> clearBMCStatusCache t' = clearBMCStatusCache t" for err
    unfolding persistInspectFailure_def n Let_def prod.case by (rule exI, rule conjI, rule refl, rule cleared)
  have done_ok: "\<exists>t'. persistInspectSuccess e t info fs ?h1 = snd (save_target e t' h2) \<and> clearBMCStatusCache t' = clearBMCStatusCache t" for info fs
    unfolding persistInspectSuccess_def n Let_def prod.case by (rule exI, rule conjI, rule refl, rule cleared)
  have "(\<exists>t'. snd (InspectHardware e i h) = snd (save_target e t' h2) \<and> clearBMCStatusCache t' = clearBMCStatusCache t) \<or>
      snd (InspectHardware e i h) = ?h1"
    using Inr run failed done_ok by (auto simp: InspectHardware_def Let_def split: result.split sum.split)
  then show ?thesis
  proof (elim disjE exE conjE)
    fix t'
    assume t': "clearBMCStatusCache t' = clearBMCStatusCache t" and "snd (InspectHardware e i h) = snd (save_target e t' h2)"
    then show ?thesis
      using restatus_view [OF assms t prod.collapse [symmetric] rows(1) t', of j] by simp
  next
    assume "snd (InspectHardware e i h) = ?h1"
    then show ?thesis using view_cong [OF rows(2)] assms by simp
  qed
qed

lemma ask_world_rows: "ask_world f h = (r, h1) \<Longrightarrow> fl_targets (dh_fleet h1) = fl_targets (dh_fleet h)"
  by (auto simp: ask_world_def split: prod.splits)

lemma refresh_targets_view:
  assumes "targets_ok h" and "\<forall>t \<in> set ts. target_view e h (b_id t) = Some t" and "distinct (map b_id ts)"
    and "refresh_targets e first ts results h = (r, h')"
  shows "targets_ok h' \<and> map_option clearBMCStatusCache (target_view e h' j) = map_option clearBMCStatusCache (target_view e h j)"
  using assms
proof (induction ts arbitrary: first results h)
  case Nil
  then show ?case by simp
next
  case (Cons t ts)
  obtain gone h1 where g: "ask_world (dx_gone e) h = (gone, h1)" by fastforce
  obtain left h2 where l: "(if first then (False, h1) else ask_world (dx_pause e) h1) = (left, h2)" by fastforce
  have r1: "fl_targets (dh_fleet h1) = fl_targets (dh_fleet h)" by (rule ask_world_rows [OF g])
  have r2: "fl_targets (dh_fleet h2) = fl_targets (dh_fleet h)" using l ask_world_rows [of "dx_pause e" h1 left h2] r1 by (auto split: if_splits)
  note v1 = view_cong [OF r1] and v2 = view_cong [OF r2]
  show ?case
  proof (cases "gone \<or> left")
    case True
    then have "h' = h1 \<or> h' = h2" using Cons.prems(4) g l by (auto split: if_splits)
    then show ?thesis using v1 v2 Cons.prems(1) by auto
  next
    case False
    obtain res h3 where ping: "pingTarget e t h2 = (res, h3)" by fastforce
    have ok2: "targets_ok h2" "target_view e h2 (b_id t) = Some t" using v2 Cons.prems(1,2) by auto
    have p: "targets_ok h3" "\<And>j. map_option clearBMCStatusCache (target_view e h3 j) = map_option clearBMCStatusCache (target_view e h j)"
      "\<And>j. j \<noteq> b_id t \<Longrightarrow> target_view e h3 j = target_view e h j"
      using pingTarget_view [OF ok2 ping] v2 by auto
    show ?thesis
    proof (cases res)
      case None
      then have "h' = h3" using Cons.prems(4) g l False ping by (auto split: if_splits)
      then show ?thesis using p by simp
    next
      case (Some x)
      have rest: "\<forall>u \<in> set ts. target_view e h3 (b_id u) = Some u"
      proof
        fix u assume u: "u \<in> set ts"
        then have "b_id u \<noteq> b_id t" using Cons.prems(3) by (metis distinct.simps(2) imageI list.simps(9) set_map)
        then show "target_view e h3 (b_id u) = Some u" using p(3) Cons.prems(2) u by simp
      qed
      have "refresh_targets e False ts (results @ [x]) h3 = (r, h')"
        using Cons.prems(4) g l False ping Some by (auto split: if_splits)
      then show ?thesis using Cons.IH [OF p(1) rest] Cons.prems(3) p(2) by simp
    qed
  qed
qed

lemma RefreshAll_view:
  assumes "targets_ok h" and "RefreshAllBMCTargets e h = (r, h')"
  shows "map_option clearBMCStatusCache (target_view e h' j) = map_option clearBMCStatusCache (target_view e h j)"
proof (cases "dh_refreshing h")
  case True
  then show ?thesis using assms(2) by (simp add: RefreshAllBMCTargets_def tryAcquire_def)
next
  case False
  let ?h0 = "h\<lparr>dh_refreshing := True\<rparr>"
  have v0: "target_view e ?h0 = target_view e h" "targets_ok ?h0" using view_cong [of ?h0 h] assms(1) by simp_all
  have free: "target_view e (x\<lparr>dh_refreshing := g\<rparr>) = target_view e x" for x g using view_cong [of "x\<lparr>dh_refreshing := g\<rparr>" x] by simp
  show ?thesis
  proof (cases "BMCTargetList (fe_targets (dx_fleet e)) (fe_cipher (dx_fleet e)) (fl_targets (dh_fleet h))")
    case (Inl err)
    then show ?thesis using assms(2) False free v0 by (auto simp: RefreshAllBMCTargets_def tryAcquire_def Let_def)
  next
    case (Inr ts)
    obtain rs h1 where run: "refresh_targets e True ts [] ?h0 = (rs, h1)" by fastforce
    have rel: "reliable_engine (fe_targets (dx_fleet e)) b_id bmc_clash" using engine by (rule keyed_engine.axioms(1))
    obtain rows where rows: "db_find (fe_targets (dx_fleet e)) (\<lambda>_. True) (fl_targets (dh_fleet h)) = Inr rows"
      "ts = map (decryptPassword (fe_cipher (dx_fleet e))) rows"
      using Inr by (auto simp: BMCTargetList_def split: sum.splits)
    have ms: "mset rows = mset (fl_targets (dh_fleet h))"
      using sql_engine.db_find_mset [OF reliable_engine.axioms(1) [OF rel] rows(1)] by simp
    have "mset (map b_id rows) = mset (map b_id (fl_targets (dh_fleet h)))" using ms by simp
    then have "distinct (map b_id rows)" using assms(1) unfolding targets_ok_def by (metis mset_eq_imp_distinct_iff)
    then have d: "distinct (map b_id ts)" by (simp add: rows(2) comp_def)
    have "\<forall>t \<in> set ts. target_view e ?h0 (b_id t) = Some t"
      using view_row [OF v0(2)] row_map_distinct [OF assms(1) [unfolded targets_ok_def]] mset_eq_setD [OF ms]
      by (auto simp: rows(2))
    note sweep = refresh_targets_view [OF v0(2) this d run]
    have "h' = h1 \<or> (\<exists>g. h' = h1\<lparr>dh_refreshing := g\<rparr>)"
      using assms(2) False Inr run by (cases rs) (auto simp: RefreshAllBMCTargets_def tryAcquire_def Let_def)
    then show ?thesis using sweep v0(1) free by auto
  qed
qed

lemma CreateBMCTarget_view:
  assumes "targets_ok h" and "CreateBMCTarget e body h = (Some (Response 201 b), h')"
  shows "\<exists>json t. body = Some json \<and> b = Body (DeployBody (TargetBody t)) \<and> t = (clearBMCStatusCache (bind_target json))\<lparr>b_id := dx_uuid e\<rparr> \<and>
    check_url e ''endpoint'' (b_endpoint t) = None \<and> b_endpoint t \<noteq> [] \<and> check_url e ''imageUrl'' (b_image_url t) = None \<and>
    target_view e h (b_id t) = None \<and> target_view e h' = (target_view e h)(b_id t \<mapsto> t) \<and> targets_ok h'"
proof -
  let ?f = "dx_fleet e"
  obtain json where json: "body = Some json" "b_endpoint json \<noteq> []" "check_url e ''endpoint'' (b_endpoint json) = None"
      "check_url e ''imageUrl'' (b_image_url json) = None"
    using assms(2) by (auto simp: CreateBMCTarget_def bind_target_def split: option.splits if_splits)
  let ?t = "clearBMCStatusCache (bind_target json)"
  let ?u = "?t\<lparr>b_id := dx_uuid e\<rparr>"
  obtain row ts where row: "encryptPassword (fe_cipher ?f) (fe_nonce ?f ?t) ?u = Inr row"
      "db_create (fe_targets ?f) row (fl_targets (dh_fleet h)) = (Inr (), ts)"
      "h' = h\<lparr>dh_fleet := (dh_fleet h)\<lparr>fl_targets := ts\<rparr>\<rparr>" "b = Body (DeployBody (TargetBody ?u))"
    using assms(2) json
    by (auto simp: CreateBMCTarget_def BMCTargetCreate_def bind_target_def Let_def split: sum.splits prod.splits)
  have sql: "sql_engine (fe_targets ?f) b_id bmc_clash"
    by (rule reliable_engine.axioms(1), rule keyed_engine.axioms(1), rule engine)
  have ts: "ts = fl_targets (dh_fleet h) @ [row]" "\<forall>y \<in> set (fl_targets (dh_fleet h)). \<not> bmc_clash y row"
    using sql_engine.db_create_Inr [OF sql row(2)] by auto
  have open_row: "decryptPassword (fe_cipher ?f) row = ?u" by (rule sealed_opens [OF row(1)])
  have id: "b_id row = dx_uuid e" using arg_cong [OF open_row, of b_id] by simp
  have fresh: "\<forall>y \<in> set (fl_targets (dh_fleet h)). b_id y \<noteq> b_id row" using ts(2) by (simp add: bmc_clash_def)
  have ok': "targets_ok h'" using assms(1) fresh by (auto simp: targets_ok_def row(3) ts(1))
  have "target_view e h' j = ((target_view e h)(dx_uuid e \<mapsto> ?u)) j" for j
    using view_row [OF ok', of j] view_row [OF assms(1), of j] row_map_append [OF fresh] open_row id by (simp add: row(3) ts(1))
  then have view: "target_view e h' = (target_view e h)(dx_uuid e \<mapsto> ?u)" by (simp add: fun_eq_iff)
  have "target_view e h (dx_uuid e) = None"
    using view_row [OF assms(1)] fresh id row_map_None [of b_id "fl_targets (dh_fleet h)" "dx_uuid e"] by simp
  then show ?thesis using json row(4) view ok'
    by (intro exI [of _ json] exI [of _ ?u]) (simp add: clearBMCStatusCache_def bind_target_def)
qed

lemma UpdateBMCTarget_view:
  assumes "targets_ok h" and "UpdateBMCTarget e i body h = (r, h')"
  shows "targets_ok h' \<and> (target_view e h' = target_view e h \<or>
    (\<exists>old json. target_view e h i = Some old \<and> body = Some json \<and> check_url e ''endpoint'' (b_endpoint json) = None \<and>
       check_url e ''imageUrl'' (b_image_url json) = None \<and>
       target_view e h' = (target_view e h)(i \<mapsto> merge_target old (bind_target json))))"
proof (cases "\<exists>old json. get_target e i h = Inr old \<and> body = Some json \<and> check_url e ''endpoint'' (b_endpoint json) = None \<and>
    check_url e ''imageUrl'' (b_image_url json) = None")
  case True
  then obtain old json where t: "get_target e i h = Inr old" "body = Some json" "check_url e ''endpoint'' (b_endpoint json) = None"
    "check_url e ''imageUrl'' (b_image_url json) = None" by blast
  let ?m = "merge_target old (bind_target json)"
  obtain res h1 where save: "save_target e ?m h = (res, h1)" by fastforce
  have old: "target_view e h i = Some old" using t(1) by (simp add: target_view_def)
  have id: "b_id ?m = i" using view_id [OF assms(1) old] by (simp add: merge_target_def Let_def)
  have "h' = h1" using assms(2) t save by (auto simp: UpdateBMCTarget_def bind_target_def split: sum.splits)
  then show ?thesis using save_target_view [OF assms(1) save] t old id by (auto split: if_splits)
next
  case False
  then have "h' = h"
    using assms(2) by (auto simp: UpdateBMCTarget_def bind_target_def split: sum.splits option.splits)
  then show ?thesis using assms(1) by simp
qed

end

lemma target_store_of:
  "keyed_engine (fe_targets (dx_fleet e)) b_id bmc_clash \<Longrightarrow> sealing_ok e \<Longrightarrow> target_store e"
  by (rule target_store.intro)

interpretation targets_in_memory: target_store
  "e\<lparr>dx_fleet := (dx_fleet e)\<lparr>fe_targets := mem_engine b_id bmc_clash, fe_cipher := None\<rparr>\<rparr>" for e :: "'w deploy_env"
  by (rule target_store_of) (simp_all add: targets.keyed_engine_axioms sealing_ok_def)

section \<open>Properties\<close>

text \<open>The server-owned columns.\<close>

definition owned_columns :: "bmc_target \<Rightarrow> string \<times> string \<times> instant option \<times> instant option \<times> (string \<times> string \<times> string \<times> int \<times> int) \<times> string list" where
  "owned_columns t = (b_last_status t, b_last_error t, b_last_inspect_at t, b_last_ping_at t,
     (b_last_model t, b_last_manufacturer t, b_last_serial t, b_last_memory_gib t, b_last_cpu_count t), b_last_features t)"

text \<open>
  C26. A client can neither forge a status nor save an unguarded address: a target is created with an
  empty status cache under a new id, with an endpoint and an image URL that pass the guard
  against internal addresses, and no other target changes; an update leaves every status cache
  as it was and changes at most the target it names, to guarded addresses or to none.
\<close>
theorem clients_never_write_status:
  assumes "keyed_engine (fe_targets (dx_fleet e)) b_id bmc_clash" and "sealing_ok e" and "targets_ok h"
    and "CreateBMCTarget e body h = (Some (Response 201 b), h1)" and "UpdateBMCTarget e i body' h = (r, h2)"
  shows "(\<exists>t. b = Body (DeployBody (TargetBody t)) \<and> owned_columns t = ([], [], None, None, ([], [], [], 0, 0), []) \<and>
      ValidateMediaURL (dx_net e) (b_endpoint t) = None \<and> check_url e ''imageUrl'' (b_image_url t) = None \<and>
      target_view e h (b_id t) = None \<and> target_view e h1 = (target_view e h)(b_id t \<mapsto> t)) \<and>
    map_option owned_columns (target_view e h2 j) = map_option owned_columns (target_view e h j) \<and>
    (if target_view e h2 j = target_view e h j then True
     else j = i \<and> (\<exists>t. target_view e h2 j = Some t \<and> check_url e ''endpoint'' (b_endpoint t) = None \<and>
       check_url e ''imageUrl'' (b_image_url t) = None))"
proof -
  note st = target_store_of [OF assms(1,2)]
  have keep: "owned_columns (merge_target old json) = owned_columns old" "b_endpoint (merge_target old json) = b_endpoint json"
    "b_image_url (merge_target old json) = b_image_url json" for old json
    by (simp_all add: merge_target_def owned_columns_def Let_def)
  have bound: "b_endpoint (bind_target json) = b_endpoint json" "b_image_url (bind_target json) = b_image_url json" for json
    by (simp_all add: bind_target_def)
  obtain t json where t: "b = Body (DeployBody (TargetBody t))" "t = (clearBMCStatusCache (bind_target json))\<lparr>b_id := dx_uuid e\<rparr>"
    "check_url e ''endpoint'' (b_endpoint t) = None" "b_endpoint t \<noteq> []" "check_url e ''imageUrl'' (b_image_url t) = None"
    "target_view e h (b_id t) = None" "target_view e h1 = (target_view e h)(b_id t \<mapsto> t)"
    using target_store.CreateBMCTarget_view [OF st assms(3,4)] by blast
  have "owned_columns t = ([], [], None, None, ([], [], [], 0, 0), [])"
    by (simp add: t(2) owned_columns_def clearBMCStatusCache_def)
  moreover have "ValidateMediaURL (dx_net e) (b_endpoint t) = None" using t(3,4) by (simp add: check_url_def)
  moreover have "map_option owned_columns (target_view e h2 j) = map_option owned_columns (target_view e h j) \<and>
    (if target_view e h2 j = target_view e h j then True
     else j = i \<and> (\<exists>t. target_view e h2 j = Some t \<and> check_url e ''endpoint'' (b_endpoint t) = None \<and>
       check_url e ''imageUrl'' (b_image_url t) = None))"
    using target_store.UpdateBMCTarget_view [OF st assms(3,5)] keep bound by (auto split: if_splits)
  ultimately show ?thesis using t by blast
qed

text \<open>
  A check writes nothing but the status cache: whatever the BMC answers, after an inspection, a
  ping or a refresh of all targets every target is what it was up to its status columns, and an
  inspection or a ping changes no target but its own.
\<close>
theorem checks_write_only_status:
  assumes "keyed_engine (fe_targets (dx_fleet e)) b_id bmc_clash" and "sealing_ok e" and "targets_ok h"
    and "InspectHardware e i h = (r1, h1)" and "PingBMCTarget e i h = (r2, h2)" and "RefreshAllBMCTargets e h = (r3, h3)"
  shows "map_option clearBMCStatusCache (target_view e h1 j) = map_option clearBMCStatusCache (target_view e h j) \<and>
    map_option clearBMCStatusCache (target_view e h2 j) = map_option clearBMCStatusCache (target_view e h j) \<and>
    map_option clearBMCStatusCache (target_view e h3 j) = map_option clearBMCStatusCache (target_view e h j) \<and>
    (if j = i then True else target_view e h1 j = target_view e h j \<and> target_view e h2 j = target_view e h j)"
proof -
  note st = target_store_of [OF assms(1,2)]
  have inspect: "h1 = snd (InspectHardware e i h)" using assms(4) by simp
  have ping: "map_option clearBMCStatusCache (target_view e h2 j) = map_option clearBMCStatusCache (target_view e h j) \<and>
    (if j = i then True else target_view e h2 j = target_view e h j)"
  proof (cases "get_target e i h")
    case (Inl err)
    then show ?thesis using assms(5) by (simp add: PingBMCTarget_def)
  next
    case (Inr t)
    obtain x h' where p: "pingTarget e t h = (x, h')" by fastforce
    have "h2 = h'" using assms(5) Inr p by (auto simp: PingBMCTarget_def split: option.splits)
    moreover have "target_view e h i = Some t" using Inr by (simp add: target_view_def)
    ultimately show ?thesis using target_store.pingTarget_view [OF st assms(3) _ p] by blast
  qed
  show ?thesis
    using target_store.InspectHardware_view [OF st assms(3), of i j] ping target_store.RefreshAll_view [OF st assms(3,6), of j]
    unfolding inspect by auto
qed

text \<open>
  The password of a saved target never comes from a client: it is not decoded from the body of a
  create or an update, so that a target created over the API has none.
\<close>

lemma created_target_has_no_password:
  assumes "keyed_engine (fe_targets (dx_fleet e)) b_id bmc_clash" and "sealing_ok e" and "targets_ok h"
    and "CreateBMCTarget e body h = (Some (Response 201 (Body (DeployBody (TargetBody t)))), h')"
  shows "b_password t = []"
  using target_store.CreateBMCTarget_view [OF target_store_of [OF assms(1,2)] assms(3,4)]
  by (auto simp: clearBMCStatusCache_def bind_target_def)

lemma update_keeps_password: "b_password (merge_target old (bind_target json)) = b_password old"
  by (simp add: merge_target_def bind_target_def Let_def)

text \<open>An update may clear the endpoint, which a create insists on.\<close>

lemma update_accepts_empty_endpoint: "check_url e ''endpoint'' [] = None"
  by (simp add: check_url_def)

text \<open>
  The sweep saves the row it listed at its start: a target deleted while the sweep is at another
  one is saved back when its turn comes.
\<close>

lemma refresh_restores_deleted_target:
  assumes "keyed_engine (fe_targets (dx_fleet e)) b_id bmc_clash" and "sealing_ok e" and "targets_ok h"
    and "target_view e h (b_id t) = None" and "fe_cipher (dx_fleet e) = None"
    and "pingTarget e t h = (Some res, h')"
  shows "map_option clearBMCStatusCache (target_view e h' (b_id t)) = Some (clearBMCStatusCache t)"
proof -
  note st = target_store_of [OF assms(1,2)]
  obtain now h1 where n: "host_now e h = (now, h1)" by fastforce
  obtain x w where x: "Reachable (dx_transport e) (b_endpoint t) (\<not> b_verify_ssl t) (fl_world (dh_fleet h1)) = (x, w)" by fastforce
  let ?h2 = "h1\<lparr>dh_fleet := (dh_fleet h1)\<lparr>fl_world := w\<rparr>\<rparr>"
  have "\<exists>t'. h' = snd (save_target e t' ?h2) \<and> clearBMCStatusCache t' = clearBMCStatusCache t \<and> b_id t' = b_id t"
    using assms(6) n x by (cases x) (auto simp: pingTarget_def Let_def intro!: exI)
  then obtain t' where t': "h' = snd (save_target e t' ?h2)" "clearBMCStatusCache t' = clearBMCStatusCache t" "b_id t' = b_id t" by blast
  have ok: "targets_ok ?h2" using host_now_fields(3) [OF n] assms(3) by (simp add: targets_ok_def)
  obtain ts where "db_save (fe_targets (dx_fleet e)) t' (fl_targets (dh_fleet ?h2)) = (Inr (), ts)"
    using keyed_engine.save_map [OF assms(1) ok [unfolded targets_ok_def]] by blast
  then have "\<not> isl (fst (save_target e t' ?h2))"
    using assms(5) by (simp add: save_target_def BMCTargetUpdate_def encryptPassword_def Let_def)
  then show ?thesis
    using target_store.save_target_view [OF st ok prod.collapse [symmetric], of t'] t' by simp
qed

text \<open>One refresh at a time: between two releases at most one caller wins the guard.\<close>

datatype guard_op = TryAcquire | ReleaseGuard

fun guard_step :: "guard_op \<Rightarrow> bool \<Rightarrow> bool \<times> bool" where
  "guard_step TryAcquire g = tryAcquire g"
| "guard_step ReleaseGuard g = (False, release_refresh g)"

interpretation refresh_guard: compare_and_set guard_step "\<lambda>g. \<not> g" "\<lambda>op won. won" "\<lambda>op. op = ReleaseGuard"
proof (unfold_locales, goal_cases)
  case (1 op s out s')
  then show ?case by (cases op) (auto simp: tryAcquire_def split: if_splits)
next
  case (2 op s out s')
  then show ?case by (cases op) (auto simp: tryAcquire_def split: if_splits)
qed

lemma one_refresh_at_a_time:
  "ReleaseGuard \<notin> set ops \<Longrightarrow> run_ops guard_step ops g = (log, g') \<Longrightarrow> winners (\<lambda>op won. won) log \<le> 1"
  using refresh_guard.at_most_one_winner [of ops g log g'] by blast

lemma refresh_refused_while_running:
  "dh_refreshing h \<Longrightarrow> RefreshAllBMCTargets e h = refuse 409 ''a refresh is already in progress'' h"
  by (simp add: RefreshAllBMCTargets_def tryAcquire_def)

text \<open>The sample fleet, with its one target.\<close>

lemma sample_targets:
  "keyed_engine (fe_targets (dx_fleet sample_deploy_env)) b_id bmc_clash" "sealing_ok sample_deploy_env" "targets_ok sample_host"
  using targets.keyed_engine_axioms
  by (simp_all add: sample_deploy_env_def sample_fleet_env_def sealing_ok_def targets_ok_def sample_host_def sample_fleet_def)

abbreviation sample_created :: "nat host_reply" where
  "sample_created \<equiv> CreateBMCTarget sample_deploy_env (Some (sample_target\<lparr>b_last_status := ''reachable''\<rparr>)) sample_host"

theorem clients_never_write_status_witness:
  "\<exists>t. target_view sample_deploy_env (snd sample_created) (b_id t) = Some t \<and> b_last_status t = [] \<and>
     ValidateMediaURL (dx_net sample_deploy_env) (b_endpoint t) = None"
proof -
  have "map_option status (fst sample_created) = Some 201" by code_simp
  then obtain x where "fst sample_created = Some x" "status x = 201" by auto
  then obtain b where b: "sample_created = (Some (Response 201 b), snd sample_created)" by (metis prod.collapse response.collapse)
  from clients_never_write_status [OF sample_targets b prod.collapse [symmetric], of "''b1''" None, THEN conjunct1]
  show ?thesis by (auto simp: owned_columns_def)
qed

theorem checks_write_only_status_witness:
  "map_option b_last_status (target_view sample_deploy_env (snd (PingBMCTarget sample_deploy_env ''b1'' sample_host)) ''b1'') = Some ''unreachable'' \<and>
   map_option b_endpoint (target_view sample_deploy_env (snd (PingBMCTarget sample_deploy_env ''b1'' sample_host)) ''b1'') = Some ''https://10.0.0.1''"
proof -
  let ?h = "snd (PingBMCTarget sample_deploy_env ''b1'' sample_host)"
  have pinged: "map_option b_last_status (target_view sample_deploy_env ?h ''b1'') = Some ''unreachable''"
    "map_option b_endpoint (target_view sample_deploy_env sample_host ''b1'') = Some ''https://10.0.0.1''" by code_simp+
  have same: "map_option clearBMCStatusCache (target_view sample_deploy_env ?h ''b1'') =
      map_option clearBMCStatusCache (target_view sample_deploy_env sample_host ''b1'')"
    using checks_write_only_status [OF sample_targets prod.collapse [symmetric] prod.collapse [symmetric] prod.collapse [symmetric],
        of "''b1''" "''b1''"] by simp
  have "b_endpoint (clearBMCStatusCache t) = b_endpoint t" for t by (simp add: clearBMCStatusCache_def)
  then have "map_option b_endpoint x = map_option b_endpoint (map_option clearBMCStatusCache x)" for x
    by (cases x) simp_all
  then show ?thesis using pinged same by metis
qed

end
