(* ===== verification/Settings_Handlers.thy ===== *)
theory Settings_Handlers
  imports Deployment_Store Keyed_Table Iso_Serve
begin

text \<open>
  The settings endpoints (\<^verbatim>\<open>pkg/handlers/settings.go\<close>): the registration token and
  its rotation, and the image-source settings a deploy reads. The token is the one all handlers
  share; the token file is its content, \<open>None\<close> when there is none.
\<close>

section \<open>State and environment\<close>

record settings_host =
  sh_token :: string
  sh_token_file :: "string option"
  sh_settings :: settings

text \<open>
  \<open>sx_token_file\<close> is the path, empty when tokens are not persisted; \<open>sx_writable\<close> says whether the
  file can be written. \<open>sx_iso\<close> is the listener configured at launch.
\<close>

record settings_env =
  sx_store :: "setting engine option"
  sx_token_file :: string
  sx_writable :: bool
  sx_uuid :: uuid
  sx_now :: instant
  sx_net :: net
  sx_iso :: "iso_server option"
  sx_seed_url :: string

record image_source_reply =
  is_default_url :: string
  is_configured :: bool
  is_enabled :: bool
  is_advertised :: string
  is_uses_tls :: bool

record image_source_update =
  iu_default_url :: "string option"
  iu_enabled :: "bool option"
  iu_advertised :: "string option"

datatype settings_body = TokenBody string | ImageSourceBody image_source_reply

type_synonym settings_reply = "settings_body response \<times> settings_host"

abbreviation DefaultImageURLKey :: string where "DefaultImageURLKey \<equiv> ''imageSource.defaultImageURL''"
abbreviation LocalServeEnabledKey :: string where "LocalServeEnabledKey \<equiv> ''imageSource.localServeEnabled''"
abbreviation AdvertisedURLKey :: string where "AdvertisedURLKey \<equiv> ''imageSource.localServeAdvertisedURL''"

section \<open>The registration token\<close>

definition GetRegistrationToken :: "settings_host \<Rightarrow> settings_reply" where
  "GetRegistrationToken h = (Response 200 (Body (TokenBody (sh_token h))), h)"

text \<open>The part under the lock, and the write after it.\<close>

definition rotate_token :: "uuid \<Rightarrow> settings_host \<Rightarrow> settings_host" where
  "rotate_token u h = h\<lparr>sh_token := u\<rparr>"

definition persist_token :: "settings_env \<Rightarrow> string \<Rightarrow> settings_host \<Rightarrow> settings_host" where
  "persist_token e token h =
     (if sx_token_file e \<noteq> [] \<and> sx_writable e then h\<lparr>sh_token_file := Some token\<rparr> else h)"

definition RotateRegistrationToken :: "settings_env \<Rightarrow> settings_host \<Rightarrow> settings_reply" where
  "RotateRegistrationToken e h =
     (let h1 = rotate_token (sx_uuid e) h; token = sh_token h1
      in (Response 200 (Body (TokenBody token)), persist_token e token h1))"

section \<open>The image source\<close>

definition lookup_setting :: "(string \<rightharpoonup> string) \<Rightarrow> string \<Rightarrow> string" where
  "lookup_setting m k = (case m k of Some v \<Rightarrow> v | None \<Rightarrow> [])"

definition image_source_of :: "settings_env \<Rightarrow> (string \<rightharpoonup> string) \<Rightarrow> image_source_reply" where
  "image_source_of e m =
     \<lparr>is_default_url = lookup_setting m DefaultImageURLKey, is_configured = (sx_iso e \<noteq> None),
      is_enabled = (lookup_setting m LocalServeEnabledKey = ''true''),
      is_advertised = (let a = lookup_setting m AdvertisedURLKey in if a = [] then sx_seed_url e else a),
      is_uses_tls = (case sx_iso e of None \<Rightarrow> False | Some srv \<Rightarrow> UsesTLS srv)\<rparr>"

definition GetImageSource :: "settings_env \<Rightarrow> settings_host \<Rightarrow> settings_reply" where
  "GetImageSource e h =
     (case sx_store e of
        None \<Rightarrow> (Response 200 (Body (ImageSourceBody (image_source_of e Map.empty))), h)
      | Some eng \<Rightarrow>
          (case SettingGetAll eng (sh_settings h) of
             Inl _ \<Rightarrow> (Response 500 (ErrorBody ''failed to read settings''), h)
           | Inr m \<Rightarrow> (Response 200 (Body (ImageSourceBody (image_source_of e m))), h)))"

definition getImageSourceLocked :: "settings_env \<Rightarrow> setting engine \<Rightarrow> settings_host \<Rightarrow> settings_reply" where
  "getImageSourceLocked e eng h =
     (case SettingGetAll eng (sh_settings h) of
        Inl _ \<Rightarrow> (Response 500 (ErrorBody ''failed to read settings''), h)
      | Inr m \<Rightarrow> (Response 200 (Body (ImageSourceBody (image_source_of e m))), h))"

text \<open>The message for a URL that is given, not empty and not allowed.\<close>

definition bad_url :: "settings_env \<Rightarrow> string \<Rightarrow> string option \<Rightarrow> string option" where
  "bad_url e what u =
     (case u of
        None \<Rightarrow> None
      | Some v \<Rightarrow>
          (if v = [] then None
           else map_option (\<lambda>err. ''invalid '' @ what @ '': '' @ url_error_text (sx_net e) err) (ValidateMediaURL (sx_net e) v)))"

text \<open>A field that is absent is not written; \<open>Inl\<close> names the field that could not be.\<close>

definition put_setting ::
  "settings_env \<Rightarrow> setting engine \<Rightarrow> string \<Rightarrow> string \<Rightarrow> string option \<Rightarrow> settings_host \<Rightarrow> (string + unit) \<times> settings_host" where
  "put_setting e eng what k v h =
     (case v of
        None \<Rightarrow> (Inr (), h)
      | Some x \<Rightarrow>
          (case SettingSet eng (sx_now e) k x (sh_settings h) of
             (Inl _, t) \<Rightarrow> (Inl (''failed to persist '' @ what), h\<lparr>sh_settings := t\<rparr>)
           | (Inr _, t) \<Rightarrow> (Inr (), h\<lparr>sh_settings := t\<rparr>)))"

definition UpdateImageSource :: "settings_env \<Rightarrow> image_source_update option \<Rightarrow> settings_host \<Rightarrow> settings_reply" where
  "UpdateImageSource e body h =
     (case body of
        None \<Rightarrow> (Response 400 (ErrorBody ''invalid request body''), h)
      | Some req \<Rightarrow>
      case sx_store e of
        None \<Rightarrow> (Response 503 (ErrorBody ''settings store is not configured on this server''), h)
      | Some eng \<Rightarrow>
      case bad_url e ''defaultImageURL'' (iu_default_url req) of
        Some msg \<Rightarrow> (Response 400 (ErrorBody msg), h)
      | None \<Rightarrow>
      case bad_url e ''localServeAdvertisedURL'' (iu_advertised req) of
        Some msg \<Rightarrow> (Response 400 (ErrorBody msg), h)
      | None \<Rightarrow>
      if iu_enabled req = Some True \<and> sx_iso e = None
      then (Response 409 (ErrorBody ''cannot enable local serving: no --redfish-serve-addr configured at launch''), h)
      else case put_setting e eng ''defaultImageURL'' DefaultImageURLKey (iu_default_url req) h of
        (Inl msg, h1) \<Rightarrow> (Response 500 (ErrorBody msg), h1)
      | (Inr _, h1) \<Rightarrow>
      case put_setting e eng ''localServeEnabled'' LocalServeEnabledKey
             (map_option (\<lambda>on. if on then ''true'' else ''false'') (iu_enabled req)) h1 of
        (Inl msg, h2) \<Rightarrow> (Response 500 (ErrorBody msg), h2)
      | (Inr _, h2) \<Rightarrow>
      case put_setting e eng ''localServeAdvertisedURL'' AdvertisedURLKey (iu_advertised req) h2 of
        (Inl msg, h3) \<Rightarrow> (Response 500 (ErrorBody msg), h3)
      | (Inr _, h3) \<Rightarrow> getImageSourceLocked e eng h3)"

section \<open>The settings as a map\<close>

definition value_map :: "settings_host \<Rightarrow> string \<rightharpoonup> string" where
  "value_map h k = map_option s_value (row_map s_key (sh_settings h) k)"

definition settings_ok :: "settings_host \<Rightarrow> bool" where
  "settings_ok h = distinct (map s_key (sh_settings h))"

lemma foldl_values:
  assumes "\<And>out s. put out s = out(s_key s \<mapsto> s_value s)" and "distinct (map s_key rows)"
  shows "foldl put m rows k = (case row_map s_key rows k of Some s \<Rightarrow> Some (s_value s) | None \<Rightarrow> m k)"
  using assms(2)
proof (induction rows arbitrary: m)
  case (Cons s rows)
  have "s_key s \<notin> s_key ` set rows" using Cons.prems by simp
  then have none: "row_map s_key rows (s_key s) = None" unfolding row_map_None by (metis imageI)
  have step: "foldl put m (s # rows) k =
      (case row_map s_key rows k of Some t \<Rightarrow> Some (s_value t) | None \<Rightarrow> put m s k)"
    unfolding foldl_Cons using Cons.prems by (intro Cons.IH) simp
  have at: "put m s k = (if k = s_key s then Some (s_value s) else m k)" by (simp add: assms(1))
  have first: "row_map s_key (s # rows) k = (if k = s_key s then Some s else row_map s_key rows k)" by simp
  show ?case unfolding step at first using none by (cases "k = s_key s") (auto split: option.split)
qed simp

locale settings_store = sql_engine eng s_key setting_clash for eng :: "setting engine"
begin

lemma get_all:
  assumes "settings_ok h" and "SettingGetAll eng (sh_settings h) = Inr m"
  shows "m = value_map h"
proof -
  obtain rows where f: "db_find eng (\<lambda>_. True) (sh_settings h) = Inr rows"
      "m = foldl (\<lambda>out s. out(s_key s \<mapsto> s_value s)) Map.empty rows"
    using assms(2) by (auto simp: SettingGetAll_def split: sum.splits)
  have ms: "mset rows = mset (sh_settings h)" using db_find_mset [OF f(1)] by simp
  have "mset (map s_key rows) = mset (map s_key (sh_settings h))" using ms by simp
  then have d: "distinct (map s_key rows)" using assms(1) unfolding settings_ok_def by (metis mset_eq_imp_distinct_iff)
  have same: "row_map s_key rows k = row_map s_key (sh_settings h) k" for k
  proof (cases "row_map s_key rows k")
    case None
    then have "row_map s_key (sh_settings h) k = None" using mset_eq_setD [OF ms] by (simp add: row_map_None)
    then show ?thesis using None by simp
  next
    case (Some s)
    then have "s \<in> set (sh_settings h)" "s_key s = k" using row_map_Some mset_eq_setD [OF ms] by fastforce+
    then show ?thesis using Some row_map_distinct [OF assms(1) [unfolded settings_ok_def]] by metis
  qed
  show ?thesis
    unfolding f(2) by (rule ext) (auto simp: foldl_values [OF refl d] same value_map_def split: option.splits)
qed

lemma put_map:
  assumes "settings_ok h" and "put_setting e eng what k v h = (r, h')"
  shows "settings_ok h' \<and> sh_token h' = sh_token h \<and> sh_token_file h' = sh_token_file h \<and>
    (r = Inr () \<and> value_map h' = (case v of None \<Rightarrow> value_map h | Some x \<Rightarrow> (value_map h)(k \<mapsto> x)) \<or>
     v \<noteq> None \<and> isl r \<and> value_map h' = value_map h \<and> \<not> reliable_engine eng s_key setting_clash)"
proof (cases v)
  case (Some x)
  let ?s = "\<lparr>s_key = k, s_value = x, s_updated_at = sx_now e\<rparr>"
  have d: "distinct (map s_key (sh_settings h))" using assms(1) by (simp add: settings_ok_def)
  obtain out t where save: "db_save eng ?s (sh_settings h) = (out, t)" by fastforce
  show ?thesis
  proof (cases out)
    case (Inl err)
    have "\<not> reliable_engine eng s_key setting_clash"
    proof
      assume "reliable_engine eng s_key setting_clash"
      then have "keyed_engine eng s_key setting_clash" by (rule keyed_engineI) (simp add: setting_clash_def)
      from keyed_engine.save_map [OF this d, of ?s] show False using save Inl by auto
    qed
    then show ?thesis
      using assms save Inl Some db_save_Inl [of eng ?s "sh_settings h" err t]
      by (auto simp: put_setting_def SettingSet_def settings_ok_def value_map_def)
  next
    case (Inr u)
    then have "t = save_row s_key ?s (sh_settings h)" using save db_save_Inr by blast
    then show ?thesis
      using assms(2) save Inr Some distinct_save [OF d, of ?s] row_map_save [OF d, of ?s]
      by (auto simp: put_setting_def SettingSet_def settings_ok_def value_map_def fun_eq_iff)
  qed
qed (use assms in \<open>simp add: put_setting_def\<close>)

end

interpretation settings_in_memory: settings_store "mem_engine s_key setting_clash"
  by (rule settings_store.intro) (rule mem_sql)

section \<open>Properties\<close>

text \<open>What a request asks to be written, in the order of the handler, and when it is taken.\<close>

definition asked_writes :: "image_source_update \<Rightarrow> (string \<times> string) list" where
  "asked_writes req =
     (case iu_default_url req of None \<Rightarrow> [] | Some u \<Rightarrow> [(DefaultImageURLKey, u)]) @
     (case iu_enabled req of None \<Rightarrow> [] | Some on \<Rightarrow> [(LocalServeEnabledKey, if on then ''true'' else ''false'')]) @
     (case iu_advertised req of None \<Rightarrow> [] | Some u \<Rightarrow> [(AdvertisedURLKey, u)])"

definition write_values :: "(string \<times> string) list \<Rightarrow> (string \<rightharpoonup> string) \<Rightarrow> string \<rightharpoonup> string" where
  "write_values ws m = foldl (\<lambda>m (k, v). m(k \<mapsto> v)) m ws"

definition may_update :: "settings_env \<Rightarrow> image_source_update \<Rightarrow> bool" where
  "may_update e req \<longleftrightarrow>
     (\<forall>u \<in> set_option (iu_default_url req) \<union> set_option (iu_advertised req). u = [] \<or> ValidateMediaURL (sx_net e) u = None) \<and>
     (iu_enabled req = Some True \<longrightarrow> sx_iso e \<noteq> None)"

definition source_shows :: "settings_env \<Rightarrow> (string \<rightharpoonup> string) \<Rightarrow> image_source_reply \<Rightarrow> bool" where
  "source_shows e m src \<longleftrightarrow>
     (let setting = (\<lambda>k. case m k of Some v \<Rightarrow> v | None \<Rightarrow> []) in
      is_default_url src = setting DefaultImageURLKey \<and> (is_enabled src \<longleftrightarrow> m LocalServeEnabledKey = Some ''true'') \<and>
      is_advertised src = (if setting AdvertisedURLKey = [] then sx_seed_url e else setting AdvertisedURLKey) \<and>
      (is_configured src \<longleftrightarrow> sx_iso e \<noteq> None) \<and> (is_uses_tls src \<longleftrightarrow> (\<exists>srv. sx_iso e = Some srv \<and> UsesTLS srv)))"

lemma source_of_shows: "source_shows e m (image_source_of e m)"
  by (auto simp: source_shows_def image_source_of_def lookup_setting_def Let_def split: option.splits)

lemma bad_url_None: "bad_url e what u = None \<longleftrightarrow> (\<forall>v. u = Some v \<longrightarrow> v = [] \<or> ValidateMediaURL (sx_net e) v = None)"
  by (auto simp: bad_url_def split: option.splits)

context settings_store
begin

text \<open>The writes, one after the other, as far as the store takes them.\<close>

lemma puts:
  assumes "settings_ok h" and "sx_store e = Some eng" and "may_update e req" and "UpdateImageSource e (Some req) h = (r, h')"
  shows "settings_ok h' \<and> sh_token h' = sh_token h \<and> sh_token_file h' = sh_token_file h \<and>
    (\<exists>n \<le> length (asked_writes req). value_map h' = write_values (take n (asked_writes req)) (value_map h) \<and>
      (n = length (asked_writes req) \<and> (r, h') = getImageSourceLocked e eng h' \<or>
       status r = 500 \<and> \<not> reliable_engine eng s_key setting_clash))"
proof -
  obtain r1 h1 where 1: "put_setting e eng ''defaultImageURL'' DefaultImageURLKey (iu_default_url req) h = (r1, h1)" by fastforce
  note p1 = put_map [OF assms(1) 1]
  obtain r2 h2 where 2: "put_setting e eng ''localServeEnabled'' LocalServeEnabledKey
      (map_option (\<lambda>on. if on then ''true'' else ''false'') (iu_enabled req)) h1 = (r2, h2)" by fastforce
  have "settings_ok h1" using p1 by blast
  note p2 = put_map [OF this 2]
  obtain r3 h3 where 3: "put_setting e eng ''localServeAdvertisedURL'' AdvertisedURLKey (iu_advertised req) h2 = (r3, h3)" by fastforce
  have "settings_ok h2" using p2 by blast
  note p3 = put_map [OF this 3]
  have ok: "bad_url e ''defaultImageURL'' (iu_default_url req) = None" "bad_url e ''localServeAdvertisedURL'' (iu_advertised req) = None"
      "\<not> (iu_enabled req = Some True \<and> sx_iso e = None)"
    using assms(3) by (auto simp: may_update_def bad_url_None)
  have run: "(r, h') = (case r1 of Inl msg \<Rightarrow> (Response 500 (ErrorBody msg), h1) | Inr _ \<Rightarrow>
      case r2 of Inl msg \<Rightarrow> (Response 500 (ErrorBody msg), h2) | Inr _ \<Rightarrow>
      case r3 of Inl msg \<Rightarrow> (Response 500 (ErrorBody msg), h3) | Inr _ \<Rightarrow> getImageSourceLocked e eng h3)"
    using assms(2,4) ok 1 2 3 by (simp add: UpdateImageSource_def split: sum.splits)
  let ?w1 = "case iu_default_url req of None \<Rightarrow> [] | Some u \<Rightarrow> [(DefaultImageURLKey, u)]"
  let ?w2 = "case iu_enabled req of None \<Rightarrow> [] | Some on \<Rightarrow> [(LocalServeEnabledKey, if on then ''true'' else ''false'')]"
  have ws: "asked_writes req = ?w1 @ ?w2 @ (case iu_advertised req of None \<Rightarrow> [] | Some u \<Rightarrow> [(AdvertisedURLKey, u)])"
    by (simp add: asked_writes_def)
  have stopped: ?thesis if "h' = x" "status r = 500" "\<not> reliable_engine eng s_key setting_clash" "n \<le> length (asked_writes req)"
      "value_map x = write_values (take n (asked_writes req)) (value_map h)"
      "settings_ok x" "sh_token x = sh_token h" "sh_token_file x = sh_token_file h" for x n
    using that by blast
  have v1: "value_map h1 = write_values ?w1 (value_map h)" if "r1 = Inr ()"
    using p1 that by (auto simp: write_values_def split: option.splits)
  have v2: "value_map h2 = write_values (?w1 @ ?w2) (value_map h)" if "r1 = Inr ()" "r2 = Inr ()"
    using p2 v1 that by (auto simp: write_values_def split: option.splits)
  show ?thesis
  proof (cases r1)
    case (Inl msg)
    then show ?thesis using run p1 by (intro stopped [of h1 0]) (auto simp: write_values_def)
  next
    case r1: (Inr u)
    show ?thesis
    proof (cases r2)
      case (Inl msg)
      then show ?thesis using run r1 p1 p2 v1 ws by (intro stopped [of h2 "length ?w1"]) auto
    next
      case r2: (Inr u2)
      show ?thesis
      proof (cases r3)
        case (Inl msg)
        then show ?thesis using run r1 r2 p1 p2 p3 v2 ws by (intro stopped [of h3 "length (?w1 @ ?w2)"]) auto
      next
        case (Inr u3)
        have "h' = h3" using run r1 r2 Inr by (auto simp: getImageSourceLocked_def split: sum.splits)
        moreover have "value_map h3 = write_values (asked_writes req) (value_map h)"
          using p3 v2 r1 r2 Inr unfolding ws by (auto simp: write_values_def split: option.splits)
        ultimately show ?thesis using run r1 r2 Inr p1 p2 p3 by auto
      qed
    qed
  qed
qed

lemma answer:
  assumes "settings_ok h" and "sx_store e = Some eng" and "(r, h) = getImageSourceLocked e eng h"
  shows "(\<exists>src. r = Response 200 (Body (ImageSourceBody src)) \<and> source_shows e (value_map h) src \<and> GetImageSource e h = (r, h)) \<or>
    status r = 500 \<and> \<not> reliable_engine eng s_key setting_clash"
proof (cases "SettingGetAll eng (sh_settings h)")
  case (Inl err)
  then have "\<not> reliable_engine eng s_key setting_clash"
    using reliable_engine.db_find_total [of eng s_key setting_clash "\<lambda>_. True" "sh_settings h"] by (auto simp: SettingGetAll_def)
  then show ?thesis using assms(3) Inl by (simp add: getImageSourceLocked_def)
next
  case (Inr m)
  then show ?thesis
    using assms(2,3) get_all [OF assms(1) Inr] source_of_shows by (simp add: getImageSourceLocked_def GetImageSource_def)
qed

end


text \<open>A rotation is visible at once.\<close>

lemma rotated_token_is_read:
  "RotateRegistrationToken e h = (Response 200 (Body (TokenBody (sx_uuid e))), h') \<Longrightarrow>
     GetRegistrationToken h' = (Response 200 (Body (TokenBody (sx_uuid e))), h')"
  by (auto simp: RotateRegistrationToken_def GetRegistrationToken_def rotate_token_def persist_token_def Let_def split: if_splits)

text \<open>
  The file is written after the lock is released, and without looking at the result: of two
  rotations that overlap the token in the file may be the one that is no longer valid, and a
  token that could not be written is answered as if it had been.
\<close>

lemma overlapping_rotations_persist_old_token:
  assumes "sx_token_file e \<noteq> []" and "sx_writable e"
  shows "sh_token (persist_token e u1 (persist_token e u2 (rotate_token u2 (rotate_token u1 h)))) = u2 \<and>
    sh_token_file (persist_token e u1 (persist_token e u2 (rotate_token u2 (rotate_token u1 h)))) = Some u1"
  using assms by (simp add: rotate_token_def persist_token_def)

lemma unwritten_rotation_is_answered:
  "\<not> sx_writable e \<Longrightarrow> fst (RotateRegistrationToken e h) = Response 200 (Body (TokenBody (sx_uuid e))) \<and>
     sh_token_file (snd (RotateRegistrationToken e h)) = sh_token_file h"
  by (simp add: RotateRegistrationToken_def rotate_token_def persist_token_def Let_def)


end
