(* ===== verification/Redfish_Cli.thy ===== *)
theory Redfish_Cli
  imports Hardware_Gate Iso_Serve
begin

text \<open>
  The command line deploy (\<^verbatim>\<open>redfish deploy\<close> in
  \<^verbatim>\<open>internal/cmd/redfish.go\<close>): the flags, where the password comes from, the
  choice of the image URL, and the gated deploy. Printed lines and the listener's goroutines are
  left out; the environment, files, the URL parser and the listener are parameters. The
  profiles come with the registry that \<open>LoadProfileDir\<close> builds.
\<close>

section \<open>Flags and environment\<close>

record cli_flags =
  cl_endpoint :: string
  cl_username :: string
  cl_password :: string
  cl_password_file :: string
  cl_password_stdin :: bool
  cl_image_url :: string
  cl_system_id :: string
  cl_vendor :: string
  cl_quirks_dir :: string
  cl_boot_mode :: string
  cl_auth_mode :: string
  cl_verify_ssl :: bool
  cl_serve_tls :: bool
  cl_serve_cert :: string
  cl_serve_key :: string
  cl_serve_url :: string
  cl_serve_addr :: string
  cl_min_memory :: int
  cl_min_cpus :: int
  cl_features :: "string list"
  cl_timeout :: duration
  cl_iso_path :: string

text \<open>
  A parsed serve URL has the host with its port, the port and the host name; the directory of
  profiles is read by the three functions of \<open>LoadProfileDir\<close>.
\<close>

record 'w cli_env =
  ce_getenv :: "string \<Rightarrow> string"
  ce_read_file :: "string \<Rightarrow> string + string"
  ce_stdin :: "string + string"
  ce_manifest :: "string list"
  ce_read_dir :: "string \<Rightarrow> read_dir"
  ce_read_profile :: "string \<Rightarrow> string option"
  ce_decode :: "string \<Rightarrow> quirk_profile option"
  ce_dir_error :: string
  ce_net :: net
  ce_parse_serve :: "string \<Rightarrow> string + (string \<times> string \<times> string)"
  ce_abs :: "string \<Rightarrow> string + string"
  ce_stat :: "string \<Rightarrow> file_info"
  ce_os_text :: "iso_error \<Rightarrow> string"
  ce_rnd :: "string option"
  ce_now :: instant
  ce_listen :: "iso_server \<Rightarrow> go_error option"
  ce_bmc :: "config \<Rightarrow> 'w bmc"
  ce_turns :: nat

abbreviation redfishPasswordEnv :: string where "redfishPasswordEnv \<equiv> ''AURORABOOT_REDFISH_PASSWORD''"
abbreviation redfishQuirksDirEnv :: string where "redfishQuirksDirEnv \<equiv> ''AURORABOOT_REDFISH_QUIRKS_DIR''"

definition loadRedfishQuirksDir :: "'w cli_env \<Rightarrow> string \<Rightarrow> go_error + registry" where
  "loadRedfishQuirksDir e flag =
     (let dir = (if TrimSpace flag = [] then ce_getenv e redfishQuirksDirEnv else TrimSpace flag) in
      if TrimSpace dir = [] then Inr (newRegistry (ce_manifest e))
      else case LoadProfileDir (ce_manifest e) (ce_read_dir e) (ce_read_profile e) (ce_decode e) dir of
        (r, _, ok) \<Rightarrow> if ok then Inr r else Inl (Wrap ''loading quirk profiles: '' (ErrorsNew (ce_dir_error e)) []))"

text \<open>\<^verbatim>\<open>strings.TrimRight\<close> with the cutset of CR and LF.\<close>

definition trim_newlines :: "string \<Rightarrow> string" where
  "trim_newlines s = rev (dropWhile (\<lambda>c. c = CHR 0x0D \<or> c = CHR 0x0A) (rev s))"

definition resolveRedfishPassword :: "'w cli_env \<Rightarrow> string \<Rightarrow> string \<Rightarrow> bool \<Rightarrow> go_error + string" where
  "resolveRedfishPassword e flagPassword passwordFile passwordStdin =
     (if flagPassword \<noteq> [] then Inr flagPassword
      else if passwordFile \<noteq> [] then
        (case ce_read_file e passwordFile of
           Inl msg \<Rightarrow> Inl (Wrap ''reading --password-file: '' (ErrorsNew msg) [])
         | Inr data \<Rightarrow>
             (let pw = trim_newlines data in
              if pw = [] then Inl (ErrorsNew (''--password-file '' @ quoted passwordFile @ '' is empty'')) else Inr pw))
      else if ce_getenv e redfishPasswordEnv \<noteq> [] then Inr (ce_getenv e redfishPasswordEnv)
      else if passwordStdin then
        (case ce_stdin e of
           Inl msg \<Rightarrow> Inl (Wrap ''reading password from stdin: '' (ErrorsNew msg) [])
         | Inr data \<Rightarrow>
             (let pw = trim_newlines data in
              if pw = [] then Inl (ErrorsNew ''no password read from stdin'') else Inr pw))
      else Inl (ErrorsNew (''no RedFish password provided: set --password (insecure), --password-file, '' @
             redfishPasswordEnv @ '', or --password-stdin'')))"

definition resolveBootMode :: "string \<Rightarrow> go_error + string" where
  "resolveBootMode flag =
     (let mode = ToLower (TrimSpace flag) in
      if mode = [] then Inr []
      else if mode = ''uefi'' then Inr ''UEFI''
      else if mode = ''legacy'' then Inr ''Legacy''
      else Inl (ErrorsNew (''invalid --boot-mode '' @ quoted flag @
             '' (valid: uefi, legacy, or empty to leave the current firmware mode)'')))"

definition deriveServeBindAddr :: "'w cli_env \<Rightarrow> string \<Rightarrow> go_error + string" where
  "deriveServeBindAddr e serveURL =
     (case ce_parse_serve e serveURL of
        Inl msg \<Rightarrow> Inl (Wrap ''parsing --redfish-serve-url: '' (ErrorsNew msg) [])
      | Inr (host, port, name) \<Rightarrow>
          (if host = [] then Inl (ErrorsNew ''--redfish-serve-url has no host; set --redfish-serve-addr explicitly'')
           else if port = [] then
             Inl (ErrorsNew (''could not derive a bind address from --redfish-serve-url '' @ quoted serveURL @
               '' (no port); set --redfish-serve-addr explicitly, e.g. '' @ name @ '':8090''))
           else Inr host))"

section \<open>The image URL\<close>

text \<open>The image URL, the token when AuroraBoot serves the image, and the server that serves it.\<close>

definition serve_local_iso :: "'w cli_env \<Rightarrow> cli_flags \<Rightarrow> go_error + (string \<times> string \<times> iso_server)" where
  "serve_local_iso e f =
     (case ce_abs e (cl_iso_path f) of
        Inl msg \<Rightarrow> Inl (Wrap ''resolving ISO path: '' (ErrorsNew msg) [])
      | Inr absISO \<Rightarrow>
          (if cl_serve_url f = [] then
             Inl (ErrorsNew ''serving a local ISO requires --redfish-serve-url (the base URL the BMC fetches the ISO from)'')
           else if cl_serve_tls f \<and> (cl_serve_cert f = [] \<or> cl_serve_key f = []) then
             Inl (ErrorsNew ''--serve-tls with a local ISO requires --serve-tls-cert and --serve-tls-key (the BMC fetches over HTTPS)'')
           else case (if cl_serve_addr f = [] then deriveServeBindAddr e (cl_serve_url f) else Inr (cl_serve_addr f)) of
             Inl err \<Rightarrow> Inl err
           | Inr addr \<Rightarrow>
               (let srv = iso_new (cl_serve_url f) addr (cl_serve_cert f) (cl_serve_key f) in
                case ce_listen e srv of
                  Some err \<Rightarrow> Inl (Wrap ''starting ISO-serve: '' err [])
                | None \<Rightarrow>
                    (case iso_register (ce_stat e) (ce_rnd e) (ce_now e) absISO (cl_timeout f + 5 * minute) srv of
                       (Inl err, _) \<Rightarrow>
                         Inl (Wrap ''registering ISO for serving: '' (ErrorsNew (iso_error_text (ce_os_text e) absISO err)) [])
                     | (Inr (url, tok), srv') \<Rightarrow> Inr (url, tok, srv')))))"

definition choose_image :: "'w cli_env \<Rightarrow> cli_flags \<Rightarrow> go_error + (string \<times> (string \<times> iso_server) option)" where
  "choose_image e f =
     (if cl_image_url f \<noteq> [] then
        (case ValidateMediaURL (ce_net e) (cl_image_url f) of
           Some err \<Rightarrow> Inl (Wrap ''validating --image-url: '' (ErrorsNew (url_error_text (ce_net e) err)) [])
         | None \<Rightarrow> Inr (cl_image_url f, None))
      else if cl_iso_path f \<noteq> [] then map_sum id (\<lambda>(url, tok, srv). (url, Some (tok, srv))) (serve_local_iso e f)
      else Inl (ErrorsNew ''provide --image-url with a URL the BMC can reach, or a local ISO path with --redfish-serve-url''))"

section \<open>The command\<close>

record cli_plan =
  cp_config :: config
  cp_registry :: registry
  cp_request :: deploy_request
  cp_requirements :: requirements
  cp_serve :: "(string \<times> iso_server) option"

definition cli_prepare :: "'w cli_env \<Rightarrow> cli_flags \<Rightarrow> go_error + cli_plan" where
  "cli_prepare e f =
     (case loadRedfishQuirksDir e (cl_quirks_dir f) of Inl err \<Rightarrow> Inl err | Inr reg \<Rightarrow>
      case resolveRedfishPassword e (cl_password f) (cl_password_file f) (cl_password_stdin f) of Inl err \<Rightarrow> Inl err
      | Inr password \<Rightarrow>
      case resolveBootMode (cl_boot_mode f) of Inl err \<Rightarrow> Inl err | Inr boot_mode \<Rightarrow>
      case ValidateMediaURL (ce_net e) (cl_endpoint f) of
        Some err \<Rightarrow> Inl (Wrap ''validating endpoint: '' (ErrorsNew (url_error_text (ce_net e) err)) [])
      | None \<Rightarrow>
      case choose_image e f of Inl err \<Rightarrow> Inl err | Inr (imageURL, serve) \<Rightarrow>
        Inr \<lparr>cp_config = \<lparr>cf_endpoint = cl_endpoint f, cf_username = cl_username f, cf_password = password,
                 cf_vendor = cl_vendor f, cf_verify_ssl = cl_verify_ssl f, cf_timeout = cl_timeout f,
                 cf_system_id = cl_system_id f, cf_auth_mode = cl_auth_mode f\<rparr>,
             cp_registry = reg,
             cp_request = \<lparr>dr_image_url = imageURL, dr_boot_target = ''Cd'', dr_boot_mode = boot_mode,
                 dr_reset_type = [], dr_https = cl_serve_tls f\<rparr>,
             cp_requirements = \<lparr>rq_min_memory = cl_min_memory f, rq_min_storage = 0, rq_min_cpus = cl_min_cpus f,
                 rq_features = cl_features f\<rparr>,
             cp_serve = serve\<rparr>)"

definition gated_deploy :: "nat \<Rightarrow> 'w bmc \<Rightarrow> requirements \<Rightarrow> deploy_request \<Rightarrow> deployer \<Rightarrow> ('w, deploy_result) act" where
  "gated_deploy turns b reqs req d1 =
     bindE (on_error (\<lambda>err. Wrap ''inspecting system: '' err []) (InspectSystem b d1)) (\<lambda>info.
       case ValidateRequirements info reqs of
         Some err \<Rightarrow> failE (Wrap ''validating requirements: '' err [])
       | None \<Rightarrow>
           bindE (on_error (\<lambda>err. Wrap ''deploying ISO: '' err []) (Deploy turns b d1 req)) (\<lambda>(result, err).
             case err of Some err' \<Rightarrow> failE (Wrap ''deploying ISO: '' err' []) | None \<Rightarrow> returnE result))"

text \<open>
  The result, the server after the deferred calls, and the run. The token is revoked on every
  return.
\<close>

definition cli_deploy ::
  "'w cli_env \<Rightarrow> cli_flags \<Rightarrow> 'w run \<Rightarrow> (deploy_result result \<times> iso_server option) \<times> 'w run" where
  "cli_deploy e f s =
     (case cli_prepare e f of
        Inl err \<Rightarrow> ((Fail err, None), s)
      | Inr p \<Rightarrow>
          (let b = ce_bmc e (cp_config p);
               d = NewDeployer (ce_manifest e) (cp_registry p) (cp_config p)
           in case with_connection b (\<lambda>err. Wrap ''connecting to RedFish endpoint: '' err []) d
                     (gated_deploy (ce_turns e) b (cp_requirements p) (cp_request p)) s of
                (r, s') \<Rightarrow> ((r, map_option (\<lambda>(tok, srv). iso_revoke tok srv) (cp_serve p)), s')))"

section \<open>The gate comes first\<close>

text \<open>The system passed the gate, in terms of what the BMC reported of it.\<close>

definition passes_gate :: "computer_system \<Rightarrow> requirements \<Rightarrow> bool" where
  "passes_gate sys reqs \<longleftrightarrow>
     rq_min_memory reqs \<le> (case cs_memory_gib sys of Some v \<Rightarrow> v | None \<Rightarrow> 0) \<and>
     rq_min_cpus reqs \<le> (case cs_processors sys of Some v \<Rightarrow> v | None \<Rightarrow> 0) \<and>
     list_all (\<lambda>f. TrimSpace f = [] \<or> (EqualFold (TrimSpace f) ''UEFI'' \<and> detectUEFI sys) \<or>
                 (EqualFold (TrimSpace f) ''SecureBoot'' \<and> detectSecureBoot sys)) (rq_features reqs)"


lemma InspectSystem_performs:
  "performs (InspectSystem b d) (\<lambda>r ys. actions ys = [] \<and>
     (case r of Ok info \<Rightarrow> \<exists>sys. selected d sys ys \<and> (\<forall>reqs. ValidateRequirements info reqs = None \<longleftrightarrow> passes_gate sys reqs)
      | _ \<Rightarrow> True))"
proof -
  have gate: "ValidateRequirements (hardware_info_of \<lparr>si_id = i, si_name = n, si_model = m, si_manufacturer = mf, si_serial = sn,
      si_power_state = ps, si_memory_gib = (case cs_memory_gib sys of Some v \<Rightarrow> v | None \<Rightarrow> 0),
      si_processors = (case cs_processors sys of Some v \<Rightarrow> v | None \<Rightarrow> 0), si_features = detectFeatures sys\<rparr>) reqs = None
      \<longleftrightarrow> passes_gate sys reqs" for i n m mf sn ps sys reqs
    by (subst ValidateRequirements_None [where system = sys]) (simp_all add: hardware_info_of_def passes_gate_def)
  show ?thesis
    unfolding InspectSystem_def Inspect_def
    by (auto intro!: performs_rules performs_mono [OF selectSystem_performs] simp: gate split: result.splits) blast
qed

text \<open>The requests that change the BMC come after the gate.\<close>

definition gated :: "deployer \<Rightarrow> requirements \<Rightarrow> bmc_event list \<Rightarrow> bool" where
  "gated d reqs ys \<longleftrightarrow> actions ys = [] \<or>
     (\<exists>before after sys. ys = before @ after \<and> actions before = [] \<and> selected d sys before \<and> passes_gate sys reqs)"

lemma gated_after: "actions zs = [] \<Longrightarrow> selected d sys zs \<Longrightarrow> passes_gate sys reqs \<Longrightarrow> gated d reqs (zs @ ws)"
  unfolding gated_def by blast

lemma gated_append: "gated d reqs ys \<Longrightarrow> actions zs = [] \<Longrightarrow> gated d reqs (ys @ zs)"
  unfolding gated_def by (metis actions_append append.assoc append_Nil2)

lemma gated_prepend: "actions zs = [] \<Longrightarrow> gated d reqs ys \<Longrightarrow> gated d reqs (zs @ ys)"
  unfolding gated_def by (metis (no_types, lifting) actions_append append.assoc append_Nil selected_append)

lemma gated_deploy_performs: "performs (gated_deploy turns b reqs req d) (\<lambda>r ys. gated d reqs ys)"
  unfolding gated_deploy_def
proof (rule performs_bind, rule performs_on_error, rule performs_mono [OF InspectSystem_performs], goal_cases)
  case (1 r ys)
  show ?case
  proof (cases r)
    case (Ok info)
    then obtain sys where sys: "actions ys = []" "selected d sys ys"
      "ValidateRequirements info reqs = None \<longleftrightarrow> passes_gate sys reqs" using 1 by auto
    show ?thesis
    proof (cases "ValidateRequirements info reqs")
      case None
      then have "gated d reqs (ys @ zs)" for zs using gated_after sys by blast
      then show ?thesis using None Ok unfolding result.case option.case
        by (auto intro!: performs_rules performs_mono [OF Deploy_performs] split: result.splits option.splits)
    next
      case (Some err)
      then show ?thesis using Ok sys(1) by (auto intro!: performs_rules simp: gated_def)
    qed
  qed (use 1 in \<open>auto simp: gated_def\<close>)
qed


lemma Connect_quiet:
  "performs (Connect b d) (\<lambda>r ys. actions ys = [] \<and> (case r of Ok d1 \<Rightarrow> d_system_id d1 = d_system_id d | _ \<Rightarrow> True))"
  unfolding Connect_def resolveBasicAuth_def serviceRootHasSessionService_def
  by (auto intro!: performs_rules split: prod.splits)

lemma gated_system_id: "d_system_id d1 = d_system_id d \<Longrightarrow> gated d1 reqs ys = gated d reqs ys"
  by (simp add: gated_def selected_def)

lemma Close_quiet: "\<exists>zs. r_events (snd (Close b d s)) = r_events s @ zs \<and> actions zs = []"
  by (auto simp: Close_def returnE_def bindE_def request_def)

lemma gated_connection:
  "performs (with_connection b decorate d (gated_deploy turns b reqs req)) (\<lambda>r ys. gated d reqs ys)"
  unfolding with_connection_def
proof (rule performs_bind, rule performs_on_error, rule performs_mono [OF Connect_quiet], goal_cases)
  case (1 r ys)
  show ?case
  proof (cases r)
    case (Ok d1)
    then have d1: "d_system_id d1 = d_system_id d" and ys: "actions ys = []" using 1 by auto
    show ?thesis
      unfolding Ok result.case
    proof (rule performsI)
      fix s
      obtain r' s1 where w: "gated_deploy turns b reqs req d1 s = (r', s1)" by fastforce
      then obtain zs where zs: "r_events s1 = r_events s @ zs" "gated d reqs zs"
        using performsD [OF gated_deploy_performs [of turns b reqs req d1], of s] gated_system_id [OF d1] by auto
      obtain us where "r_events (snd (Close b d1 s1)) = r_events s1 @ us" "actions us = []" using Close_quiet by blast
      then show "\<exists>zs. r_events (snd (case gated_deploy turns b reqs req d1 s of (r, s1) \<Rightarrow> (r, snd (Close b d1 s1)))) = r_events s @ zs \<and>
          gated d reqs (ys @ zs)"
        using w zs ys gated_append gated_prepend by auto
    qed
  qed (use 1 in \<open>auto simp: gated_def\<close>)
qed

lemma cli_prepare_plan:
  "cli_prepare e f = Inr p \<Longrightarrow>
     cp_requirements p = \<lparr>rq_min_memory = cl_min_memory f, rq_min_storage = 0, rq_min_cpus = cl_min_cpus f, rq_features = cl_features f\<rparr> \<and>
     cf_system_id (cp_config p) = cl_system_id f \<and> dr_https (cp_request p) = cl_serve_tls f"
  by (auto simp: cli_prepare_def split: sum.splits option.splits)

section \<open>Properties\<close>

text \<open>
  C27. The command line deploy changes nothing on a BMC before the hardware gate: on every run either
  no request that changes the BMC is sent, or all of them come after the inspection of a system
  (the pinned one, or the only one) that has the memory, the processors and the features the
  flags require.
\<close>
theorem cli_deploy_is_gated:
  "\<exists>ys. r_events (snd (cli_deploy e f s)) = r_events s @ ys \<and>
     (actions ys = [] \<or>
      (\<exists>before after sys d. ys = before @ after \<and> actions before = [] \<and> d_system_id d = cl_system_id f \<and> selected d sys before \<and>
         passes_gate sys \<lparr>rq_min_memory = cl_min_memory f, rq_min_storage = 0, rq_min_cpus = cl_min_cpus f, rq_features = cl_features f\<rparr>))"
proof (cases "cli_prepare e f")
  case (Inl err)
  then show ?thesis by (simp add: cli_deploy_def)
next
  case (Inr p)
  note plan = cli_prepare_plan [OF Inr]
  let ?d = "NewDeployer (ce_manifest e) (cp_registry p) (cp_config p)"
  let ?b = "ce_bmc e (cp_config p)"
  have id: "d_system_id ?d = cl_system_id f" using plan by (simp add: NewDeployer_def Let_def)
  obtain ys where ys: "r_events (snd (with_connection ?b (\<lambda>err. Wrap ''connecting to RedFish endpoint: '' err []) ?d
      (gated_deploy (ce_turns e) ?b (cp_requirements p) (cp_request p)) s)) = r_events s @ ys" "gated ?d (cp_requirements p) ys"
    using performsD [OF gated_connection] by blast
  have "r_events (snd (cli_deploy e f s)) = r_events s @ ys"
    using ys(1) by (simp add: cli_deploy_def Inr split_beta Let_def)
  then show ?thesis using ys(2) id plan unfolding gated_def by auto
qed

text \<open>
  The transfer protocol sent to the BMC follows the flag alone: an HTTPS image URL without
  \<^verbatim>\<open>--serve-tls\<close> is announced as HTTP.
\<close>

lemma cli_protocol_is_the_flag: "cli_prepare e f = Inr p \<Longrightarrow> dr_https (cp_request p) = cl_serve_tls f"
  using cli_prepare_plan by blast

text \<open>Whatever happens, a token the command registered is gone when it returns.\<close>

lemma cli_token_revoked:
  assumes "cli_deploy e f s = ((r, Some srv), s')"
  shows "is_entries srv = []"
proof -
  obtain p tok srv0 where p: "cli_prepare e f = Inr p" "cp_serve p = Some (tok, srv0)" "srv = iso_revoke tok srv0"
    using assms by (auto simp: cli_deploy_def Let_def split: sum.splits prod.splits)
  then have "choose_image e f = Inr (dr_image_url (cp_request p), Some (tok, srv0))"
    by (auto simp: cli_prepare_def split: sum.splits option.splits)
  then have "serve_local_iso e f = Inr (dr_image_url (cp_request p), tok, srv0)"
    by (cases "serve_local_iso e f") (auto simp: choose_image_def split: if_splits option.splits)
  then obtain absISO addr rnd where "iso_register (ce_stat e) rnd (ce_now e) absISO (cl_timeout f + 5 * minute)
      (iso_new (cl_serve_url f) addr (cl_serve_cert f) (cl_serve_key f)) = (Inr (dr_image_url (cp_request p), tok), srv0)"
    by (auto simp: serve_local_iso_def Let_def split: if_splits option.splits sum.splits prod.splits)
  then have "is_entries srv0 = AList.update tok \<lparr>ie_path = Clean absISO, ie_expiry = ce_now e + (cl_timeout f + 5 * minute)\<rparr> []"
    by (auto simp: iso_register_def iso_new_def Let_def split: if_splits file_info.splits option.splits)
  then show ?thesis using p(3) by (simp add: iso_revoke_def)
qed

end
