(* ===== verification/Text_Lines.thy ===== *)
theory Text_Lines
  imports Main
begin

text \<open>
  The lines of a text: each ends with a newline, but for the last, which may go without.
\<close>

abbreviation newline :: string where "newline \<equiv> [CHR 0x0A]"

function raw_lines :: "string \<Rightarrow> string list" where
  "raw_lines s =
     (if s = [] then []
      else takeWhile (\<lambda>x. x \<noteq> CHR 0x0A) s # raw_lines (drop 1 (dropWhile (\<lambda>x. x \<noteq> CHR 0x0A) s)))"
  by pat_completeness auto
termination
proof (relation "measure length", simp)
  fix s :: string
  assume "s \<noteq> []"
  moreover have "length (dropWhile (\<lambda>x. x \<noteq> CHR 0x0A) s) \<le> length s" by (rule length_dropWhile_le)
  ultimately show "(drop 1 (dropWhile (\<lambda>x. x \<noteq> CHR 0x0A) s), s) \<in> measure length"
    by (cases s) auto
qed

declare raw_lines.simps [simp del]

lemma raw_lines_Nil [simp]: "raw_lines [] = []"
  by (subst raw_lines.simps) simp

lemma raw_lines_step:
  "s \<noteq> [] \<Longrightarrow> raw_lines s = takeWhile (\<lambda>x. x \<noteq> CHR 0x0A) s # raw_lines (drop 1 (dropWhile (\<lambda>x. x \<noteq> CHR 0x0A) s))"
  by (subst raw_lines.simps) simp

text \<open>Splitting loses nothing: the lines, each ended, are the text with its last line ended.\<close>

lemma raw_lines_join: "concat (map (\<lambda>l. l @ newline) (raw_lines s)) = (if s = [] \<or> last s = CHR 0x0A then s else s @ newline)"
proof (induction s rule: raw_lines.induct)
  case (1 s)
  let ?a = "takeWhile (\<lambda>x. x \<noteq> CHR 0x0A) s" and ?b = "dropWhile (\<lambda>x. x \<noteq> CHR 0x0A) s"
  show ?case
  proof (cases "s = []")
    case False
    have ab: "s = ?a @ ?b" by simp
    show ?thesis
    proof (cases ?b)
      case Nil
      then have a: "?a = s" using ab by simp
      have "raw_lines s = ?a # raw_lines (drop 1 ?b)" by (rule raw_lines_step [OF False])
      then have "raw_lines s = [s]" unfolding a Nil by simp
      moreover have "last s \<noteq> CHR 0x0A" using Nil last_in_set [OF False] unfolding dropWhile_eq_Nil_conv by blast
      ultimately show ?thesis using False by simp
    next
      case (Cons x r)
      define l where "l = ?a"
      have "x = CHR 0x0A" using hd_dropWhile [of "\<lambda>x. x \<noteq> CHR 0x0A" s] Cons by simp
      then have s: "s = l @ CHR 0x0A # r" using ab Cons unfolding l_def by simp
      have "raw_lines s = l # raw_lines r"
        by (simp only: raw_lines_step [OF False] Cons l_def One_nat_def drop_Suc_Cons drop_0)
      moreover have "concat (map (\<lambda>l. l @ newline) (raw_lines r)) = (if r = [] \<or> last r = CHR 0x0A then r else r @ newline)"
        using 1 [OF False] Cons by (simp only: One_nat_def drop_Suc_Cons drop_0)
      ultimately show ?thesis by (simp add: s)
    qed
  qed simp
qed

text \<open>A text that was put together from lines is read back as these lines.\<close>

lemma raw_lines_concat:
  "\<forall>l \<in> set ls. CHR 0x0A \<notin> set l \<Longrightarrow> raw_lines (concat (map (\<lambda>l. l @ newline) ls)) = ls"
proof (induction ls)
  case (Cons l ls)
  let ?r = "concat (map (\<lambda>l. l @ newline) ls)"
  have l: "\<forall>x \<in> set l. x \<noteq> CHR 0x0A" using Cons.prems by auto
  have tw: "takeWhile (\<lambda>x. x \<noteq> CHR 0x0A) (l @ CHR 0x0A # ?r) = l"
    using takeWhile_append2 [of l "\<lambda>x. x \<noteq> CHR 0x0A" "CHR 0x0A # ?r"] l by simp
  have dw: "dropWhile (\<lambda>x. x \<noteq> CHR 0x0A) (l @ CHR 0x0A # ?r) = CHR 0x0A # ?r"
    using dropWhile_append2 [of l "\<lambda>x. x \<noteq> CHR 0x0A" "CHR 0x0A # ?r"] l by simp
  have "raw_lines (l @ CHR 0x0A # ?r) = l # raw_lines ?r"
    using raw_lines_step [of "l @ CHR 0x0A # ?r"] unfolding tw dw by simp
  then show ?case using Cons by simp
qed simp

end
