(* ===== verification/Redfish_Probe.thy ===== *)
theory Redfish_Probe
  imports Redfish_Cli Text_Lines
begin

text \<open>
  The diagnostic \<^verbatim>\<open>redfish probe\<close> (\<^verbatim>\<open>pkg/redfish/probe.go\<close>, \<^verbatim>\<open>probe_profile.go\<close> and
  \<^verbatim>\<open>internal/cmd/redfish_probe.go\<close>): what it asks of a BMC, the report, the starter profile it
  suggests and the text it prints. The BIOS version of a system is the parameter \<open>bios\<close>, as
  the other operations do not read it. Texts are sequences of bytes.
\<close>

section \<open>The report\<close>

record probe_report =
  pr_endpoint :: string
  pr_has_sessions :: bool
  pr_auth :: string
  pr_system_ids :: "string list"
  pr_selected :: string
  pr_multiple :: bool
  pr_system :: system_info
  pr_firmware :: string
  pr_media :: "media_view list"
  pr_default_cd :: int
  pr_manager_only :: bool
  pr_power :: string
  pr_allowable :: "string list"
  pr_default_reset :: string

fun first_cd :: "int \<Rightarrow> virtual_media list \<Rightarrow> int" where
  "first_cd i [] = -1"
| "first_cd i (vm # vms) = (if mediaSupportsCD vm then i else first_cd (i + 1) vms)"

definition firstCDIndex :: "virtual_media list \<Rightarrow> int" where
  "firstCDIndex candidates = first_cd 0 candidates"

fun manager_hosted :: "bool \<Rightarrow> (virtual_media \<times> media_view) list \<Rightarrow> bool" where
  "manager_hosted sawCD [] = sawCD"
| "manager_hosted sawCD ((vm, view) # rest) =
     (if \<not> mediaSupportsCD vm then manager_hosted sawCD rest
      else if mv_location view = ''system'' then False
      else manager_hosted True rest)"

definition onlyManagerHostedCD :: "virtual_media list \<Rightarrow> media_view list \<Rightarrow> bool" where
  "onlyManagerHostedCD candidates views = manager_hosted False (zip candidates views)"

text \<open>Without a pinned id the first member is described, where a deploy would refuse.\<close>

definition probed_system :: "deployer \<Rightarrow> computer_system list \<Rightarrow> go_error + (computer_system \<times> bool)" where
  "probed_system d systems =
     (if systems = [] then Inl (ErrorsNew ''no ComputerSystem members found on the Redfish service'')
      else if d_system_id d \<noteq> [] then
        (case find (\<lambda>sys. cs_id sys = d_system_id d) systems of
           Some sys \<Rightarrow> Inr (sys, False)
         | None \<Rightarrow> Inl (ErrorsNew (''no ComputerSystem with Id '' @ quoted (d_system_id d) @
              '' found on the Redfish service; available system Ids: '' @ Join (systemIDs systems) '', '')))
      else Inr (hd systems, length systems > 1))"

definition probe_of :: "(computer_system \<Rightarrow> string) \<Rightarrow> deployer \<Rightarrow> computer_system list \<Rightarrow> computer_system \<times> bool \<Rightarrow>
    virtual_media list \<times> media_view list \<Rightarrow> probe_report" where
  "probe_of bios d systems = (\<lambda>(system, multiple) (members, views).
     \<lparr>pr_endpoint = d_endpoint d, pr_has_sessions = (\<not> d_used_basic_auth d),
      pr_auth = (if d_used_basic_auth d then ''basic'' else ''session''),
      pr_system_ids = systemIDs systems, pr_selected = cs_id system, pr_multiple = multiple,
      pr_system = \<lparr>si_id = cs_id system, si_name = cs_name system, si_model = cs_model system,
        si_manufacturer = cs_manufacturer system, si_serial = cs_serial system, si_power_state = cs_power_state system,
        si_memory_gib = (case cs_memory_gib system of Some v \<Rightarrow> v | None \<Rightarrow> 0),
        si_processors = (case cs_processors system of Some v \<Rightarrow> v | None \<Rightarrow> 0), si_features = detectFeatures system\<rparr>,
      pr_firmware = TrimSpace (bios system), pr_media = views, pr_default_cd = firstCDIndex members,
      pr_manager_only = onlyManagerHostedCD members views, pr_power = cs_power_state system,
      pr_allowable = cs_reset_types system, pr_default_reset = chooseResetType system\<rparr>)"

definition Probe :: "(computer_system \<Rightarrow> string) \<Rightarrow> 'w bmc \<Rightarrow> deployer \<Rightarrow> ('w, probe_report) act" where
  "Probe bios b d =
     (if \<not> d_connected d then failE (ErrorsNew ''not connected: call Connect first'')
      else
     bindE (check_ctx b) (\<lambda>_.
     bindE (on_error (\<lambda>err. Wrap ''discovering systems: '' (scrub d err) []) (request Systems (b_systems b))) (\<lambda>systems.
     case probed_system d systems of
       Inl err \<Rightarrow> failE err
     | Inr chosen \<Rightarrow>
         bindE (mediaCandidates b (fst chosen)) (\<lambda>media. returnE (probe_of bios d systems chosen media)))))"

section \<open>The starter profile\<close>

definition nonEmpty :: "string \<Rightarrow> string \<Rightarrow> string" where
  "nonEmpty s fallback = (if TrimSpace s = [] then fallback else s)"

text \<open>\<^verbatim>\<open>%q\<close> of a string.\<close>

definition yamlScalar :: "string \<Rightarrow> string" where "yamlScalar s = quoted s"

definition slug_char :: "char \<Rightarrow> bool" where
  "slug_char c = (c \<in> set ''abcdefghijklmnopqrstuvwxyz0123456789'')"

fun slug_from :: "bool \<Rightarrow> string \<Rightarrow> string" where
  "slug_from lastHyphen [] = []"
| "slug_from lastHyphen (c # cs) =
     (if slug_char c then c # slug_from False cs
      else if \<not> lastHyphen then CHR ''-'' # slug_from True cs
      else slug_from lastHyphen cs)"

definition trim_hyphens :: "string \<Rightarrow> string" where
  "trim_hyphens s = rev (dropWhile (\<lambda>c. c = CHR ''-'') (rev (dropWhile (\<lambda>c. c = CHR ''-'') s)))"

definition slugify :: "string \<Rightarrow> string" where
  "slugify s = trim_hyphens (slug_from True (ToLower (TrimSpace s)))"

definition suggestedMediaType :: "probe_report \<Rightarrow> string" where
  "suggestedMediaType r =
     (if pr_default_cd r < 0 \<or> pr_default_cd r \<ge> int (length (pr_media r)) then []
      else let types = mv_media_types (pr_media r ! nat (pr_default_cd r)) in
        if ''DVD'' \<in> set types \<and> ''CD'' \<notin> set types then ''DVD'' else [])"

abbreviation EMDASH :: string where "EMDASH \<equiv> [CHR 0xE2, CHR 0x80, CHR 0x94]"

definition StarterProfileHeader :: string where
  "StarterProfileHeader =
     ''--- suggested profile (tier C: UNVERIFIED '' @ EMDASH @ '' add a recorded mockup to reach tier B) ---''"

definition profile_name :: "probe_report \<Rightarrow> string" where
  "profile_name r = (let name = slugify (si_manufacturer (pr_system r)) in if name = [] then ''custom'' else name)"

definition starter_lines :: "probe_report \<Rightarrow> string list" where
  "starter_lines r =
     (let vendor = TrimSpace (si_manufacturer (pr_system r)); mt = suggestedMediaType r; fw = TrimSpace (pr_firmware r);
          dq = [CHR 0x22] in
      [''name: '' @ profile_name r]
      @ (if vendor \<noteq> [] then [''match:'', ''  vendor: '' @ yamlScalar vendor]
         else [''# match.vendor: <manufacturer> (the BMC reported none; fill in if you know it)''])
      @ (if pr_manager_only r
         then [''# The only CD/DVD media is Manager-hosted (the HPE iLO signal): the'',
               ''# spec-default System-first search misses it, so search Manager first.'',
               ''mediaSearch:'', ''  order: [manager, system]'']
         else [''# mediaSearch omitted: the spec-default media search order is correct for this BMC.''])
      @ (if mt \<noteq> []
         then [''# The default CD/DVD member advertises '' @ mt @ '' but not CD; pin the MediaType.'', ''mediaType: '' @ mt]
         else [''# mediaType omitted: the spec default (CD) matches the chosen media.''])
      @ [''# resetType suggestions (uncomment and confirm against your hardware):'',
         ''#   the core default for power state '' @ nonEmpty (pr_power r) ''<unknown>'' @ '' is: '' @ nonEmpty (pr_default_reset r) ''<none>'']
      @ (if pr_allowable r \<noteq> []
         then [''#   the BMC advertises these allowable ResetTypes: '' @ Join (pr_allowable r) '', '']
         else [''#   the BMC advertised no allowable ResetTypes.''])
      @ [''# resetType:'',
         ''#   - { when: { powerState: '' @ dq @ ''Off'' @ dq @ '' }, then: '' @ dq @ ''On'' @ dq @ '' }'',
         ''#   - { when: { powerState: '' @ dq @ ''*'' @ dq @ '' },   then: '' @ dq @ nonEmpty (pr_default_reset r) ''ForceRestart'' @ dq @ '' }'']
      @ (if fw \<noteq> [] then [''validatedFirmware: '' @ yamlScalar fw]
         else [''# validatedFirmware: <firmware version> (the BMC reported none)'']))"

definition StarterProfile :: "probe_report \<Rightarrow> string" where
  "StarterProfile r = concat (map (\<lambda>l. l @ newline) (starter_lines r))"

section \<open>The printed report\<close>

definition resolveProbeOutput :: "string \<Rightarrow> go_error + string" where
  "resolveProbeOutput flag =
     (let out = ToLower (TrimSpace flag) in
      if out = [] then Inr ''both''
      else if out \<in> {''text'', ''yaml'', ''both''} then Inr out
      else Inl (ErrorsNew (''invalid --output '' @ quoted flag @ '' (valid: text, yaml, both)'')))"

definition yesNo :: "bool \<Rightarrow> string" where "yesNo b = (if b then ''yes'' else ''no'')"

definition orDash :: "string \<Rightarrow> string" where "orDash s = (if TrimSpace s = [] then ''-'' else s)"

definition media_line :: "probe_report \<Rightarrow> nat \<times> media_view \<Rightarrow> string" where
  "media_line r = (\<lambda>(i, m).
     (if int i = pr_default_cd r then ''* '' else ''  '') @ ''ID='' @ mv_id m @ '' location='' @ mv_location m @
     '' mediaTypes=['' @ orDash (Join (mv_media_types m) '','') @ ''] inserted='' @ yesNo (mv_inserted m))"

text \<open>The features are already sorted.\<close>

definition probe_text_lines :: "probe_report \<Rightarrow> string list" where
  "probe_text_lines r =
     (let si = pr_system r in
      [''RedFish probe: '' @ pr_endpoint r, [], ''Service:'', ''  SessionService advertised: '' @ yesNo (pr_has_sessions r),
       if pr_has_sessions r then ''    auth modes available: session, basic''
       else ''    auth modes available: basic only (no SessionService advertised)'',
       ''  auth mode used: '' @ pr_auth r,
       [], ''Systems:'', ''  member Ids: '' @ Join (pr_system_ids r) '', '',
       if pr_multiple r
       then ''  multiple systems '' @ EMDASH @ '' set --system-id (BMCTarget.SystemID); showing '' @ pr_selected r
       else ''  describing: '' @ pr_selected r,
       [], ''Inspect:'', ''  manufacturer: '' @ orDash (si_manufacturer si), ''  model:        '' @ orDash (si_model si),
       ''  serial:       '' @ orDash (si_serial si), ''  memory (GiB): '' @ Itoa_int (si_memory_gib si),
       ''  CPUs:         '' @ Itoa_int (si_processors si),
       ''  features:     '' @ orDash (Join (sort (si_features si)) '', ''), ''  firmware:     '' @ orDash (pr_firmware r),
       [], ''Virtual media:'']
      @ (if pr_media r = [] then [''  (none exposed)''] else [])
      @ map (media_line r) (enumerate 0 (pr_media r))
      @ [if pr_default_cd r \<ge> 0 then ''  (* = the default CD/DVD search would pick this member)''
         else ''  no CD/DVD-capable media found '' @ EMDASH @ '' a deploy would fail to find media'']
      @ (if pr_manager_only r
         then [''  NOTE: the only CD/DVD media is Manager-hosted (the HPE iLO signal);'',
               ''        the starter profile suggests a manager-first mediaSearch order.''] else [])
      @ [[], ''Reset:'', ''  power state:           '' @ orDash (pr_power r),
         ''  allowable ResetTypes:  '' @ orDash (Join (pr_allowable r) '', ''),
         ''  core default for state: '' @ orDash (pr_default_reset r)])"

definition writeProbeText :: "probe_report \<Rightarrow> string" where
  "writeProbeText r = concat (map (\<lambda>l. l @ newline) (probe_text_lines r))"

definition renderProbeReport :: "probe_report \<Rightarrow> string \<Rightarrow> string" where
  "renderProbeReport r output =
     (if output = ''text'' \<or> output = ''both'' then writeProbeText r else [])
     @ (if output = ''both'' then newline else [])
     @ (if output = ''yaml'' \<or> output = ''both''
        then (if output = ''both'' then StarterProfileHeader @ newline else []) @ StarterProfile r else [])"

definition probe_and_render :: "(computer_system \<Rightarrow> string) \<Rightarrow> string \<Rightarrow> 'w bmc \<Rightarrow> deployer \<Rightarrow> ('w, string) act" where
  "probe_and_render bios out b d1 =
     bindE (on_error (\<lambda>err. Wrap ''probing RedFish endpoint: '' err []) (Probe bios b d1)) (\<lambda>r. returnE (renderProbeReport r out))"

definition runRedfishProbe ::
  "'w cli_env \<Rightarrow> (computer_system \<Rightarrow> string) \<Rightarrow> cli_flags \<Rightarrow> string \<Rightarrow> 'w run \<Rightarrow> string result \<times> 'w run" where
  "runRedfishProbe e bios f output_flag s =
     (case resolveProbeOutput output_flag of Inl err \<Rightarrow> (Fail err, s) | Inr out \<Rightarrow>
      (case loadRedfishQuirksDir e (cl_quirks_dir f) of Inl err \<Rightarrow> (Fail err, s) | Inr reg \<Rightarrow>
      (case resolveRedfishPassword e (cl_password f) (cl_password_file f) (cl_password_stdin f) of Inl err \<Rightarrow> (Fail err, s)
      | Inr password \<Rightarrow>
      (case ValidateMediaURL (ce_net e) (cl_endpoint f) of
        Some err \<Rightarrow> (Fail (Wrap ''validating endpoint: '' (ErrorsNew (url_error_text (ce_net e) err)) []), s)
      | None \<Rightarrow>
          (let cfg = \<lparr>cf_endpoint = cl_endpoint f, cf_username = cl_username f, cf_password = password, cf_vendor = [],
                 cf_verify_ssl = cl_verify_ssl f, cf_timeout = 0, cf_system_id = cl_system_id f, cf_auth_mode = cl_auth_mode f\<rparr>;
               b = ce_bmc e cfg in
           with_connection b (\<lambda>err. Wrap ''connecting to RedFish endpoint: '' err []) (NewDeployer (ce_manifest e) reg cfg)
             (probe_and_render bios out b) s)))))"


section \<open>What it asks of the BMC\<close>

text \<open>A read: neither a change of the BMC nor the opening or closing of a session.\<close>

definition read_only :: "bmc_event \<Rightarrow> bool" where
  "read_only ev = (case ev of Acted _ _ \<Rightarrow> False | Client_Opened _ \<Rightarrow> False | Logged_Out \<Rightarrow> False | _ \<Rightarrow> True)"

lemma read_only_simps [simp]:
  "read_only (Systems r)" "read_only (Managers r')" "read_only (Media_List r'')" "read_only Service_Root"
  by (simp_all add: read_only_def)

lemma read_only_actions: "list_all read_only ys \<Longrightarrow> actions ys = []"
  by (induction ys rule: actions.induct) (auto simp: read_only_def)

lemma read_only_session: "list_all read_only ys \<Longrightarrow> list_all session_free ys"
  by (auto simp: list_all_iff read_only_def session_free_def split: bmc_event.splits)

lemma emits_media: "emits_only read_only (mediaCandidates b sys)"
proof -
  have managers: "emits_only read_only (manager_candidates b ms acc)" for ms acc
  proof (induction ms arbitrary: acc)
    case (Cons m ms)
    show ?case unfolding manager_candidates.simps by (intro emits_rules Cons) simp
  qed (simp add: emits_rules)
  show ?thesis unfolding mediaCandidates_def Let_def by (auto intro!: emits_rules managers split: sum.splits)
qed

lemma emits_probe: "emits_only read_only (Probe bios b d)"
  unfolding Probe_def by (auto intro!: emits_rules emits_media split: sum.splits)

lemma emits_probe_and_render: "emits_only read_only (probe_and_render bios out b d1)"
  unfolding probe_and_render_def by (intro emits_rules emits_probe)

lemma emits_mono: "emits_only P m \<Longrightarrow> (\<And>ys. list_all P ys \<Longrightarrow> list_all Q ys) \<Longrightarrow> emits_only Q m"
  unfolding emits_only_def by (erule performs_mono) blast

lemma connection_quiet:
  assumes "\<And>d1. emits_only read_only (work d1)"
  shows "performs (with_connection b decorate d work) (\<lambda>r ys. actions ys = [])"
  unfolding with_connection_def
proof (rule performs_bind, rule performs_on_error, rule performs_mono [OF Connect_quiet], goal_cases)
  case (1 r ys)
  show ?case
  proof (cases r)
    case (Ok d1)
    show ?thesis
      unfolding Ok result.case
    proof (rule performsI)
      fix s
      obtain r' s1 where w: "work d1 s = (r', s1)" by fastforce
      then obtain zs where zs: "r_events s1 = r_events s @ zs" "actions zs = []"
        using performsD [OF assms [of d1, unfolded emits_only_def], of s] read_only_actions by auto
      obtain us where "r_events (snd (Close b d1 s1)) = r_events s1 @ us" "actions us = []" using Close_quiet by blast
      then show "\<exists>zs. r_events (snd (case work d1 s of (r, s1) \<Rightarrow> (r, snd (Close b d1 s1)))) = r_events s @ zs \<and> actions (ys @ zs) = []"
        using w zs 1 by auto
    qed
  qed (use 1 in auto)
qed

lemma connection_reads:
  assumes "\<And>d1. emits_only read_only (work d1)"
  shows "\<exists>ys. r_events (snd (with_connection b decorate d work s)) = r_events s @ ys \<and> actions ys = [] \<and> sessions_opened ys = sessions_closed ys"
proof -
  obtain ys where ys: "r_events (snd (with_connection b decorate d work s)) = r_events s @ ys" "actions ys = []"
    using performsD [OF connection_quiet [where work = work, OF assms, where b = b and decorate = decorate and d = d], of s] by auto
  have free: "emits_only session_free (work d1)" for d1 by (rule emits_mono [OF assms read_only_session])
  obtain zs where zs: "r_events (snd (with_connection b decorate d work s)) = r_events s @ zs" "sessions_opened zs = sessions_closed zs"
    using performsD [OF with_connection_performs [where work = work, OF free, where b = b and decorate = decorate and d = d], of s] by auto
  have "ys = zs" using ys(1) zs(1) by simp
  then show ?thesis using ys zs by auto
qed

section \<open>The default drive\<close>

lemma first_cd_pick:
  "(first_cd (int (length pre)) vms = -1 \<and> \<not> list_ex mediaSupportsCD vms) \<or>
   (\<exists>k. first_cd (int (length pre)) vms = int k \<and> (\<forall>fb. pick_media (pre @ vms) [length pre..<length (pre @ vms)] fb = Some k))"
proof (induction vms arbitrary: pre)
  case (Cons vm vms)
  have order: "[length pre..<length (pre @ vm # vms)] = length pre # [Suc (length pre)..<length (pre @ vm # vms)]"
    by (rule upt_conv_Cons) simp
  show ?case
  proof (cases "mediaSupportsCD vm")
    case True
    then show ?thesis unfolding order by simp
  next
    case False
    have later: "first_cd (int (length pre) + 1) vms = first_cd (int (length (pre @ [vm]))) vms" by (simp add: add.commute)
    show ?thesis using Cons.IH [of "pre @ [vm]"] False unfolding order by (auto simp: later)
  qed
qed simp

text \<open>The drive that the report marks is the one a deploy without quirks would take.\<close>

lemma probe_marks_deploy_choice:
  "firstCDIndex members \<ge> 0 \<Longrightarrow> pick_media members (defaultMediaOrder (length members)) None = Some (nat (firstCDIndex members))"
  using first_cd_pick [of "[]" members] by (auto simp: firstCDIndex_def defaultMediaOrder_def)

text \<open>
  Without a mark it says that a deploy would find no media; a drive that advertises no
  types is not marked, but a deploy takes it.
\<close>

lemma probe_denies_untyped_drive:
  "vm_media_types vm = [] \<Longrightarrow> firstCDIndex [vm] = -1 \<and> pick_media [vm] (defaultMediaOrder 1) None = Some 0"
  by (simp add: firstCDIndex_def mediaSupportsCD_def defaultMediaOrder_def)

section \<open>The starter profile reads back\<close>

lemma quoted_one_line: "CHR 0x0A \<notin> set (quoted s)"
proof -
  have hex: "hex_digit n \<noteq> CHR 0x0A" if "n < 16" for n
  proof -
    have "hex_digit n \<in> set ''0123456789abcdef''" unfolding hex_digit_def by (rule nth_mem) (use that in simp)
    then show ?thesis by auto
  qed
  have "CHR 0x0A \<notin> set (quote_char c)" for c
  proof -
    have div: "n < 256 \<Longrightarrow> n div 16 < 16" for n :: nat by presburger
    have "(of_char c :: nat) < 256" by simp
    then have "(of_char c :: nat) div 16 < 16" "(of_char c :: nat) mod 16 < 16" by (rule div, simp)
    note digits = hex [OF this(1)] hex [OF this(2)]
    have "set (quote_char c) \<subseteq> {CHR 0x5C, CHR ''a'', CHR ''b'', CHR ''f'', CHR ''n'', CHR ''r'', CHR ''t'', CHR ''v'', CHR ''x'',
        hex_digit (of_char c div 16), hex_digit (of_char c mod 16)} \<union> ({c} - {CHR 0x0A})"
      by (simp add: quote_char_def Let_def)
    then show ?thesis using digits [symmetric] by auto
  qed
  then show ?thesis by (auto simp: quoted_def)
qed

lemma slug_one_line: "CHR 0x0A \<notin> set (slugify s)"
proof -
  have slug: "CHR 0x0A \<notin> set (slug_from b t)" for b t
    by (induction t arbitrary: b) (auto simp: slug_char_def)
  have trim: "set (trim_hyphens t) \<subseteq> set t" for t
    by (auto simp: trim_hyphens_def dest!: set_dropWhileD)
  show ?thesis using slug trim unfolding slugify_def by blast
qed

lemma Join_one_line: "x \<notin> set sep \<Longrightarrow> \<forall>t \<in> set ts. x \<notin> set t \<Longrightarrow> x \<notin> set (Join ts sep)"
  by (induction ts sep rule: Join.induct) auto

text \<open>The values that go into comments as they are.\<close>

definition plain_comments :: "probe_report \<Rightarrow> bool" where
  "plain_comments r \<longleftrightarrow> CHR 0x0A \<notin> set (pr_power r) \<and> CHR 0x0A \<notin> set (pr_default_reset r) \<and>
     (\<forall>t \<in> set (pr_allowable r). CHR 0x0A \<notin> set t)"

lemma starter_one_line:
  assumes "plain_comments r"
  shows "\<forall>l \<in> set (starter_lines r). CHR 0x0A \<notin> set l"
proof -
  have mt: "suggestedMediaType r = [] \<or> suggestedMediaType r = ''DVD''" by (simp add: suggestedMediaType_def Let_def)
  have name: "CHR 0x0A \<notin> set (profile_name r)" using slug_one_line by (simp add: profile_name_def Let_def)
  have vals: "CHR 0x0A \<notin> set (nonEmpty (pr_power r) ''<unknown>'')" "CHR 0x0A \<notin> set (nonEmpty (pr_default_reset r) ''<none>'')"
    "CHR 0x0A \<notin> set (nonEmpty (pr_default_reset r) ''ForceRestart'')"
    using assms by (auto simp: plain_comments_def nonEmpty_def)
  have "CHR 0x0A \<notin> set (Join (pr_allowable r) '', '')"
    by (rule Join_one_line) (use assms in \<open>simp_all add: plain_comments_def\<close>)
  note vals = vals this
  show ?thesis
    using mt name vals quoted_one_line
    by (auto simp: starter_lines_def Let_def yamlScalar_def)
qed


section \<open>Properties\<close>

text \<open>
  C39. The probe only reads: whatever the flags, the environment and the BMC, it sends no request that
  changes the BMC, and every session it opened is closed.
\<close>
theorem probe_is_read_only:
  "\<exists>ys. r_events (snd (runRedfishProbe e bios f out s)) = r_events s @ ys \<and> actions ys = [] \<and> sessions_opened ys = sessions_closed ys"
proof -
  have "\<exists>ys. r_events s = r_events s @ ys \<and> actions ys = [] \<and> sessions_opened ys = sessions_closed ys"
    by (rule exI [of _ "[]"]) simp
  then show ?thesis
    using connection_reads [where work = "probe_and_render bios x b" for x b, OF emits_probe_and_render] by (auto simp: runRedfishProbe_def Let_def split: sum.splits option.splits)
qed

text \<open>
  C40. The starter profile reads back as what it means to say: when the power state and the reset
  types that the BMC reports hold no line break, the lines of the profile that are not comments are
  the name, the vendor and firmware quoted, manager-first media search exactly when every CD
  drive is hosted by a manager, and the media type exactly when it must be pinned.
\<close>
theorem starter_profile_reads_back:
  assumes "plain_comments r"
  shows "filter (\<lambda>l. \<not> HasPrefix l ''#'') (raw_lines (StarterProfile r)) =
    [''name: '' @ profile_name r]
    @ (if TrimSpace (si_manufacturer (pr_system r)) = [] then []
       else [''match:'', ''  vendor: '' @ quoted (TrimSpace (si_manufacturer (pr_system r)))])
    @ (if pr_manager_only r then [''mediaSearch:'', ''  order: [manager, system]''] else [])
    @ (if suggestedMediaType r = [] then [] else [''mediaType: '' @ suggestedMediaType r])
    @ (if TrimSpace (pr_firmware r) = [] then [] else [''validatedFirmware: '' @ quoted (TrimSpace (pr_firmware r))])"
proof -
  have "raw_lines (StarterProfile r) = starter_lines r"
    unfolding StarterProfile_def by (rule raw_lines_concat [OF starter_one_line [OF assms]])
  then show ?thesis by (simp add: starter_lines_def Let_def HasPrefix_def yamlScalar_def)
qed


definition sample_report :: probe_report where
  "sample_report = probe_of (\<lambda>_. ''2.8 '') sample_deployer [sample_system] (sample_system, False)
     ([sample_media], snd (add_media [sample_media] ''manager:1'' ([], [])))"

theorem starter_profile_reads_back_witness:
  "hd (filter (\<lambda>l. \<not> HasPrefix l ''#'') (raw_lines (StarterProfile sample_report))) = ''name: '' @ profile_name sample_report"
proof -
  have "plain_comments sample_report" by code_simp
  from starter_profile_reads_back [OF this] show ?thesis by simp
qed

text \<open>
  The values in the comments are not escaped: a power state with a line break adds a line of
  its own to the profile.
\<close>

lemma power_state_breaks_out:
  "''mediaType: Tape is: '' @ pr_default_reset sample_report
     \<in> set (filter (\<lambda>l. \<not> HasPrefix l ''#'') (raw_lines (StarterProfile (sample_report\<lparr>pr_power := ''On'' @ newline @ ''mediaType: Tape''\<rparr>))))"
  by code_simp

text \<open>Whether sessions are advertised is answered from the mode in use, not from the service root.\<close>

lemma basic_denies_sessions:
  "d_used_basic_auth d \<Longrightarrow> \<not> pr_has_sessions (probe_of bios d systems chosen media)"
  by (simp add: probe_of_def split_beta)

end
