(* ===== verification/File_Tree.thy ===== *)
theory File_Tree
  imports Go_Paths "HOL-Library.Sublist" "HOL-Library.AList" "HOL-Library.List_Lexorder" "HOL-Library.Char_ord"
begin

text \<open>
  The file system as Go's \<^verbatim>\<open>os\<close> package sees it, for the components that create and remove
  directories: directories and regular files, each at the list of names below the root. The
  operating system decides whether a call succeeds (\<open>tree_os\<close>); symbolic links and concurrent
  users of the tree are left out.
\<close>

type_synonym tree_path = "string list"

record file_node =
  fn_mode :: nat
  fn_data :: string

record file_tree =
  ft_dirs :: "tree_path list"
  ft_files :: "(tree_path \<times> file_node) list"

text \<open>
  \<open>os_written\<close> is the number of bytes written before a write fails, \<open>None\<close> when it does not.
\<close>

record tree_os =
  os_mkdir :: "tree_path \<Rightarrow> bool"
  os_open :: "tree_path \<Rightarrow> bool"
  os_written :: "tree_path \<Rightarrow> string \<Rightarrow> nat option"
  os_umask :: "nat \<Rightarrow> nat"
  os_remove :: "tree_path \<Rightarrow> bool"

definition file_at :: "file_tree \<Rightarrow> tree_path \<Rightarrow> file_node option" where
  "file_at fs = map_of (ft_files fs)"

definition is_dir :: "file_tree \<Rightarrow> tree_path \<Rightarrow> bool" where
  "is_dir fs p \<longleftrightarrow> p \<in> set (ft_dirs fs)"

text \<open>Whether \<^verbatim>\<open>os.Stat\<close> succeeds.\<close>

definition stat_ok :: "file_tree \<Rightarrow> tree_path \<Rightarrow> bool" where
  "stat_ok fs p \<longleftrightarrow> is_dir fs p \<or> file_at fs p \<noteq> None"

text \<open>\<^verbatim>\<open>os.MkdirAll\<close>: the missing directories from the root on, until one cannot be made.\<close>

fun make_dirs :: "tree_os \<Rightarrow> tree_path list \<Rightarrow> file_tree \<Rightarrow> bool \<times> file_tree" where
  "make_dirs os [] fs = (True, fs)"
| "make_dirs os (p # ps) fs =
     (if is_dir fs p then make_dirs os ps fs
      else if file_at fs p \<noteq> None \<or> \<not> os_mkdir os p then (False, fs)
      else make_dirs os ps (fs\<lparr>ft_dirs := ft_dirs fs @ [p]\<rparr>))"

definition MkdirAll :: "tree_os \<Rightarrow> tree_path \<Rightarrow> file_tree \<Rightarrow> bool \<times> file_tree" where
  "MkdirAll os p fs = make_dirs os (prefixes p) fs"

text \<open>\<^verbatim>\<open>os.WriteFile\<close>: a new file gets the mode that the umask leaves, an old one keeps its own.\<close>

definition WriteFile :: "tree_os \<Rightarrow> tree_path \<Rightarrow> string \<Rightarrow> nat \<Rightarrow> file_tree \<Rightarrow> bool \<times> file_tree" where
  "WriteFile os p data mode fs =
     (if p = [] \<or> is_dir fs p \<or> \<not> is_dir fs (butlast p) \<or> \<not> os_open os p then (False, fs)
      else
        let m = (case file_at fs p of None \<Rightarrow> os_umask os mode | Some f \<Rightarrow> fn_mode f);
            put = (\<lambda>d. fs\<lparr>ft_files := AList.update p \<lparr>fn_mode = m, fn_data = d\<rparr> (ft_files fs)\<rparr>)
        in case os_written os p data of
             None \<Rightarrow> (True, put data)
           | Some n \<Rightarrow> (False, put (take n data)))"

text \<open>
  \<^verbatim>\<open>os.RemoveAll\<close> goes on after an error: what stays is what the system does not let go, and
  the directories above it, which are not empty.
\<close>

definition stuck :: "tree_os \<Rightarrow> file_tree \<Rightarrow> tree_path \<Rightarrow> bool" where
  "stuck os fs q \<longleftrightarrow> list_ex (\<lambda>r. prefix q r \<and> \<not> os_remove os r) (ft_dirs fs @ map fst (ft_files fs))"

definition RemoveAll :: "tree_os \<Rightarrow> tree_path \<Rightarrow> file_tree \<Rightarrow> file_tree" where
  "RemoveAll os p fs =
     fs\<lparr>ft_dirs := filter (\<lambda>q. prefix p q \<longrightarrow> stuck os fs q) (ft_dirs fs),
        ft_files := filter (\<lambda>(q, f). prefix p q \<longrightarrow> stuck os fs q) (ft_files fs)\<rparr>"

text \<open>The regular files below a directory in the order \<^verbatim>\<open>filepath.Walk\<close> meets them.\<close>

definition walk_files :: "file_tree \<Rightarrow> tree_path \<Rightarrow> (tree_path \<times> file_node) list" where
  "walk_files fs p = sort_key fst (filter (\<lambda>(q, f). prefix p q) (ft_files fs))"

section \<open>Paths in the tree\<close>

text \<open>Where a path leads, from a working directory.\<close>

definition tree_path :: "string \<Rightarrow> string \<Rightarrow> tree_path" where
  "tree_path cwd p = clean_parts (Abs_path cwd p)"

lemma foldl_clean_parts:
  assumes "\<forall>s \<in> set segs. CHR ''/'' \<notin> set s"
  shows "foldl (clean_segment True) base (foldl (clean_segment False) [] segs) = foldl (clean_segment True) base segs"
  using assms
proof (induction segs rule: rev_induct)
  case (snoc s segs)
  let ?out = "foldl (clean_segment False) [] segs"
  have IH: "foldl (clean_segment True) base ?out = foldl (clean_segment True) base segs" using snoc by simp
  have norm: "normal_parts False ?out" by (rule foldl_clean_normal) (use snoc.prems in auto)
  show ?case
  proof (cases "s = ''..'' \<and> ?out \<noteq> [] \<and> last ?out \<noteq> ''..''")
    case True
    then obtain qs x where out: "?out = qs @ [x]" "x \<noteq> ''..''" by (metis append_butlast_last_id)
    have "x \<noteq> [] \<and> x \<noteq> ''.''" using norm out(1) by (auto simp: normal_parts_def)
    then have "clean_segment True b x = b @ [x]" for b using out(2) by (simp add: clean_segment_def)
    then have "foldl (clean_segment True) base segs = foldl (clean_segment True) base qs @ [x]" using IH out(1) by simp
    moreover have "clean_segment True (b @ [x]) s = b" "clean_segment False (b @ [x]) s = b" for b
      using True out(2) by (simp_all add: clean_segment_def)
    ultimately show ?thesis using out(1) by simp
  next
    case False
    then have "clean_segment False ?out s = ?out @ [s] \<or> clean_segment False ?out s = ?out \<and> (s = [] \<or> s = ''.'')"
      by (auto simp: clean_segment_def)
    moreover have "s = [] \<or> s = ''.'' \<Longrightarrow> clean_segment True b s = b" for b by (simp add: clean_segment_def)
    ultimately show ?thesis using IH by auto
  qed
qed simp

text \<open>The same as one pass over the elements.\<close>

lemma tree_path_segments:
  assumes "IsAbs cwd"
  shows "tree_path cwd p = foldl (clean_segment True) [] (if IsAbs p then segments p [] else segments cwd [] @ segments p [])"
proof -
  have cwd: "cwd \<noteq> []" using assms by (auto simp: IsAbs_def HasPrefix_def)
  have clean: "clean_parts (Clean q) = clean_parts q" for q
    unfolding Clean_path_of by (rule clean_parts_path_of [OF clean_parts_normal])
  have idle: "clean_segment True base [] = base" for base by (simp add: clean_segment_def)
  have "tree_path cwd p = clean_parts (if IsAbs p then p else if p = [] then cwd else cwd @ CHR ''/'' # p)"
    using cwd by (simp add: tree_path_def Abs_path_def PathJoin_def clean)
  then show ?thesis
    using assms IsAbs_append [OF cwd, of "CHR ''/'' # p"] by (simp add: clean_parts_def segments_append idle)
qed

lemma normal_parts_plains: "normal_parts rooted ps \<Longrightarrow> \<forall>s \<in> set qs. plain_segment s \<Longrightarrow> normal_parts rooted (ps @ qs)"
proof (induction qs arbitrary: ps)
  case (Cons q qs)
  have "normal_parts rooted (ps @ [q])" using normal_parts_plain [OF Cons.prems(1)] Cons.prems(2) by simp
  then show ?case using Cons.IH [of "ps @ [q]"] Cons.prems(2) by simp
qed simp

text \<open>Joining safe names to a directory leads to those names below it.\<close>

lemma tree_path_of:
  assumes "IsAbs cwd" and "\<forall>s \<in> set qs. plain_segment s"
  shows "tree_path cwd (path_of (IsAbs dir) (clean_parts dir @ qs)) = tree_path cwd dir @ qs"
proof -
  let ?ps = "clean_parts dir @ qs" and ?p = "path_of (IsAbs dir) (clean_parts dir @ qs)"
  have norm: "normal_parts (IsAbs dir) ?ps" by (rule normal_parts_plains [OF clean_parts_normal assms(2)])
  have abs: "IsAbs ?p = IsAbs dir" by (rule IsAbs_path_of_normal [OF norm])
  show ?thesis
  proof (cases "IsAbs dir")
    case True
    have "tree_path cwd ?p = clean_parts ?p" using abs True by (simp add: tree_path_segments [OF assms(1)] clean_parts_def)
    also have "\<dots> = ?ps" by (rule clean_parts_path_of [OF norm])
    finally show ?thesis using True by (simp add: tree_path_segments [OF assms(1)] clean_parts_def)
  next
    case False
    have "\<forall>s \<in> set (segments dir []). CHR ''/'' \<notin> set s" using segments_parts [of _ dir "[]"] by simp
    note fold = foldl_clean_parts [OF this, of "foldl (clean_segment True) [] (segments cwd [])"]
    have dir: "foldl (clean_segment True) (foldl (clean_segment True) [] (segments cwd [])) ?ps = tree_path cwd dir @ qs"
      using False fold by (simp add: tree_path_segments [OF assms(1)] foldl_plain [OF assms(2)] clean_parts_def)
    have "foldl (clean_segment True) b (segments ?p []) = foldl (clean_segment True) b ?ps" for b
    proof (cases "?ps = []")
      case True
      then show ?thesis using False by (simp add: path_of_def clean_segment_def)
    next
      case ne: False
      then have "segments ?p [] = ?ps"
        using False norm by (simp add: path_of_def) (rule segments_Join, auto simp: normal_parts_def)
      then show ?thesis by simp
    qed
    then show ?thesis using dir False abs by (simp add: tree_path_segments [OF assms(1)])
  qed
qed

lemma tree_path_below:
  assumes "IsAbs cwd" and "dir \<noteq> []" and "qs \<noteq> []" and "\<forall>s \<in> set qs. plain_segment s"
  shows "tree_path cwd (PathJoin [dir, Join qs ''/'']) = tree_path cwd dir @ qs"
  unfolding PathJoin_below [OF assms(2-4)] by (rule tree_path_of [OF assms(1,4)])

text \<open>\<^verbatim>\<open>Dir\<close> takes the last name off.\<close>

lemma Dir_normal:
  assumes "normal_parts rooted ps" and "plain_segment x"
  shows "Dir (path_of rooted (ps @ [x])) = path_of rooted ps"
proof -
  have x: "CHR ''/'' \<notin> set x" using assms(2) by (simp add: plain_segment_def)
  have cut: "rev (dropWhile (\<lambda>c. c \<noteq> CHR ''/'') (rev (q @ CHR ''/'' # x))) = q @ [CHR ''/'']" for q
  proof -
    have "dropWhile (\<lambda>c. c \<noteq> CHR ''/'') (rev x @ CHR ''/'' # rev q) = CHR ''/'' # rev q"
      using x by (subst dropWhile_append2) auto
    then show ?thesis by simp
  qed
  show ?thesis
  proof (cases "ps = []")
    case True
    have drop: "dropWhile (\<lambda>c. c \<noteq> CHR ''/'') (rev x) = []" using x by auto
    show ?thesis
    proof (cases rooted)
      case rooted: True
      then show ?thesis
        using True cut [of "[]"] by (simp add: Dir_def path_of_def Clean_def clean_parts_def clean_segment_def IsAbs_def HasPrefix_def)
    next
      case rel: False
      have "Dir x = ''.''" unfolding Dir_def drop by (simp add: Clean_def clean_parts_def clean_segment_def IsAbs_def HasPrefix_def)
      then show ?thesis using True rel by (simp add: path_of_def)
    qed
  next
    case False
    then have ne: "path_of rooted ps \<noteq> []"
      using assms(1) by (cases rooted; cases ps; cases "tl ps") (auto simp: path_of_def normal_parts_def)
    have "path_of rooted (ps @ [x]) = path_of rooted ps @ CHR ''/'' # x" using False by (simp add: path_of_def Join_append)
    then have "Dir (path_of rooted (ps @ [x])) = Clean (path_of rooted ps @ [CHR ''/''])" using cut by (simp add: Dir_def)
    moreover have "clean_parts (path_of rooted ps @ [CHR ''/'']) = ps"
      using clean_parts_child [OF ne, of "[]"] clean_parts_path_of [OF assms(1)] by (simp add: clean_segment_def)
    moreover have "IsAbs (path_of rooted ps @ [CHR ''/'']) = rooted"
      using IsAbs_append [OF ne] IsAbs_path_of_normal [OF assms(1)] by simp
    ultimately show ?thesis by (simp add: Clean_path_of)
  qed
qed

lemma tree_path_Dir:
  assumes "IsAbs cwd" and "dir \<noteq> []" and "qs \<noteq> []" and "\<forall>s \<in> set qs. plain_segment s"
  shows "tree_path cwd (Dir (PathJoin [dir, Join qs ''/''])) = tree_path cwd dir @ butlast qs"
proof -
  obtain rs a where qs: "qs = rs @ [a]" using assms(3) by (metis append_butlast_last_id)
  have norm: "normal_parts (IsAbs dir) (clean_parts dir @ rs)"
    by (rule normal_parts_plains [OF clean_parts_normal]) (use assms(4) qs in simp)
  have "Dir (PathJoin [dir, Join qs ''/'']) = path_of (IsAbs dir) (clean_parts dir @ rs)"
    unfolding PathJoin_below [OF assms(2-4)] using Dir_normal [OF norm, of a] assms(4) qs by simp
  then show ?thesis using tree_path_of [OF assms(1), of rs dir] assms(4) qs by simp
qed

lemma tree_path_child:
  assumes "IsAbs cwd" and "dir \<noteq> []" and "plain_segment a"
  shows "tree_path cwd (PathJoin [dir, a]) = tree_path cwd dir @ [a]"
  using tree_path_below [OF assms(1,2), of "[a]"] assms(3) by simp

section \<open>Trees\<close>

text \<open>Every name stands in a directory, and a name is not both a file and a directory.\<close>

definition tree_ok :: "file_tree \<Rightarrow> bool" where
  "tree_ok fs \<longleftrightarrow> distinct (map fst (ft_files fs)) \<and> is_dir fs [] \<and>
     (\<forall>p. stat_ok fs p \<longrightarrow> p = [] \<or> is_dir fs (butlast p)) \<and>
     (\<forall>p. file_at fs p \<noteq> None \<longrightarrow> \<not> is_dir fs p)"

lemma tree_ok_parents:
  assumes "tree_ok fs" and "stat_ok fs p" and "strict_prefix q p"
  shows "is_dir fs q"
  using assms(2,3)
proof (induction p rule: rev_induct)
  case (snoc x p)
  have d: "is_dir fs p" using assms(1) snoc.prems(1) by (auto simp: tree_ok_def)
  then have "stat_ok fs p" by (simp add: stat_ok_def)
  then show ?case using snoc d by (auto simp: strict_prefix_def)
qed simp

section \<open>What the calls do\<close>

lemma make_dirs_append:
  "make_dirs os (ps @ qs) fs = (case make_dirs os ps fs of (True, fs1) \<Rightarrow> make_dirs os qs fs1 | (False, fs1) \<Rightarrow> (False, fs1))"
  by (induction os ps fs rule: make_dirs.induct) auto

lemma MkdirAll_snoc:
  "MkdirAll os (p @ [x]) fs =
     (case MkdirAll os p fs of (True, fs1) \<Rightarrow> make_dirs os [p @ [x]] fs1 | (False, fs1) \<Rightarrow> (False, fs1))"
  by (simp add: MkdirAll_def prefixes_snoc make_dirs_append)

definition grown :: "tree_path \<Rightarrow> file_tree \<Rightarrow> file_tree \<Rightarrow> bool" where
  "grown p fs fs' \<longleftrightarrow> ft_files fs' = ft_files fs \<and> (\<forall>q. is_dir fs' q \<longrightarrow> is_dir fs q \<or> prefix q p) \<and> (\<forall>q. is_dir fs q \<longrightarrow> is_dir fs' q)"

lemma MkdirAll_grown:
  "MkdirAll os p fs = (r, fs') \<Longrightarrow> tree_ok fs \<Longrightarrow> grown p fs fs' \<and> tree_ok fs' \<and> (r \<longrightarrow> is_dir fs' p)"
proof (induction p arbitrary: r fs' rule: rev_induct)
  case Nil
  then show ?case by (simp add: MkdirAll_def tree_ok_def grown_def)
next
  case (snoc x p)
  obtain r1 fs1 where m: "MkdirAll os p fs = (r1, fs1)" by fastforce
  note IH = snoc.IH [OF m snoc.prems(2)]
  have up: "grown (p @ [x]) fs fs1" using IH by (auto simp: grown_def)
  show ?case
  proof (cases "r1 \<and> \<not> is_dir fs1 (p @ [x]) \<and> file_at fs1 (p @ [x]) = None \<and> os_mkdir os (p @ [x])")
    case True
    then have fs': "fs' = fs1\<lparr>ft_dirs := ft_dirs fs1 @ [p @ [x]]\<rparr>" and r: "r"
      using snoc.prems(1) m by (auto simp: MkdirAll_snoc)
    have new: "is_dir fs' q \<longleftrightarrow> is_dir fs1 q \<or> q = p @ [x]" "file_at fs' q = file_at fs1 q" for q
      unfolding fs' by (auto simp: is_dir_def file_at_def)
    have "is_dir fs1 p" "tree_ok fs1" using IH True by blast+
    moreover have "ft_files fs' = ft_files fs1" unfolding fs' by simp
    ultimately have "tree_ok fs'"
      using True unfolding tree_ok_def stat_ok_def new by (metis butlast_snoc)
    then show ?thesis using up r by (auto simp: fs' grown_def is_dir_def)
  next
    case False
    then have "fs' = fs1" "r \<longrightarrow> is_dir fs1 (p @ [x])" using snoc.prems(1) m by (auto simp: MkdirAll_snoc split: bool.splits if_splits)
    then show ?thesis using up IH by auto
  qed
qed

lemma MkdirAll_succeeds:
  "tree_ok fs \<Longrightarrow> \<forall>q. prefix q p \<longrightarrow> file_at fs q = None \<and> os_mkdir os q \<Longrightarrow> fst (MkdirAll os p fs)"
proof (induction p rule: rev_induct)
  case Nil
  then show ?case by (simp add: MkdirAll_def tree_ok_def)
next
  case (snoc x p)
  obtain r1 fs1 where m: "MkdirAll os p fs = (r1, fs1)" by fastforce
  have "r1" using snoc m by (metis fst_conv prefix_append)
  moreover have "file_at fs1 (p @ [x]) = None \<and> os_mkdir os (p @ [x])"
    using MkdirAll_grown [OF m snoc.prems(1)] snoc.prems(2) by (simp add: grown_def file_at_def)
  ultimately show ?case using m by (simp add: MkdirAll_snoc)
qed

lemma WriteFile_fields:
  assumes "WriteFile os p data mode fs = (r, fs')"
  shows "ft_dirs fs' = ft_dirs fs" "q \<noteq> p \<Longrightarrow> file_at fs' q = file_at fs q"
    "tree_ok fs \<Longrightarrow> tree_ok fs'"
    "r \<Longrightarrow> file_at fs' p = Some \<lparr>fn_mode = (case file_at fs p of None \<Rightarrow> os_umask os mode | Some f \<Rightarrow> fn_mode f), fn_data = data\<rparr>"
proof -
  consider "fs' = fs" "\<not> r" | m d where "fs' = fs\<lparr>ft_files := AList.update p \<lparr>fn_mode = m, fn_data = d\<rparr> (ft_files fs)\<rparr>"
      "p \<noteq> []" "\<not> is_dir fs p" "is_dir fs (butlast p)"
      "r \<longrightarrow> m = (case file_at fs p of None \<Rightarrow> os_umask os mode | Some f \<Rightarrow> fn_mode f) \<and> d = data"
    using assms by (auto simp: WriteFile_def Let_def split: if_splits option.splits)
  note cases = this
  show "ft_dirs fs' = ft_dirs fs" "q \<noteq> p \<Longrightarrow> file_at fs' q = file_at fs q"
    "r \<Longrightarrow> file_at fs' p = Some \<lparr>fn_mode = (case file_at fs p of None \<Rightarrow> os_umask os mode | Some f \<Rightarrow> fn_mode f), fn_data = data\<rparr>"
    using cases by (cases; auto simp: file_at_def update_conv')+
  show "tree_ok fs \<Longrightarrow> tree_ok fs'"
    using cases
    by cases (auto simp: tree_ok_def is_dir_def stat_ok_def file_at_def update_conv' distinct_update split: if_splits)
qed

lemma WriteFile_succeeds:
  "p \<noteq> [] \<Longrightarrow> \<not> is_dir fs p \<Longrightarrow> is_dir fs (butlast p) \<Longrightarrow> os_open os p \<Longrightarrow> os_written os p data = None \<Longrightarrow>
     fst (WriteFile os p data mode fs)"
  by (simp add: WriteFile_def Let_def)

lemma stuck_stat: "stuck os fs q \<longleftrightarrow> (\<exists>r. prefix q r \<and> stat_ok fs r \<and> \<not> os_remove os r)"
proof -
  have "r \<in> set (ft_dirs fs @ map fst (ft_files fs)) \<longleftrightarrow> stat_ok fs r" for r
    by (auto simp: stat_ok_def is_dir_def file_at_def map_of_eq_None_iff)
  then show ?thesis unfolding stuck_def list_ex_iff by blast
qed

lemma RemoveAll_fields:
  "is_dir (RemoveAll os p fs) q \<longleftrightarrow> is_dir fs q \<and> (prefix p q \<longrightarrow> stuck os fs q)"
  "file_at (RemoveAll os p fs) q = (if prefix p q \<longrightarrow> stuck os fs q then file_at fs q else None)"
proof -
  show "is_dir (RemoveAll os p fs) q \<longleftrightarrow> is_dir fs q \<and> (prefix p q \<longrightarrow> stuck os fs q)"
    by (auto simp: RemoveAll_def is_dir_def)
  have "map_of (filter (\<lambda>(q, f). keep q) xs) q = (if keep q then map_of xs q else None)"
    for xs :: "(tree_path \<times> file_node) list" and keep :: "tree_path \<Rightarrow> bool"
    by (induction xs) auto
  from this [of "\<lambda>q. prefix p q \<longrightarrow> stuck os fs q" "ft_files fs"]
  show "file_at (RemoveAll os p fs) q = (if prefix p q \<longrightarrow> stuck os fs q then file_at fs q else None)"
    unfolding RemoveAll_def file_at_def by simp
qed

text \<open>What is left below the directory has something that cannot be removed at or below it, which is left too.\<close>

lemma RemoveAll_left:
  assumes "prefix p q" and "stat_ok (RemoveAll os p fs) q"
  shows "\<exists>r. prefix q r \<and> stat_ok (RemoveAll os p fs) r \<and> \<not> os_remove os r"
proof -
  have left: "stat_ok (RemoveAll os p fs) r \<longleftrightarrow> stat_ok fs r \<and> (prefix p r \<longrightarrow> stuck os fs r)" for r
    by (auto simp: stat_ok_def RemoveAll_fields)
  obtain r where r: "prefix q r" "stat_ok fs r" "\<not> os_remove os r" using assms left stuck_stat by blast
  then have "stuck os fs r" using stuck_stat by blast
  then show ?thesis using r left by blast
qed

lemma MkdirAll_fails:
  assumes "MkdirAll os p fs = (False, fs')" and "tree_ok fs" and "\<not> is_dir fs p"
  shows "\<not> is_dir fs' p"
proof (cases p rule: rev_cases)
  case Nil
  then show ?thesis using assms by (simp add: tree_ok_def)
next
  case (snoc ps x)
  obtain r1 fs1 where m: "MkdirAll os ps fs = (r1, fs1)" by fastforce
  have "\<not> is_dir fs1 p" using MkdirAll_grown [OF m assms(2)] assms(3) snoc by (auto simp: grown_def)
  moreover have "fs' = fs1" using assms(1) m snoc by (auto simp: MkdirAll_snoc split: bool.splits if_splits)
  ultimately show ?thesis by simp
qed

end
