(* ===== verification/Key_Generation.thy ===== *)
theory Key_Generation
  imports File_Tree
begin

text \<open>
  Generation of a Secure Boot key set (\<^verbatim>\<open>pkg/secureboot/genkey.go\<close>): three key pairs made by
  \<^verbatim>\<open>openssl\<close>, their enrollment files signed along the chain PK, KEK, db, and the TPM policy key.
  \<^verbatim>\<open>openssl\<close> and the EFI libraries are parameters: \<open>'d\<close> is their signature database. The log is
  left out; error texts of the system are left out, those of the tools are kept.
\<close>

section \<open>Tools and options\<close>

datatype efi_var = VarPK | VarKEK | VarDb | VarNone

datatype signature_kind = X509Signature | Sha256Signature | OtherSignature

record 'd key_tools =
  kt_openssl :: "string list \<Rightarrow> file_tree \<Rightarrow> string option \<times> file_tree"
  kt_guid :: string
  kt_readable :: "tree_path \<Rightarrow> bool"
  kt_new :: 'd
  kt_append :: "string \<Rightarrow> string \<Rightarrow> 'd \<Rightarrow> string + 'd"
  kt_merge :: "'d \<Rightarrow> 'd \<Rightarrow> 'd"
  kt_oem :: "string \<Rightarrow> string + 'd"
  kt_custom :: "string \<Rightarrow> string \<Rightarrow> file_tree \<Rightarrow> string + 'd"
  kt_read_key :: "string \<Rightarrow> string + string"
  kt_read_cert :: "string \<Rightarrow> string + string"
  kt_sign :: "efi_var \<Rightarrow> 'd \<Rightarrow> string \<Rightarrow> string \<Rightarrow> string + string"
  kt_bytes :: "'d \<Rightarrow> string"
  kt_temp :: "string option"
  kt_lists :: "string \<Rightarrow> string + (signature_kind \<times> string list) list"
  kt_parse_cert :: "string \<Rightarrow> (string \<times> string) option"

record key_options =
  ko_name :: string
  ko_output_dir :: string
  ko_days :: string
  ko_skip_microsoft :: bool
  ko_custom_dir :: string

datatype auth_error =
    UnsupportedType | ReadingSignerKey | ReadingSignerPem | ReadingPem | AppendingSignature string
  | LoadingMicrosoft string | LoadingCustom string | ParsingKey string | ParsingCert string
  | SigningDb string | WritingAuth | WritingEsl

datatype custom_error = CustomDirMissing | TempDir | ReadingCustom string | ReadingDatabase string | CustomKeyDir string | WritingCustom

datatype keygen_error =
    NameRequired | OutputRequired | CreatingOutput | PreparingCustom custom_error
  | GeneratingPair string string | ConvertingDer string string | GeneratingAuth string auth_error
  | AppendingCustom string | GeneratingPolicyKey string

text \<open>\<^verbatim>\<open>os.ReadFile\<close>.\<close>

definition ReadFile :: "'d key_tools \<Rightarrow> tree_path \<Rightarrow> file_tree \<Rightarrow> string option" where
  "ReadFile t p fs = (if kt_readable t p then map_option fn_data (file_at fs p) else None)"

text \<open>A file of the output directory, as a path and in the tree.\<close>

abbreviation key_path :: "string \<Rightarrow> string \<Rightarrow> string" where "key_path dir name \<equiv> PathJoin [dir, name]"

section \<open>Enrollment files\<close>

definition signer_of :: "string \<Rightarrow> string option" where
  "signer_of keyType =
     (if keyType = ''PK'' \<or> keyType = ''KEK'' then Some ''PK'' else if keyType = ''db'' then Some ''KEK'' else None)"

definition efi_var_of :: "string \<Rightarrow> efi_var" where
  "efi_var_of keyType =
     (let k = ToLower keyType in
      if k = ''pk'' then VarPK else if k = ''kek'' then VarKEK else if k = ''db'' then VarDb else VarNone)"

text \<open>The certificates enrolled in one variable.\<close>

definition signature_db :: "'d key_tools \<Rightarrow> string \<Rightarrow> string \<Rightarrow> bool \<Rightarrow> string \<Rightarrow> file_tree \<Rightarrow> auth_error + 'd" where
  "signature_db t keyType customDir skip pem fs =
     (case kt_append t (kt_guid t) pem (kt_new t) of
        Inl err \<Rightarrow> Inl (AppendingSignature err)
      | Inr db \<Rightarrow>
          (case (if keyType \<noteq> ''PK'' \<and> \<not> skip
                 then map_sum LoadingMicrosoft (\<lambda>oem. kt_merge t db oem) (kt_oem t keyType) else Inr db) of
             Inl err \<Rightarrow> Inl err
           | Inr db1 \<Rightarrow>
          (if keyType \<noteq> ''PK'' \<and> customDir \<noteq> []
           then map_sum LoadingCustom (\<lambda>custom. kt_merge t db1 custom) (kt_custom t customDir keyType fs) else Inr db1)))"

text \<open>The files read, and the signed variable with its database.\<close>

definition auth_inputs :: "'d key_tools \<Rightarrow> (string \<Rightarrow> tree_path) \<Rightarrow> string \<Rightarrow> file_tree \<Rightarrow> auth_error + (string \<times> string \<times> string)" where
  "auth_inputs t at keyType fs =
     (case signer_of keyType of
        None \<Rightarrow> Inl UnsupportedType
      | Some signer \<Rightarrow>
          (case ReadFile t (at (signer @ ''.key'')) fs of
             None \<Rightarrow> Inl ReadingSignerKey
           | Some keyBytes \<Rightarrow>
               (case ReadFile t (at (signer @ ''.pem'')) fs of
                  None \<Rightarrow> Inl ReadingSignerPem
                | Some pemBytes \<Rightarrow>
                    (case ReadFile t (at (keyType @ ''.pem'')) fs of
                       None \<Rightarrow> Inl ReadingPem
                     | Some pem \<Rightarrow> Inr (keyBytes, pemBytes, pem)))))"

definition signed_db ::
  "'d key_tools \<Rightarrow> string \<Rightarrow> string \<Rightarrow> bool \<Rightarrow> string \<Rightarrow> string \<Rightarrow> string \<Rightarrow> file_tree \<Rightarrow> auth_error + (string \<times> 'd)" where
  "signed_db t keyType customDir skip keyBytes pemBytes pem fs =
     (case signature_db t keyType customDir skip pem fs of
        Inl err \<Rightarrow> Inl err
      | Inr db \<Rightarrow>
          (case kt_read_key t keyBytes of
             Inl err \<Rightarrow> Inl (ParsingKey err)
           | Inr key \<Rightarrow>
               (case kt_read_cert t pemBytes of
                  Inl err \<Rightarrow> Inl (ParsingCert err)
                | Inr cert \<Rightarrow> map_sum SigningDb (\<lambda>signed. (signed, db)) (kt_sign t (efi_var_of keyType) db key cert))))"

definition generateAuthKeys ::
  "'d key_tools \<Rightarrow> tree_os \<Rightarrow> string \<Rightarrow> string \<Rightarrow> string \<Rightarrow> string \<Rightarrow> bool \<Rightarrow> file_tree \<Rightarrow> auth_error option \<times> file_tree" where
  "generateAuthKeys t os cwd keyPath keyType customDir skip fs =
     (let at = (\<lambda>name. tree_path cwd (key_path keyPath name)) in
      case auth_inputs t at keyType fs of
        Inl err \<Rightarrow> (Some err, fs)
      | Inr (keyBytes, pemBytes, pem) \<Rightarrow>
          (case signed_db t keyType customDir skip keyBytes pemBytes pem fs of
             Inl err \<Rightarrow> (Some err, fs)
           | Inr (signed, db) \<Rightarrow>
               (case WriteFile os (at (keyType @ ''.auth'')) signed 420 fs of
                  (False, fs1) \<Rightarrow> (Some WritingAuth, fs1)
                | (True, fs1) \<Rightarrow>
                    (case WriteFile os (at (keyType @ ''.esl'')) (kt_bytes t db) 420 fs1 of
                       (False, fs2) \<Rightarrow> (Some WritingEsl, fs2)
                     | (True, fs2) \<Rightarrow> (None, fs2)))))"

section \<open>Custom certificates\<close>

definition custom_entries :: "(signature_kind \<times> string list) list \<Rightarrow> string list" where
  "custom_entries siglist = concat (map (\<lambda>(kind, sigs). if kind = OtherSignature then [] else sigs) siglist)"

text \<open>The certificates of one type, each written under its serial number.\<close>

fun write_custom ::
  "'d key_tools \<Rightarrow> tree_os \<Rightarrow> string \<Rightarrow> string \<Rightarrow> string \<Rightarrow> string list \<Rightarrow> file_tree \<Rightarrow> custom_error option \<times> file_tree" where
  "write_custom t os cwd tmpDir keyType [] fs = (None, fs)"
| "write_custom t os cwd tmpDir keyType (sig # sigs) fs =
     (case kt_parse_cert t sig of
        None \<Rightarrow> write_custom t os cwd tmpDir keyType sigs fs
      | Some (serial, raw) \<Rightarrow>
          (let keyDir = PathJoin [tmpDir, ''custom'', keyType] in
           case MkdirAll os (tree_path cwd keyDir) fs of
             (False, fs1) \<Rightarrow> (Some (CustomKeyDir keyType), fs1)
           | (True, fs1) \<Rightarrow>
               (case WriteFile os (tree_path cwd (PathJoin [keyDir, keyType @ serial])) raw 420 fs1 of
                  (False, fs2) \<Rightarrow> (Some WritingCustom, fs2)
                | (True, fs2) \<Rightarrow> write_custom t os cwd tmpDir keyType sigs fs2)))"

fun prepare_types ::
  "'d key_tools \<Rightarrow> tree_os \<Rightarrow> string \<Rightarrow> string \<Rightarrow> string \<Rightarrow> string list \<Rightarrow> file_tree \<Rightarrow> custom_error option \<times> file_tree" where
  "prepare_types t os cwd customDir tmpDir [] fs = (None, fs)"
| "prepare_types t os cwd customDir tmpDir (keyType # types) fs =
     (case ReadFile t (tree_path cwd (PathJoin [customDir, keyType])) fs of
        None \<Rightarrow> (Some (ReadingCustom keyType), fs)
      | Some b \<Rightarrow>
          (case kt_lists t b of
             Inl err \<Rightarrow> (Some (ReadingDatabase err), fs)
           | Inr siglist \<Rightarrow>
               (case write_custom t os cwd tmpDir keyType (custom_entries siglist) fs of
                  (Some err, fs1) \<Rightarrow> (Some err, fs1)
                | (None, fs1) \<Rightarrow> prepare_types t os cwd customDir tmpDir types fs1)))"

definition prepareCustomDerDir ::
  "'d key_tools \<Rightarrow> tree_os \<Rightarrow> string \<Rightarrow> string \<Rightarrow> file_tree \<Rightarrow> (custom_error + string) \<times> file_tree" where
  "prepareCustomDerDir t os cwd customDir fs =
     (if \<not> stat_ok fs (tree_path cwd customDir) then (Inl CustomDirMissing, fs)
      else case kt_temp t of
        None \<Rightarrow> (Inl TempDir, fs)
      | Some tmpDir \<Rightarrow>
          (case prepare_types t os cwd customDir tmpDir [''db'', ''KEK''] (fs\<lparr>ft_dirs := ft_dirs fs @ [tree_path cwd tmpDir]\<rparr>) of
             (Some err, fs1) \<Rightarrow> (Inl err, fs1)
           | (None, fs1) \<Rightarrow> (Inr tmpDir, fs1)))"

text \<open>A write to a file opened for appending.\<close>

definition append_data :: "tree_os \<Rightarrow> tree_path \<Rightarrow> string \<Rightarrow> file_tree \<Rightarrow> bool \<times> file_tree" where
  "append_data os p data fs =
     (case file_at fs p of
        None \<Rightarrow> (False, fs)
      | Some f \<Rightarrow>
          (let n = (case os_written os p data of None \<Rightarrow> length data | Some n \<Rightarrow> n) in
           (os_written os p data = None,
            fs\<lparr>ft_files := AList.update p (f\<lparr>fn_data := fn_data f @ take n data\<rparr>) (ft_files fs)\<rparr>)))"

fun append_files ::
  "'d key_tools \<Rightarrow> tree_os \<Rightarrow> string \<Rightarrow> tree_path \<Rightarrow> tree_path \<Rightarrow> (tree_path \<times> file_node) list \<Rightarrow> file_tree \<Rightarrow> bool \<times> file_tree" where
  "append_files t os keyType customDir p [] fs = (True, fs)"
| "append_files t os keyType customDir p ((q, f) # qs) fs =
     (if q = [] \<or> \<not> HasPrefix (last q) keyType then append_files t os keyType customDir p qs fs
      else
        (case ReadFile t (customDir @ [last q]) fs of
           None \<Rightarrow> (False, fs)
         | Some data \<Rightarrow>
             (case append_data os p data fs of
                (False, fs1) \<Rightarrow> (False, fs1)
              | (True, fs1) \<Rightarrow> append_files t os keyType customDir p qs fs1)))"

definition appendCustomDerCerts ::
  "'d key_tools \<Rightarrow> tree_os \<Rightarrow> string \<Rightarrow> string \<Rightarrow> string \<Rightarrow> string \<Rightarrow> file_tree \<Rightarrow> bool \<times> file_tree" where
  "appendCustomDerCerts t os cwd keyType customDir keyPath fs =
     (if customDir = [] then (True, fs)
      else
        let p = tree_path cwd (key_path keyPath (keyType @ ''.der''));
            dir = tree_path cwd (PathJoin [customDir, ''custom'', keyType])
        in if file_at fs p = None \<or> \<not> os_open os p \<or> \<not> stat_ok fs dir then (False, fs)
           else append_files t os keyType dir p (walk_files fs dir) fs)"

section \<open>The key set\<close>

definition req_args :: "key_options \<Rightarrow> string \<Rightarrow> string \<Rightarrow> string \<Rightarrow> string list" where
  "req_args opts keyType key pem =
     [''req'', ''-nodes'', ''-x509'', ''-subj'', ''/CN='' @ ko_name opts @ ''-'' @ keyType @ ''/'',
      ''-keyout'', key, ''-out'', pem, ''-days'', (if ko_days opts = [] then ''365'' else ko_days opts)]"

definition der_args :: "string \<Rightarrow> string \<Rightarrow> string list" where
  "der_args pem der = [''x509'', ''-outform'', ''DER'', ''-in'', pem, ''-out'', der]"

definition policy_args :: "string \<Rightarrow> string list" where
  "policy_args out = [''genrsa'', ''-out'', out, ''2048'']"

definition generate_type ::
  "'d key_tools \<Rightarrow> tree_os \<Rightarrow> string \<Rightarrow> key_options \<Rightarrow> string \<Rightarrow> string \<Rightarrow> file_tree \<Rightarrow> keygen_error option \<times> file_tree" where
  "generate_type t os cwd opts customDir keyType fs =
     (let path = (\<lambda>ext. key_path (ko_output_dir opts) (keyType @ ext)) in
      case kt_openssl t (req_args opts keyType (path ''.key'') (path ''.pem'')) fs of
        (Some err, fs1) \<Rightarrow> (Some (GeneratingPair keyType err), fs1)
      | (None, fs1) \<Rightarrow>
          (case kt_openssl t (der_args (path ''.pem'') (path ''.der'')) fs1 of
             (Some err, fs2) \<Rightarrow> (Some (ConvertingDer keyType err), fs2)
           | (None, fs2) \<Rightarrow>
               (case generateAuthKeys t os cwd (ko_output_dir opts) keyType customDir (ko_skip_microsoft opts) fs2 of
                  (Some err, fs3) \<Rightarrow> (Some (GeneratingAuth keyType err), fs3)
                | (None, fs3) \<Rightarrow>
                    (if customDir \<noteq> [] \<and> keyType \<noteq> ''PK'' then
                       (case appendCustomDerCerts t os cwd keyType customDir (ko_output_dir opts) fs3 of
                          (False, fs4) \<Rightarrow> (Some (AppendingCustom keyType), fs4)
                        | (True, fs4) \<Rightarrow> (None, fs4))
                     else (None, fs3)))))"

fun generate_types ::
  "'d key_tools \<Rightarrow> tree_os \<Rightarrow> string \<Rightarrow> key_options \<Rightarrow> string \<Rightarrow> string list \<Rightarrow> file_tree \<Rightarrow> keygen_error option \<times> file_tree" where
  "generate_types t os cwd opts customDir [] fs = (None, fs)"
| "generate_types t os cwd opts customDir (keyType # types) fs =
     (case generate_type t os cwd opts customDir keyType fs of
        (Some err, fs1) \<Rightarrow> (Some err, fs1)
      | (None, fs1) \<Rightarrow> generate_types t os cwd opts customDir types fs1)"

text \<open>The loop and the policy key, and then the removal of the temporary directory that was deferred.\<close>

definition generate_all ::
  "'d key_tools \<Rightarrow> tree_os \<Rightarrow> string \<Rightarrow> key_options \<Rightarrow> string \<Rightarrow> file_tree \<Rightarrow> keygen_error option \<times> file_tree" where
  "generate_all t os cwd opts customDir fs =
     (case generate_types t os cwd opts customDir [''PK'', ''KEK'', ''db''] fs of
        (Some err, fs1) \<Rightarrow> (Some err, fs1)
      | (None, fs1) \<Rightarrow>
          (case kt_openssl t (policy_args (key_path (ko_output_dir opts) ''tpm2-pcr-private.pem'')) fs1 of
             (Some err, fs2) \<Rightarrow> (Some (GeneratingPolicyKey err), fs2)
           | (None, fs2) \<Rightarrow> (None, fs2)))"

definition GenerateKeySet ::
  "'d key_tools \<Rightarrow> tree_os \<Rightarrow> string \<Rightarrow> key_options \<Rightarrow> file_tree \<Rightarrow> keygen_error option \<times> file_tree" where
  "GenerateKeySet t os cwd opts fs =
     (if ko_name opts = [] then (Some NameRequired, fs)
      else if ko_output_dir opts = [] then (Some OutputRequired, fs)
      else case MkdirAll os (tree_path cwd (ko_output_dir opts)) fs of
        (False, fs1) \<Rightarrow> (Some CreatingOutput, fs1)
      | (True, fs1) \<Rightarrow>
          (if ko_custom_dir opts = [] then generate_all t os cwd opts [] fs1
           else case prepareCustomDerDir t os cwd (ko_custom_dir opts) fs1 of
             (Inl err, fs2) \<Rightarrow> (Some (PreparingCustom err), fs2)
           | (Inr customDir, fs2) \<Rightarrow>
               (case generate_all t os cwd opts customDir fs2 of
                  (r, fs3) \<Rightarrow> (r, RemoveAll os (tree_path cwd customDir) fs3))))"

section \<open>What each step writes\<close>

definition frame :: "tree_path set \<Rightarrow> file_tree \<Rightarrow> file_tree \<Rightarrow> bool" where
  "frame S fs fs' \<longleftrightarrow> (\<forall>q. q \<notin> S \<longrightarrow> file_at fs' q = file_at fs q)"

lemma frame_refl [simp]: "frame S fs fs"
  by (simp add: frame_def)

lemma frame_trans: "frame S fs fs1 \<Longrightarrow> frame S' fs1 fs2 \<Longrightarrow> frame (S \<union> S') fs fs2"
  by (simp add: frame_def)

lemma frame_mono: "frame S fs fs' \<Longrightarrow> S \<subseteq> S' \<Longrightarrow> frame S' fs fs'"
  by (auto simp: frame_def)

lemma frame_WriteFile: "WriteFile os p data mode fs = (r, fs') \<Longrightarrow> frame {p} fs fs'"
  using WriteFile_fields(2) by (fastforce simp: frame_def)

text \<open>\<^verbatim>\<open>openssl\<close>, when it succeeds, has written no files but the ones it was told to write.\<close>

definition openssl_ok :: "'d key_tools \<Rightarrow> string \<Rightarrow> bool" where
  "openssl_ok t cwd \<longleftrightarrow>
     (\<forall>opts ty key pem fs fs'. kt_openssl t (req_args opts ty key pem) fs = (None, fs') \<longrightarrow> frame {tree_path cwd key, tree_path cwd pem} fs fs') \<and>
     (\<forall>pem der fs fs'. kt_openssl t (der_args pem der) fs = (None, fs') \<longrightarrow> frame {tree_path cwd der} fs fs') \<and>
     (\<forall>out fs fs'. kt_openssl t (policy_args out) fs = (None, fs') \<longrightarrow> frame {tree_path cwd out} fs fs')"

definition content :: "file_tree \<Rightarrow> tree_path \<Rightarrow> string option" where
  "content fs p = map_option fn_data (file_at fs p)"

lemma ReadFile_content: "ReadFile t p fs = Some x \<Longrightarrow> content fs p = Some x"
  by (auto simp: ReadFile_def content_def split: if_splits)

lemma content_frame: "frame S fs fs' \<Longrightarrow> p \<notin> S \<Longrightarrow> content fs' p = content fs p"
  by (simp add: frame_def content_def)

lemma frame_append_data: "append_data os p data fs = (r, fs') \<Longrightarrow> frame {p} fs fs'"
  by (auto simp: append_data_def frame_def file_at_def update_conv' Let_def split: option.splits)

lemma frame_append_files: "append_files t os ty dir p qs fs = (r, fs') \<Longrightarrow> frame {p} fs fs'"
proof (induction t os ty dir p qs fs arbitrary: r fs' rule: append_files.induct)
  case (2 t os ty dir p q f qs fs)
  show ?case
  proof (cases "q = [] \<or> \<not> HasPrefix (last q) ty")
    case True
    then show ?thesis using 2 by simp
  next
    case False
    show ?thesis
    proof (cases "ReadFile t (dir @ [last q]) fs")
      case None
      then show ?thesis using 2 False by simp
    next
      case (Some data)
      obtain r1 fs1 where a: "append_data os p data fs = (r1, fs1)" by fastforce
      show ?thesis
        using 2(2) [OF False Some a [symmetric]] 2(3) False Some a frame_append_data [OF a] frame_trans [of "{p}" fs fs1 "{p}" fs']
        by (cases r1) auto
    qed
  qed
qed simp

section \<open>The chain of enrollment\<close>

text \<open>
  The database of a variable starts with the certificate of the type, and has Microsoft's unless
  it is the PK or they were skipped, and the custom ones when there are any.
\<close>

definition enrolled :: "'d key_tools \<Rightarrow> string \<Rightarrow> bool \<Rightarrow> string \<Rightarrow> string \<Rightarrow> 'd \<Rightarrow> bool" where
  "enrolled t customDir skip ty pem db \<longleftrightarrow>
     (\<exists>own base. kt_append t (kt_guid t) pem (kt_new t) = Inr own \<and>
        (if ty = ''PK'' \<or> skip then base = own else \<exists>oem. kt_oem t ty = Inr oem \<and> base = kt_merge t own oem) \<and>
        (if ty = ''PK'' \<or> customDir = [] then db = base
         else \<exists>fs custom. kt_custom t customDir ty fs = Inr custom \<and> db = kt_merge t base custom))"

text \<open>
  A type is authorised by a signer for a variable in a tree: its \<^verbatim>\<open>.auth\<close> file is its database signed for
  that variable with the key and the certificate of the signer, all as they are in the tree, and its \<^verbatim>\<open>.esl\<close>
  file is that database.
\<close>

definition authorised ::
  "'d key_tools \<Rightarrow> string \<Rightarrow> string \<Rightarrow> string \<Rightarrow> bool \<Rightarrow> string \<Rightarrow> efi_var \<Rightarrow> string \<Rightarrow> file_tree \<Rightarrow> bool" where
  "authorised t cwd dir customDir skip signer v ty fs \<longleftrightarrow>
     (\<exists>key cert pem db skey scert signed.
        content fs (tree_path cwd (key_path dir (signer @ ''.key''))) = Some key \<and>
        content fs (tree_path cwd (key_path dir (signer @ ''.pem''))) = Some cert \<and>
        content fs (tree_path cwd (key_path dir (ty @ ''.pem''))) = Some pem \<and>
        enrolled t customDir skip ty pem db \<and>
        kt_read_key t key = Inr skey \<and> kt_read_cert t cert = Inr scert \<and> kt_sign t v db skey scert = Inr signed \<and>
        content fs (tree_path cwd (key_path dir (ty @ ''.auth''))) = Some signed \<and>
        content fs (tree_path cwd (key_path dir (ty @ ''.esl''))) = Some (kt_bytes t db))"

text \<open>As the code signs it.\<close>

abbreviation chained :: "'d key_tools \<Rightarrow> string \<Rightarrow> string \<Rightarrow> string \<Rightarrow> bool \<Rightarrow> string \<Rightarrow> file_tree \<Rightarrow> bool" where
  "chained t cwd dir customDir skip ty \<equiv> authorised t cwd dir customDir skip (the (signer_of ty)) (efi_var_of ty) ty"

definition key_types :: "string list" where
  "key_types = [''PK'', ''KEK'', ''db'']"

definition key_exts :: "string list" where
  "key_exts = [''.key'', ''.pem'', ''.der'', ''.auth'', ''.esl'']"

lemma key_file_path:
  assumes "IsAbs cwd" and "dir \<noteq> []" and "ty \<in> set key_types" and "ext \<in> set key_exts"
  shows "tree_path cwd (key_path dir (ty @ ext)) = tree_path cwd dir @ [ty @ ext]"
  by (rule tree_path_child [OF assms(1,2)]) (use assms(3,4) in \<open>auto simp: key_types_def key_exts_def plain_segment_def\<close>)

lemma key_files_differ:
  "ty \<in> set key_types \<Longrightarrow> ty' \<in> set key_types \<Longrightarrow> ext \<in> set key_exts \<Longrightarrow> ext' \<in> set key_exts \<Longrightarrow>
     ty @ ext = ty' @ ext' \<longleftrightarrow> ty = ty' \<and> ext = ext'"
proof -
  have "list_all (\<lambda>ty. list_all (\<lambda>ty'. list_all (\<lambda>ext. list_all (\<lambda>ext'.
      (ty @ ext = ty' @ ext') = (ty = ty' \<and> ext = ext')) key_exts) key_exts) key_types) key_types"
    by code_simp
  then show "ty \<in> set key_types \<Longrightarrow> ty' \<in> set key_types \<Longrightarrow> ext \<in> set key_exts \<Longrightarrow> ext' \<in> set key_exts \<Longrightarrow>
     ty @ ext = ty' @ ext' \<longleftrightarrow> ty = ty' \<and> ext = ext'"
    unfolding list_all_iff by blast
qed

text \<open>The files of a type.\<close>

definition files_of :: "string \<Rightarrow> string \<Rightarrow> string \<Rightarrow> tree_path set" where
  "files_of cwd dir ty = (\<lambda>ext. tree_path cwd dir @ [ty @ ext]) ` set key_exts"

lemma map_sum_InrD: "map_sum f g x = Inr y \<Longrightarrow> \<exists>z. x = Inr z \<and> y = g z"
  by (cases x) auto

lemma signed_db_enrolled:
  assumes "signed_db t ty customDir skip keyBytes pemBytes pem fs = Inr (signed, db)"
  shows "enrolled t customDir skip ty pem db \<and>
    (\<exists>skey scert. kt_read_key t keyBytes = Inr skey \<and> kt_read_cert t pemBytes = Inr scert \<and> kt_sign t (efi_var_of ty) db skey scert = Inr signed)"
proof -
  obtain skey scert where s: "signature_db t ty customDir skip pem fs = Inr db" "kt_read_key t keyBytes = Inr skey"
    "kt_read_cert t pemBytes = Inr scert" "kt_sign t (efi_var_of ty) db skey scert = Inr signed"
    using assms by (auto simp: signed_db_def split: sum.splits dest!: map_sum_InrD)
  show ?thesis
    using s by (auto simp: signature_db_def enrolled_def split: sum.splits if_splits dest!: map_sum_InrD)
qed

lemma auth_inputs_content:
  assumes "auth_inputs t at ty fs = Inr (keyBytes, pemBytes, pem)"
  shows "\<exists>signer. signer_of ty = Some signer \<and> content fs (at (signer @ ''.key'')) = Some keyBytes \<and>
    content fs (at (signer @ ''.pem'')) = Some pemBytes \<and> content fs (at (ty @ ''.pem'')) = Some pem"
  using assms by (auto simp: auth_inputs_def split: option.splits dest!: ReadFile_content)

lemma signer_type: "signer_of ty = Some signer \<Longrightarrow> signer \<in> set key_types"
  by (auto simp: signer_of_def key_types_def split: if_splits)

lemma the_signer: "ty \<in> set key_types \<Longrightarrow> the (signer_of ty) \<in> set key_types"
  by (auto simp: signer_of_def key_types_def)

text \<open>The chain needs only some of the files of a type and of its signer.\<close>

lemma authorised_frame:
  assumes "authorised t cwd dir customDir skip signer v ty fs" and "frame S fs fs'"
    and "tree_path cwd (key_path dir (signer @ ''.key'')) \<notin> S" "tree_path cwd (key_path dir (signer @ ''.pem'')) \<notin> S"
    and "tree_path cwd (key_path dir (ty @ ''.pem'')) \<notin> S" "tree_path cwd (key_path dir (ty @ ''.auth'')) \<notin> S" "tree_path cwd (key_path dir (ty @ ''.esl'')) \<notin> S"
  shows "authorised t cwd dir customDir skip signer v ty fs'"
  using assms(1,3-) unfolding authorised_def by (metis content_frame [OF assms(2)])

lemma generateAuthKeys_authorised:
  assumes path: "IsAbs cwd" "dir \<noteq> []" and ty: "ty \<in> set key_types"
    and gen: "generateAuthKeys t os cwd dir ty customDir skip fs = (None, fs')"
  shows "chained t cwd dir customDir skip ty fs' \<and> frame (files_of cwd dir ty) fs fs'"
proof -
  let ?at = "\<lambda>name. tree_path cwd (key_path dir name)"
  note at = key_file_path [OF path]
  have exts: "''.key'' \<in> set key_exts" "''.pem'' \<in> set key_exts" "''.auth'' \<in> set key_exts" "''.esl'' \<in> set key_exts"
    by (simp_all add: key_exts_def)
  obtain keyBytes pemBytes pem signed db fs1 where g: "auth_inputs t ?at ty fs = Inr (keyBytes, pemBytes, pem)"
    "signed_db t ty customDir skip keyBytes pemBytes pem fs = Inr (signed, db)"
    "WriteFile os (?at (ty @ ''.auth'')) signed 420 fs = (True, fs1)"
    "WriteFile os (?at (ty @ ''.esl'')) (kt_bytes t db) 420 fs1 = (True, fs')"
    using gen by (auto simp: generateAuthKeys_def Let_def split: sum.splits prod.splits bool.splits)
  obtain signer where s: "signer_of ty = Some signer" "content fs (?at (signer @ ''.key'')) = Some keyBytes"
    "content fs (?at (signer @ ''.pem'')) = Some pemBytes" "content fs (?at (ty @ ''.pem'')) = Some pem"
    using auth_inputs_content [OF g(1)] by blast
  note st = signer_type [OF s(1)]
  have f: "frame {?at (ty @ ''.auth''), ?at (ty @ ''.esl'')} fs fs'"
    using frame_trans [OF frame_WriteFile [OF g(3)] frame_WriteFile [OF g(4)]] by (simp add: insert_commute)
  have keep: "content fs' (?at (ty' @ ext)) = content fs (?at (ty' @ ext))"
    if "ty' \<in> set key_types" "ext \<in> {''.key'', ''.pem''}" for ty' ext
  proof -
    have e: "ext \<in> set key_exts" using that(2) by (auto simp: key_exts_def)
    have "?at (ty' @ ext) \<notin> {?at (ty @ ''.auth''), ?at (ty @ ''.esl'')}"
      using that e exts ty at key_files_differ by auto
    then show ?thesis by (rule content_frame [OF f])
  qed
  have "content fs' (?at (ty @ ''.esl'')) = Some (kt_bytes t db)"
    using WriteFile_fields(4) [OF g(4)] by (simp add: content_def)
  moreover have "content fs' (?at (ty @ ''.auth'')) = Some signed"
  proof -
    have "?at (ty @ ''.auth'') \<notin> {?at (ty @ ''.esl'')}" using exts ty at key_files_differ by simp
    then have "content fs' (?at (ty @ ''.auth'')) = content fs1 (?at (ty @ ''.auth''))" by (rule content_frame [OF frame_WriteFile [OF g(4)]])
    then show ?thesis using WriteFile_fields(4) [OF g(3)] by (simp add: content_def)
  qed
  ultimately have "authorised t cwd dir customDir skip signer (efi_var_of ty) ty fs'"
    using s signed_db_enrolled [OF g(2)] keep [of signer] keep [OF ty] st unfolding authorised_def by fastforce
  then have "chained t cwd dir customDir skip ty fs'" using s(1) by simp
  moreover have "frame (files_of cwd dir ty) fs fs'"
    by (rule frame_mono [OF f]) (use exts ty at in \<open>auto simp: files_of_def\<close>)
  ultimately show ?thesis ..
qed

lemma generate_type_authorised:
  assumes path: "IsAbs cwd" "ko_output_dir opts \<noteq> []" and ty: "ty \<in> set key_types" and tool: "openssl_ok t cwd"
    and gen: "generate_type t os cwd opts customDir ty fs = (None, fs')"
  shows "chained t cwd (ko_output_dir opts) customDir (ko_skip_microsoft opts) ty fs' \<and>
    frame (files_of cwd (ko_output_dir opts) ty) fs fs'"
proof -
  let ?dir = "ko_output_dir opts"
  let ?F = "files_of cwd ?dir ty" and ?path = "\<lambda>ext. key_path ?dir (ty @ ext)"
  have at: "ext \<in> set key_exts \<Longrightarrow> tree_path cwd (?path ext) \<in> ?F" for ext
    using key_file_path [OF path ty] by (simp add: files_of_def)
  have exts: "''.key'' \<in> set key_exts" "''.pem'' \<in> set key_exts" "''.auth'' \<in> set key_exts" "''.esl'' \<in> set key_exts" "''.der'' \<in> set key_exts"
    by (simp_all add: key_exts_def)
  obtain fs1 fs2 fs3 where g: "kt_openssl t (req_args opts ty (?path ''.key'') (?path ''.pem'')) fs = (None, fs1)"
    "kt_openssl t (der_args (?path ''.pem'') (?path ''.der'')) fs1 = (None, fs2)"
    "generateAuthKeys t os cwd ?dir ty customDir (ko_skip_microsoft opts) fs2 = (None, fs3)"
    "fs' = fs3 \<or> (\<exists>r. appendCustomDerCerts t os cwd ty customDir ?dir fs3 = (r, fs'))"
    using gen by (auto simp: generate_type_def Let_def split: option.splits prod.splits bool.splits if_splits)
  have "frame {tree_path cwd (?path ''.key''), tree_path cwd (?path ''.pem'')} fs fs1"
    "frame {tree_path cwd (?path ''.der'')} fs1 fs2"
    using tool g(1,2) unfolding openssl_ok_def by blast+
  then have f2: "frame ?F fs fs2"
    using at exts frame_trans [of ?F fs fs1 ?F fs2] frame_mono [of _ fs fs1 ?F] frame_mono [of _ fs1 fs2 ?F] by auto
  note a = generateAuthKeys_authorised [OF path ty g(3)]
  have f4: "frame {tree_path cwd (?path ''.der'')} fs3 fs'"
    using g(4) by (auto simp: appendCustomDerCerts_def Let_def split: if_splits dest: frame_append_files)
  have "chained t cwd ?dir customDir (ko_skip_microsoft opts) ty fs'"
    by (rule authorised_frame [OF a [THEN conjunct1] f4])
      (use key_file_path [OF path] key_files_differ ty the_signer [OF ty] exts in auto)
  moreover have "frame ?F fs fs'"
    using frame_trans [OF f2 frame_trans [OF a [THEN conjunct2] frame_mono [OF f4, of ?F]]] at exts by auto
  ultimately show ?thesis ..
qed

text \<open>A file that is none of the files of a type leaves its chain alone.\<close>

lemma chain_frame:
  assumes path: "IsAbs cwd" "dir \<noteq> []" and ty: "ty \<in> set key_types"
    and chain: "chained t cwd dir customDir skip ty fs" and f: "frame S fs fs'"
    and apart: "\<forall>ty' ext. ty' \<in> {ty, the (signer_of ty)} \<and> ext \<in> set key_exts \<longrightarrow> tree_path cwd dir @ [ty' @ ext] \<notin> S"
  shows "chained t cwd dir customDir skip ty fs'"
  by (rule authorised_frame [OF chain f])
    (use key_file_path [OF path] ty the_signer [OF ty] apart in \<open>auto simp: key_exts_def\<close>)

lemma generate_all_authorised:
  assumes path: "IsAbs cwd" "ko_output_dir opts \<noteq> []" and tool: "openssl_ok t cwd"
    and gen: "generate_all t os cwd opts customDir fs = (None, fs')"
  shows "list_all (\<lambda>ty. chained t cwd (ko_output_dir opts) customDir (ko_skip_microsoft opts) ty fs') key_types \<and>
    frame (\<Union> (files_of cwd (ko_output_dir opts) ` set key_types) \<union> {tree_path cwd (ko_output_dir opts) @ [''tpm2-pcr-private.pem'']}) fs fs'"
proof -
  let ?dir = "ko_output_dir opts" and ?A = "\<lambda>ty fs. chained t cwd (ko_output_dir opts) customDir (ko_skip_microsoft opts) ty fs"
  let ?F = "files_of cwd (ko_output_dir opts)"
  obtain fs1 fs2 fs3 where g: "generate_type t os cwd opts customDir ''PK'' fs = (None, fs1)"
    "generate_type t os cwd opts customDir ''KEK'' fs1 = (None, fs2)"
    "generate_type t os cwd opts customDir ''db'' fs2 = (None, fs3)"
    "kt_openssl t (policy_args (key_path ?dir ''tpm2-pcr-private.pem'')) fs3 = (None, fs')"
    using gen by (auto simp: generate_all_def split: option.splits prod.splits)
  have ty: "''PK'' \<in> set key_types" "''KEK'' \<in> set key_types" "''db'' \<in> set key_types" by (simp_all add: key_types_def)
  note a1 = generate_type_authorised [OF path ty(1) tool g(1)] and a2 = generate_type_authorised [OF path ty(2) tool g(2)]
    and a3 = generate_type_authorised [OF path ty(3) tool g(3)]
  have policy: "tree_path cwd (key_path ?dir ''tpm2-pcr-private.pem'') = tree_path cwd ?dir @ [''tpm2-pcr-private.pem'']"
    by (rule tree_path_child [OF path]) (simp add: plain_segment_def)
  have f4: "frame {tree_path cwd ?dir @ [''tpm2-pcr-private.pem'']} fs3 fs'"
    using tool g(4) policy unfolding openssl_ok_def by metis
  have own: "tree_path cwd ?dir @ [ty' @ ext] \<notin> ?F ty"
    if "ty \<in> set key_types" "ty' \<in> set key_types" "ty' \<noteq> ty" "ext \<in> set key_exts" for ty ty' ext
    using that key_files_differ by (auto simp: files_of_def)
  have other: "tree_path cwd ?dir @ [ty' @ ext] \<notin> {tree_path cwd ?dir @ [''tpm2-pcr-private.pem'']}"
    if "ty' \<in> set key_types" "ext \<in> set key_exts" for ty' ext
    using that by (auto simp: key_types_def key_exts_def)
  have signers: "the (signer_of ''PK'') = ''PK''" "the (signer_of ''KEK'') = ''PK''" "the (signer_of ''db'') = ''KEK''"
    by (simp_all add: signer_of_def)
  have later: "?A ty fs''" if "?A ty fs'" "frame (?F ty2) fs' fs''" "ty \<in> set key_types" "ty2 \<in> set key_types"
    "the (signer_of ty) \<in> set key_types" "ty \<noteq> ty2" "the (signer_of ty) \<noteq> ty2" for ty ty2 fs' fs''
    by (rule chain_frame [OF path that(3,1,2)]) (use own [of ty2] that in blast)
  have pk2: "?A ''PK'' fs2" by (rule later [OF a1 [THEN conjunct1] a2 [THEN conjunct2] ty(1,2)]) (use ty signers in simp_all)
  have pk3: "?A ''PK'' fs3" by (rule later [OF pk2 a3 [THEN conjunct2] ty(1,3)]) (use ty signers in simp_all)
  have kek3: "?A ''KEK'' fs3" by (rule later [OF a2 [THEN conjunct1] a3 [THEN conjunct2] ty(2,3)]) (use ty signers in simp_all)
  have "?A ty fs'" if "ty \<in> set key_types" "?A ty fs3" for ty
  proof -
    have "the (signer_of ty) \<in> set key_types" using that(1) signers ty by (auto simp: key_types_def)
    then show ?thesis by (intro chain_frame [OF path that f4]) (use other that(1) in auto)
  qed
  then have "list_all (\<lambda>ty. ?A ty fs') key_types"
    using ty pk3 kek3 a3 by (simp add: key_types_def)
  moreover have "frame (\<Union> (?F ` set key_types) \<union> {tree_path cwd ?dir @ [''tpm2-pcr-private.pem'']}) fs fs'"
    by (rule frame_mono [OF frame_trans [OF frame_trans [OF a1 [THEN conjunct2] a2 [THEN conjunct2]] frame_trans [OF a3 [THEN conjunct2] f4]]])
      (use ty in auto)
  ultimately show ?thesis ..
qed

lemma frame_MkdirAll: "MkdirAll os p fs = (r, fs') \<Longrightarrow> frame {} fs fs'"
proof -
  have "make_dirs os ps fs = (r, fs') \<Longrightarrow> ft_files fs' = ft_files fs" for ps
    by (induction os ps fs rule: make_dirs.induct) (auto split: if_splits)
  then show "MkdirAll os p fs = (r, fs') \<Longrightarrow> frame {} fs fs'" by (simp add: MkdirAll_def frame_def file_at_def)
qed

section \<open>Properties\<close>

text \<open>
  C31. A generated key set is a chain of trust: when the generation succeeds (without custom
  certificates, and with an \<^verbatim>\<open>openssl\<close> that writes the files it was told to), in the resulting tree
  the databases of the PK and of the KEK are signed with the PK for the variables PK and KEK, and that of db with
  the KEK for the variable db, each with the key and the certificate that lie beside it; each starts with its own certificate and has the
  Microsoft certificates unless it is the PK or they were to be skipped; and no file was
  written but those of the key set.
\<close>
theorem key_set_is_a_chain_of_trust:
  assumes "IsAbs cwd" and "openssl_ok t cwd" and "ko_custom_dir opts = []" and "GenerateKeySet t os cwd opts fs = (None, fs')"
  shows "authorised t cwd (ko_output_dir opts) [] (ko_skip_microsoft opts) ''PK'' VarPK ''PK'' fs' \<and>
    authorised t cwd (ko_output_dir opts) [] (ko_skip_microsoft opts) ''PK'' VarKEK ''KEK'' fs' \<and>
    authorised t cwd (ko_output_dir opts) [] (ko_skip_microsoft opts) ''KEK'' VarDb ''db'' fs' \<and>
    frame (\<Union> (files_of cwd (ko_output_dir opts) ` set key_types) \<union> {tree_path cwd (ko_output_dir opts) @ [''tpm2-pcr-private.pem'']}) fs fs'"
proof -
  obtain fs1 where g: "ko_output_dir opts \<noteq> []" "MkdirAll os (tree_path cwd (ko_output_dir opts)) fs = (True, fs1)"
    "generate_all t os cwd opts [] fs1 = (None, fs')"
    using assms(3,4) by (auto simp: GenerateKeySet_def split: if_splits prod.splits bool.splits)
  have all: "list_all (\<lambda>ty. chained t cwd (ko_output_dir opts) [] (ko_skip_microsoft opts) ty fs') key_types"
    and f: "frame (\<Union> (files_of cwd (ko_output_dir opts) ` set key_types) \<union> {tree_path cwd (ko_output_dir opts) @ [''tpm2-pcr-private.pem'']}) fs fs'"
    using generate_all_authorised [OF assms(1) g(1) assms(2) g(3)] frame_trans [OF frame_MkdirAll [OF g(2)]] by fastforce+
  have "signer_of ''PK'' = Some ''PK''" "signer_of ''KEK'' = Some ''PK''" "signer_of ''db'' = Some ''KEK''"
    "efi_var_of ''PK'' = VarPK" "efi_var_of ''KEK'' = VarKEK" "efi_var_of ''db'' = VarDb"
    by code_simp+
  then show ?thesis using all f by (simp add: key_types_def)
qed

text \<open>An \<^verbatim>\<open>openssl\<close> that writes markers, and libraries whose databases are texts.\<close>

definition put_file :: "tree_path \<Rightarrow> string \<Rightarrow> file_tree \<Rightarrow> file_tree" where
  "put_file p d fs = fs\<lparr>ft_files := AList.update p \<lparr>fn_mode = 384, fn_data = d\<rparr> (ft_files fs)\<rparr>"

definition sample_openssl :: "string list \<Rightarrow> file_tree \<Rightarrow> string option \<times> file_tree" where
  "sample_openssl args fs =
     (if hd args = ''req'' then (None, put_file (tree_path ''/'' (args ! 8)) (''cert '' @ args ! 4) (put_file (tree_path ''/'' (args ! 6)) (''key '' @ args ! 4) fs))
      else if hd args = ''x509'' then (None, put_file (tree_path ''/'' (args ! 6)) ''der'' fs)
      else (None, put_file (tree_path ''/'' (args ! 2)) ''policy'' fs))"

definition sample_tools :: "string key_tools" where
  "sample_tools =
     \<lparr>kt_openssl = sample_openssl, kt_guid = ''guid'', kt_readable = (\<lambda>_. True), kt_new = [],
      kt_append = (\<lambda>g pem d. Inr (d @ pem)), kt_merge = (@), kt_oem = (\<lambda>ty. Inr (''microsoft '' @ ty)),
      kt_custom = (\<lambda>_ _ _. Inl ''none''), kt_read_key = Inr, kt_read_cert = Inr,
      kt_sign = (\<lambda>v d k c. Inr (d @ '' signed with '' @ k)), kt_bytes = id, kt_temp = None,
      kt_lists = (\<lambda>_. Inl ''none''), kt_parse_cert = (\<lambda>_. None)\<rparr>"

definition sample_os :: tree_os where
  "sample_os = \<lparr>os_mkdir = (\<lambda>_. True), os_open = (\<lambda>_. True), os_written = (\<lambda>_ _. None), os_umask = id, os_remove = (\<lambda>_. True)\<rparr>"

definition sample_key_options :: key_options where
  "sample_key_options = \<lparr>ko_name = ''lab'', ko_output_dir = ''keys/lab'', ko_days = [], ko_skip_microsoft = False, ko_custom_dir = []\<rparr>"

lemma frame_put_file: "p \<in> S \<Longrightarrow> frame S fs (put_file p d fs)"
  by (auto simp: frame_def put_file_def file_at_def update_conv')

lemma sample_openssl_ok: "openssl_ok sample_tools ''/''"
proof -
  have two: "frame {q, p} fs (put_file p d (put_file q d' fs))" for p q d d' fs
    using frame_trans [OF frame_put_file [of q "{q, p}" fs d'] frame_put_file [of p "{q, p}" _ d]] by simp
  then show ?thesis
    by (auto simp: openssl_ok_def sample_tools_def sample_openssl_def req_args_def der_args_def policy_args_def
        intro!: two frame_put_file)
qed

theorem key_set_is_a_chain_of_trust_witness:
  "\<exists>fs'. GenerateKeySet sample_tools sample_os ''/'' sample_key_options \<lparr>ft_dirs = [[]], ft_files = []\<rparr> = (None, fs') \<and>
     authorised sample_tools ''/'' ''keys/lab'' [] False ''KEK'' VarDb ''db'' fs'"
proof -
  have "fst (GenerateKeySet sample_tools sample_os ''/'' sample_key_options \<lparr>ft_dirs = [[]], ft_files = []\<rparr>) = None"
    by code_simp
  then obtain fs' where g: "GenerateKeySet sample_tools sample_os ''/'' sample_key_options \<lparr>ft_dirs = [[]], ft_files = []\<rparr> = (None, fs')"
    by (metis prod.collapse)
  show ?thesis
    using key_set_is_a_chain_of_trust [OF _ sample_openssl_ok _ g] g
    by (simp add: IsAbs_def HasPrefix_def sample_key_options_def)
qed

end
