(* ===== verification/Key_Sets.thy ===== *)
theory Key_Sets
  imports Key_Generation Artifact_Store Overlay_Archive
begin

text \<open>
  The handlers of Secure Boot key sets (\<^verbatim>\<open>pkg/handlers/secureboot.go\<close>): generation, listing,
  deletion, export as an archive and import of one. The state is the file system and the table
  of key sets. The gzip and tar codecs deliver and take lists of members, JSON is a pair of
  parameters, and the response's \<^verbatim>\<open>detail\<close> and \<^verbatim>\<open>path\<close> fields are left out.
\<close>

section \<open>Names and manifests\<close>

definition key_name_char :: "char \<Rightarrow> bool" where
  "key_name_char c \<longleftrightarrow>
     (CHR ''A'' \<le> c \<and> c \<le> CHR ''Z'') \<or> (CHR ''a'' \<le> c \<and> c \<le> CHR ''z'') \<or> (CHR ''0'' \<le> c \<and> c \<le> CHR ''9'') \<or>
     c = CHR ''_'' \<or> c = CHR ''-''"

text \<open>\<^verbatim>\<open>keySetNameRe\<close>.\<close>

definition keySetNameRe :: "string \<Rightarrow> bool" where
  "keySetNameRe name \<longleftrightarrow> 1 \<le> length name \<and> length name \<le> 64 \<and> list_all key_name_char name"

definition validateKeySetName :: "string \<Rightarrow> string option" where
  "validateKeySetName name =
     (if \<not> keySetNameRe name then Some (''invalid key set name '' @ quoted name @ '': must match ^[A-Za-z0-9_-]{1,64}$'') else None)"

definition sanitizeFilename :: "string \<Rightarrow> string" where
  "sanitizeFilename s =
     (let b = concat (map (\<lambda>c. if key_name_char c then [c] else if c = CHR '' '' then ''-'' else []) s) in
      if b = [] then ''keyset'' else b)"

record key_manifest =
  km_version :: int
  km_kind :: string
  km_name :: string
  km_enroll :: string

abbreviation keySetManifestKind :: string where "keySetManifestKind \<equiv> ''auroraboot.secureboot-keyset''"
abbreviation keySetManifestName :: string where "keySetManifestName \<equiv> ''manifest.json''"
abbreviation maxImportSize :: int where "maxImportSize \<equiv> 16 * 1024 * 1024"

section \<open>State and environment\<close>

record key_host =
  kh_tree :: file_tree
  kh_rows :: key_sets

text \<open>\<open>kv_readable\<close> is whether a file can be opened for reading.\<close>

record 'd key_env =
  kv_os :: tree_os
  kv_readable :: "tree_path \<Rightarrow> bool"
  kv_cwd :: string
  kv_keys_dir :: string
  kv_store :: "key_set engine"
  kv_uuid :: uuid
  kv_tools :: "'d key_tools"
  kv_encode :: "key_manifest \<Rightarrow> string option"
  kv_decode :: "string \<Rightarrow> key_manifest option"

datatype key_body = KeySetBody key_set | KeySetsBody "key_set list"

type_synonym key_reply = "key_body response \<times> key_host"

abbreviation deny :: "nat \<Rightarrow> string \<Rightarrow> key_host \<Rightarrow> key_reply" where
  "deny code msg h \<equiv> (Response code (ErrorBody msg), h)"

definition save_key_set :: "'d key_env \<Rightarrow> key_set \<Rightarrow> key_host \<Rightarrow> (db_error + key_set) \<times> key_host" where
  "save_key_set e ks h =
     (case SecureBootKeySetCreate (kv_store e) (kv_uuid e) ks (kh_rows h) of (r, t) \<Rightarrow> (r, h\<lparr>kh_rows := t\<rparr>))"

section \<open>Generation, listing and deletion\<close>

text \<open>\<open>body\<close> is the name in the request, \<open>None\<close> when it does not bind. The id is the store's.\<close>

definition GenerateKeys :: "'d key_env \<Rightarrow> string option \<Rightarrow> key_host \<Rightarrow> key_reply" where
  "GenerateKeys e body h =
     (case body of
        None \<Rightarrow> deny 400 ''invalid request body'' h
      | Some name \<Rightarrow>
          (if name = [] then deny 400 ''name is required'' h
           else case validateKeySetName name of
             Some msg \<Rightarrow> deny 400 msg h
           | None \<Rightarrow>
               (let outputDir = PathJoin [kv_keys_dir e, name];
                    opts = \<lparr>ko_name = name, ko_output_dir = outputDir, ko_days = [], ko_skip_microsoft = False, ko_custom_dir = []\<rparr>
                in case GenerateKeySet (kv_tools e) (kv_os e) (kv_cwd e) opts (kh_tree h) of
                     (Some _, fs) \<Rightarrow> deny 500 ''failed to generate keys'' (h\<lparr>kh_tree := fs\<rparr>)
                   | (None, fs) \<Rightarrow>
                       (case save_key_set e \<lparr>ks_id = [], ks_name = name, ks_dir = outputDir,
                               ks_tpm_key_path = PathJoin [outputDir, ''tpm2-pcr-private.pem''], ks_enroll = []\<rparr> (h\<lparr>kh_tree := fs\<rparr>) of
                          (Inl _, h1) \<Rightarrow> deny 500 ''failed to save key set record'' h1
                        | (Inr ks, h1) \<Rightarrow> (Response 201 (Body (KeySetBody ks)), h1)))))"

definition ListKeys :: "'d key_env \<Rightarrow> key_host \<Rightarrow> key_reply" where
  "ListKeys e h =
     (case SecureBootKeySetList (kv_store e) (kh_rows h) of
        Inl _ \<Rightarrow> deny 500 ''failed to list key sets'' h
      | Inr sets \<Rightarrow> (Response 200 (Body (KeySetsBody sets)), h))"

definition DeleteKeys :: "'d key_env \<Rightarrow> string \<Rightarrow> key_host \<Rightarrow> key_reply" where
  "DeleteKeys e i h =
     (if i = [] then deny 400 ''id is required'' h
      else case SecureBootKeySetDelete (kv_store e) i (kh_rows h) of
        (Inl _, t) \<Rightarrow> deny 500 ''failed to delete key set'' (h\<lparr>kh_rows := t\<rparr>)
      | (Inr _, t) \<Rightarrow> (Response 204 NoContent, h\<lparr>kh_rows := t\<rparr>))"

section \<open>Export\<close>

text \<open>The member of one file, named relative to the directory.\<close>

definition key_member :: "tree_path \<Rightarrow> tree_path \<times> file_node \<Rightarrow> tar_entry" where
  "key_member dir f =
     \<lparr>te_name = PathJoin [''keys'', Join (drop (length dir) (fst f)) ''/''], te_type = TypeReg,
      te_size = length (fn_data (snd f)), te_mode = fn_mode (snd f) mod 512, te_data = fn_data (snd f), te_error = None\<rparr>"

text \<open>
  The walk stops at the first file that cannot be opened; the deferred closes end the archive in
  either case.
\<close>

definition export_members :: "'d key_env \<Rightarrow> tree_path \<Rightarrow> file_tree \<Rightarrow> tar_entry list" where
  "export_members e dir fs = map (key_member dir) (takeWhile (\<lambda>(q, f). kv_readable e q) (walk_files fs dir))"

definition manifest_of :: "key_set \<Rightarrow> key_manifest" where
  "manifest_of ks = \<lparr>km_version = 1, km_kind = keySetManifestKind, km_name = ks_name ks, km_enroll = ks_enroll ks\<rparr>"

definition manifest_member :: "string \<Rightarrow> tar_entry" where
  "manifest_member text =
     \<lparr>te_name = keySetManifestName, te_type = TypeReg, te_size = length text, te_mode = 420, te_data = text, te_error = None\<rparr>"

datatype export_reply = ExportRefused nat string | ExportStream string "tar_entry list"

definition ExportKeys :: "'d key_env \<Rightarrow> string \<Rightarrow> key_host \<Rightarrow> export_reply" where
  "ExportKeys e i h =
     (if i = [] then ExportRefused 400 ''id is required''
      else case SecureBootKeySetGetByID (kv_store e) i (kh_rows h) of
        Inl _ \<Rightarrow> ExportRefused 404 ''key set not found''
      | Inr ks \<Rightarrow>
          (let dir = tree_path (kv_cwd e) (ks_dir ks) in
           if \<not> is_dir (kh_tree h) dir then ExportRefused 404 ''key set directory missing on disk''
           else
             ExportStream (sanitizeFilename (ks_name ks) @ ''.secureboot-keyset.tar.gz'')
               (case kv_encode e (manifest_of ks) of
                  None \<Rightarrow> []
                | Some text \<Rightarrow> manifest_member text # export_members e dir (kh_tree h))))"

section \<open>Import\<close>

record pending_file =
  pf_rel :: string
  pf_mode :: nat
  pf_data :: string

text \<open>What the manifest has to be.\<close>

definition check_manifest :: "'d key_env \<Rightarrow> string \<Rightarrow> (nat \<times> string) + key_manifest" where
  "check_manifest e text =
     (case kv_decode e text of
        None \<Rightarrow> Inl (400, ''invalid manifest'')
      | Some m \<Rightarrow>
          (if km_kind m \<noteq> keySetManifestKind then Inl (400, ''manifest kind mismatch'')
           else if km_version m \<noteq> 1 then Inl (400, ''unsupported manifest version '' @ Itoa_int (km_version m))
           else Inr m))"

text \<open>
  Sizes are \<^verbatim>\<open>int64\<close> and their sum wraps; allocating more than the runtime can address panics, which the
  middleware of the server turns into an answer.
\<close>

definition add_int64 :: "int \<Rightarrow> int \<Rightarrow> int" where
  "add_int64 a b = (a + b + 2 ^ 63) mod 2 ^ 64 - 2 ^ 63"

abbreviation maxAlloc :: int where "maxAlloc \<equiv> 2 ^ 48"

definition charge_size :: "int \<Rightarrow> nat \<Rightarrow> (nat \<times> string) + int" where
  "charge_size used n =
     (let total = add_int64 used (int n) in
      if total > maxImportSize then Inl (413, ''archive exceeds size limit'')
      else if int n > maxAlloc then Inl (500, ''Internal Server Error'')
      else Inr total)"

text \<open>The loop over the members; \<open>corrupt\<close> is how the archive ends.\<close>

fun read_members ::
  "'d key_env \<Rightarrow> bool \<Rightarrow> tar_entry list \<Rightarrow> int \<Rightarrow> key_manifest option \<Rightarrow> pending_file list \<Rightarrow>
     (nat \<times> string) + (key_manifest option \<times> pending_file list)" where
  "read_members e corrupt [] used m pending =
     (if corrupt then Inl (400, ''corrupt tar stream'') else Inr (m, pending))"
| "read_members e corrupt (hdr # hdrs) used m pending =
     (if te_type hdr \<noteq> TypeReg then read_members e corrupt hdrs used m pending
      else let cleaned = Clean (te_name hdr) in
        if HasPrefix cleaned ''/'' \<or> Contains cleaned ''..'' then Inl (400, ''unsafe path in archive'')
        else case charge_size used (te_size hdr) of
          Inl err \<Rightarrow> Inl err
        | Inr used' \<Rightarrow>
        if length (delivered hdr) < te_size hdr then Inl (400, ''truncated file in archive'')
        else if cleaned = keySetManifestName then
          (case check_manifest e (delivered hdr) of
             Inl err \<Rightarrow> Inl err
           | Inr m' \<Rightarrow> read_members e corrupt hdrs used' (Some m') pending)
        else if \<not> HasPrefix cleaned ''keys/'' then read_members e corrupt hdrs used' m pending
        else if TrimPrefix cleaned ''keys/'' = [] then read_members e corrupt hdrs used' m pending
        else read_members e corrupt hdrs used' m
               (pending @ [\<lparr>pf_rel = TrimPrefix cleaned ''keys/'', pf_mode = te_mode hdr mod 512, pf_data = delivered hdr\<rparr>]))"

fun write_keys :: "'d key_env \<Rightarrow> string \<Rightarrow> pending_file list \<Rightarrow> file_tree \<Rightarrow> bool \<times> file_tree" where
  "write_keys e targetDir [] fs = (True, fs)"
| "write_keys e targetDir (pf # pfs) fs =
     (let dest = PathJoin [targetDir, pf_rel pf] in
      case MkdirAll (kv_os e) (tree_path (kv_cwd e) (Dir dest)) fs of
        (False, fs1) \<Rightarrow> (False, fs1)
      | (True, fs1) \<Rightarrow>
          (case WriteFile (kv_os e) (tree_path (kv_cwd e) dest) (pf_data pf) (if pf_mode pf = 0 then 384 else pf_mode pf) fs1 of
             (False, fs2) \<Rightarrow> (False, fs2)
           | (True, fs2) \<Rightarrow> write_keys e targetDir pfs fs2))"

datatype key_upload = NoFile | CannotOpen | NotGzip | KeyArchive "tar_entry list" bool

text \<open>The target name and directory, from the manifest or the override.\<close>

definition import_name :: "'d key_env \<Rightarrow> string \<Rightarrow> key_manifest \<Rightarrow> key_host \<Rightarrow> (nat \<times> string) + string" where
  "import_name e override m h =
     (let name = (if override \<noteq> [] then override else km_name m) in
      if name = [] then Inl (400, ''manifest has no name and no ?name= override was provided'')
      else case validateKeySetName name of
        Some msg \<Rightarrow> Inl (400, msg)
      | None \<Rightarrow>
          (case SecureBootKeySetGetByName (kv_store e) name (kh_rows h) of
             Inr _ \<Rightarrow> Inl (409, ''a key set named '' @ quoted name @ '' already exists'')
           | Inl _ \<Rightarrow>
               (let targetDir = PathJoin [kv_keys_dir e, name] in
                if stat_ok (kh_tree h) (tree_path (kv_cwd e) targetDir)
                then Inl (409, ''directory '' @ targetDir @ '' already exists on disk'') else Inr name)))"

definition import_files ::
  "'d key_env \<Rightarrow> string \<Rightarrow> key_manifest \<Rightarrow> pending_file list \<Rightarrow> key_host \<Rightarrow> key_reply" where
  "import_files e name m pending h =
     (let targetDir = PathJoin [kv_keys_dir e, name]; target = tree_path (kv_cwd e) targetDir in
      case MkdirAll (kv_os e) target (kh_tree h) of
        (False, fs) \<Rightarrow> deny 500 ''cannot create key set directory'' (h\<lparr>kh_tree := fs\<rparr>)
      | (True, fs) \<Rightarrow>
          (case write_keys e targetDir pending fs of
             (False, fs1) \<Rightarrow> deny 500 ''failed writing key files'' (h\<lparr>kh_tree := RemoveAll (kv_os e) target fs1\<rparr>)
           | (True, fs1) \<Rightarrow>
               (case save_key_set e \<lparr>ks_id = [], ks_name = name, ks_dir = targetDir,
                       ks_tpm_key_path = PathJoin [targetDir, ''tpm2-pcr-private.pem''], ks_enroll = km_enroll m\<rparr> (h\<lparr>kh_tree := fs1\<rparr>) of
                  (Inl _, h1) \<Rightarrow> deny 500 ''failed to save key set record'' (h1\<lparr>kh_tree := RemoveAll (kv_os e) target (kh_tree h1)\<rparr>)
                | (Inr ks, h1) \<Rightarrow> (Response 201 (Body (KeySetBody ks)), h1))))"

definition ImportKeys :: "'d key_env \<Rightarrow> string \<Rightarrow> key_upload \<Rightarrow> key_host \<Rightarrow> key_reply" where
  "ImportKeys e override upload h =
     (case upload of
        NoFile \<Rightarrow> deny 400 ''missing file field'' h
      | CannotOpen \<Rightarrow> deny 400 ''cannot open upload'' h
      | NotGzip \<Rightarrow> deny 400 ''not a gzip stream'' h
      | KeyArchive entries corrupt \<Rightarrow>
          (case read_members e corrupt entries 0 None [] of
             Inl (code, msg) \<Rightarrow> deny code msg h
           | Inr (None, _) \<Rightarrow> deny 400 ''archive is missing manifest.json'' h
           | Inr (Some m, pending) \<Rightarrow>
               (if pending = [] then deny 400 ''archive has no key files'' h
                else case import_name e override m h of
                  Inl (code, msg) \<Rightarrow> deny code msg h
                | Inr name \<Rightarrow> import_files e name m pending h)))"

section \<open>What an archive can name\<close>

lemma key_name_plain: "keySetNameRe name \<Longrightarrow> plain_segment name"
proof -
  assume n: "keySetNameRe name"
  then have all: "\<forall>c \<in> set name. key_name_char c" by (simp add: keySetNameRe_def list_all_iff)
  have "\<not> key_name_char (CHR ''/'')" "\<not> key_name_char (CHR ''.'')" by (simp_all add: key_name_char_def less_eq_char_def)
  then have "CHR ''/'' \<notin> set name" "CHR ''.'' \<notin> set name" using all by blast+
  then show "plain_segment name" using n by (auto simp: plain_segment_def keySetNameRe_def)
qed

text \<open>A relative path of safe names.\<close>

definition plain_rel :: "string \<Rightarrow> bool" where
  "plain_rel rel \<longleftrightarrow> (\<exists>qs. qs \<noteq> [] \<and> (\<forall>s \<in> set qs. plain_segment s) \<and> rel = Join qs ''/'')"

lemma before_slash: "CHR ''/'' \<notin> set p \<Longrightarrow> CHR ''/'' \<notin> set q \<Longrightarrow> p @ CHR ''/'' # r = q @ CHR ''/'' # s \<Longrightarrow> p = q \<and> r = s"
proof -
  assume p: "CHR ''/'' \<notin> set p" and q: "CHR ''/'' \<notin> set q" and eq: "p @ CHR ''/'' # r = q @ CHR ''/'' # s"
  have cut: "takeWhile (\<lambda>c. c \<noteq> CHR ''/'') (x @ CHR ''/'' # y) = x" if "CHR ''/'' \<notin> set x" for x y
  proof -
    have "\<forall>c \<in> set x. c \<noteq> CHR ''/''" using that by blast
    then show ?thesis by (simp add: takeWhile_append2)
  qed
  have "p = q" using cut [OF p] cut [OF q] eq by metis
  then show "p = q \<and> r = s" using eq by simp
qed

lemma cleaned_rel:
  assumes "\<not> HasPrefix (Clean name) ''/''" and "\<not> Contains (Clean name) ''..''"
    and "HasPrefix (Clean name) ''keys/''" and "TrimPrefix (Clean name) ''keys/'' \<noteq> []"
  shows "plain_rel (TrimPrefix (Clean name) ''keys/'')"
proof -
  let ?parts = "clean_parts name"
  obtain r where r: "Clean name = ''keys/'' @ r" using assms(3) by (auto simp: HasPrefix_iff)
  have rel: "\<not> IsAbs name" using assms(1) by (auto simp: Clean_def IsAbs_def HasPrefix_def)
  have ne: "?parts \<noteq> []" using r rel by (auto simp: Clean_def)
  have join: "Clean name = Join ?parts ''/''" using rel ne by (simp add: Clean_def)
  have ok: "\<forall>s \<in> set ?parts. s \<noteq> [] \<and> s \<noteq> ''.'' \<and> CHR ''/'' \<notin> set s"
    using clean_parts_normal [of name] by (simp add: normal_parts_def)
  have in_join: "s \<in> set ps \<Longrightarrow> \<exists>a b. Join ps ''/'' = a @ s @ b" for s and ps :: "string list"
  proof (induction ps "''/''" rule: Join.induct)
    case (3 x y ss)
    then show ?case
    proof (cases "s = x")
      case True
      then show ?thesis by (metis Join.simps(3) append_Nil append.assoc)
    next
      case False
      then obtain a b where "Join (y # ss) ''/'' = a @ s @ b" using 3 by auto
      then have "Join (x # y # ss) ''/'' = (x @ ''/'' @ a) @ s @ b" by simp
      then show ?thesis by blast
    qed
  next
    case (2 x)
    then show ?case by (metis Join.simps(2) append_Nil append_Nil2 empty_iff empty_set set_ConsD)
  qed simp
  have dots: "''..'' \<notin> set ?parts" using in_join [of "''..''" ?parts] assms(2) join by (auto simp: Contains_iff)
  have plain: "\<forall>s \<in> set ?parts. plain_segment s" using ok dots by (auto simp: plain_segment_def)
  obtain p ps where parts: "?parts = p # ps" using ne by (cases ?parts) auto
  have "ps \<noteq> []"
  proof
    assume "ps = []"
    then have "CHR ''/'' \<in> set p" using join parts r by auto
    then show False using ok parts by simp
  qed
  then have "Clean name = p @ CHR ''/'' # Join ps ''/''" using join parts by (cases ps) simp_all
  then have split: "p @ CHR ''/'' # Join ps ''/'' = ''keys'' @ CHR ''/'' # r" using r by simp
  have "CHR ''/'' \<notin> set p" "CHR ''/'' \<notin> set ''keys''" using ok parts by simp_all
  then have "Join ps ''/'' = r" using before_slash [OF _ _ split] by blast
  moreover have "TrimPrefix (Clean name) ''keys/'' = r" using r by (simp add: TrimPrefix_def HasPrefix_def)
  ultimately show ?thesis using \<open>ps \<noteq> []\<close> plain parts unfolding plain_rel_def by (intro exI [of _ ps]) simp
qed

lemma read_members_plain:
  "read_members e corrupt hdrs used m pending = Inr (m', pending') \<Longrightarrow> \<forall>pf \<in> set pending. plain_rel (pf_rel pf) \<Longrightarrow>
     \<forall>pf \<in> set pending'. plain_rel (pf_rel pf)"
proof (induction e corrupt hdrs used m pending rule: read_members.induct)
  case (2 e corrupt hdr hdrs used m pending)
  show ?case
    using 2 cleaned_rel [of "te_name hdr"] by (simp add: Let_def split: if_splits sum.splits)
qed (simp split: if_splits)

lemma read_members_code: "read_members e corrupt hdrs used m pending = Inl (code, msg) \<Longrightarrow> code \<in> {400, 413, 500}"
  by (induction e corrupt hdrs used m pending rule: read_members.induct)
    (auto simp: Let_def check_manifest_def charge_size_def split: if_splits sum.splits option.splits)

lemma import_name_code: "import_name e override m h = Inl (code, msg) \<Longrightarrow> code \<in> {400, 409}"
  by (auto simp: import_name_def Let_def split: if_splits sum.splits option.splits)

text \<open>The sum of a member that fits does not wrap.\<close>

lemma charge_fits:
  "0 \<le> used \<Longrightarrow> used + int n \<le> maxImportSize \<Longrightarrow> charge_size used n = Inr (used + int n)"
  by (simp add: charge_size_def add_int64_def)

lemma charge_Inr:
  assumes "charge_size used n = Inr used'" and "0 \<le> used" and "used \<le> maxImportSize"
  shows "used' = used + int n \<and> used' \<le> maxImportSize"
  using assms by (auto simp: charge_size_def add_int64_def Let_def split: if_splits)

lemma read_members_bounded:
  "read_members e corrupt hdrs used m pending = Inr (m', pending') \<Longrightarrow>
     sum_list (map (\<lambda>pf. int (length (pf_data pf))) pending) \<le> used \<Longrightarrow> 0 \<le> used \<Longrightarrow> used \<le> maxImportSize \<Longrightarrow>
     sum_list (map (\<lambda>pf. int (length (pf_data pf))) pending') \<le> maxImportSize"
proof (induction e corrupt hdrs used m pending rule: read_members.induct)
  case (2 e corrupt hdr hdrs used m pending)
  have "int (length (delivered hdr)) \<le> int (te_size hdr)" by (simp add: delivered_def)
  moreover have "used' = used + int (te_size hdr) \<and> used' \<le> maxImportSize" if "charge_size used (te_size hdr) = Inr used'" for used'
    by (rule charge_Inr [OF that 2(8,9)])
  ultimately show ?case using 2 by (simp add: Let_def split: if_splits sum.splits)
qed (simp split: if_splits)

section \<open>Writing the files\<close>

text \<open>Nothing changes outside a directory, but for its own parents.\<close>

definition only_below :: "tree_path \<Rightarrow> file_tree \<Rightarrow> file_tree \<Rightarrow> bool" where
  "only_below p fs fs' \<longleftrightarrow>
     (\<forall>q. \<not> prefix p q \<longrightarrow> file_at fs' q = file_at fs q) \<and>
     (\<forall>q. is_dir fs' q \<longrightarrow> is_dir fs q \<or> prefix p q \<or> prefix q p) \<and>
     (\<forall>q. is_dir fs q \<longrightarrow> is_dir fs' q)"

lemma only_below_refl [simp]: "only_below p fs fs"
  by (simp add: only_below_def)

lemma only_below_trans: "only_below p fs fs1 \<Longrightarrow> only_below p fs1 fs2 \<Longrightarrow> only_below p fs fs2"
  unfolding only_below_def by metis

lemma only_below_MkdirAll:
  assumes "MkdirAll os (p @ qs) fs = (r, fs')" and "tree_ok fs"
  shows "only_below p fs fs'"
proof -
  have g: "grown (p @ qs) fs fs'" using MkdirAll_grown [OF assms] by blast
  have near: "prefix q (p @ qs) \<Longrightarrow> prefix p q \<or> prefix q p" for q
    using prefix_same_cases [of q "p @ qs" p] by auto
  have "file_at fs' = file_at fs" using g by (simp add: grown_def file_at_def)
  then show ?thesis using g near unfolding grown_def only_below_def by auto
qed

lemma only_below_WriteFile: "WriteFile os (p @ qs) data mode fs = (r, fs') \<Longrightarrow> only_below p fs fs'"
proof -
  assume w: "WriteFile os (p @ qs) data mode fs = (r, fs')"
  have "\<not> prefix p q \<Longrightarrow> q \<noteq> p @ qs" for q by auto
  then show "only_below p fs fs'" using WriteFile_fields(1,2) [OF w] by (simp add: only_below_def is_dir_def)
qed

lemma target_nonempty: "dir \<noteq> [] \<Longrightarrow> plain_segment a \<Longrightarrow> PathJoin [dir, a] \<noteq> []"
proof -
  assume d: "dir \<noteq> []" and a: "plain_segment a"
  have "a \<noteq> []" using a by (auto simp: plain_segment_def)
  then show "PathJoin [dir, a] \<noteq> []"
    using PathJoin_child [OF d a] by (cases "clean_parts dir"; cases "tl (clean_parts dir)") (auto simp: path_of_def Join_append)
qed

lemma write_keys_below:
  assumes "IsAbs (kv_cwd e)" and "dir \<noteq> []"
  shows "write_keys e dir pfs fs = (r, fs') \<Longrightarrow> \<forall>pf \<in> set pfs. plain_rel (pf_rel pf) \<Longrightarrow> tree_ok fs \<Longrightarrow>
    tree_ok fs' \<and> only_below (tree_path (kv_cwd e) dir) fs fs'"
proof (induction pfs arbitrary: fs)
  case (Cons pf pfs)
  let ?T = "tree_path (kv_cwd e) dir"
  obtain qs where qs: "qs \<noteq> []" "\<forall>s \<in> set qs. plain_segment s" "pf_rel pf = Join qs ''/''"
    using Cons.prems(2) by (auto simp: plain_rel_def)
  have dest: "tree_path (kv_cwd e) (PathJoin [dir, pf_rel pf]) = ?T @ qs"
    "tree_path (kv_cwd e) (Dir (PathJoin [dir, pf_rel pf])) = ?T @ butlast qs"
    unfolding qs(3) by (rule tree_path_below [OF assms qs(1,2)], rule tree_path_Dir [OF assms qs(1,2)])
  obtain r1 fs1 where m: "MkdirAll (kv_os e) (?T @ butlast qs) fs = (r1, fs1)" by fastforce
  obtain r2 fs2 where w: "WriteFile (kv_os e) (?T @ qs) (pf_data pf) (if pf_mode pf = 0 then 384 else pf_mode pf) fs1 = (r2, fs2)" by fastforce
  note k1 = MkdirAll_grown [OF m Cons.prems(3)] only_below_MkdirAll [OF m Cons.prems(3)]
  note k2 = WriteFile_fields(3) [OF w] only_below_WriteFile [OF w]
  have below: "only_below ?T fs fs2" by (rule only_below_trans [OF k1(2) k2(2)])
  show ?case
  proof (cases "r1 \<and> r2")
    case True
    then have "write_keys e dir pfs fs2 = (r, fs')" using Cons.prems(1) m w by (simp add: dest)
    then show ?thesis using Cons.IH [of fs2] Cons.prems(2) k1(1) k2(1) only_below_trans [OF below] by auto
  next
    case False
    then have "fs' = fs1 \<or> fs' = fs2" using Cons.prems(1) m w by (auto simp: dest split: bool.splits)
    then show ?thesis using k1 k2(1) below by auto
  qed
qed simp

lemma fresh_below: "tree_ok fs \<Longrightarrow> \<not> stat_ok fs p \<Longrightarrow> prefix p q \<Longrightarrow> \<not> stat_ok fs q"
  using tree_ok_parents [of fs q p] unfolding stat_ok_def strict_prefix_def by metis

lemma only_below_Remove:
  assumes "tree_ok fs" and "\<not> stat_ok fs p" and "only_below p fs fs'"
  shows "only_below p fs (RemoveAll os p fs')"
proof -
  have fresh: "is_dir fs q \<Longrightarrow> \<not> prefix p q" for q
    using fresh_below [OF assms(1,2), of q] by (auto simp: stat_ok_def)
  show ?thesis
    using assms(3) fresh unfolding only_below_def RemoveAll_fields by (intro conjI allI impI; simp)
qed

section \<open>Properties of the import\<close>

text \<open>
  C32. An import stays in its place: whatever the archive holds, either nothing changes, or there is
  a valid name for which no file or directory stood below the keys directory, and no file outside
  that new directory is touched and none of the old directories goes away; then the import is
  accepted and has added exactly one row, that of this directory, or it has failed, the table
  is as before, and whatever file or directory is left at or below the new one has something at or below it that
  the system does not let go; so when all of it can be removed, the name is free again for a retry.
\<close>
theorem import_stays_in_its_place:
  assumes "IsAbs (kv_cwd e)" and "kv_keys_dir e \<noteq> []" and "sql_engine (kv_store e) ks_id key_set_clash"
    and "tree_ok (kh_tree h)" and "ImportKeys e override upload h = (r, h')"
  shows "(h' = h \<and> status r \<noteq> 201) \<or>
    (\<exists>name p. keySetNameRe name \<and> p = tree_path (kv_cwd e) (kv_keys_dir e) @ [name] \<and> \<not> stat_ok (kh_tree h) p \<and>
       only_below p (kh_tree h) (kh_tree h') \<and>
       (if status r = 201
        then \<exists>ks. r = Response 201 (Body (KeySetBody ks)) \<and> ks_name ks = name \<and> tree_path (kv_cwd e) (ks_dir ks) = p \<and> kh_rows h' = kh_rows h @ [ks]
        else kh_rows h' = kh_rows h \<and> (\<forall>q. prefix p q \<and> stat_ok (kh_tree h') q \<longrightarrow>
          (\<exists>r. prefix q r \<and> stat_ok (kh_tree h') r \<and> \<not> os_remove (kv_os e) r))))"
proof (cases "h' = h \<and> status r \<noteq> 201")
  case False
  obtain entries corrupt m pending name where i: "upload = KeyArchive entries corrupt"
    "read_members e corrupt entries 0 None [] = Inr (Some m, pending)" "import_name e override m h = Inr name"
    "import_files e name m pending h = (r, h')"
    using assms(5) False
    by (auto simp: ImportKeys_def split: key_upload.splits sum.splits option.splits if_splits prod.splits
        dest!: read_members_code import_name_code)
  let ?dir = "PathJoin [kv_keys_dir e, name]" and ?p = "tree_path (kv_cwd e) (kv_keys_dir e) @ [name]" and ?fs = "kh_tree h"
  have name: "keySetNameRe name" using i(3) by (auto simp: import_name_def validateKeySetName_def Let_def split: if_splits option.splits sum.splits)
  note plain = key_name_plain [OF name]
  have p: "tree_path (kv_cwd e) ?dir = ?p" by (rule tree_path_child [OF assms(1,2) plain])
  have fresh: "\<not> stat_ok ?fs ?p"
    using i(3) p by (auto simp: import_name_def Let_def split: if_splits option.splits sum.splits)
  obtain r1 fs1 where m: "MkdirAll (kv_os e) ?p ?fs = (r1, fs1)" by fastforce
  note k1 = MkdirAll_grown [OF m assms(4)] only_below_MkdirAll [of "kv_os e" ?p "[]" ?fs r1 fs1, simplified, OF m assms(4)]
  obtain r2 fs2 where w: "write_keys e ?dir pending fs1 = (r2, fs2)" by fastforce
  have rel: "\<forall>pf \<in> set pending. plain_rel (pf_rel pf)" using read_members_plain [OF i(2)] by simp
  have k2: "only_below ?p fs1 fs2"
    using write_keys_below [OF assms(1) target_nonempty [OF assms(2) plain] w rel] k1(1) p by simp
  note k = only_below_trans [OF k1(2) k2]
  have gone: "\<forall>q. prefix ?p q \<and> stat_ok (RemoveAll (kv_os e) ?p fs') q \<longrightarrow>
      (\<exists>r. prefix q r \<and> stat_ok (RemoveAll (kv_os e) ?p fs') r \<and> \<not> os_remove (kv_os e) r)" for fs'
    using RemoveAll_left by blast
  have early: "\<not> stat_ok fs1 q" if "\<not> r1" "prefix ?p q" for q
  proof -
    have "\<not> is_dir fs1 ?p" using MkdirAll_fails [OF _ assms(4), of "kv_os e" ?p fs1] m that(1) fresh by (simp add: stat_ok_def)
    moreover have "is_dir fs1 q \<Longrightarrow> q = ?p"
      using k1(1) fresh_below [OF assms(4) fresh that(2)] that(2) prefix_order.antisym unfolding grown_def stat_ok_def by blast
    ultimately have "\<not> is_dir fs1 q" by blast
    moreover have "file_at fs1 q = None"
      using k1(1) fresh_below [OF assms(4) fresh that(2)] by (simp add: grown_def stat_ok_def file_at_def)
    ultimately show ?thesis by (simp add: stat_ok_def)
  qed
  let ?ks = "\<lparr>ks_id = [], ks_name = name, ks_dir = ?dir, ks_tpm_key_path = PathJoin [?dir, ''tpm2-pcr-private.pem''], ks_enroll = km_enroll m\<rparr>"
  obtain c t where c: "SecureBootKeySetCreate (kv_store e) (kv_uuid e) ?ks (kh_rows h) = (c, t)" by fastforce
  have row: "(case c of Inl _ \<Rightarrow> t = kh_rows h | Inr ks \<Rightarrow> ks = ?ks\<lparr>ks_id := kv_uuid e\<rparr> \<and> t = kh_rows h @ [ks])"
    using c db_create_Inl [of "kv_store e" _ "kh_rows h"] sql_engine.db_create_Inr [OF assms(3)]
    by (fastforce simp: SecureBootKeySetCreate_def Let_def split: prod.splits sum.splits)
  have res: "(r, h') = (if \<not> r1 then deny 500 ''cannot create key set directory'' (h\<lparr>kh_tree := fs1\<rparr>)
      else if \<not> r2 then deny 500 ''failed writing key files'' (h\<lparr>kh_tree := RemoveAll (kv_os e) ?p fs2\<rparr>)
      else case c of Inl _ \<Rightarrow> deny 500 ''failed to save key set record'' (h\<lparr>kh_tree := RemoveAll (kv_os e) ?p fs2, kh_rows := t\<rparr>)
        | Inr ks \<Rightarrow> (Response 201 (Body (KeySetBody ks)), h\<lparr>kh_tree := fs2, kh_rows := t\<rparr>))"
    using i(4) m w c p by (auto simp: import_files_def save_key_set_def Let_def split: sum.splits)
  have "only_below ?p ?fs (kh_tree h') \<and>
       (if status r = 201
        then \<exists>ks. r = Response 201 (Body (KeySetBody ks)) \<and> ks_name ks = name \<and> tree_path (kv_cwd e) (ks_dir ks) = ?p \<and> kh_rows h' = kh_rows h @ [ks]
        else kh_rows h' = kh_rows h \<and> (\<forall>q. prefix ?p q \<and> stat_ok (kh_tree h') q \<longrightarrow>
          (\<exists>r. prefix q r \<and> stat_ok (kh_tree h') r \<and> \<not> os_remove (kv_os e) r)))"
    using res row k k1(2) only_below_Remove [OF assms(4) fresh k] gone early p
    by (auto split: if_splits sum.splits)
  then show ?thesis using name fresh by blast
qed blast

section \<open>Export and import\<close>

text \<open>What an importer makes of one exported file.\<close>

definition key_names :: "tree_path \<Rightarrow> tree_path \<times> file_node \<Rightarrow> tree_path" where
  "key_names dir f = drop (length dir) (fst f)"

definition pending_of :: "tree_path \<Rightarrow> tree_path \<times> file_node \<Rightarrow> pending_file" where
  "pending_of dir f = \<lparr>pf_rel = Join (key_names dir f) ''/'', pf_mode = fn_mode (snd f) mod 512, pf_data = fn_data (snd f)\<rparr>"

text \<open>Names that the importer accepts: safe ones without two dots in a row.\<close>

definition portable :: "tree_path \<Rightarrow> bool" where
  "portable qs \<longleftrightarrow> qs \<noteq> [] \<and> (\<forall>s \<in> set qs. plain_segment s) \<and> \<not> Contains (Join qs ''/'') ''..''"

lemma portable_member:
  assumes "portable qs"
  shows "PathJoin [''keys'', Join qs ''/''] = ''keys/'' @ Join qs ''/''" "Clean (''keys/'' @ Join qs ''/'') = ''keys/'' @ Join qs ''/''"
    "Join qs ''/'' \<noteq> []"
proof -
  have qs: "qs \<noteq> []" "\<forall>s \<in> set qs. plain_segment s" using assms by (simp_all add: portable_def)
  have k: "plain_segment ''keys''" by (simp add: plain_segment_def)
  have keys: "clean_parts ''keys'' = [''keys'']" "\<not> IsAbs ''keys''"
    by (simp_all add: clean_parts_def clean_segment_def IsAbs_def HasPrefix_def)
  have join: "path_of False (''keys'' # qs) = ''keys/'' @ Join qs ''/''" using qs(1) by (cases qs) (simp_all add: path_of_def)
  show j: "PathJoin [''keys'', Join qs ''/''] = ''keys/'' @ Join qs ''/''"
    using PathJoin_below [OF _ qs, of "''keys''"] keys join by simp
  have "normal_parts False (''keys'' # qs)" using normal_parts_plains [of False "[]" "''keys'' # qs"] k qs(2) by simp
  from clean_parts_path_of [OF this] IsAbs_path_of_normal [OF this]
  show "Clean (''keys/'' @ Join qs ''/'') = ''keys/'' @ Join qs ''/''" unfolding join Clean_path_of by (simp add: join)
  show "Join qs ''/'' \<noteq> []" using qs by (cases qs; cases "tl qs") (auto simp: plain_segment_def)
qed

lemma read_exported:
  assumes "\<forall>f \<in> set fl. portable (key_names dir f)"
  shows "0 \<le> used \<Longrightarrow> used + sum_list (map (\<lambda>f. int (length (fn_data (snd f)))) fl) \<le> maxImportSize \<Longrightarrow>
    read_members e False (map (key_member dir) fl) used (Some m) pending = Inr (Some m, pending @ map (pending_of dir) fl)"
  using assms
proof (induction fl arbitrary: used pending)
  case (Cons f fl)
  let ?qs = "key_names dir f"
  have port: "portable ?qs" using Cons.prems(3) by simp
  note pm = portable_member [OF port]
  have name: "te_name (key_member dir f) = ''keys/'' @ Join ?qs ''/''" using pm(1) by (simp add: key_member_def key_names_def)
  have fields: "te_type (key_member dir f) = TypeReg" "te_size (key_member dir f) = length (fn_data (snd f))"
    "te_mode (key_member dir f) = fn_mode (snd f) mod 512" "delivered (key_member dir f) = fn_data (snd f)"
    by (simp_all add: key_member_def delivered_def)
  have dots: "\<not> Contains (''keys/'' @ Join ?qs ''/'') ''..''"
    using port by (simp add: portable_def HasPrefix_def)
  have rest: "0 \<le> sum_list (map (\<lambda>f. int (length (fn_data (snd f)))) fl)" by (induction fl) auto
  have charge: "charge_size used (length (fn_data (snd f))) = Inr (used + int (length (fn_data (snd f))))"
    by (rule charge_fits [OF Cons.prems(1)]) (use Cons.prems(2) rest in simp)
  have "read_members e False (map (key_member dir) (f # fl)) used (Some m) pending =
      read_members e False (map (key_member dir) fl) (used + int (length (fn_data (snd f)))) (Some m) (pending @ [pending_of dir f])"
    using Cons.prems(1,2) dots pm(3) charge
    by (simp add: Let_def fields name pm(2) [simplified] HasPrefix_def TrimPrefix_def pending_of_def)
  then show ?case using Cons.IH [of "used + int (length (fn_data (snd f)))" "pending @ [pending_of dir f]"] Cons.prems by simp
qed simp

text \<open>Files that do not stand in each other's way are all written.\<close>

definition os_willing :: "tree_os \<Rightarrow> bool" where
  "os_willing os \<longleftrightarrow> (\<forall>p. os_mkdir os p) \<and> (\<forall>p. os_open os p) \<and> (\<forall>p d. os_written os p d = None)"

definition apart :: "tree_path list \<Rightarrow> bool" where
  "apart ps \<longleftrightarrow> distinct ps \<and> (\<forall>p \<in> set ps. \<forall>q \<in> set ps. \<not> strict_prefix p q)"

definition landed :: "'d key_env \<Rightarrow> file_node \<Rightarrow> file_node" where
  "landed e f = f\<lparr>fn_mode := os_umask (kv_os e) (if fn_mode f mod 512 = 0 then 384 else fn_mode f mod 512)\<rparr>"

lemma write_one:
  assumes ok: "tree_ok fs" and target: "is_dir fs p" and os: "os_willing os" and qs: "qs \<noteq> []"
    and free: "\<forall>r. prefix r qs \<longrightarrow> file_at fs (p @ r) = None" "\<not> is_dir fs (p @ qs)"
  obtains fs1 fs2 where "MkdirAll os (p @ butlast qs) fs = (True, fs1)" "WriteFile os (p @ qs) data mode fs1 = (True, fs2)"
    "tree_ok fs2" "grown (p @ butlast qs) fs fs1" "ft_dirs fs2 = ft_dirs fs1"
    "file_at fs2 = (file_at fs)(p @ qs \<mapsto> \<lparr>fn_mode = os_umask os mode, fn_data = data\<rparr>)"
proof -
  obtain r1 fs1 where m: "MkdirAll os (p @ butlast qs) fs = (r1, fs1)" by fastforce
  have nofile: "file_at fs r = None" if "prefix r (p @ butlast qs)" for r
  proof (cases "prefix p r")
    case True
    then obtain r' where r': "r = p @ r'" by (auto simp: prefix_def)
    then have "prefix r' qs" using that by (metis append_butlast_last_id prefix_append prefix_prefix qs same_prefix_prefix)
    then show ?thesis using free(1) r' by simp
  next
    case False
    then have "strict_prefix r p" using that prefix_same_cases [of r "p @ butlast qs" p] by (auto simp: strict_prefix_def)
    then have "is_dir fs r" using tree_ok_parents [OF ok _ \<open>strict_prefix r p\<close>] target by (simp add: stat_ok_def)
    then show ?thesis using ok by (auto simp: tree_ok_def)
  qed
  have "fst (MkdirAll os (p @ butlast qs) fs)"
    by (rule MkdirAll_succeeds [OF ok]) (use nofile os in \<open>auto simp: os_willing_def\<close>)
  then have r1: "r1" using m by simp
  note g = MkdirAll_grown [OF m ok]
  have same: "file_at fs1 = file_at fs" using g by (simp add: grown_def file_at_def)
  have "\<not> prefix (p @ qs) (p @ butlast qs)"
    using qs by (metis append_butlast_last_id not_Cons_self2 prefix_length_le same_prefix_prefix append_self_conv prefix_order.antisym_conv prefixI)
  then have notdir: "\<not> is_dir fs1 (p @ qs)" using g free(2) by (auto simp: grown_def)
  obtain r2 fs2 where w: "WriteFile os (p @ qs) data mode fs1 = (r2, fs2)" by fastforce
  have "fst (WriteFile os (p @ qs) data mode fs1)"
    by (rule WriteFile_succeeds) (use qs notdir g r1 os in \<open>simp_all add: os_willing_def butlast_append\<close>)
  then have r2: "r2" using w by simp
  have free_here: "file_at fs1 (p @ qs) = None" using free(1) same by simp
  have "file_at fs2 = (file_at fs)(p @ qs \<mapsto> \<lparr>fn_mode = os_umask os mode, fn_data = data\<rparr>)"
    using WriteFile_fields(2,4) [OF w] r2 free_here same by (intro ext) simp
  then show ?thesis using that [of fs1 fs2] m w r1 r2 g WriteFile_fields(1,3) [OF w] by auto
qed

lemma write_all:
  assumes path: "IsAbs (kv_cwd e)" "dir \<noteq> []" and os: "os_willing (kv_os e)" and p: "p = tree_path (kv_cwd e) dir"
  shows "tree_ok fs \<Longrightarrow> is_dir fs p \<Longrightarrow> apart (map (key_names d) fl) \<Longrightarrow> \<forall>f \<in> set fl. portable (key_names d f) \<Longrightarrow>
    \<forall>f \<in> set fl. (\<forall>r. prefix r (key_names d f) \<longrightarrow> file_at fs (p @ r) = None) \<and> \<not> is_dir fs (p @ key_names d f) \<Longrightarrow>
    \<exists>fs'. write_keys e dir (map (pending_of d) fl) fs = (True, fs') \<and>
      file_at fs' = file_at fs ++ map_of (map (\<lambda>f. (p @ key_names d f, landed e (snd f))) fl)"
proof (induction fl arbitrary: fs)
  case (Cons f fl)
  let ?qs = "key_names d f" and ?mode = "if fn_mode (snd f) mod 512 = 0 then 384 else fn_mode (snd f) mod 512"
  have qs: "?qs \<noteq> []" "\<forall>s \<in> set ?qs. plain_segment s" using Cons.prems(4) by (simp_all add: portable_def)
  obtain fs1 fs2 where w: "MkdirAll (kv_os e) (p @ butlast ?qs) fs = (True, fs1)"
    "WriteFile (kv_os e) (p @ ?qs) (fn_data (snd f)) ?mode fs1 = (True, fs2)" "tree_ok fs2"
    "grown (p @ butlast ?qs) fs fs1" "ft_dirs fs2 = ft_dirs fs1"
    "file_at fs2 = (file_at fs)(p @ ?qs \<mapsto> \<lparr>fn_mode = os_umask (kv_os e) ?mode, fn_data = fn_data (snd f)\<rparr>)"
    using write_one [OF Cons.prems(1,2) os qs(1), of "fn_data (snd f)" ?mode] Cons.prems(5) by auto
  have dest: "tree_path (kv_cwd e) (PathJoin [dir, Join ?qs ''/'']) = p @ ?qs"
    "tree_path (kv_cwd e) (Dir (PathJoin [dir, Join ?qs ''/''])) = p @ butlast ?qs"
    unfolding p by (rule tree_path_below [OF path qs], rule tree_path_Dir [OF path qs])
  have step: "write_keys e dir (map (pending_of d) (f # fl)) fs = write_keys e dir (map (pending_of d) fl) fs2"
    using w(1,2) by (simp add: Let_def pending_of_def dest split del: if_split cong: if_cong)
  have same: "landed e (snd f) = \<lparr>fn_mode = os_umask (kv_os e) ?mode, fn_data = fn_data (snd f)\<rparr>"
    by (cases "snd f") (simp add: landed_def)
  have rest: "apart (map (key_names d) fl)" using Cons.prems(3) by (auto simp: apart_def)
  have dirs: "is_dir fs2 q \<longleftrightarrow> is_dir fs1 q" for q using w(5) by (simp add: is_dir_def)
  have target: "is_dir fs2 p" using w(4) Cons.prems(2) dirs by (simp add: grown_def)
  have free: "(\<forall>r. prefix r (key_names d g) \<longrightarrow> file_at fs2 (p @ r) = None) \<and> \<not> is_dir fs2 (p @ key_names d g)" if "g \<in> set fl" for g
  proof -
    have diff: "?qs \<noteq> key_names d g" "\<not> strict_prefix ?qs (key_names d g)" "\<not> strict_prefix (key_names d g) ?qs"
      using Cons.prems(3) that by (auto simp: apart_def)
    then have "\<not> prefix ?qs (key_names d g)" by (simp add: strict_prefix_def)
    then have one: "\<forall>r. prefix r (key_names d g) \<longrightarrow> file_at fs2 (p @ r) = None" using w(6) Cons.prems(5) that by auto
    have "\<not> prefix (key_names d g) (butlast ?qs)"
    proof
      assume "prefix (key_names d g) (butlast ?qs)"
      then have "prefix (key_names d g) ?qs" using qs(1) by (metis append_butlast_last_id prefix_prefix)
      then show False using diff by (simp add: strict_prefix_def)
    qed
    then have "\<not> is_dir fs2 (p @ key_names d g)" using w(4) dirs Cons.prems(5) that unfolding grown_def by auto
    then show ?thesis using one by blast
  qed
  obtain fs' where r: "write_keys e dir (map (pending_of d) fl) fs2 = (True, fs')"
    "file_at fs' = file_at fs2 ++ map_of (map (\<lambda>f. (p @ key_names d f, landed e (snd f))) fl)"
    using Cons.IH [OF w(3) target rest] Cons.prems(4) free by auto
  have "p @ ?qs \<notin> dom (map_of (map (\<lambda>f. (p @ key_names d f, landed e (snd f))) fl))"
    using Cons.prems(3) by (auto simp: apart_def dom_map_of_conv_image_fst)
  then have all: "file_at fs' = file_at fs ++ map_of (map (\<lambda>f. (p @ key_names d f, landed e (snd f))) (f # fl))"
    unfolding r(2) w(6) same [symmetric] by (simp add: map_add_upd_left)
  show ?case by (rule exI [of _ fs'], rule conjI, simp only: step r(1), rule all)
qed simp

lemma walk_names:
  assumes "tree_ok fs" and "is_dir fs d"
  shows "f \<in> set (walk_files fs d) \<longleftrightarrow> (\<exists>qs. fst f = d @ qs \<and> file_at fs (d @ qs) = Some (snd f))"
    "apart (map (key_names d) (walk_files fs d))"
proof -
  have dist: "distinct (map fst (ft_files fs))" using assms(1) by (simp add: tree_ok_def)
  have mem: "f \<in> set (walk_files fs d) \<longleftrightarrow> (\<exists>qs. fst f = d @ qs \<and> file_at fs (d @ qs) = Some (snd f))" for f
    using map_of_eq_Some_iff [OF dist, of "fst f" "snd f"]
    by (cases f) (auto simp: walk_files_def prefix_def file_at_def)
  then show "f \<in> set (walk_files fs d) \<longleftrightarrow> (\<exists>qs. fst f = d @ qs \<and> file_at fs (d @ qs) = Some (snd f))" .
  have dw: "distinct (walk_files fs d)"
    using dist by (simp add: walk_files_def distinct_map)
  have "inj_on (key_names d) (set (walk_files fs d))"
  proof (rule inj_onI)
    fix f g
    assume a: "f \<in> set (walk_files fs d)" "g \<in> set (walk_files fs d)" "key_names d f = key_names d g"
    obtain qs rs where "fst f = d @ qs" "file_at fs (d @ qs) = Some (snd f)" "fst g = d @ rs" "file_at fs (d @ rs) = Some (snd g)"
      using a(1,2) mem by blast
    then show "f = g" using a(3) by (auto simp: key_names_def prod_eq_iff)
  qed
  moreover have "\<not> strict_prefix (key_names d f) (key_names d g)"
    if "f \<in> set (walk_files fs d)" "g \<in> set (walk_files fs d)" for f g
  proof
    assume sp: "strict_prefix (key_names d f) (key_names d g)"
    obtain qs where f: "fst f = d @ qs" "file_at fs (d @ qs) = Some (snd f)" using mem [of f] \<open>f \<in> _\<close> by blast
    obtain rs where g: "fst g = d @ rs" "file_at fs (d @ rs) = Some (snd g)" using mem [of g] \<open>g \<in> _\<close> by blast
    note q = f g
    then have "strict_prefix (d @ qs) (d @ rs)" using sp by (simp add: key_names_def strict_prefix_def)
    then have "is_dir fs (d @ qs)" using tree_ok_parents [OF assms(1), of "d @ rs"] q(4) by (simp add: stat_ok_def)
    then show False using assms(1) q(2) by (auto simp: tree_ok_def)
  qed
  ultimately show "apart (map (key_names d) (walk_files fs d))"
    using dw unfolding apart_def by (auto simp: distinct_map)
qed

lemma walk_map:
  assumes "tree_ok fs" and "is_dir fs d"
  shows "map_of (map (\<lambda>f. (p @ key_names d f, g (snd f))) (walk_files fs d)) (p @ qs) = map_option g (file_at fs (d @ qs))"
proof -
  have "distinct (map (key_names d) (walk_files fs d))" using walk_names(2) [OF assms] by (simp add: apart_def)
  then have "distinct (map fst (map (\<lambda>f. (p @ key_names d f, g (snd f))) (walk_files fs d)))"
    by (simp add: comp_def distinct_map inj_on_def)
  note some = map_of_eq_Some_iff [OF this]
  have "map_of (map (\<lambda>f. (p @ key_names d f, g (snd f))) (walk_files fs d)) (p @ qs) = Some v \<longleftrightarrow>
      map_option g (file_at fs (d @ qs)) = Some v" for v
  proof
    assume "map_option g (file_at fs (d @ qs)) = Some v"
    then obtain x where x: "file_at fs (d @ qs) = Some x" "v = g x" by auto
    then have "(d @ qs, x) \<in> set (walk_files fs d)" using walk_names(1) [OF assms, of "(d @ qs, x)"] by simp
    then show "map_of (map (\<lambda>f. (p @ key_names d f, g (snd f))) (walk_files fs d)) (p @ qs) = Some v"
      unfolding some using x by (force simp: key_names_def)
  next
    assume "map_of (map (\<lambda>f. (p @ key_names d f, g (snd f))) (walk_files fs d)) (p @ qs) = Some v"
    then obtain f where f: "f \<in> set (walk_files fs d)" "key_names d f = qs" "v = g (snd f)" unfolding some by auto
    then obtain rs where "fst f = d @ rs" "file_at fs (d @ rs) = Some (snd f)" using walk_names(1) [OF assms] by blast
    then show "map_option g (file_at fs (d @ qs)) = Some v" using f by (simp add: key_names_def)
  qed
  then show ?thesis by (metis option.exhaust)
qed

text \<open>
  C33. Export and import are inverse: the archive of a key set whose files can all be read and have
  portable names within the size limit, imported where the name, the directory and the id are
  free and the disk lets everything be written, gives a key set of the same name and enroll
  setting, whose directory has exactly the files of the exported one, with their data, and
  their permissions as the umask leaves them (read and write for the owner when they were none).
\<close>
theorem exported_key_set_is_imported:
  assumes "ExportKeys e i h = ExportStream fname entries" and "SecureBootKeySetGetByID (kv_store e) i (kh_rows h) = Inr ks"
    and "kv_encode e (manifest_of ks) = Some text" and "\<forall>q. kv_readable e q" and "tree_ok (kh_tree h)"
    and "d = tree_path (kv_cwd e) (ks_dir ks)" and "walk_files (kh_tree h) d \<noteq> []"
    and "\<forall>f \<in> set (walk_files (kh_tree h) d). portable (key_names d f)"
    and "int (length text) + sum_list (map (\<lambda>f. int (length (fn_data (snd f)))) (walk_files (kh_tree h) d)) \<le> maxImportSize"
    and "kv_decode e' text = Some (manifest_of ks)" and "keySetNameRe (ks_name ks)"
    and "IsAbs (kv_cwd e')" and "kv_keys_dir e' \<noteq> []" and "os_willing (kv_os e')"
    and "p = tree_path (kv_cwd e') (kv_keys_dir e') @ [ks_name ks]"
    and "tree_ok (kh_tree h')" and "\<not> stat_ok (kh_tree h') p" and "\<forall>q. strict_prefix q p \<longrightarrow> file_at (kh_tree h') q = None"
    and "reliable_engine (kv_store e') ks_id key_set_clash" and "\<forall>k \<in> set (kh_rows h'). ks_name k \<noteq> ks_name ks \<and> ks_id k \<noteq> kv_uuid e'"
  shows "\<exists>ks' h''. ImportKeys e' [] (KeyArchive entries False) h' = (Response 201 (Body (KeySetBody ks')), h'') \<and>
    ks_name ks' = ks_name ks \<and> ks_enroll ks' = ks_enroll ks \<and> tree_path (kv_cwd e') (ks_dir ks') = p \<and>
    (\<forall>qs. file_at (kh_tree h'') (p @ qs) = map_option (landed e') (file_at (kh_tree h) (d @ qs)))"
proof -
  let ?fl = "walk_files (kh_tree h) d" and ?m = "manifest_of ks" and ?dir = "PathJoin [kv_keys_dir e', ks_name ks]" and ?fs = "kh_tree h'"
  have dir: "is_dir (kh_tree h) d" and entries: "entries = manifest_member text # map (key_member d) ?fl"
  proof -
    have all: "takeWhile (\<lambda>(q, f). kv_readable e q) xs = xs" for xs :: "(tree_path \<times> file_node) list"
      using assms(4) by (simp add: takeWhile_eq_all_conv case_prod_beta)
    show "is_dir (kh_tree h) d" "entries = manifest_member text # map (key_member d) ?fl"
      using assms(1,2,3,6) by (auto simp: ExportKeys_def Let_def export_members_def all split: if_splits)
  qed
  have m_ok: "check_manifest e' (delivered (manifest_member text)) = Inr ?m" "Clean keySetManifestName = keySetManifestName"
    "\<not> HasPrefix keySetManifestName ''/''" "\<not> Contains keySetManifestName ''..''" "te_name (manifest_member text) = keySetManifestName"
    "te_type (manifest_member text) = TypeReg" "te_size (manifest_member text) = length text" "delivered (manifest_member text) = text"
    using assms(10)
    by (simp_all add: check_manifest_def delivered_def manifest_member_def manifest_of_def Clean_def clean_parts_def clean_segment_def IsAbs_def HasPrefix_def)
  have "read_members e' False entries 0 None [] = read_members e' False (map (key_member d) ?fl) (int (length text)) (Some ?m) []"
  proof -
    have "0 \<le> sum_list (map (\<lambda>f. int (length (fn_data (snd f)))) xs)" for xs :: "(tree_path \<times> file_node) list"
      by (induction xs) auto
    from this [of ?fl] show ?thesis
      using assms(9) charge_fits [of 0 "length text"] unfolding entries by (simp add: Let_def m_ok m_ok(1) [unfolded m_ok(8)] HasPrefix_def)
  qed
  then have read: "read_members e' False entries 0 None [] = Inr (Some ?m, map (pending_of d) ?fl)"
    using read_exported [OF assms(8), of "int (length text)" e' ?m "[]"] assms(9) by simp
  note plain = key_name_plain [OF assms(11)]
  have path: "tree_path (kv_cwd e') ?dir = p" unfolding assms(15) by (rule tree_path_child [OF assms(12,13) plain])
  have sql: "sql_engine (kv_store e') ks_id key_set_clash" by (rule reliable_engine.axioms(1) [OF assms(19)])
  have noname: "SecureBootKeySetGetByName (kv_store e') (ks_name ks) (kh_rows h') = Inl RecordNotFound"
    unfolding SecureBootKeySetGetByName_def by (rule reliable_engine.db_first_missing [OF assms(19)]) (use assms(20) in auto)
  have "ks_name ks \<noteq> []" using assms(11) by (auto simp: keySetNameRe_def)
  then have name: "import_name e' [] ?m h' = Inr (ks_name ks)"
    using assms(11,17) path noname by (simp add: import_name_def validateKeySetName_def manifest_of_def Let_def)
  obtain r1 fs1 where mk: "MkdirAll (kv_os e') p ?fs = (r1, fs1)" by fastforce
  have "fst (MkdirAll (kv_os e') p ?fs)"
    by (rule MkdirAll_succeeds [OF assms(16)]) (use assms(14,17,18) in \<open>auto simp: os_willing_def stat_ok_def strict_prefix_def\<close>)
  then have mk1: "MkdirAll (kv_os e') p ?fs = (True, fs1)" using mk by simp
  note g = MkdirAll_grown [OF mk1 assms(16)]
  have same: "file_at fs1 = file_at ?fs" using g by (simp add: grown_def file_at_def)
  have fresh: "file_at fs1 (p @ qs) = None" "qs \<noteq> [] \<Longrightarrow> \<not> is_dir fs1 (p @ qs)" for qs
    using fresh_below [OF assms(16,17), of "p @ qs"] g same by (auto simp: stat_ok_def grown_def)
  have free: "\<forall>f \<in> set ?fl. (\<forall>r. prefix r (key_names d f) \<longrightarrow> file_at fs1 (p @ r) = None) \<and> \<not> is_dir fs1 (p @ key_names d f)"
    using fresh assms(8) by (auto simp: portable_def)
  obtain fs2 where w: "write_keys e' ?dir (map (pending_of d) ?fl) fs1 = (True, fs2)"
    "file_at fs2 = file_at fs1 ++ map_of (map (\<lambda>f. (p @ key_names d f, landed e' (snd f))) ?fl)"
    using write_all [OF assms(12) target_nonempty [OF assms(13) plain] assms(14) path [symmetric], of fs1 d ?fl]
      g free assms(8) walk_names(2) [OF assms(5) dir] by auto
  let ?ks = "\<lparr>ks_id = kv_uuid e', ks_name = ks_name ks, ks_dir = ?dir, ks_tpm_key_path = PathJoin [?dir, ''tpm2-pcr-private.pem''], ks_enroll = ks_enroll ks\<rparr>"
  have created: "db_create (kv_store e') ?ks (kh_rows h') = (Inr (), kh_rows h' @ [?ks])"
    by (rule reliable_engine.db_create_total [OF assms(19)]) (use assms(20) in \<open>auto simp: key_set_clash_def\<close>)
  have "ImportKeys e' [] (KeyArchive entries False) h' =
      (Response 201 (Body (KeySetBody ?ks)), h'\<lparr>kh_tree := fs2, kh_rows := kh_rows h' @ [?ks]\<rparr>)"
  proof -
    have "km_enroll ?m = ks_enroll ks" by (simp add: manifest_of_def)
    then show ?thesis
      using assms(7) created by (simp add: ImportKeys_def read name import_files_def Let_def path mk1 w(1) save_key_set_def SecureBootKeySetCreate_def)
  qed
  moreover have "file_at fs2 (p @ qs) = map_option (landed e') (file_at (kh_tree h) (d @ qs))" for qs
    unfolding w(2) map_add_def walk_map [OF assms(5) dir] using fresh(1) by (simp split: option.split)
  ultimately show ?thesis using path by (intro exI [of _ ?ks]) auto
qed

section \<open>What goes wrong\<close>

text \<open>
  Generating a key set under a name that is taken replaces the keys on disk first, and only then
  fails on the unique name: the request answers 500 and the old keys are gone.
\<close>

lemma generation_overwrites_keys:
  assumes "sql_engine (kv_store e) ks_id key_set_clash" and "old \<in> set (kh_rows h)" and "ks_name old = name"
    and "keySetNameRe name"
    and "GenerateKeySet (kv_tools e) (kv_os e) (kv_cwd e) \<lparr>ko_name = name, ko_output_dir = PathJoin [kv_keys_dir e, name], ko_days = [],
           ko_skip_microsoft = False, ko_custom_dir = []\<rparr> (kh_tree h) = (None, fs)"
  shows "GenerateKeys e (Some name) h = (Response 500 (ErrorBody ''failed to save key set record''), h\<lparr>kh_tree := fs\<rparr>)"
proof -
  let ?ks = "\<lparr>ks_id = kv_uuid e, ks_name = name, ks_dir = PathJoin [kv_keys_dir e, name],
    ks_tpm_key_path = PathJoin [PathJoin [kv_keys_dir e, name], ''tpm2-pcr-private.pem''], ks_enroll = []\<rparr>"
  obtain c t where c: "db_create (kv_store e) ?ks (kh_rows h) = (c, t)" by fastforce
  have "\<exists>err. c = Inl err"
  proof (cases c)
    case (Inr u)
    then have "\<forall>y \<in> set (kh_rows h). \<not> key_set_clash y ?ks" using sql_engine.db_create_Inr [OF assms(1)] c by blast
    then show ?thesis using assms(2,3) by (auto simp: key_set_clash_def)
  qed blast
  then have "c = Inl (projl c)" "t = kh_rows h" using c db_create_Inl by fastforce+
  moreover have "name \<noteq> []" using assms(4) by (auto simp: keySetNameRe_def)
  ultimately show ?thesis
    using assms(4,5) c
    by (cases c) (simp_all add: GenerateKeys_def validateKeySetName_def save_key_set_def SecureBootKeySetCreate_def Let_def)
qed

text \<open>
  An export that meets a file it cannot read still answers 200 with a well-formed archive, of the
  files before that one; nothing in it tells the importer that keys are missing.
\<close>

lemma unreadable_key_truncates_export:
  assumes "ExportKeys e i h = ExportStream fname (m # members)"
    and "SecureBootKeySetGetByID (kv_store e) i (kh_rows h) = Inr ks" and "d = tree_path (kv_cwd e) (ks_dir ks)"
    and "walk_files (kh_tree h) d = before @ (q, f) # after" and "\<forall>g \<in> set before. kv_readable e (fst g)" and "\<not> kv_readable e q"
  shows "members = map (key_member d) before"
  using assms by (auto simp: ExportKeys_def Let_def export_members_def takeWhile_append2 case_prod_beta split: if_splits option.splits)

text \<open>
  A header size near the end of \<^verbatim>\<open>int64\<close> wraps the total, so that it passes the limit; the
  allocation that follows panics, and the answer is 500 in place of 413.
\<close>

lemma wrapped_total_passes_the_limit:
  assumes "te_type hdr = TypeReg" and "te_size hdr = 2 ^ 63 - 1" and "0 < used" and "used \<le> maxImportSize"
    and "\<not> HasPrefix (Clean (te_name hdr)) ''/''" and "\<not> Contains (Clean (te_name hdr)) ''..''"
  shows "read_members e corrupt (hdr # hdrs) used m pending = Inl (500, ''Internal Server Error'')"
proof -
  have "(used + (2 ^ 64 - 1)) mod 2 ^ 64 = used - 1"
    using assms(3,4) mod_pos_pos_trivial [of "used - 1" "2 ^ 64"] mod_add_self2 [of "used - 1" "2 ^ 64 :: int"] by (simp add: algebra_simps)
  then have "add_int64 used (int (te_size hdr)) = used - 2 ^ 63 - 1"
    using assms(2) by (simp add: add_int64_def algebra_simps)
  then have "charge_size used (te_size hdr) = Inl (500, ''Internal Server Error'')" using assms(2,4) by (simp add: charge_size_def)
  then show ?thesis using assms by (simp add: Let_def)
qed

section \<open>Witnesses\<close>

definition sample_key_env :: "string key_env" where
  "sample_key_env =
     \<lparr>kv_os = sample_os, kv_readable = (\<lambda>_. True), kv_cwd = ''/'', kv_keys_dir = ''data/keys'',
      kv_store = mem_engine ks_id key_set_clash, kv_uuid = ''k2'', kv_tools = sample_tools,
      kv_encode = (\<lambda>m. Some (''name: '' @ km_name m)),
      kv_decode = (\<lambda>s. if s = ''name: lab'' then Some \<lparr>km_version = 1, km_kind = keySetManifestKind, km_name = ''lab'', km_enroll = []\<rparr> else None)\<rparr>"

definition sample_key_set :: key_set where
  "sample_key_set = \<lparr>ks_id = ''k1'', ks_name = ''lab'', ks_dir = ''old/lab'', ks_tpm_key_path = ''old/lab/tpm2-pcr-private.pem'', ks_enroll = []\<rparr>"

definition sample_key_host :: key_host where
  "sample_key_host =
     \<lparr>kh_tree = \<lparr>ft_dirs = [[], [''old''], [''old'', ''lab'']],
        ft_files = [([''old'', ''lab'', ''db.key''], \<lparr>fn_mode = 0, fn_data = ''second''\<rparr>),
                    ([''old'', ''lab'', ''PK.key''], \<lparr>fn_mode = 420, fn_data = ''first''\<rparr>)]\<rparr>,
      kh_rows = [sample_key_set]\<rparr>"

definition empty_key_host :: key_host where
  "empty_key_host = \<lparr>kh_tree = \<lparr>ft_dirs = [[]], ft_files = []\<rparr>, kh_rows = []\<rparr>"

definition sample_entries :: "tar_entry list" where
  "sample_entries = (case ExportKeys sample_key_env ''k1'' sample_key_host of ExportRefused _ _ \<Rightarrow> [] | ExportStream _ es \<Rightarrow> es)"

lemma sample_tree_ok: "tree_ok (kh_tree sample_key_host)" "tree_ok (kh_tree empty_key_host)"
  by (auto simp: tree_ok_def stat_ok_def is_dir_def file_at_def sample_key_host_def empty_key_host_def split: if_splits)

lemma sample_key_facts:
  "ExportKeys sample_key_env ''k1'' sample_key_host = ExportStream ''lab.secureboot-keyset.tar.gz'' sample_entries"
  "SecureBootKeySetGetByID (kv_store sample_key_env) ''k1'' (kh_rows sample_key_host) = Inr sample_key_set"
  "kv_encode sample_key_env (manifest_of sample_key_set) = Some ''name: lab''"
  "kv_decode sample_key_env ''name: lab'' = Some (manifest_of sample_key_set)"
  "tree_path (kv_cwd sample_key_env) (ks_dir sample_key_set) = [''old'', ''lab'']"
  "tree_path (kv_cwd sample_key_env) (kv_keys_dir sample_key_env) = [''data'', ''keys'']"
  "walk_files (kh_tree sample_key_host) [''old'', ''lab''] =
     [([''old'', ''lab'', ''PK.key''], \<lparr>fn_mode = 420, fn_data = ''first''\<rparr>), ([''old'', ''lab'', ''db.key''], \<lparr>fn_mode = 0, fn_data = ''second''\<rparr>)]"
  "keySetNameRe (ks_name sample_key_set)" "ks_name sample_key_set = ''lab''"
  by code_simp+

lemma sample_env_facts:
  "IsAbs (kv_cwd sample_key_env)" "kv_keys_dir sample_key_env \<noteq> []" "os_willing (kv_os sample_key_env)"
  "kv_store sample_key_env = mem_engine ks_id key_set_clash" "\<forall>q. kv_readable sample_key_env q"
  by (simp_all add: sample_key_env_def os_willing_def sample_os_def IsAbs_def HasPrefix_def)

lemma lab_is_fresh:
  "\<not> stat_ok (kh_tree empty_key_host) [''data'', ''keys'', ''lab'']" "file_at (kh_tree empty_key_host) q = None"
  by (simp_all add: stat_ok_def is_dir_def file_at_def empty_key_host_def)

theorem exported_key_set_is_imported_witness:
  "\<exists>ks' h''. ImportKeys sample_key_env [] (KeyArchive sample_entries False) empty_key_host = (Response 201 (Body (KeySetBody ks')), h'') \<and>
     file_at (kh_tree h'') [''data'', ''keys'', ''lab'', ''db.key''] = Some \<lparr>fn_mode = 384, fn_data = ''second''\<rparr>"
proof -
  let ?p = "tree_path (kv_cwd sample_key_env) (kv_keys_dir sample_key_env) @ [ks_name sample_key_set]" and ?d = "[''old'', ''lab'']"
  have p: "?p = [''data'', ''keys'', ''lab'']" using sample_key_facts(6,9) by simp
  have portable: "\<forall>f \<in> set (walk_files (kh_tree sample_key_host) ?d). portable (key_names ?d f)"
    by (simp add: sample_key_facts(7) portable_def key_names_def plain_segment_def HasPrefix_def)
  have fits: "int (length ''name: lab'') + sum_list (map (\<lambda>f. int (length (fn_data (snd f)))) (walk_files (kh_tree sample_key_host) ?d)) \<le> maxImportSize"
    by (simp add: sample_key_facts(7))
  have fresh: "\<not> stat_ok (kh_tree empty_key_host) ?p" "\<forall>q. strict_prefix q ?p \<longrightarrow> file_at (kh_tree empty_key_host) q = None"
    using lab_is_fresh p by simp_all
  have store: "reliable_engine (kv_store sample_key_env) ks_id key_set_clash" unfolding sample_env_facts(4) by (rule mem_reliable)
  have rows: "\<forall>k \<in> set (kh_rows empty_key_host). ks_name k \<noteq> ks_name sample_key_set \<and> ks_id k \<noteq> kv_uuid sample_key_env"
    by (simp add: empty_key_host_def)
  have some: "walk_files (kh_tree sample_key_host) ?d \<noteq> []" by (simp add: sample_key_facts(7))
  have node: "map_option (landed sample_key_env) (file_at (kh_tree sample_key_host) (?d @ [''db.key''])) = Some \<lparr>fn_mode = 384, fn_data = ''second''\<rparr>"
    by (simp add: sample_key_host_def file_at_def landed_def sample_key_env_def sample_os_def)
  from exported_key_set_is_imported [OF sample_key_facts(1,2,3) sample_env_facts(5) sample_tree_ok(1) sample_key_facts(5) [symmetric] some portable fits
      sample_key_facts(4,8) sample_env_facts(1,2,3) refl sample_tree_ok(2) fresh store rows]
  show ?thesis using node p by (metis append_Cons append_Nil)
qed

theorem import_stays_in_its_place_witness:
  "\<exists>r h'. ImportKeys sample_key_env ''copy'' (KeyArchive sample_entries False) empty_key_host = (r, h') \<and> status r = 201 \<and>
     only_below [''data'', ''keys'', ''copy''] (kh_tree empty_key_host) (kh_tree h')"
proof -
  let ?r = "ImportKeys sample_key_env ''copy'' (KeyArchive sample_entries False) empty_key_host"
  have done_it: "status (fst ?r) = 201 \<and> map ks_name (kh_rows (snd ?r)) = [''copy'']" by code_simp
  have store: "sql_engine (kv_store sample_key_env) ks_id key_set_clash" unfolding sample_env_facts(4) by (rule mem_sql)
  from import_stays_in_its_place [OF sample_env_facts(1,2) store sample_tree_ok(2) prod.collapse [symmetric], of "''copy''" "KeyArchive sample_entries False"]
  obtain name p where n: "p = tree_path (kv_cwd sample_key_env) (kv_keys_dir sample_key_env) @ [name]"
    "only_below p (kh_tree empty_key_host) (kh_tree (snd ?r))" "\<exists>ks. ks_name ks = name \<and> kh_rows (snd ?r) = kh_rows empty_key_host @ [ks]"
    using done_it by auto
  have "name = ''copy''" using n(3) done_it by (auto simp: empty_key_host_def)
  then show ?thesis using n(1,2) done_it sample_key_facts(6) by (metis append_Cons append_Nil prod.collapse)
qed

end
