(* ===== verification/Operator_Translate.thy ===== *)
theory Operator_Translate
  imports Local_Builder
begin

text \<open>
  What the operator backend submits for a build (\<^verbatim>\<open>internal/builder/operator/translate.go\<close>,
  \<^verbatim>\<open>secrets.go\<close> and \<^verbatim>\<open>exporter.go\<close>): an OSArtifact resource, the Secrets that it refers to and
  the exporter job that ships the results back. The records have the fields of the Kubernetes
  types that the code sets, under the names of its composite literals.
\<close>

section \<open>Resources\<close>

record secret_ref =
  sr_name :: string
  sr_key :: string

record kube_build_options =
  kb_version :: string
  kb_base_image :: string
  kb_model :: string
  kb_trusted_boot :: bool
  kb_distro :: string
  kb_kubernetes_version :: string
  kb_fips :: bool
  kb_init_image :: string

record image_spec =
  is_ref :: string
  is_build :: "kube_build_options option"
  is_oci :: "secret_ref option"

text \<open>\<open>as_uki\<close> is the \<^verbatim>\<open>ISO\<close> field of the \<^verbatim>\<open>UKISpec\<close> when there is one.\<close>

record artifact_spec =
  as_arch :: string
  as_iso :: bool
  as_cloud_image :: bool
  as_netboot :: bool
  as_gce :: bool
  as_azure :: bool
  as_uki :: "bool option"
  as_cloud_config :: "secret_ref option"

record exporter_job =
  ej_backoff :: int
  ej_restart :: string
  ej_name :: string
  ej_image :: string
  ej_command :: "string list"
  ej_args :: "string list"
  ej_env :: "(string \<times> string) list"
  ej_env_from :: "string list"
  ej_mounts :: "(string \<times> string \<times> bool) list"

record artifact_spec_cr =
  sp_image :: image_spec
  sp_artifacts :: artifact_spec
  sp_exporters :: "exporter_job list"

record kube_secret =
  se_name :: string
  se_namespace :: string
  se_labels :: "(string \<times> string) list"
  se_data :: "(string \<times> string) list"

section \<open>Secrets\<close>

abbreviation cloudConfigSecretKey :: string where "cloudConfigSecretKey \<equiv> ''cloud-config''"
abbreviation dockerfileSecretKey :: string where "dockerfileSecretKey \<equiv> ''Dockerfile''"
abbreviation buildIDLabel :: string where "buildIDLabel \<equiv> ''auroraboot.io/build-id''"
abbreviation uploadURLKey :: string where "uploadURLKey \<equiv> ''AURORABOOT_URL''"
abbreviation uploadTokenKey :: string where "uploadTokenKey \<equiv> ''AURORABOOT_UPLOAD_TOKEN''"

definition cloudConfigSecretName :: "string \<Rightarrow> string" where "cloudConfigSecretName i = i @ ''-cloud-config''"
definition dockerfileSecretName :: "string \<Rightarrow> string" where "dockerfileSecretName i = i @ ''-dockerfile''"
definition uploadSecretName :: "string \<Rightarrow> string" where "uploadSecretName i = i @ ''-upload''"

definition materializeSecrets :: "string \<Rightarrow> string \<Rightarrow> string \<Rightarrow> build_options \<Rightarrow> kube_secret list" where
  "materializeSecrets i namespace uploadURL opts =
     (let labels = [(buildIDLabel, i)];
          secret = (\<lambda>name entries. \<lparr>se_name = name, se_namespace = namespace, se_labels = labels, se_data = entries\<rparr>) in
      (if bo_cloud_config opts \<noteq> []
       then [secret (cloudConfigSecretName i) [(cloudConfigSecretKey, bo_cloud_config opts)]] else [])
      @ (if re_dockerfile (bo_recipe opts) \<noteq> []
         then [secret (dockerfileSecretName i) [(dockerfileSecretKey, re_dockerfile (bo_recipe opts))]] else [])
      @ (if uploadURL \<noteq> [] \<and> bo_upload_token opts \<noteq> []
         then [secret (uploadSecretName i) [(uploadURLKey, uploadURL), (uploadTokenKey, bo_upload_token opts)]] else []))"

section \<open>The exporter\<close>

abbreviation DQ :: string where "DQ \<equiv> [CHR 0x22]"

definition upload_script :: string where
  "upload_script = NL @
     ''for f in /artifacts/*; do'' @ NL @
     ''  [ -f '' @ DQ @ ''$f'' @ DQ @ '' ] || continue'' @ NL @
     ''  base=$(basename '' @ DQ @ ''$f'' @ DQ @ '')'' @ NL @
     ''  echo '' @ DQ @ ''Uploading $base to $AURORABOOT_URL'' @ DQ @ NL @
     ''  curl -fsS --retry 3 --connect-timeout 30 --max-time 3600 -X PUT '' @ [CHR 0x5C] @ NL @
     ''    -H '' @ DQ @ ''Authorization: Bearer $AURORABOOT_UPLOAD_TOKEN'' @ DQ @ '' '' @ [CHR 0x5C] @ NL @
     ''    --upload-file '' @ DQ @ ''$f'' @ DQ @ '' '' @ [CHR 0x5C] @ NL @
     ''    '' @ DQ @ ''$AURORABOOT_URL/api/v1/artifacts/$BUILD_ID/upload/$base'' @ DQ @ '' || exit 1'' @ NL @
     ''done'' @ NL @
     ''echo '' @ DQ @ ''Upload done'' @ DQ @ NL"

definition uploadExporter :: "string \<Rightarrow> exporter_job" where
  "uploadExporter i =
     \<lparr>ej_backoff = 3, ej_restart = ''Never'', ej_name = ''upload-to-auroraboot'', ej_image = ''curlimages/curl:8.15.0'',
      ej_command = [''sh'', ''-ec''], ej_args = [upload_script], ej_env = [(''BUILD_ID'', i)],
      ej_env_from = [uploadSecretName i], ej_mounts = [(''artifacts'', ''/artifacts'', True)]\<rparr>"

section \<open>Translation\<close>

definition firstNonEmpty :: "string \<Rightarrow> string \<Rightarrow> string" where
  "firstNonEmpty a b = (if a \<noteq> [] then a else b)"

definition isHadronBuild :: "build_options \<Rightarrow> bool" where
  "isHadronBuild opts = (re_hadron_base (bo_recipe opts) \<noteq> [] \<and> re_dockerfile (bo_recipe opts) \<noteq> [])"

text \<open>The merged view of the flat and the grouped fields.\<close>

definition base_ref :: "build_options \<Rightarrow> string" where
  "base_ref opts = firstNonEmpty (bo_base_image opts) (so_base_image (bo_source opts))"

definition kairos_version :: "build_options \<Rightarrow> string" where
  "kairos_version opts = firstNonEmpty (so_kairos_version (bo_source opts)) (bo_kairos_version opts)"

definition want_fips :: "build_options \<Rightarrow> bool" where
  "want_fips opts = (ou_fips (bo_outputs opts) \<or> bo_fips opts)"

definition want_trusted_boot :: "build_options \<Rightarrow> bool" where
  "want_trusted_boot opts = (ou_trusted_boot (bo_outputs opts) \<or> bo_trusted_boot opts)"

definition pre_built :: "build_options \<Rightarrow> bool" where
  "pre_built opts =
     (base_ref opts \<noteq> [] \<and> re_dockerfile (bo_recipe opts) = [] \<and> kairos_version opts = [] \<and> re_init_image (bo_recipe opts) = [])"

definition kairos_init_options :: "build_options \<Rightarrow> string \<Rightarrow> kube_build_options" where
  "kairos_init_options opts base =
     \<lparr>kb_version = (if kairos_version opts = [] then ''latest'' else kairos_version opts), kb_base_image = base,
      kb_model = firstNonEmpty (so_model (bo_source opts)) (bo_model opts), kb_trusted_boot = want_trusted_boot opts,
      kb_distro = firstNonEmpty (so_distro (bo_source opts)) (bo_kubernetes_distro opts),
      kb_kubernetes_version = firstNonEmpty (so_kubernetes_version (bo_source opts)) (bo_kubernetes_version opts),
      kb_fips = want_fips opts, kb_init_image = re_init_image (bo_recipe opts)\<rparr>"

definition dockerfile_ref :: "string \<Rightarrow> secret_ref" where
  "dockerfile_ref i = \<lparr>sr_name = dockerfileSecretName i, sr_key = dockerfileSecretKey\<rparr>"

definition image_of_build :: "string \<Rightarrow> build_options \<Rightarrow> image_spec" where
  "image_of_build i opts =
     (if pre_built opts then \<lparr>is_ref = base_ref opts, is_build = None, is_oci = None\<rparr>
      else if isHadronBuild opts
      then \<lparr>is_ref = [], is_build = Some (kairos_init_options opts (re_hadron_base (bo_recipe opts))), is_oci = Some (dockerfile_ref i)\<rparr>
      else if re_dockerfile (bo_recipe opts) \<noteq> [] then \<lparr>is_ref = [], is_build = None, is_oci = Some (dockerfile_ref i)\<rparr>
      else \<lparr>is_ref = [], is_build = Some (kairos_init_options opts (base_ref opts)), is_oci = None\<rparr>)"

definition outputs_of_build :: "string \<Rightarrow> build_options \<Rightarrow> artifact_spec" where
  "outputs_of_build i opts =
     (let o' = bo_outputs opts in
      \<lparr>as_arch = so_arch (bo_source opts), as_iso = (ou_iso o' \<or> bo_iso opts),
       as_cloud_image = (ou_cloud_image o' \<or> ou_raw_disk o' \<or> bo_cloud_image opts),
       as_netboot = (ou_netboot o' \<or> bo_netboot opts), as_gce = ou_gce o', as_azure = ou_vhd o',
       as_uki = (if ou_uki o' then Some True else None),
       as_cloud_config = (if bo_cloud_config opts \<noteq> []
         then Some \<lparr>sr_name = cloudConfigSecretName i, sr_key = cloudConfigSecretKey\<rparr> else None)\<rparr>)"

definition translateBuildOptions :: "string \<Rightarrow> build_options \<Rightarrow> build_error + artifact_spec_cr" where
  "translateBuildOptions i opts =
     (if so_arch (bo_source opts) \<notin> {[], ''amd64'', ''arm64''}
      then Inl (InvalidBuildOptions (''source.arch must be 'amd64' or 'arm64', got '' @ quoted (so_arch (bo_source opts))))
      else if pre_built opts \<and> want_fips opts
      then Inl (InvalidBuildOptions ''outputs.fips requires a from-scratch build, not a pre-built base image'')
      else if pre_built opts \<and> want_trusted_boot opts
      then Inl (InvalidBuildOptions ''outputs.trustedBoot requires a from-scratch build, not a pre-built base image'')
      else Inr \<lparr>sp_image = image_of_build i opts, sp_artifacts = outputs_of_build i opts, sp_exporters = []\<rparr>)"

end
