(* ===== verification/Operator_Builder.thy ===== *)
theory Operator_Builder
  imports Operator_Translate Artifact_Handlers
begin

text \<open>
  The operator backend (\<^verbatim>\<open>internal/builder/operator/builder.go\<close>): a build is an OSArtifact
  resource that a controller in the cluster works on. \<^verbatim>\<open>Build\<close> submits it with its Secrets and
  starts a goroutine that copies the phase of the resource into the artifact table, \<open>watch_step\<close>;
  \<^verbatim>\<open>Status\<close>, \<^verbatim>\<open>List\<close> and \<^verbatim>\<open>Cancel\<close> talk to the cluster directly. The API server is the
  parameter \<open>kube\<close> over an abstract state of the cluster; what it promises is the locale
  \<open>kube_server\<close>, which a cluster kept in lists meets.
\<close>

section \<open>The API server\<close>

datatype kube_error = KubeNotFound string | KubeFailed string

datatype cr_phase = PhaseUnset | PhasePending | PhaseBuilding | PhaseExporting | PhaseReady | PhaseError | PhaseOther string

record cluster_artifact =
  ca_name :: string
  ca_namespace :: string
  ca_labels :: "(string \<times> string) list"
  ca_spec :: artifact_spec_cr
  ca_uid :: string
  ca_phase :: cr_phase
  ca_message :: string

text \<open>
  The calls of the client. Creating a resource returns the UID that the server gave it, which
  owner references carry; \<open>ku_own\<close> is \<^verbatim>\<open>SetOwnerReference\<close>, which may fail.
\<close>

record 'k kube =
  ku_create :: "cluster_artifact \<Rightarrow> 'k \<Rightarrow> (kube_error + string) \<times> 'k"
  ku_get :: "string \<Rightarrow> string \<Rightarrow> 'k \<Rightarrow> kube_error + cluster_artifact"
  ku_list :: "string \<Rightarrow> string \<Rightarrow> 'k \<Rightarrow> kube_error + cluster_artifact list"
  ku_delete :: "string \<Rightarrow> string \<Rightarrow> 'k \<Rightarrow> kube_error option \<times> 'k"
  ku_own :: "string \<Rightarrow> kube_secret \<Rightarrow> string option"
  ku_create_secret :: "kube_secret \<Rightarrow> string \<Rightarrow> 'k \<Rightarrow> kube_error option \<times> 'k"

fun kube_text :: "kube_error \<Rightarrow> string" where
  "kube_text (KubeNotFound e) = e"
| "kube_text (KubeFailed e) = e"

section \<open>The backend\<close>

record 'k operator_env =
  oe_kube :: "'k kube"
  oe_namespace :: string
  oe_url :: string
  oe_store :: "artifact engine option"
  oe_uuid :: string

text \<open>
  A context is a number; \<open>oh_dead\<close> holds the cancelled ones. The map of active builds leads to
  the context that the goroutines of a build share.
\<close>

record 'k operator_host =
  oh_kube :: 'k
  oh_rows :: artifacts
  oh_active :: "(string \<times> nat) list"
  oh_dead :: "nat list"
  oh_next :: nat

datatype watch_pc = WatchTop | WatchPoll | WatchWrite build_status | WatchClear | WatchCancel | WatchWait | WatchDone

record watcher =
  wa_id :: string
  wa_ctx :: nat
  wa_pc :: watch_pc
  wa_phase :: string
  wa_message :: string

definition statusFromArtifact :: "cluster_artifact \<Rightarrow> build_status" where
  "statusFromArtifact art =
     \<lparr>bd_id = ca_name art,
      bd_phase = (case ca_phase art of
          PhaseUnset \<Rightarrow> BuildPending | PhasePending \<Rightarrow> BuildPending
        | PhaseBuilding \<Rightarrow> BuildBuilding | PhaseExporting \<Rightarrow> BuildBuilding
        | PhaseReady \<Rightarrow> BuildReady | PhaseError \<Rightarrow> BuildError | PhaseOther _ \<Rightarrow> BuildPending),
      bd_message = ca_message art, bd_artifacts = []\<rparr>"

section \<open>Submitting a build\<close>

text \<open>The Secrets, in turn; the first failure ends the loop.\<close>

fun create_secrets :: "'k kube \<Rightarrow> string \<Rightarrow> kube_secret list \<Rightarrow> 'k \<Rightarrow> build_error option \<times> 'k" where
  "create_secrets ku uid [] k = (None, k)"
| "create_secrets ku uid (s # ss) k =
     (case ku_own ku uid s of
        Some e \<Rightarrow> (Some (BuildFailed (''set owner on secret '' @ quoted (se_name s) @ '': '' @ e)), k)
      | None \<Rightarrow>
          (case ku_create_secret ku s uid k of
             (Some e, k1) \<Rightarrow> (Some (BuildFailed (''create secret '' @ quoted (se_name s) @ '': '' @ kube_text e)), k1)
           | (None, k1) \<Rightarrow> create_secrets ku uid ss k1))"

definition createSecrets :: "'k operator_env \<Rightarrow> string \<Rightarrow> string \<Rightarrow> build_options \<Rightarrow> 'k \<Rightarrow> build_error option \<times> 'k" where
  "createSecrets e uid i opts k =
     create_secrets (oe_kube e) uid (materializeSecrets i (oe_namespace e) (oe_url e) opts) k"

definition submitted_spec :: "'k operator_env \<Rightarrow> string \<Rightarrow> build_options \<Rightarrow> artifact_spec_cr \<Rightarrow> artifact_spec_cr" where
  "submitted_spec e i opts spec =
     (if oe_url e \<noteq> [] \<and> bo_upload_token opts \<noteq> [] then spec\<lparr>sp_exporters := sp_exporters spec @ [uploadExporter i]\<rparr> else spec)"

definition cluster_artifact_of :: "'k operator_env \<Rightarrow> string \<Rightarrow> artifact_spec_cr \<Rightarrow> cluster_artifact" where
  "cluster_artifact_of e i spec =
     \<lparr>ca_name = i, ca_namespace = oe_namespace e, ca_labels = [(buildIDLabel, i)], ca_spec = spec,
      ca_uid = [], ca_phase = PhaseUnset, ca_message = []\<rparr>"

text \<open>The goroutine that watches; without a store it returns at once.\<close>

definition new_watcher :: "'k operator_env \<Rightarrow> string \<Rightarrow> nat \<Rightarrow> watcher" where
  "new_watcher e i ctx =
     \<lparr>wa_id = i, wa_ctx = ctx, wa_pc = (if oe_store e = None then WatchDone else WatchTop), wa_phase = [], wa_message = []\<rparr>"

definition OperatorBuild ::
  "'k operator_env \<Rightarrow> build_options \<Rightarrow> 'k operator_host \<Rightarrow> (build_error + build_status) \<times> 'k operator_host \<times> watcher option" where
  "OperatorBuild e opts h =
     (let i = (if bo_id opts = [] then oe_uuid e else bo_id opts) in
      case translateBuildOptions i opts of
        Inl err \<Rightarrow> (Inl err, h, None)
      | Inr spec \<Rightarrow>
          (case ku_create (oe_kube e) (cluster_artifact_of e i (submitted_spec e i opts spec)) (oh_kube h) of
             (Inl err, k) \<Rightarrow> (Inl (BuildFailed (''create OSArtifact '' @ quoted i @ '': '' @ kube_text err)), h\<lparr>oh_kube := k\<rparr>, None)
           | (Inr uid, k) \<Rightarrow>
               (case createSecrets e uid i opts k of
                  (Some err, k1) \<Rightarrow>
                    (Inl err, h\<lparr>oh_kube := snd (ku_delete (oe_kube e) (oe_namespace e) i k1)\<rparr>, None)
                | (None, k1) \<Rightarrow>
                    (Inr \<lparr>bd_id = i, bd_phase = BuildPending, bd_message = [], bd_artifacts = []\<rparr>,
                     h\<lparr>oh_kube := k1, oh_active := AList.update i (oh_next h) (oh_active h), oh_next := oh_next h + 1\<rparr>,
                     Some (new_watcher e i (oh_next h))))))"

section \<open>Status, list and cancel\<close>

datatype status_error = StatusNotFound string | StatusFailed string

definition OperatorStatus :: "'k operator_env \<Rightarrow> string \<Rightarrow> 'k operator_host \<Rightarrow> status_error + build_status" where
  "OperatorStatus e i h =
     (case ku_get (oe_kube e) (oe_namespace e) i (oh_kube h) of
        Inl (KubeNotFound _) \<Rightarrow> Inl (StatusNotFound i)
      | Inl (KubeFailed err) \<Rightarrow> Inl (StatusFailed (''get OSArtifact '' @ quoted i @ '': '' @ err))
      | Inr art \<Rightarrow> Inr (statusFromArtifact art))"

definition OperatorList :: "'k operator_env \<Rightarrow> 'k operator_host \<Rightarrow> string + build_status list" where
  "OperatorList e h =
     (case ku_list (oe_kube e) (oe_namespace e) buildIDLabel (oh_kube h) of
        Inl err \<Rightarrow> Inl (''list OSArtifacts: '' @ kube_text err)
      | Inr arts \<Rightarrow> Inr (map statusFromArtifact arts))"

definition write_phase :: "'k operator_env \<Rightarrow> string \<Rightarrow> string \<Rightarrow> string \<Rightarrow> 'k operator_host \<Rightarrow> 'k operator_host" where
  "write_phase e i phase message h =
     (case oe_store e of
        None \<Rightarrow> h
      | Some eng \<Rightarrow> h\<lparr>oh_rows := snd (ArtifactUpdatePhaseMessage eng i phase message (oh_rows h))\<rparr>)"

definition clear_token :: "'k operator_env \<Rightarrow> string \<Rightarrow> 'k operator_host \<Rightarrow> 'k operator_host" where
  "clear_token e i h =
     (case oe_store e of
        None \<Rightarrow> h
      | Some eng \<Rightarrow> h\<lparr>oh_rows := snd (ArtifactClearUploadToken eng i (oh_rows h))\<rparr>)"

text \<open>
  Cancelling has three steps between which the goroutines run: the context, the resource, the
  row. \<open>CancelRow\<close> is reached only when the resource was deleted.
\<close>

datatype cancel_pc = CancelIdle | CancelResource | CancelRow | CancelDone "string option"

definition stop_streams :: "string \<Rightarrow> 'k operator_host \<Rightarrow> 'k operator_host" where
  "stop_streams i h =
     (case map_of (oh_active h) i of
        Some ctx \<Rightarrow> h\<lparr>oh_dead := ctx # oh_dead h, oh_active := AList.delete i (oh_active h)\<rparr>
      | None \<Rightarrow> h)"

fun cancel_step :: "'k operator_env \<Rightarrow> string \<Rightarrow> cancel_pc \<times> 'k operator_host \<Rightarrow> cancel_pc \<times> 'k operator_host" where
  "cancel_step e i (CancelIdle, h) = (CancelResource, stop_streams i h)"
| "cancel_step e i (CancelResource, h) =
     (case ku_delete (oe_kube e) (oe_namespace e) i (oh_kube h) of
        (Some (KubeNotFound _), k) \<Rightarrow> (CancelDone None, h\<lparr>oh_kube := k\<rparr>)
      | (Some (KubeFailed err), k) \<Rightarrow> (CancelDone (Some (''delete OSArtifact '' @ quoted i @ '': '' @ err)), h\<lparr>oh_kube := k\<rparr>)
      | (None, k) \<Rightarrow> (CancelRow, h\<lparr>oh_kube := k\<rparr>))"
| "cancel_step e i (CancelRow, h) = (CancelDone None, write_phase e i BuildError ''cancelled'' h)"
| "cancel_step e i (CancelDone r, h) = (CancelDone r, h)"

definition OperatorCancel :: "'k operator_env \<Rightarrow> string \<Rightarrow> 'k operator_host \<Rightarrow> string option \<times> 'k operator_host" where
  "OperatorCancel e i h =
     (case (cancel_step e i ^^ 3) (CancelIdle, h) of
        (CancelDone r, h') \<Rightarrow> (r, h')
      | (_, h') \<Rightarrow> (None, h'))"

section \<open>The watching goroutine\<close>

text \<open>
  Its steps are the places where another goroutine can come between: the look at the context,
  the poll, each write of the row, the cancelling of the shared context, and the wait. A wait
  that ends with the timer although the context is done is followed by the look at the context.
  The calls carry the context: on a cancelled one the client and the database report an error
  and do nothing.
\<close>

definition live :: "watcher \<Rightarrow> 'k operator_host \<Rightarrow> bool" where
  "live w h = (wa_ctx w \<notin> set (oh_dead h))"

definition cancel_shared :: "string \<Rightarrow> 'k operator_host \<Rightarrow> 'k operator_host" where
  "cancel_shared i h = (case map_of (oh_active h) i of Some ctx \<Rightarrow> h\<lparr>oh_dead := ctx # oh_dead h\<rparr> | None \<Rightarrow> h)"

definition terminal_phase :: "string \<Rightarrow> bool" where
  "terminal_phase p = (p = BuildReady \<or> p = BuildError)"

definition after_status :: "build_status \<Rightarrow> watch_pc" where
  "after_status st = (if terminal_phase (bd_phase st) then WatchClear else WatchWait)"

fun watch_at :: "'k operator_env \<Rightarrow> watch_pc \<Rightarrow> watcher \<times> 'k operator_host \<Rightarrow> watcher \<times> 'k operator_host" where
  "watch_at e WatchTop (w, h) = (w\<lparr>wa_pc := (if live w h then WatchPoll else WatchDone)\<rparr>, h)"
| "watch_at e WatchPoll (w, h) =
     (if \<not> live w h then (w\<lparr>wa_pc := WatchWait\<rparr>, h)
      else case ku_get (oe_kube e) (oe_namespace e) (wa_id w) (oh_kube h) of
        Inl (KubeNotFound _) \<Rightarrow> (w\<lparr>wa_pc := WatchCancel\<rparr>, h)
      | Inl (KubeFailed _) \<Rightarrow> (w\<lparr>wa_pc := WatchWait\<rparr>, h)
      | Inr art \<Rightarrow>
          (let st = statusFromArtifact art in
           (w\<lparr>wa_pc := (if bd_phase st \<noteq> wa_phase w \<or> bd_message st \<noteq> wa_message w then WatchWrite st else after_status st)\<rparr>, h)))"
| "watch_at e (WatchWrite st) (w, h) =
     (w\<lparr>wa_pc := after_status st, wa_phase := bd_phase st, wa_message := bd_message st\<rparr>,
      if live w h then write_phase e (wa_id w) (bd_phase st) (bd_message st) h else h)"
| "watch_at e WatchClear (w, h) =
     (w\<lparr>wa_pc := WatchCancel\<rparr>,
      if live w h then clear_token e (wa_id w) h else h)"
| "watch_at e WatchCancel (w, h) = (w\<lparr>wa_pc := WatchDone\<rparr>, cancel_shared (wa_id w) h)"
| "watch_at e WatchWait (w, h) = (w\<lparr>wa_pc := WatchTop\<rparr>, h)"
| "watch_at e WatchDone (w, h) = (w, h)"

definition watch_step :: "'k operator_env \<Rightarrow> watcher \<times> 'k operator_host \<Rightarrow> watcher \<times> 'k operator_host" where
  "watch_step e s = watch_at e (wa_pc (fst s)) s"

section \<open>What the API server promises\<close>

text \<open>
  \<open>objects\<close> are the resources by namespace and name, \<open>secrets\<close> the Secrets with the UID of their
  owner. A create that is refused has created nothing; only \<open>KubeNotFound\<close> says that there is none.
\<close>

locale kube_server =
  fixes ku :: "'k kube"
    and objects :: "'k \<Rightarrow> string \<times> string \<Rightarrow> cluster_artifact option"
    and secrets :: "'k \<Rightarrow> string \<times> string \<Rightarrow> (kube_secret \<times> string) option"
  assumes create_cr: "ku_create ku art k = (r, k') \<Longrightarrow>
      secrets k' = secrets k \<and>
      (case r of Inl _ \<Rightarrow> objects k' = objects k
       | Inr uid \<Rightarrow> objects k (ca_namespace art, ca_name art) = None \<and>
           objects k' = (objects k)((ca_namespace art, ca_name art) \<mapsto> art\<lparr>ca_uid := uid\<rparr>))"
    and get_cr: "ku_get ku ns n k = Inr art \<Longrightarrow> objects k (ns, n) = Some art \<and> ca_name art = n"
    and get_none: "ku_get ku ns n k = Inl (KubeNotFound t) \<Longrightarrow> objects k (ns, n) = None"
    and list_cr: "ku_list ku ns label k = Inr arts \<Longrightarrow>
      set arts = {art. \<exists>n. objects k (ns, n) = Some art \<and> label \<in> fst ` set (ca_labels art)}"
    and delete_cr: "ku_delete ku ns n k = (d, k') \<Longrightarrow>
      (case d of None \<Rightarrow> objects k' = (objects k)((ns, n) := None)
       | Some (KubeNotFound _) \<Rightarrow> objects k (ns, n) = None \<and> objects k' = objects k
       | Some (KubeFailed _) \<Rightarrow> objects k' = objects k)"
    and create_secret: "ku_create_secret ku s uid k = (d, k') \<Longrightarrow>
      objects k' = objects k \<and>
      (case d of None \<Rightarrow> secrets k' = (secrets k)((se_namespace s, se_name s) \<mapsto> (s, uid))
       | Some _ \<Rightarrow> secrets k' = secrets k)"
begin

lemma create_secrets_objects: "create_secrets ku uid ss k = (r, k') \<Longrightarrow> objects k' = objects k"
  by (induction ss arbitrary: k) (auto split: option.splits prod.splits dest!: create_secret)

lemma create_secrets_all:
  "create_secrets ku uid ss k = (None, k') \<Longrightarrow> distinct (map (\<lambda>s. (se_namespace s, se_name s)) ss) \<Longrightarrow>
     secrets k' = (secrets k) ++ map_of (map (\<lambda>s. ((se_namespace s, se_name s), (s, uid))) ss)"
proof (induction ss arbitrary: k)
  case (Cons s ss)
  obtain k1 where k1: "ku_create_secret ku s uid k = (None, k1)" "create_secrets ku uid ss k1 = (None, k')"
    using Cons.prems(1) by (auto split: option.splits prod.splits)
  have "secrets k1 = (secrets k)((se_namespace s, se_name s) \<mapsto> (s, uid))" using create_secret [OF k1(1)] by simp
  moreover have "map_of (map (\<lambda>s. ((se_namespace s, se_name s), (s, uid))) ss) (se_namespace s, se_name s) = None"
    using Cons.prems(2) by (force simp: map_of_eq_None_iff)
  ultimately show ?case
    using Cons.IH [OF k1(2)] Cons.prems(2) by (auto simp: fun_eq_iff map_add_def split: option.splits)
qed simp

text \<open>A build that is refused after its resource was created has withdrawn it, unless that fails too.\<close>

lemma withdrawn:
  assumes "ku_create ku art k = (Inr uid, k1)" and "create_secrets ku uid ss k1 = (r, k2)"
    and "ku_delete ku (ca_namespace art) (ca_name art) k2 = (d, k3)"
  shows "objects k3 = objects k \<or> (\<exists>t. d = Some (KubeFailed t))"
proof -
  have "objects k (ca_namespace art, ca_name art) = None"
    "objects k2 = (objects k)((ca_namespace art, ca_name art) \<mapsto> art\<lparr>ca_uid := uid\<rparr>)"
    using create_cr [OF assms(1)] create_secrets_objects [OF assms(2)] by simp_all
  then show ?thesis using delete_cr [OF assms(3)] by (cases d rule: option.exhaust) (auto split: kube_error.splits)
qed

end

text \<open>A cluster kept in lists; it refuses some Secrets, and may be down for reads and deletes.\<close>

record list_cluster =
  lc_objects :: "cluster_artifact list"
  lc_secrets :: "((string \<times> string) \<times> kube_secret \<times> string) list"
  lc_refused :: "string list"
  lc_down :: bool

definition list_object :: "list_cluster \<Rightarrow> string \<times> string \<Rightarrow> cluster_artifact option" where
  "list_object k p = find (\<lambda>a. (ca_namespace a, ca_name a) = p) (lc_objects k)"

definition list_secret :: "list_cluster \<Rightarrow> string \<times> string \<Rightarrow> (kube_secret \<times> string) option" where
  "list_secret k = map_of (lc_secrets k)"

definition list_kube :: "list_cluster kube" where
  "list_kube =
     \<lparr>ku_create = (\<lambda>art k. if list_object k (ca_namespace art, ca_name art) \<noteq> None then (Inl (KubeFailed ''already exists''), k)
        else (Inr (ca_name art @ ''-uid''), k\<lparr>lc_objects := lc_objects k @ [art\<lparr>ca_uid := ca_name art @ ''-uid''\<rparr>]\<rparr>)),
      ku_get = (\<lambda>ns n k. if lc_down k then Inl (KubeFailed ''timeout'')
        else case list_object k (ns, n) of None \<Rightarrow> Inl (KubeNotFound ''not found'') | Some a \<Rightarrow> Inr a),
      ku_list = (\<lambda>ns label k. Inr (filter (\<lambda>a. label \<in> fst ` set (ca_labels a) \<and> list_object k (ns, ca_name a) = Some a) (lc_objects k))),
      ku_delete = (\<lambda>ns n k. if lc_down k then (Some (KubeFailed ''timeout''), k)
        else if list_object k (ns, n) = None then (Some (KubeNotFound ''not found''), k)
        else (None, k\<lparr>lc_objects := filter (\<lambda>a. (ca_namespace a, ca_name a) \<noteq> (ns, n)) (lc_objects k)\<rparr>)),
      ku_own = (\<lambda>_ _. None),
      ku_create_secret = (\<lambda>s uid k. if se_name s \<in> set (lc_refused k) then (Some (KubeFailed ''quota exceeded''), k)
        else (None, k\<lparr>lc_secrets := ((se_namespace s, se_name s), s, uid) # lc_secrets k\<rparr>))\<rparr>"

lemma find_append: "find P (xs @ ys) = (case find P xs of None \<Rightarrow> find P ys | Some x \<Rightarrow> Some x)"
  by (induction xs) auto

lemma find_filter_key:
  "find (\<lambda>a. f a = x \<and> g a = y) (filter (\<lambda>a. f a = u \<longrightarrow> g a \<noteq> v) xs) =
     (if x = u \<and> y = v then None else find (\<lambda>a. f a = x \<and> g a = y) xs)"
  by (induction xs) auto

lemma list_object_key: "list_object k (ns, n) = Some a \<Longrightarrow> a \<in> set (lc_objects k) \<and> ca_name a = n"
  by (auto simp: list_object_def find_Some_iff)

interpretation list_server: kube_server list_kube list_object list_secret
proof
  show "ku_get list_kube ns n k = Inr art \<Longrightarrow> list_object k (ns, n) = Some art \<and> ca_name art = n" for ns n k art
    by (auto simp: list_kube_def split: if_splits option.splits dest: list_object_key)
  show "ku_list list_kube ns label k = Inr arts \<Longrightarrow>
      set arts = {art. \<exists>n. list_object k (ns, n) = Some art \<and> label \<in> fst ` set (ca_labels art)}" for ns label k arts
  proof -
    assume "ku_list list_kube ns label k = Inr arts"
    then have "arts = filter (\<lambda>a. label \<in> fst ` set (ca_labels a) \<and> list_object k (ns, ca_name a) = Some a) (lc_objects k)"
      by (simp add: list_kube_def)
    then show ?thesis using list_object_key [of k ns] by (simp add: set_eq_iff) metis
  qed
qed (auto simp: list_kube_def list_object_def list_secret_def find_append find_filter_key fun_eq_iff
    split: if_splits option.splits)

end
