(* ===== verification/Operator_Outcomes.thy ===== *)
theory Operator_Outcomes
  imports Operator_Builder
begin

text \<open>
  What the operator backend guarantees: a submitted resource refers to Secrets that exist and hold
  what the request said, a refused build leaves nothing behind, and over every interleaving of the
  watching goroutine with cancellations, the controller of the cluster and the other writers
  of the artifact table, a finished build is published and a cancelled one stays cancelled.
\<close>

section \<open>A second backend of the artifact handlers\<close>

definition operator_backend :: "'k operator_env \<Rightarrow> ('k operator_host \<times> watcher list) build_backend" where
  "operator_backend e =
     \<lparr>be_Build = (\<lambda>opts t (h, ws). let (r, h', w) = OperatorBuild e opts (h\<lparr>oh_rows := t\<rparr>) in
        (r, oh_rows h', h', ws @ (case w of None \<Rightarrow> [] | Some x \<Rightarrow> [x]))),
      be_Status = (\<lambda>i t (h, ws). case OperatorStatus e i (h\<lparr>oh_rows := t\<rparr>) of
          Inl (StatusNotFound j) \<Rightarrow> Inl (BuildFailed (''operator builder: build not found: '' @ quoted j))
        | Inl (StatusFailed err) \<Rightarrow> Inl (BuildFailed err)
        | Inr st \<Rightarrow> Inr st),
      be_List = (\<lambda>t (h, ws). map_sum BuildFailed id (OperatorList e (h\<lparr>oh_rows := t\<rparr>))),
      be_Cancel = (\<lambda>i t (h, ws). let (r, h') = OperatorCancel e i (h\<lparr>oh_rows := t\<rparr>) in
        (map_option BuildFailed r, oh_rows h', h', ws))\<rparr>"

lemma write_phase_rows:
  assumes "oe_store e = Some eng" and "artifact_engine eng" and "distinct (map ar_id (oh_rows h))"
  shows "phase_only i (oh_rows h) (oh_rows (write_phase e i phase message h))"
proof -
  let ?f = "\<lambda>r. r\<lparr>ar_phase := phase, ar_message := message\<rparr>"
  obtain out t' where u: "update_columns eng ?f i (oh_rows h) = (out, t')" by fastforce
  have d: "distinct (map ar_id t')"
    using artifact_engine.step_distinct [OF assms(2), of "OpPhaseMessage i phase message" "oh_rows h" out t'] u assms(3)
    by (simp add: ArtifactUpdatePhaseMessage_def)
  show ?thesis
    using artifact_engine.update_columns_map [OF assms(2) u assms(3)] d u assms(1)
    by (cases "row_map ar_id (oh_rows h) i")
      (auto simp: phase_only_def write_phase_def ArtifactUpdatePhaseMessage_def fun_eq_iff split: if_splits)
qed

lemma stop_streams_same [simp]:
  "oh_rows (stop_streams i h) = oh_rows h" "oh_kube (stop_streams i h) = oh_kube h"
  by (simp_all add: stop_streams_def split: option.splits)

lemma operator_backendI:
  assumes "oe_store e = Some eng" and "artifact_engine eng"
  shows "artifact_backend (operator_backend e)"
proof
  fix i t b r t' b'
  assume c: "be_Cancel (operator_backend e) i t b = (r, t', b')" and d: "distinct (map ar_id t)"
  have same: "phase_only i t t" using d by (auto simp: phase_only_def)
  obtain h ws where b: "b = (h, ws)" by fastforce
  let ?h = "stop_streams i (h\<lparr>oh_rows := t\<rparr>)"
  obtain q k where del: "ku_delete (oe_kube e) (oe_namespace e) i (oh_kube h) = (q, k)" by fastforce
  have w: "phase_only i t (oh_rows (write_phase e i BuildError ''cancelled'' (?h\<lparr>oh_kube := k\<rparr>)))"
    using write_phase_rows [OF assms, of "?h\<lparr>oh_kube := k\<rparr>"] d by simp
  show "phase_only i t t'"
    using c w same del
    by (auto simp: b operator_backend_def OperatorCancel_def numeral_3_eq_3 Let_def split: option.splits kube_error.splits)
qed

interpretation operator_builds: artifact_backend "operator_backend (e\<lparr>oe_store := Some (mem_engine ar_id artifact_clash)\<rparr>)"
  for e
  by (rule operator_backendI [OF _ artifact_engine_of [OF mem_sql]]) simp

section \<open>Interleavings\<close>

text \<open>
  A step of the watcher or of a cancellation, a new cancellation, a change of the cluster by its
  controllers, the end of the log streamer (which waits for the context), and a write of the
  artifact table by others.
\<close>

datatype 'k op_event = Watches | Cancels | Recancels | Moves 'k | StreamEnds | Stores artifact_op

record 'k op_state =
  os_watcher :: watcher
  os_cancel :: cancel_pc
  os_host :: "'k operator_host"

fun op_step :: "'k operator_env \<Rightarrow> string \<Rightarrow> 'k op_event \<Rightarrow> 'k op_state \<Rightarrow> 'k op_state" where
  "op_step e i Watches s = (let (w, h) = watch_step e (os_watcher s, os_host s) in s\<lparr>os_watcher := w, os_host := h\<rparr>)"
| "op_step e i Cancels s = (let (c, h) = cancel_step e i (os_cancel s, os_host s) in s\<lparr>os_cancel := c, os_host := h\<rparr>)"
| "op_step e i Recancels s = (case os_cancel s of CancelDone _ \<Rightarrow> s\<lparr>os_cancel := CancelIdle\<rparr> | _ \<Rightarrow> s)"
| "op_step e i (Moves k) s = s\<lparr>os_host := (os_host s)\<lparr>oh_kube := k\<rparr>\<rparr>"
| "op_step e i StreamEnds s =
     (if live (os_watcher s) (os_host s) then s
      else s\<lparr>os_host := (os_host s)\<lparr>oh_active := AList.delete i (oh_active (os_host s))\<rparr>\<rparr>)"
| "op_step e i (Stores op) s =
     (case oe_store e of
        None \<Rightarrow> s
      | Some eng \<Rightarrow> s\<lparr>os_host := (os_host s)\<lparr>oh_rows := snd (artifact_step eng op (oh_rows (os_host s)))\<rparr>\<rparr>)"

definition op_run :: "'k operator_env \<Rightarrow> string \<Rightarrow> 'k op_event list \<Rightarrow> 'k op_state \<Rightarrow> 'k op_state" where
  "op_run e i evs s = fold (op_step e i) evs s"

lemma op_run_simps [simp]:
  "op_run e i [] s = s" "op_run e i (ev # evs) s = op_run e i evs (op_step e i ev s)"
  "op_run e i (evs @ evs') s = op_run e i evs' (op_run e i evs s)"
  by (simp_all add: op_run_def)

text \<open>Phase, message and upload token of the row.\<close>

definition shown :: "string \<Rightarrow> artifacts \<Rightarrow> (string \<times> string \<times> string) option" where
  "shown i t = map_option (\<lambda>r. (ar_phase r, ar_message r, ar_upload_token r)) (row_map ar_id t i)"

abbreviation os_shown :: "string \<Rightarrow> 'k op_state \<Rightarrow> (string \<times> string \<times> string) option" where
  "os_shown i s \<equiv> shown i (oh_rows (os_host s))"




text \<open>A condition on every event, in the state it meets.\<close>

fun along :: "('k op_state \<Rightarrow> 'k op_event \<Rightarrow> bool) \<Rightarrow> 'k operator_env \<Rightarrow> string \<Rightarrow> 'k op_event list \<Rightarrow> 'k op_state \<Rightarrow> bool" where
  "along ok e i [] s = True"
| "along ok e i (ev # evs) s = (ok s ev \<and> along ok e i evs (op_step e i ev s))"

lemma along_append [simp]: "along ok e i (evs @ evs') s \<longleftrightarrow> along ok e i evs s \<and> along ok e i evs' (op_run e i evs s)"
  by (induction evs arbitrary: s) simp_all






text \<open>What the parts of the host keep.\<close>

lemma host_parts [simp]:
  "oh_kube (write_phase e i p m h) = oh_kube h" "oh_active (write_phase e i p m h) = oh_active h" "oh_dead (write_phase e i p m h) = oh_dead h"
  "oh_kube (clear_token e i h) = oh_kube h" "oh_active (clear_token e i h) = oh_active h" "oh_dead (clear_token e i h) = oh_dead h"
  "oh_kube (cancel_shared i h) = oh_kube h" "oh_active (cancel_shared i h) = oh_active h" "oh_rows (cancel_shared i h) = oh_rows h"
  by (simp_all add: write_phase_def clear_token_def cancel_shared_def split: option.splits)

section \<open>A cancelled build stays cancelled\<close>

text \<open>The watcher of a build finds its context in the map of active builds until it is cancelled.\<close>

definition watched :: "string \<Rightarrow> 'k op_state \<Rightarrow> bool" where
  "watched i s \<longleftrightarrow> wa_id (os_watcher s) = i \<and>
     (live (os_watcher s) (os_host s) \<longrightarrow> map_of (oh_active (os_host s)) i = Some (wa_ctx (os_watcher s)))"















definition started :: "watcher \<Rightarrow> 'k operator_host \<Rightarrow> 'k op_state" where
  "started w h = \<lparr>os_watcher = w, os_cancel = CancelIdle, os_host = h\<rparr>"



section \<open>A finished build is published\<close>

















section \<open>References\<close>

text \<open>What the controller reads for a reference: the entry of the Secret.\<close>

definition secret_value :: "('k \<Rightarrow> string \<times> string \<Rightarrow> (kube_secret \<times> string) option) \<Rightarrow> string \<Rightarrow> 'k \<Rightarrow> secret_ref \<Rightarrow> string option" where
  "secret_value secrets ns k ref =
     (case secrets k (ns, sr_name ref) of None \<Rightarrow> None | Some (s, owner) \<Rightarrow> map_of (se_data s) (sr_key ref))"

lemma secret_names_distinct:
  "distinct (map (\<lambda>s. (se_namespace s, se_name s)) (materializeSecrets i ns url opts))"
  by (simp add: materializeSecrets_def Let_def cloudConfigSecretName_def dockerfileSecretName_def uploadSecretName_def)

definition secret_map :: "string \<Rightarrow> string \<Rightarrow> string \<Rightarrow> string \<Rightarrow> build_options \<Rightarrow> string \<times> string \<Rightarrow> (kube_secret \<times> string) option" where
  "secret_map uid i ns url opts = map_of (map (\<lambda>s. ((se_namespace s, se_name s), (s, uid))) (materializeSecrets i ns url opts))"

lemma materialized:
  "bo_cloud_config opts \<noteq> [] \<Longrightarrow>
     \<exists>s. secret_map uid i ns url opts (ns, cloudConfigSecretName i) = Some (s, uid) \<and> se_data s = [(cloudConfigSecretKey, bo_cloud_config opts)]"
  "re_dockerfile (bo_recipe opts) \<noteq> [] \<Longrightarrow>
     \<exists>s. secret_map uid i ns url opts (ns, dockerfileSecretName i) = Some (s, uid) \<and>
       se_data s = [(dockerfileSecretKey, re_dockerfile (bo_recipe opts))]"
  "url \<noteq> [] \<Longrightarrow> bo_upload_token opts \<noteq> [] \<Longrightarrow>
     \<exists>s. secret_map uid i ns url opts (ns, uploadSecretName i) = Some (s, uid) \<and>
       se_data s = [(uploadURLKey, url), (uploadTokenKey, bo_upload_token opts)]"
  "secret_map uid i ns url opts p = Some x \<Longrightarrow> snd x = uid"
proof -
  note names = cloudConfigSecretName_def dockerfileSecretName_def uploadSecretName_def
  show "bo_cloud_config opts \<noteq> [] \<Longrightarrow>
      \<exists>s. secret_map uid i ns url opts (ns, cloudConfigSecretName i) = Some (s, uid) \<and> se_data s = [(cloudConfigSecretKey, bo_cloud_config opts)]"
    by (simp add: secret_map_def materializeSecrets_def Let_def)
  show "re_dockerfile (bo_recipe opts) \<noteq> [] \<Longrightarrow>
      \<exists>s. secret_map uid i ns url opts (ns, dockerfileSecretName i) = Some (s, uid) \<and>
        se_data s = [(dockerfileSecretKey, re_dockerfile (bo_recipe opts))]"
    by (simp add: secret_map_def materializeSecrets_def Let_def names)
  show "url \<noteq> [] \<Longrightarrow> bo_upload_token opts \<noteq> [] \<Longrightarrow>
      \<exists>s. secret_map uid i ns url opts (ns, uploadSecretName i) = Some (s, uid) \<and>
        se_data s = [(uploadURLKey, url), (uploadTokenKey, bo_upload_token opts)]"
    by (simp add: secret_map_def materializeSecrets_def Let_def names)
  show "secret_map uid i ns url opts p = Some x \<Longrightarrow> snd x = uid"
    by (auto simp: secret_map_def dest!: map_of_SomeD)
qed

lemma oci_ref:
  "is_oci (image_of_build i opts) = (if re_dockerfile (bo_recipe opts) = [] then None else Some (dockerfile_ref i))"
  by (simp add: image_of_build_def pre_built_def isHadronBuild_def)

section \<open>Properties\<close>




text \<open>
  C36. A refused build leaves nothing behind: when \<^verbatim>\<open>Build\<close> returns an error, no goroutine was
  started, the table and the active builds are as before, and so are the resources of
  the cluster unless the server failed to delete the one just created; the error is one of
  invalid options exactly when the translation refused them, and then the cluster was not asked.
\<close>
theorem refused_build_leaves_nothing:
  assumes "kube_server (oe_kube e) objects secrets" and "OperatorBuild e opts h = (Inl err, h', w)"
  shows "w = None \<and> h' = h\<lparr>oh_kube := oh_kube h'\<rparr> \<and>
    (objects (oh_kube h') = objects (oh_kube h) \<or>
     (\<exists>i k t. ku_delete (oe_kube e) (oe_namespace e) i k = (Some (KubeFailed t), oh_kube h'))) \<and>
    ((\<exists>msg. err = InvalidBuildOptions msg) \<longleftrightarrow> isl (translateBuildOptions (if bo_id opts = [] then oe_uuid e else bo_id opts) opts)) \<and>
    ((\<exists>msg. err = InvalidBuildOptions msg) \<longrightarrow> h' = h)"
proof -
  let ?i = "if bo_id opts = [] then oe_uuid e else bo_id opts"
  have invalid: "translateBuildOptions ?i opts = Inl e' \<Longrightarrow> \<exists>msg. e' = InvalidBuildOptions msg" for e'
    by (auto simp: translateBuildOptions_def split: if_splits)
  have secret_failed: "create_secrets ku uid ss k = (Some e', k') \<Longrightarrow> \<exists>msg. e' = BuildFailed msg" for ku :: "'a kube" and uid ss k e' k'
    by (induction ss arbitrary: k) (auto split: option.splits prod.splits)
  consider (spec) "translateBuildOptions ?i opts = Inl err" "h' = h" "w = None"
    | (create) spec k t where "translateBuildOptions ?i opts = Inr spec"
        "ku_create (oe_kube e) (cluster_artifact_of e ?i (submitted_spec e ?i opts spec)) (oh_kube h) = (Inl t, k)"
        "err = BuildFailed (''create OSArtifact '' @ quoted ?i @ '': '' @ kube_text t)" "h' = h\<lparr>oh_kube := k\<rparr>" "w = None"
    | (secret) spec uid k k1 where "translateBuildOptions ?i opts = Inr spec"
        "ku_create (oe_kube e) (cluster_artifact_of e ?i (submitted_spec e ?i opts spec)) (oh_kube h) = (Inr uid, k)"
        "create_secrets (oe_kube e) uid (materializeSecrets ?i (oe_namespace e) (oe_url e) opts) k = (Some err, k1)"
        "h' = h\<lparr>oh_kube := snd (ku_delete (oe_kube e) (oe_namespace e) ?i k1)\<rparr>" "w = None"
    using assms(2) unfolding OperatorBuild_def Let_def createSecrets_def
    by (auto split: sum.splits prod.splits option.splits)
  then show ?thesis
  proof cases
    case spec
    then show ?thesis using invalid by auto
  next
    case create
    then show ?thesis using kube_server.create_cr [OF assms(1) create(2)] by auto
  next
    case secret
    let ?d = "fst (ku_delete (oe_kube e) (oe_namespace e) ?i k1)"
    have d: "ku_delete (oe_kube e) (oe_namespace e) ?i k1 = (?d, oh_kube h')" using secret(4) by simp
    have "objects (oh_kube h') = objects (oh_kube h) \<or> (\<exists>t. ?d = Some (KubeFailed t))"
      using kube_server.withdrawn [OF assms(1) secret(2,3)] d by (auto simp: cluster_artifact_of_def)
    moreover have "(\<exists>t. ?d = Some (KubeFailed t)) \<Longrightarrow> \<exists>i k t. ku_delete (oe_kube e) (oe_namespace e) i k = (Some (KubeFailed t), oh_kube h')"
      using d by metis
    moreover obtain msg where "err = BuildFailed msg" using secret_failed [OF secret(3)] by blast
    moreover have "h' = h\<lparr>oh_kube := oh_kube h'\<rparr>" using secret(4) by simp
    ultimately show ?thesis using secret(1,5) by (metis build_error.distinct(3) sum.disc(2))
  qed
qed


text \<open>
  C37. Every reference of a submitted build resolves: the resource of an accepted build is in the
  cluster, the image and the cloud-config name a Secret exactly when the request has a Dockerfile
  and a cloud-config, and the entry they name holds that text; the exporter is there exactly
  when there are a URL and a token, and its Secret holds them; and all Secrets that were
  written are owned by the resource, so that they go away with it.
\<close>
theorem submitted_references_resolve:
  assumes "kube_server (oe_kube e) objects secrets" and "OperatorBuild e opts h = (Inr st, h', w)"
    and "value = secret_value secrets (oe_namespace e) (oh_kube h')"
  shows "\<exists>art. objects (oh_kube h') (oe_namespace e, bd_id st) = Some art \<and>
    map_option value (is_oci (sp_image (ca_spec art))) =
      (if re_dockerfile (bo_recipe opts) = [] then None else Some (Some (re_dockerfile (bo_recipe opts)))) \<and>
    map_option value (as_cloud_config (sp_artifacts (ca_spec art))) =
      (if bo_cloud_config opts = [] then None else Some (Some (bo_cloud_config opts))) \<and>
    concat (map ej_env_from (sp_exporters (ca_spec art))) =
      (if oe_url e = [] \<or> bo_upload_token opts = [] then [] else [uploadSecretName (bd_id st)]) \<and>
    list_all (\<lambda>n. \<exists>s. secrets (oh_kube h') (oe_namespace e, n) = Some (s, ca_uid art) \<and>
        se_data s = [(uploadURLKey, oe_url e), (uploadTokenKey, bo_upload_token opts)]) (concat (map ej_env_from (sp_exporters (ca_spec art)))) \<and>
    {p. secrets (oh_kube h') p \<noteq> secrets (oh_kube h) p} \<subseteq> {p. \<exists>s. secrets (oh_kube h') p = Some (s, ca_uid art)}"
proof -
  define i where "i = (if bo_id opts = [] then oe_uuid e else bo_id opts)"
  let ?ns = "oe_namespace e"
  obtain spec uid k k1 where b: "translateBuildOptions i opts = Inr spec"
    "ku_create (oe_kube e) (cluster_artifact_of e i (submitted_spec e i opts spec)) (oh_kube h) = (Inr uid, k)"
    "create_secrets (oe_kube e) uid (materializeSecrets i ?ns (oe_url e) opts) k = (None, k1)"
    "oh_kube h' = k1" "bd_id st = i"
    using assms(2) unfolding OperatorBuild_def Let_def createSecrets_def i_def [symmetric]
    by (auto split: sum.splits prod.splits option.splits)
  let ?art = "(cluster_artifact_of e i (submitted_spec e i opts spec))\<lparr>ca_uid := uid\<rparr>"
  let ?m = "secret_map uid i ?ns (oe_url e) opts"
  note mat = materialized
  have obj: "objects (oh_kube h') (?ns, bd_id st) = Some ?art"
    using kube_server.create_cr [OF assms(1) b(2)] kube_server.create_secrets_objects [OF assms(1) b(3)] b(4,5)
    by (simp add: cluster_artifact_of_def)
  have sec: "secrets (oh_kube h') = secrets (oh_kube h) ++ ?m"
    using kube_server.create_cr [OF assms(1) b(2)] kube_server.create_secrets_all [OF assms(1) b(3) secret_names_distinct] b(4)
    by (simp add: secret_map_def)
  have spec: "sp_image (ca_spec ?art) = image_of_build i opts" "sp_artifacts (ca_spec ?art) = outputs_of_build i opts"
    "sp_exporters (ca_spec ?art) = (if oe_url e \<noteq> [] \<and> bo_upload_token opts \<noteq> [] then [uploadExporter i] else [])"
    using b(1) by (auto simp: translateBuildOptions_def submitted_spec_def cluster_artifact_of_def split: if_splits)
  have val: "value ref = map_of d (sr_key ref)" if "\<exists>s. ?m (?ns, sr_name ref) = Some (s, uid) \<and> se_data s = d" for ref d
    using that assms(3) sec by (auto simp: secret_value_def map_add_def)
  have docker: "map_option value (is_oci (image_of_build i opts)) =
      (if re_dockerfile (bo_recipe opts) = [] then None else Some (Some (re_dockerfile (bo_recipe opts))))"
    using val [of "dockerfile_ref i", simplified dockerfile_ref_def secret_ref.simps, OF mat(2)] by (simp add: oci_ref dockerfile_ref_def)
  have cloud: "map_option value (as_cloud_config (outputs_of_build i opts)) =
      (if bo_cloud_config opts = [] then None else Some (Some (bo_cloud_config opts)))"
    using val [of "\<lparr>sr_name = cloudConfigSecretName i, sr_key = cloudConfigSecretKey\<rparr>", simplified secret_ref.simps, OF mat(1)]
    by (simp add: outputs_of_build_def Let_def)
  have env: "concat (map ej_env_from (sp_exporters (ca_spec ?art))) =
      (if oe_url e = [] \<or> bo_upload_token opts = [] then [] else [uploadSecretName i])"
    unfolding spec(3) by (simp add: uploadExporter_def)
  have upload: "oe_url e \<noteq> [] \<Longrightarrow> bo_upload_token opts \<noteq> [] \<Longrightarrow>
      \<exists>s. secrets (oh_kube h') (?ns, uploadSecretName i) = Some (s, uid) \<and>
        se_data s = [(uploadURLKey, oe_url e), (uploadTokenKey, bo_upload_token opts)]"
    using mat(3) [of "oe_url e" opts uid i ?ns] sec by (auto simp: map_add_def)
  have owned: "{p. secrets (oh_kube h') p \<noteq> secrets (oh_kube h) p} \<subseteq> {p. \<exists>s. secrets (oh_kube h') p = Some (s, uid)}"
    using mat(4) [of uid i ?ns "oe_url e" opts] sec by (auto simp: map_add_def split: option.splits)
  show ?thesis
    by (rule exI [of _ ?art]) (use obj docker cloud env upload owned spec(1,2) b(5) in \<open>simp add: list_all_iff\<close>)
qed


section \<open>Concrete runs\<close>

definition sample_operator :: "list_cluster operator_env" where
  "sample_operator =
     \<lparr>oe_kube = list_kube, oe_namespace = ''builds'', oe_url = ''https://aurora'',
      oe_store = Some (mem_engine ar_id artifact_clash), oe_uuid = ''u1''\<rparr>"

definition sample_cluster :: list_cluster where
  "sample_cluster = \<lparr>lc_objects = [], lc_secrets = [], lc_refused = [], lc_down = False\<rparr>"

definition sample_operator_host :: "list_cluster operator_host" where
  "sample_operator_host = \<lparr>oh_kube = sample_cluster, oh_rows = [], oh_active = [], oh_dead = [], oh_next = 0\<rparr>"

definition sample_operator_request :: build_options where
  "sample_operator_request = sample_build\<lparr>bo_id := ''a1'', bo_upload_token := ''t0k3n'', bo_cloud_config := ''#cloud-config'',
     bo_recipe := (bo_recipe sample_build)\<lparr>re_dockerfile := ''FROM scratch''\<rparr>\<rparr>"

definition sample_phase :: "cr_phase \<Rightarrow> string \<Rightarrow> list_cluster \<Rightarrow> list_cluster" where
  "sample_phase p m k = k\<lparr>lc_objects := map (\<lambda>a. a\<lparr>ca_phase := p, ca_message := m\<rparr>) (lc_objects k)\<rparr>"

definition sample_submitted :: "list_cluster operator_host" where
  "sample_submitted = fst (snd (OperatorBuild sample_operator sample_operator_request sample_operator_host))"

lemma sample_OperatorBuild:
  "OperatorBuild sample_operator sample_operator_request sample_operator_host =
     (Inr (pending_status ''a1''), sample_submitted, Some (new_watcher sample_operator ''a1'' 0))"
proof -
  have "fst (OperatorBuild sample_operator sample_operator_request sample_operator_host) = Inr (pending_status ''a1'')"
    "snd (snd (OperatorBuild sample_operator sample_operator_request sample_operator_host)) = Some (new_watcher sample_operator ''a1'' 0)"
    by code_simp+
  then show ?thesis by (metis prod.collapse sample_submitted_def)
qed


abbreviation sample_watched :: "list_cluster op_state" where
  "sample_watched \<equiv> started (new_watcher sample_operator ''a1'' 0) sample_submitted"

text \<open>The row the handler creates once the build is accepted.\<close>

definition sample_created :: "list_cluster op_event" where
  "sample_created = Stores (OpArtifactCreate (sample_artifact\<lparr>ar_phase := ArtifactPending, ar_upload_token := ''digest''\<rparr>))"

lemma sample_store: "oe_store sample_operator = Some (mem_engine ar_id artifact_clash)" "oe_kube sample_operator = list_kube"
  by (simp_all add: sample_operator_def)








theorem refused_build_leaves_nothing_witness:
  "\<exists>err h'. OperatorBuild sample_operator sample_operator_request (sample_operator_host\<lparr>oh_kube := sample_cluster\<lparr>lc_refused := [''a1-upload'']\<rparr>\<rparr>) = (Inl err, h', None) \<and>
     list_object (oh_kube h') = (\<lambda>_. None)"
proof -
  let ?h = "sample_operator_host\<lparr>oh_kube := sample_cluster\<lparr>lc_refused := [''a1-upload'']\<rparr>\<rparr>"
  let ?b = "OperatorBuild sample_operator sample_operator_request ?h"
  have r: "isl (fst ?b)" "lc_down (oh_kube (fst (snd ?b))) = False" "isl (translateBuildOptions ''a1'' sample_operator_request) = False" by code_simp+
  then obtain err where err: "?b = (Inl err, fst (snd ?b), snd (snd ?b))" by (metis isl_def prod.collapse)
  have up: "ku_delete list_kube ns i k = (Some (KubeFailed t), k') \<Longrightarrow> lc_down k'" for ns i k t k'
    by (auto simp: list_kube_def split: if_splits)
  have "kube_server (oe_kube sample_operator) list_object list_secret" unfolding sample_store(2) by (rule list_server.kube_server_axioms)
  from refused_build_leaves_nothing [OF this err] have "snd (snd ?b) = None"
    "list_object (oh_kube (fst (snd ?b))) = list_object sample_cluster"
    using r(2) up by (auto simp: sample_store(2) sample_cluster_def list_object_def fun_eq_iff)
  moreover have "list_object sample_cluster = (\<lambda>_. None)" by (simp add: list_object_def sample_cluster_def fun_eq_iff)
  ultimately show ?thesis using err by metis
qed

theorem submitted_references_resolve_witness:
  "\<exists>art. list_object (oh_kube sample_submitted) (''builds'', ''a1'') = Some art \<and>
     map_option (secret_value list_secret ''builds'' (oh_kube sample_submitted)) (is_oci (sp_image (ca_spec art))) = Some (Some ''FROM scratch'')"
proof -
  have "kube_server (oe_kube sample_operator) list_object list_secret" unfolding sample_store(2) by (rule list_server.kube_server_axioms)
  from submitted_references_resolve [OF this sample_OperatorBuild refl]
  show ?thesis by (auto simp: sample_operator_def sample_operator_request_def pending_status_def)
qed


section \<open>What the backend does not do\<close>

text \<open>
  A resource that is deleted from outside: the watcher ends without a word to the table, and a later
  cancellation, which finds no resource, does not mark the row either. The row keeps the
  phase it had, and its upload token.
\<close>

lemma deleted_resource_leaves_row:
  assumes "live w h" and "wa_pc w = WatchPoll" and "ku_get (oe_kube e) (oe_namespace e) (wa_id w) (oh_kube h) = Inl (KubeNotFound t)"
    and "ku_delete (oe_kube e) (oe_namespace e) (wa_id w) (oh_kube h) = (Some (KubeNotFound t'), k)"
  shows "\<exists>h' h''. (watch_step e ^^ 2) (w, h) = (w\<lparr>wa_pc := WatchDone\<rparr>, h') \<and>
    OperatorCancel e (wa_id w) h' = (None, h'') \<and> oh_rows h'' = oh_rows h"
proof -
  have "(watch_step e ^^ 2) (w, h) = (w\<lparr>wa_pc := WatchDone\<rparr>, cancel_shared (wa_id w) h)"
    using assms(1-3) by (simp add: numeral_2_eq_2 watch_step_def)
  then show ?thesis using assms(4) by (simp add: OperatorCancel_def numeral_3_eq_3)
qed

text \<open>
  The row is created by the handler after \<^verbatim>\<open>Build\<close> has started the watcher. When the watcher reads a final status before
  that, it writes to a row that is not there and ends; the row that is then created stays Pending, with its token.
\<close>

lemma early_end_leaves_row_pending:
  "map_option (\<lambda>(p, m, tok). (p, tok)) (os_shown ''a1'' (op_run sample_operator ''a1''
     ([Moves (sample_phase PhaseError ''bad spec'' (oh_kube sample_submitted))] @ replicate 5 Watches @ [sample_created] @ replicate 7 Watches)
     sample_watched)) = Some (ArtifactPending, ''digest'')"
  "wa_pc (os_watcher (op_run sample_operator ''a1''
     ([Moves (sample_phase PhaseError ''bad spec'' (oh_kube sample_submitted))] @ replicate 5 Watches) sample_watched)) = WatchDone"
  by code_simp+

text \<open>
  A cancellation whose delete fails has already stopped the watcher: the build goes on in the cluster, and
  its row does not follow it any more.
\<close>

lemma failed_cancel_blinds_the_row:
  assumes "watched i \<lparr>os_watcher = w, os_cancel = c, os_host = h\<rparr>" and "OperatorCancel e i h = (Some err, h')"
  shows "oh_rows h' = oh_rows h \<and> \<not> live w h'"
  using assms
  by (auto simp: OperatorCancel_def numeral_3_eq_3 watched_def live_def stop_streams_def
      split: prod.splits option.splits kube_error.splits)

text \<open>
  A restart fails the row of a build that still runs in the cluster; its exporter is then refused,
  whatever it presents.
\<close>

lemma restart_fails_running_build:
  assumes "ah_store h = Some (mem_engine ar_id artifact_clash)"
    and "aw_rows w = snd (ReconcileOrphanedArtifacts (mem_engine ar_id artifact_clash) [sample_artifact\<lparr>ar_upload_token := tok\<rparr>])"
  shows "snd (Upload h ''a1'' file auth io w) = w"
proof -
  have "\<exists>rec. ArtifactGetByID (mem_engine ar_id artifact_clash) ''a1'' (aw_rows w) = Inr rec \<and> ar_phase rec = ArtifactError"
    unfolding assms(2)
    by (simp add: ReconcileOrphanedArtifacts_def ArtifactList_def ArtifactUpdate_def ArtifactGetByID_def db_find_def db_first_def db_updates_def
        sample_artifact_def unique_rows_def update_rows_def)
  then show ?thesis using assms(1) by (auto simp: Upload_def split: option.splits)
qed

text \<open>The MAAS output is neither translated nor refused.\<close>

lemma maas_output_is_dropped:
  "translateBuildOptions i (opts\<lparr>bo_outputs := (bo_outputs opts)\<lparr>ou_maas := m\<rparr>\<rparr>) = translateBuildOptions i opts"
proof -
  let ?opts = "opts\<lparr>bo_outputs := (bo_outputs opts)\<lparr>ou_maas := m\<rparr>\<rparr>"
  have "pre_built ?opts = pre_built opts" "want_fips ?opts = want_fips opts" "want_trusted_boot ?opts = want_trusted_boot opts"
    "isHadronBuild ?opts = isHadronBuild opts" "base_ref ?opts = base_ref opts" "kairos_version ?opts = kairos_version opts"
    "outputs_of_build i ?opts = outputs_of_build i opts"
    by (simp_all add: pre_built_def base_ref_def kairos_version_def want_fips_def want_trusted_boot_def isHadronBuild_def
        outputs_of_build_def Let_def)
  then show ?thesis by (simp add: translateBuildOptions_def image_of_build_def kairos_init_options_def)
qed

text \<open>With a Dockerfile of its own a build loses the FIPS and trusted-boot flags.\<close>

lemma dockerfile_drops_flags:
  assumes "re_dockerfile (bo_recipe opts) \<noteq> []" and "re_hadron_base (bo_recipe opts) = []" and "so_arch (bo_source opts) = []"
  shows "\<exists>spec. translateBuildOptions i opts = Inr spec \<and> is_build (sp_image spec) = None"
  using assms by (simp add: translateBuildOptions_def pre_built_def image_of_build_def isHadronBuild_def)

text \<open>The kairos-init image and the Hadron base reach the resource.\<close>

lemma init_image_is_used:
  "translateBuildOptions i opts = Inr spec \<Longrightarrow> re_init_image (bo_recipe opts) \<noteq> [] \<Longrightarrow> re_dockerfile (bo_recipe opts) = [] \<Longrightarrow>
     \<exists>kb. is_build (sp_image spec) = Some kb \<and> kb_init_image kb = re_init_image (bo_recipe opts)"
  by (auto simp: translateBuildOptions_def pre_built_def image_of_build_def isHadronBuild_def kairos_init_options_def split: if_splits)

lemma hadron_base_is_built:
  "translateBuildOptions i opts = Inr spec \<Longrightarrow> isHadronBuild opts \<Longrightarrow>
     \<exists>kb. is_build (sp_image spec) = Some kb \<and> kb_base_image kb = re_hadron_base (bo_recipe opts)"
  by (auto simp: translateBuildOptions_def pre_built_def image_of_build_def isHadronBuild_def kairos_init_options_def split: if_splits)

end
