(* ===== verification/Operator_Logs.thy ===== *)
theory Operator_Logs
  imports Operator_Builder Text_Lines
begin

text \<open>
  The log streamer of the operator backend (\<^verbatim>\<open>internal/builder/operator/logstream.go\<close>): it finds
  the pods of a build, waits for each container to start, follows its log and writes it line by
  line to the artifact row and the UI clients. What the cluster answers at each attempt is
  the parameter \<open>pod_world\<close>, indexed by the number of waits so far; so is the cancellation of the context.
\<close>

section \<open>Pods\<close>

datatype container_state = ContainerWaiting | ContainerRunning | ContainerTerminated

record pod_status =
  ps_inits :: "(string \<times> container_state) list"
  ps_mains :: "(string \<times> container_state) list"

record pod =
  pd_uid :: string
  pd_name :: string
  pd_inits :: "string list"
  pd_mains :: "string list"

text \<open>
  What a followed log delivers: its bytes until it ends, the error it ends with, and the lines
  before which the context was found cancelled.
\<close>

record log_stream =
  ls_data :: string
  ls_error :: "string option"
  ls_dead :: "nat \<Rightarrow> bool"

record pod_world =
  pw_dead :: "nat \<Rightarrow> bool"
  pw_get :: "string \<Rightarrow> nat \<Rightarrow> kube_error + pod_status"
  pw_open :: "string \<Rightarrow> string \<Rightarrow> nat \<Rightarrow> string + log_stream"

datatype stream_error =
    StreamCanceled
  | PodGone string
  | NeverLeftWaiting string
  | NeverReady string string
  | OpenFailed string
  | TooLong
  | ReadFailed string

text \<open>The direct pods of a build, then those of its jobs.\<close>

fun job_pods :: "(string \<Rightarrow> string + pod list) \<Rightarrow> string list \<Rightarrow> string + pod list" where
  "job_pods pods [] = Inr []"
| "job_pods pods (j # js) =
     (case pods (''job-name='' @ j) of
        Inl e \<Rightarrow> Inl e
      | Inr ps \<Rightarrow> map_sum id (\<lambda>rest. ps @ rest) (job_pods pods js))"

definition ListPods :: "(string \<Rightarrow> string + pod list) \<Rightarrow> (string \<Rightarrow> string + string list) \<Rightarrow> string \<Rightarrow> string + pod list" where
  "ListPods pods jobs buildID =
     (let selector = ''build.kairos.io/artifact'' @ ''='' @ buildID in
      case pods selector of
        Inl e \<Rightarrow> Inl e
      | Inr direct \<Rightarrow>
          (case jobs selector of
             Inl e \<Rightarrow> Inl e
           | Inr js \<Rightarrow> map_sum id (\<lambda>rest. direct @ rest) (job_pods pods js)))"

section \<open>One container\<close>

definition started_in :: "(string \<times> container_state) list \<Rightarrow> string \<Rightarrow> bool" where
  "started_in statuses name = (case map_of statuses name of Some st \<Rightarrow> st \<noteq> ContainerWaiting | None \<Rightarrow> False)"

definition containerHasStarted :: "pod_status \<Rightarrow> string \<Rightarrow> bool" where
  "containerHasStarted st name = (started_in (ps_inits st) name \<or> started_in (ps_mains st) name)"

definition isContainerNotReadyErr :: "string \<Rightarrow> bool" where
  "isContainerNotReadyErr msg =
     (Contains msg ''waiting to start'' \<or> Contains msg ''ContainerCreating'' \<or> Contains msg ''PodInitializing'')"

text \<open>The polls that are left, and the waits so far; the wait after a poll may find the context done.\<close>

fun waitContainerLeftWaiting :: "pod_world \<Rightarrow> string \<Rightarrow> string \<Rightarrow> nat \<Rightarrow> nat \<Rightarrow> stream_error option \<times> nat" where
  "waitContainerLeftWaiting pw podName c 0 t = (Some (NeverLeftWaiting c), t)"
| "waitContainerLeftWaiting pw podName c (Suc n) t =
     (if pw_dead pw t then (Some StreamCanceled, t)
      else case pw_get pw podName t of
        Inl (KubeNotFound e) \<Rightarrow> (Some (PodGone e), t)
      | Inr st \<Rightarrow>
          (if containerHasStarted st c then (None, t)
           else if pw_dead pw (t + 1) then (Some StreamCanceled, t + 1)
           else waitContainerLeftWaiting pw podName c n (t + 1))
      | Inl (KubeFailed _) \<Rightarrow>
          (if pw_dead pw (t + 1) then (Some StreamCanceled, t + 1)
           else waitContainerLeftWaiting pw podName c n (t + 1)))"

text \<open>\<open>n\<close> retries are left.\<close>

fun open_log :: "pod_world \<Rightarrow> string \<Rightarrow> string \<Rightarrow> nat \<Rightarrow> nat \<Rightarrow> (stream_error + log_stream) \<times> nat" where
  "open_log pw podName c n t =
     (if pw_dead pw t then (Inl StreamCanceled, t)
      else case pw_open pw podName c t of
        Inr stream \<Rightarrow> (Inr stream, t)
      | Inl msg \<Rightarrow>
          (if \<not> isContainerNotReadyErr msg then (Inl (OpenFailed msg), t)
           else case n of
             0 \<Rightarrow> (Inl (NeverReady c msg), t)
           | Suc n' \<Rightarrow>
               (if pw_dead pw (t + 1) then (Inl StreamCanceled, t + 1) else open_log pw podName c n' (t + 1))))"

text \<open>
  \<^verbatim>\<open>bufio.Scanner\<close>: lines end with a newline, a carriage return before it is dropped, the
  last line need not be ended; a line that does not fit the buffer is the end.
\<close>

abbreviation scanLineBufferMax :: int where "scanLineBufferMax \<equiv> 1048576"

definition drop_cr :: "string \<Rightarrow> string" where
  "drop_cr l = (if l \<noteq> [] \<and> last l = CHR 0x0D then butlast l else l)"

definition fits :: "string \<Rightarrow> bool" where
  "fits l = (int (length l) < scanLineBufferMax)"

definition scanned :: "string \<Rightarrow> string list" where
  "scanned s = map drop_cr (takeWhile fits (raw_lines s))"

text \<open>The lines handed to the sink, and the error of \<^verbatim>\<open>scanLines\<close>; a cancelled read is none.\<close>

fun until_dead :: "(nat \<Rightarrow> bool) \<Rightarrow> nat \<Rightarrow> string list \<Rightarrow> string list \<times> bool" where
  "until_dead dead k [] = ([], False)"
| "until_dead dead k (l # ls) =
     (if dead k then ([], True) else let (ls', d) = until_dead dead (k + 1) ls in (l # ls', d))"

definition scanLines :: "log_stream \<Rightarrow> string list \<times> stream_error option" where
  "scanLines stream =
     (let (ls, d) = until_dead (ls_dead stream) 0 (scanned (ls_data stream)) in
      (ls, if d then Some StreamCanceled
           else if \<not> list_all fits (raw_lines (ls_data stream)) then Some TooLong
           else map_option ReadFailed (ls_error stream)))"

definition streamContainer :: "pod_world \<Rightarrow> string \<Rightarrow> nat \<Rightarrow> string \<Rightarrow> nat \<Rightarrow> string list \<times> stream_error option \<times> nat" where
  "streamContainer pw podName maxRetries c t =
     (case waitContainerLeftWaiting pw podName c (maxRetries + 1) t of
        (Some e, t1) \<Rightarrow> ([], Some e, t1)
      | (None, t1) \<Rightarrow>
          (case open_log pw podName c maxRetries t1 of
             (Inl e, t2) \<Rightarrow> ([], Some e, t2)
           | (Inr stream, t2) \<Rightarrow> (let (ls, e) = scanLines stream in (ls, e, t2))))"

section \<open>All containers and pods\<close>

text \<open>Init containers in turn.\<close>

fun stream_inits :: "pod_world \<Rightarrow> string \<Rightarrow> nat \<Rightarrow> string list \<Rightarrow> nat \<Rightarrow> (string \<times> string) list \<times> stream_error option \<times> nat" where
  "stream_inits pw podName maxRetries [] t = ([], None, t)"
| "stream_inits pw podName maxRetries (c # cs) t =
     (if pw_dead pw t then ([], Some StreamCanceled, t)
      else case streamContainer pw podName maxRetries c t of
        (ls, Some e, t1) \<Rightarrow> (map (Pair c) ls, Some e, t1)
      | (ls, None, t1) \<Rightarrow> (let (rest, e, t2) = stream_inits pw podName maxRetries cs t1 in (map (Pair c) ls @ rest, e, t2)))"

text \<open>
  The main containers run side by side: the sink gets some interleaving of their lines, and
  the errors arrive in some order, of which \<open>arrivals\<close> is the one of this run.
\<close>

definition main_outputs :: "pod_world \<Rightarrow> pod \<Rightarrow> nat \<Rightarrow> nat \<Rightarrow> (string list \<times> stream_error option \<times> nat) list" where
  "main_outputs pw p maxRetries t = map (\<lambda>c. streamContainer pw (pd_name p) maxRetries c t) (pd_mains p)"

fun interleaved :: "'a list list \<Rightarrow> 'a list set" where
  "interleaved [] = {[]}"
| "interleaved (l # ls) = (\<Union>m \<in> interleaved ls. shuffles l m)"

definition streamAll :: "pod_world \<Rightarrow> pod \<Rightarrow> nat \<Rightarrow> nat \<Rightarrow> stream_error list \<Rightarrow> (string \<times> string) list \<Rightarrow> stream_error option \<Rightarrow> bool" where
  "streamAll pw p maxRetries t arrivals ls err \<longleftrightarrow>
     (case stream_inits pw (pd_name p) maxRetries (pd_inits p) t of
        (inits, Some e, _) \<Rightarrow> ls = inits \<and> err = Some e
      | (inits, None, t1) \<Rightarrow>
          (let outs = main_outputs pw p maxRetries t1 in
           mset arrivals = mset (List.map_filter (\<lambda>(_, e, _). e) outs) \<and>
           (\<exists>m \<in> interleaved (map2 (\<lambda>c (xs, _, _). map (Pair c) xs) (pd_mains p) outs). ls = inits @ m) \<and>
           err = find (\<lambda>e. e \<noteq> StreamCanceled) arrivals))"

text \<open>The pods that are started over the polls: each UID once.\<close>

fun start_new :: "string list \<Rightarrow> pod list \<Rightarrow> pod list \<times> string list" where
  "start_new seen [] = ([], seen)"
| "start_new seen (p # ps) =
     (if pd_uid p \<in> set seen then start_new seen ps
      else let (new, seen') = start_new (pd_uid p # seen) ps in (p # new, seen'))"

fun streamAllArtifactPods :: "string list \<Rightarrow> (string + pod list) list \<Rightarrow> pod list" where
  "streamAllArtifactPods seen [] = []"
| "streamAllArtifactPods seen (Inl _ # polls) = streamAllArtifactPods seen polls"
| "streamAllArtifactPods seen (Inr pods # polls) =
     (let (new, seen') = start_new seen pods in new @ streamAllArtifactPods seen' polls)"

section \<open>The sink\<close>






section \<open>Lines and attempts\<close>

text \<open>The waits of one container are bounded.\<close>

lemma wait_bounded: "waitContainerLeftWaiting pw p c n t = (r, t') \<Longrightarrow> t \<le> t' \<and> t' \<le> t + n"
  by (induction pw p c n t rule: waitContainerLeftWaiting.induct)
    (fastforce split: if_splits sum.splits kube_error.splits)+

lemma open_bounded: "open_log pw p c n t = (r, t') \<Longrightarrow> t \<le> t' \<and> t' \<le> t + n"
proof (induction n arbitrary: t)
  case 0
  then show ?case by (auto split: if_splits sum.splits)
next
  case (Suc n)
  show ?case using Suc.prems Suc.IH [of "t + 1"] by (auto split: if_splits sum.splits)
qed

lemma stream_bounded: "streamContainer pw p m c t = (ls, e, t') \<Longrightarrow> t \<le> t' \<and> t' \<le> t + (2 * m + 1)"
proof -
  assume s: "streamContainer pw p m c t = (ls, e, t')"
  obtain r t1 where w: "waitContainerLeftWaiting pw p c (m + 1) t = (r, t1)" by fastforce
  obtain q t2 where o': "open_log pw p c m t1 = (q, t2)" by fastforce
  have "t' = t1 \<or> t' = t2" using s w o' by (auto simp: streamContainer_def split: option.splits sum.splits prod.splits)
  then show ?thesis using wait_bounded [OF w] open_bounded [OF o'] by auto
qed

text \<open>Every pod that is listed is started, and none twice.\<close>

lemma start_new_facts:
  "start_new seen ps = (new, seen') \<Longrightarrow> set seen' = set seen \<union> pd_uid ` set ps \<and> pd_uid ` set new = pd_uid ` set ps - set seen \<and>
     distinct (map pd_uid new)"
proof (induction ps arbitrary: seen new seen')
  case (Cons p ps)
  show ?case
  proof (cases "pd_uid p \<in> set seen")
    case True
    then show ?thesis using Cons.IH [of seen new seen'] Cons.prems by auto
  next
    case False
    obtain new1 seen1 where n: "start_new (pd_uid p # seen) ps = (new1, seen1)" by fastforce
    then have "new = p # new1" "seen' = seen1" using Cons.prems False by auto
    then show ?thesis using Cons.IH [OF n] False by auto
  qed
qed simp

lemma pods_streamed_once:
  "distinct (map pd_uid (streamAllArtifactPods seen polls)) \<and>
   pd_uid ` set (streamAllArtifactPods seen polls) = (\<Union>poll \<in> set polls. case poll of Inl _ \<Rightarrow> {} | Inr ps \<Rightarrow> pd_uid ` set ps) - set seen"
proof (induction polls arbitrary: seen)
  case (Cons poll polls)
  show ?case
  proof (cases poll)
    case (Inl e)
    then show ?thesis using Cons.IH by simp
  next
    case (Inr ps)
    obtain new seen' where n: "start_new seen ps = (new, seen')" by fastforce
    define P where "P = pd_uid ` set ps"
    define U where "U = (\<Union>poll \<in> set polls. case poll of Inl _ \<Rightarrow> {} | Inr ps \<Rightarrow> pd_uid ` set ps)"
    let ?rest = "streamAllArtifactPods seen' polls"
    have f: "set seen' = set seen \<union> P" "pd_uid ` set new = P - set seen" "distinct (map pd_uid new)"
      using start_new_facts [OF n] by (simp_all add: P_def)
    have ih: "distinct (map pd_uid ?rest)" "pd_uid ` set ?rest = U - set seen'" using Cons.IH [of seen'] by (simp_all add: U_def)
    have all: "streamAllArtifactPods seen (poll # polls) = new @ ?rest" using n Inr by simp
    have disjoint: "(P - set seen) \<inter> (U - (set seen \<union> P)) = {}" by blast
    have "distinct (map pd_uid (new @ ?rest))"
      unfolding map_append distinct_append set_map f(1,2) ih(2) using f(3) ih(1) disjoint by blast
    moreover have "(\<Union>poll \<in> set (poll # polls). case poll of Inl _ \<Rightarrow> {} | Inr ps \<Rightarrow> pd_uid ` set ps) = P \<union> U"
      by (simp add: Inr P_def U_def)
    moreover have "pd_uid ` set (new @ ?rest) = (P \<union> U) - set seen"
      unfolding set_append image_Un f(1,2) ih(2) by blast
    ultimately show ?thesis unfolding all by simp
  qed
qed simp

section \<open>Properties\<close>





end
