(* ===== verification/Spec2Isabelle.thy ===== *)
theory Spec2Isabelle
  imports Deploy_Outcomes Agent_Socket Artifact_Handlers Bmc_Handlers Settings_Handlers Redfish_Probe Key_Sets Operator_Outcomes Operator_Logs
begin

text \<open>
  A verification development for AuroraBoot, the server and tool that builds, serves and deploys
  Kairos images.

  \<^bold>\<open>The program.\<close> A server keeps a fleet of nodes in an SQL database. Nodes register, poll for
  commands over HTTP or hold a WebSocket, and report their status; an administrator groups them,
  claims them, queues commands, builds images and deploys an image to a machine through its
  Redfish BMC. The same deploy exists as a command line. The development has one theory per part,
  in the order in which the parts build on each other.

  \<^bold>\<open>Foundations.\<close> \<open>Aurora_Prelude\<close> has Go's string functions and table lemmas, \<open>Go_Paths\<close> the
  functions of \<^verbatim>\<open>path/filepath\<close>, \<open>File_Tree\<close> directories and files with the calls of \<^verbatim>\<open>os\<close>.
  \<open>Gorm_Engine\<close> states as locales what the code relies on of the database: \<open>sql_engine\<close> (statements
  may fail, and then change nothing or what they say) and \<open>reliable_engine\<close>; \<open>Keyed_Table\<close> adds
  \<open>keyed_engine\<close>, where the tables are maps from keys to rows. The locales are interpreted on an
  executable in-memory engine, over which the witnesses evaluate.

  \<^bold>\<open>Stores\<close> (\<^verbatim>\<open>internal/store/gorm/store.go\<close>, records from \<^verbatim>\<open>pkg/store/store.go\<close>): \<open>Command_Store\<close>,
  \<open>Node_Store\<close>, \<open>Artifact_Store\<close> and \<open>Deployment_Store\<close>; \<open>Secrets\<close> is the cipher of
  \<^verbatim>\<open>internal/secrets\<close>. A table is a list of records, an operation takes the table and returns its
  result with the new table. \<open>Store_Model\<close> has the runs of operations in any order, over which the
  invariants are proved: a command is delivered once, a node is claimed once, an eject is claimed
  once, a log is only appended to.

  \<^bold>\<open>The fleet API\<close> (\<^verbatim>\<open>pkg/auth\<close>, \<^verbatim>\<open>pkg/handlers\<close>, \<^verbatim>\<open>pkg/ws\<close>): \<open>Server_State\<close> (requests, responses,
  middleware), \<open>Fleet_Handlers\<close> (nodes, groups, commands and the routes), \<open>Ws_Hub\<close> and
  \<open>Agent_Socket\<close>. \<open>Settings_Handlers\<close> has the registration token and the image source.

  \<^bold>\<open>Redfish\<close> (\<^verbatim>\<open>pkg/redfish\<close>, \<^verbatim>\<open>pkg/hardware\<close>): \<open>Redfish_Quirks\<close> and \<open>Redfish_Registry\<close> (vendor hooks,
  operator profiles and their tiers), \<open>Redfish_Errors\<close>, \<open>Redfish_Transport\<close> (redirects, capped
  bodies), \<open>Redfish_Deployer\<close> (connect, deploy, finalize), \<open>Hardware_Gate\<close>. A BMC has a state of an
  arbitrary type and answers every request as it likes; a computation is a function of the run,
  whose events record the requests sent, and the lemmas bound the events (\<open>performs\<close>).

  \<^bold>\<open>Deployments\<close>: \<open>Iso_Serve\<close> (\<^verbatim>\<open>pkg/isoserve\<close>), \<open>Deploy_Lifecycle\<close> and \<open>Deploy_Outcomes\<close> (the background
  deploy, the eject state machine, \<^verbatim>\<open>pkg/handlers/finalize.go\<close>), \<open>Netboot_Manager\<close>
  (\<^verbatim>\<open>internal/netbootmgr\<close>), \<open>Deploy_Handlers\<close> and \<open>Bmc_Handlers\<close> (\<^verbatim>\<open>pkg/handlers/deploy.go\<close>,
  \<^verbatim>\<open>bmc_status.go\<close>), \<open>Redfish_Cli\<close> (\<^verbatim>\<open>internal/cmd/redfish.go\<close>) and \<open>Redfish_Probe\<close>
  (\<^verbatim>\<open>redfish_probe.go\<close>, \<^verbatim>\<open>pkg/redfish/probe.go\<close>), with \<open>Text_Lines\<close> for the lines of a text.

  \<^bold>\<open>Builds\<close>: \<open>Cloud_Config\<close> and \<open>Overlay_Archive\<close> (\<^verbatim>\<open>pkg/handlers/artifacts.go\<close>), \<open>Build_Log\<close>,
  \<open>Local_Builder\<close> (\<^verbatim>\<open>internal/builder/auroraboot\<close>) and \<open>Artifact_Handlers\<close>, whose contract for a
  backend is the locale \<open>artifact_backend\<close>. The second backend (\<^verbatim>\<open>internal/builder/operator\<close>) is
  \<open>Operator_Translate\<close> (the resource and Secrets of a build), \<open>Operator_Builder\<close> (submission,
  cancellation and the watcher; the API server is the locale \<open>kube_server\<close>), \<open>Operator_Outcomes\<close>
  (what holds over their interleavings) and \<open>Operator_Logs\<close> (the log streamer). \<open>Key_Generation\<close>
  (\<^verbatim>\<open>pkg/secureboot\<close>) and \<open>Key_Sets\<close> (\<^verbatim>\<open>pkg/handlers/secureboot.go\<close>) have the SecureBoot keys.

  \<^bold>\<open>Bounds and fuel.\<close> Polling loops take a number of turns; a computation that runs out of them ends
  in \<open>CutOff\<close>, which no claim counts as an answer, and the claims that a flow returns show that as
  many turns as the context allows waits are enough. The reading of a body takes as many reads
  as its cap has bytes and one more. A build has nine steps, and nine given to its goroutine are
  enough to end it. Once a resource is finished its watcher needs seven steps; the log streamer
  waits at most twice the retries for a container, and once more.

  \<^bold>\<open>Parameters.\<close> The SQL engine, the AEAD, random tokens and clocks, YAML and JSON codecs, tar and
  gzip readers, \<^verbatim>\<open>net/http\<close> and DNS, docker, the Kubernetes API server, the deployer library, the UKI builder,
  \<^verbatim>\<open>openssl\<close> and the EFI libraries are arguments of the definitions; what a claim needs of them is a
  hypothesis of its statement, and its witness instantiates it.

  \<^bold>\<open>Not modelled.\<close> Command line parsing and the wiring of the server, the generated OpenAPI document
  (\<^verbatim>\<open>docs/docs.go\<close>), the published client, and the parts that are sequences of
  calls of external tools and libraries (\<^verbatim>\<open>pkg/ops\<close>, \<^verbatim>\<open>pkg/uki\<close>, \<^verbatim>\<open>pkg/utils\<close>,
  \<^verbatim>\<open>pkg/netboot\<close>, \<^verbatim>\<open>deployer\<close>): what they do is what those tools do. Log lines and response
  headers are left out where nothing depends on them.
\<close>

end
